(* ===== verification/Prelude.thy ===== *)
theory Prelude
  imports Main "HOL-Library.AList"
begin

text \<open>
  Shared vocabulary of the development: Python values as the workflow engine handles them
  (decoded YAML and JSON), their truth value, dictionaries as association lists in insertion
  order, exceptions as values of a sum type, and the string operations of the standard
  library the sources call.  Strings are lists of characters with code points below 256;
  the operations that depend on a character class (\<open>isdigit\<close>, \<open>strip\<close>,
  \<open>lower\<close>) are the ASCII ones.
\<close>

section \<open>Exceptions and results\<close>

datatype exn_kind =
    EException | EValueError | EKeyError | EAttributeError | ETypeError | EIndexError
  | EIntegrityError | ESyntaxError | ERenderException | EStepError | EActionError
  | EProviderConfig | EHttp nat | EOther string

text \<open>\<open>e.__class__.__name__\<close>, and the classes below \<open>ValueError\<close> the code can meet.\<close>

fun kind_name :: "exn_kind \<Rightarrow> string" where
  "kind_name EException = ''Exception''"
| "kind_name EValueError = ''ValueError''"
| "kind_name EKeyError = ''KeyError''"
| "kind_name EAttributeError = ''AttributeError''"
| "kind_name ETypeError = ''TypeError''"
| "kind_name EIndexError = ''IndexError''"
| "kind_name EIntegrityError = ''IntegrityError''"
| "kind_name ESyntaxError = ''SyntaxError''"
| "kind_name ERenderException = ''RenderException''"
| "kind_name EStepError = ''StepError''"
| "kind_name EActionError = ''ActionError''"
| "kind_name EProviderConfig = ''ProviderConfigurationException''"
| "kind_name (EHttp n) = ''HTTPException''"
| "kind_name (EOther s) = s"

definition is_value_error :: "exn_kind \<Rightarrow> bool" where
  "is_value_error k \<longleftrightarrow> k = EValueError \<or> k = EOther ''JSONDecodeError''"

datatype exn = Exn (exn_kind: exn_kind) (exn_msg: string)

type_synonym 'a result = "exn + 'a"

definition rbind :: "'a result \<Rightarrow> ('a \<Rightarrow> 'b result) \<Rightarrow> 'b result" where
  "rbind m f = (case m of Inl e \<Rightarrow> Inl e | Inr x \<Rightarrow> f x)"

lemma rbind_simps [simp]:
  "rbind (Inl e) f = Inl e"
  "rbind (Inr x) f = f x"
  by (simp_all add: rbind_def)

lemma rbind_Inr_iff: "rbind m f = Inr y \<longleftrightarrow> (\<exists>x. m = Inr x \<and> f x = Inr y)"
  by (cases m) simp_all

lemma rbind_Inl_iff: "rbind m f = Inl e \<longleftrightarrow> m = Inl e \<or> (\<exists>x. m = Inr x \<and> f x = Inl e)"
  by (cases m) simp_all

text \<open>A loop that maps a fallible function over a list and stops at the first exception.\<close>

fun rmap :: "('a \<Rightarrow> 'b result) \<Rightarrow> 'a list \<Rightarrow> 'b list result" where
  "rmap f [] = Inr []"
| "rmap f (x # xs) = rbind (f x) (\<lambda>y. rbind (rmap f xs) (\<lambda>ys. Inr (y # ys)))"

lemma rmap_cong [fundef_cong]:
  "xs = ys \<Longrightarrow> (\<And>x. x \<in> set ys \<Longrightarrow> f x = g x) \<Longrightarrow> rmap f xs = rmap g ys"
  by (induction ys arbitrary: xs) simp_all

lemma rmap_Inr_length: "rmap f xs = Inr ys \<Longrightarrow> length ys = length xs"
  by (induction xs arbitrary: ys) (auto simp: rbind_Inr_iff)

lemma rmap_Inr_all2: "rmap f xs = Inr ys \<longleftrightarrow> list_all2 (\<lambda>x y. f x = Inr y) xs ys"
  by (induction xs arbitrary: ys) (auto simp: rbind_Inr_iff list_all2_Cons1)

section \<open>Searching lists\<close>

lemma find_in_set: "find P xs = Some x \<Longrightarrow> x \<in> set xs \<and> P x"
  by (auto simp: find_Some_iff)

lemma find_append: "find P (xs @ ys) = (case find P xs of None \<Rightarrow> find P ys | Some x \<Rightarrow> Some x)"
  by (induction xs) auto

text \<open>A row newer than all others comes first.\<close>

lemma sort_key_head:
  assumes "\<forall>x \<in> set xs. f y < f x"
  shows "\<exists>zs. sort_key f (xs @ [y]) = y # zs"
proof -
  obtain h zs where h: "sort_key f (xs @ [y]) = h # zs"
    by (cases "sort_key f (xs @ [y])") (auto simp flip: set_empty)
  have s: "sorted (map f (h # zs))" using sorted_sort_key [of f "xs @ [y]"] h by simp
  have "set (h # zs) = insert y (set xs)" using arg_cong [OF h, of set] by auto
  then have hy: "h = y \<or> h \<in> set xs" and "y = h \<or> y \<in> set zs" by auto
  moreover have "f h \<le> f y" using s \<open>y = h \<or> y \<in> set zs\<close> by auto
  ultimately have "h = y" using assms by (metis leD)
  with h show ?thesis by blast
qed

section \<open>Alert statuses\<close>

definition alert_statuses :: "string list" where
  "alert_statuses = [''firing'', ''resolved'', ''acknowledged'', ''suppressed'', ''pending'', ''maintenance'']"

section \<open>Python values\<close>

text \<open>Decoded YAML and JSON, and the one model object the engine puts between them:
  \<open>StepProviderParameter(key, safe, default)\<close> (\<open>src/step/step_provider_parameter.py\<close>).\<close>

datatype pyval =
    PNone | PBool bool | PInt int | PStr string
  | PList "pyval list" | PDict "(string \<times> pyval) list"
  | PParam string bool pyval

type_synonym pydict = "(string \<times> pyval) list"

fun truthy :: "pyval \<Rightarrow> bool" where
  "truthy PNone = False"
| "truthy (PBool b) = b"
| "truthy (PInt i) = (i \<noteq> 0)"
| "truthy (PStr s) = (s \<noteq> [])"
| "truthy (PList xs) = (xs \<noteq> [])"
| "truthy (PDict d) = (d \<noteq> [])"
| "truthy (PParam key safe dflt) = True"

text \<open>Dictionaries keep insertion order: an update of a present key keeps its place, a new
  key goes last, which is what \<open>AList.update\<close> does.\<close>

definition dget :: "(string \<times> 'v) list \<Rightarrow> string \<Rightarrow> 'v option" where
  "dget d k = map_of d k"

definition dset :: "string \<Rightarrow> 'v \<Rightarrow> (string \<times> 'v) list \<Rightarrow> (string \<times> 'v) list" where
  "dset k v d = AList.update k v d"

definition dpop :: "string \<Rightarrow> (string \<times> 'v) list \<Rightarrow> (string \<times> 'v) list" where
  "dpop k d = AList.delete k d"

fun dupdate :: "(string \<times> 'v) list \<Rightarrow> (string \<times> 'v) list \<Rightarrow> (string \<times> 'v) list" where
  "dupdate d [] = d"
| "dupdate d ((k, v) # kvs) = dupdate (dset k v d) kvs"

definition dict_get :: "pydict \<Rightarrow> string \<Rightarrow> pyval \<Rightarrow> pyval" where
  "dict_get d k dflt = (case dget d k of None \<Rightarrow> dflt | Some v \<Rightarrow> v)"

definition wf_dict :: "(string \<times> 'v) list \<Rightarrow> bool" where
  "wf_dict d \<longleftrightarrow> distinct (map fst d)"

text \<open>The contract a Python dictionary offers its clients, and the association list as its
  provider.\<close>

locale py_dict =
  fixes lookup :: "'d \<Rightarrow> string \<Rightarrow> 'v option"
    and store :: "string \<Rightarrow> 'v \<Rightarrow> 'd \<Rightarrow> 'd"
    and remove :: "string \<Rightarrow> 'd \<Rightarrow> 'd"
    and inv :: "'d \<Rightarrow> bool"
  assumes lookup_store: "lookup (store k v d) k' = (if k' = k then Some v else lookup d k')"
    and lookup_remove: "lookup (remove k d) k' = (if k' = k then None else lookup d k')"
    and inv_store: "inv d \<Longrightarrow> inv (store k v d)"
    and inv_remove: "inv d \<Longrightarrow> inv (remove k d)"
begin

lemma store_store: "lookup (store k w (store k v d)) k' = lookup (store k w d) k'"
  by (simp add: lookup_store)

lemma remove_store: "lookup (remove k (store k v d)) k' = lookup (remove k d) k'"
  by (simp add: lookup_remove lookup_store)

lemma lookup_stores:
  "lookup (fold (\<lambda>(k, v). store k v) kvs d) k' =
     (case map_of (rev kvs) k' of None \<Rightarrow> lookup d k' | Some v \<Rightarrow> Some v)"
  by (induction kvs arbitrary: d)
    (auto simp: lookup_store map_add_def split: option.splits)

lemma inv_stores: "inv d \<Longrightarrow> inv (fold (\<lambda>(k, v). store k v) kvs d)"
  by (induction kvs arbitrary: d) (auto simp: inv_store)

end

interpretation pd: py_dict dget dset dpop wf_dict
  by unfold_locales
    (auto simp: dget_def dset_def dpop_def wf_dict_def update_conv' delete_conv' distinct_update
      distinct_delete)

lemmas dget_dset [simp] = pd.lookup_store
lemmas dget_dpop [simp] = pd.lookup_remove
lemmas wf_dset [intro, simp] = pd.inv_store
lemmas wf_dpop [intro, simp] = pd.inv_remove

lemma dget_Nil [simp]: "dget [] k = None"
  by (simp add: dget_def)

lemma dget_Cons: "dget ((k', v) # d) k = (if k = k' then Some v else dget d k)"
  by (simp add: dget_def)

lemma dupdate_fold: "dupdate d kvs = fold (\<lambda>(k, v). dset k v) kvs d"
  by (induction d kvs rule: dupdate.induct) simp_all

lemma dget_dupdate:
  "dget (dupdate d kvs) k = (case map_of (rev kvs) k of None \<Rightarrow> dget d k | Some v \<Rightarrow> Some v)"
  by (simp add: dupdate_fold pd.lookup_stores)

lemma wf_dupdate [intro, simp]: "wf_dict d \<Longrightarrow> wf_dict (dupdate d kvs)"
  by (simp add: dupdate_fold pd.inv_stores)

lemma map_of_rev_wf: "wf_dict d \<Longrightarrow> map_of (rev d) k = map_of d k"
proof (cases "map_of d k")
  case None
  then have "map_of (rev d) k = None" by (simp add: map_of_eq_None_iff)
  with None show ?thesis by simp
next
  case (Some v)
  moreover assume "wf_dict d"
  ultimately have "map_of (rev d) k = Some v"
    by (simp add: wf_dict_def map_of_eq_Some_iff rev_map [symmetric])
  with Some show ?thesis by simp
qed

lemma dget_dupdate_wf:
  "wf_dict e \<Longrightarrow> dget (dupdate d e) k = (case dget e k of None \<Rightarrow> dget d k | Some v \<Rightarrow> Some v)"
  by (simp add: dget_dupdate map_of_rev_wf) (simp add: dget_def)

lemma dget_in_set: "dget d k = Some v \<Longrightarrow> (k, v) \<in> set d"
  by (simp add: dget_def map_of_SomeD)

lemma dget_None_iff: "dget d k = None \<longleftrightarrow> k \<notin> fst ` set d"
  by (simp add: dget_def map_of_eq_None_iff)

end
