(* ===== verification/PyStrings.thy ===== *)
theory PyStrings
  imports Prelude
begin

text \<open>
  The string methods of Python the sources rely on, for ASCII text: prefix and suffix tests,
  \<open>find\<close>, \<open>split\<close>, \<open>replace\<close>, \<open>join\<close>, \<open>strip\<close>,
  \<open>isdigit\<close>, case mapping, and the conversions \<open>int(s)\<close> and \<open>str(i)\<close>, UUIDs and time stamps.
\<close>

section \<open>Prefixes, search, split and join\<close>

definition starts_with :: "string \<Rightarrow> string \<Rightarrow> bool" where
  "starts_with p s \<longleftrightarrow> take (length p) s = p"

definition ends_with :: "string \<Rightarrow> string \<Rightarrow> bool" where
  "ends_with p s \<longleftrightarrow> starts_with (rev p) (rev s)"

text \<open>\<open>s.find(sub)\<close> on a suffix: the first index at which \<open>sub\<close> occurs.\<close>

fun find_sub :: "string \<Rightarrow> string \<Rightarrow> nat option" where
  "find_sub p [] = (if p = [] then Some 0 else None)"
| "find_sub p (c # cs) =
     (if starts_with p (c # cs) then Some 0 else map_option Suc (find_sub p cs))"

definition contains_sub :: "string \<Rightarrow> string \<Rightarrow> bool" where
  "contains_sub p s \<longleftrightarrow> find_sub p s \<noteq> None"

text \<open>\<open>s.split(sep)\<close> for a non-empty separator: a left-to-right scan that skips the
  rest of a separator once its first character is reached.\<close>

fun split_scan :: "string \<Rightarrow> string \<Rightarrow> nat \<Rightarrow> string \<Rightarrow> string list" where
  "split_scan sep cur k [] = [rev cur]"
| "split_scan sep cur (Suc k) (c # cs) = split_scan sep cur k cs"
| "split_scan sep cur 0 (c # cs) =
     (if starts_with sep (c # cs) then rev cur # split_scan sep [] (length sep - 1) cs
      else split_scan sep (c # cur) 0 cs)"

definition py_split :: "string \<Rightarrow> string \<Rightarrow> string list" where
  "py_split sep s = split_scan sep [] 0 s"

fun py_join :: "string \<Rightarrow> string list \<Rightarrow> string" where
  "py_join sep [] = []"
| "py_join sep [x] = x"
| "py_join sep (x # y # ys) = x @ sep @ py_join sep (y # ys)"

text \<open>\<open>s.replace(old, new)\<close> for a non-empty \<open>old\<close>: occurrences are found from
  the left and do not overlap, as in \<open>split\<close>.\<close>

definition py_replace :: "string \<Rightarrow> string \<Rightarrow> string \<Rightarrow> string" where
  "py_replace old new s = py_join new (py_split old s)"

definition count_sub :: "string \<Rightarrow> string \<Rightarrow> nat" where
  "count_sub sub s = length (py_split sub s) - 1"

lemma split_scan_nonempty [simp]: "split_scan sep cur k s \<noteq> []"
  by (induction sep cur k s rule: split_scan.induct) auto

lemma py_split_nonempty [simp]: "py_split sep s \<noteq> []"
  by (simp add: py_split_def)

lemma py_join_Cons: "xs \<noteq> [] \<Longrightarrow> py_join sep (x # xs) = x @ sep @ py_join sep xs"
  by (cases xs) simp_all

lemma starts_with_append: "starts_with p s \<longleftrightarrow> (\<exists>r. s = p @ r)"
  by (auto simp: starts_with_def) (metis append_take_drop_id)

lemma join_split_scan:
  "k \<le> length s \<Longrightarrow> sep \<noteq> [] \<Longrightarrow>
     py_join sep (split_scan sep cur k s) = rev cur @ drop k s"
proof (induction sep cur k s rule: split_scan.induct)
  case (3 sep cur c cs)
  show ?case
  proof (cases "starts_with sep (c # cs)")
    case True
    then obtain r where r: "c # cs = sep @ r" by (auto simp: starts_with_append)
    have len: "length sep - 1 \<le> length cs"
      using arg_cong [OF r, of length] "3.prems" by (cases sep) auto
    have "drop (length sep - 1) cs = r"
      using r "3.prems" by (cases sep) auto
    have "split_scan sep cur 0 (c # cs) = rev cur # split_scan sep [] (length sep - 1) cs"
      using True by simp
    with 3(1) [OF True len] "3.prems" r \<open>drop (length sep - 1) cs = r\<close> show ?thesis
      by (simp add: py_join_Cons del: split_scan.simps)
  next
    case False
    with 3 show ?thesis by simp
  qed
qed auto

text \<open>Splitting and joining by the same separator is the identity.\<close>

lemma join_split: "sep \<noteq> [] \<Longrightarrow> py_join sep (py_split sep s) = s"
  by (simp add: py_split_def join_split_scan)

lemma replace_same: "old \<noteq> [] \<Longrightarrow> py_replace old old s = s"
  by (simp add: py_replace_def join_split)

section \<open>Character classes, strip and case\<close>

definition is_digit :: "char \<Rightarrow> bool" where
  "is_digit c \<longleftrightarrow> 48 \<le> (of_char c :: nat) \<and> (of_char c :: nat) \<le> 57"

definition is_upper :: "char \<Rightarrow> bool" where
  "is_upper c \<longleftrightarrow> 65 \<le> (of_char c :: nat) \<and> (of_char c :: nat) \<le> 90"

definition is_lower :: "char \<Rightarrow> bool" where
  "is_lower c \<longleftrightarrow> 97 \<le> (of_char c :: nat) \<and> (of_char c :: nat) \<le> 122"

definition is_alnum :: "char \<Rightarrow> bool" where
  "is_alnum c \<longleftrightarrow> is_digit c \<or> is_upper c \<or> is_lower c"

definition is_space :: "char \<Rightarrow> bool" where
  "is_space c \<longleftrightarrow> (of_char c :: nat) \<in> {9, 10, 11, 12, 13, 28, 29, 30, 31, 32}"

definition to_upper :: "char \<Rightarrow> char" where
  "to_upper c = (if is_lower c then char_of ((of_char c :: nat) - 32) else c)"

definition to_lower :: "char \<Rightarrow> char" where
  "to_lower c = (if is_upper c then char_of ((of_char c :: nat) + 32) else c)"

definition py_lower :: "string \<Rightarrow> string" where "py_lower s = map to_lower s"
definition py_upper :: "string \<Rightarrow> string" where "py_upper s = map to_upper s"

definition py_isdigit :: "string \<Rightarrow> bool" where
  "py_isdigit s \<longleftrightarrow> s \<noteq> [] \<and> list_all is_digit s"

definition lstrip_by :: "(char \<Rightarrow> bool) \<Rightarrow> string \<Rightarrow> string" where
  "lstrip_by P s = dropWhile P s"

definition rstrip_by :: "(char \<Rightarrow> bool) \<Rightarrow> string \<Rightarrow> string" where
  "rstrip_by P s = rev (dropWhile P (rev s))"

definition py_strip :: "string \<Rightarrow> string" where
  "py_strip s = rstrip_by is_space (lstrip_by is_space s)"

lemma is_lower_to_lower: "\<not> is_upper (to_lower c)"
  by (auto simp: to_lower_def is_upper_def)

lemma to_lower_idem: "to_lower (to_lower c) = to_lower c"
  using is_lower_to_lower [of c] by (simp add: to_lower_def [of "to_lower c"])

lemma py_lower_idem [simp]: "py_lower (py_lower s) = py_lower s"
  by (simp add: py_lower_def to_lower_idem)

section \<open>Numbers and strings\<close>

definition digit_char :: "nat \<Rightarrow> char" where
  "digit_char n = char_of (48 + n)"

definition digit_val :: "char \<Rightarrow> nat" where
  "digit_val c = (of_char c :: nat) - 48"

fun show_nat :: "nat \<Rightarrow> string" where
  "show_nat n = (if n < 10 then [digit_char n] else show_nat (n div 10) @ [digit_char (n mod 10)])"

declare show_nat.simps [simp del]

text \<open>\<open>str(i)\<close> of an integer.\<close>

definition show_int :: "int \<Rightarrow> string" where
  "show_int i = (if i < 0 then CHR ''-'' # show_nat (nat (- i)) else show_nat (nat i))"

definition read_nat :: "string \<Rightarrow> nat" where
  "read_nat s = foldl (\<lambda>n c. 10 * n + digit_val c) 0 s"

text \<open>The digits of \<open>int(s)\<close>: single underscores may separate digits.\<close>

fun digits_only :: "bool \<Rightarrow> string \<Rightarrow> string option" where
  "digits_only after_digit [] = (if after_digit then Some [] else None)"
| "digits_only after_digit (c # cs) =
     (if is_digit c then map_option ((#) c) (digits_only True cs)
      else if c = CHR ''_'' \<and> after_digit then digits_only False cs
      else None)"

text \<open>\<open>int(s)\<close>: surrounding white space, an optional sign, then digits;
  \<open>None\<close> where Python raises \<open>ValueError\<close>.\<close>

definition py_int :: "string \<Rightarrow> int option" where
  "py_int s =
     (case py_strip s of
        [] \<Rightarrow> None
      | c # cs \<Rightarrow>
          if c = CHR ''-'' then map_option (\<lambda>ds. - int (read_nat ds)) (digits_only False cs)
          else if c = CHR ''+'' then map_option (\<lambda>ds. int (read_nat ds)) (digits_only False cs)
          else map_option (\<lambda>ds. int (read_nat ds)) (digits_only False (c # cs)))"

lemma digit_char_props:
  assumes "n < 10"
  shows "is_digit (digit_char n)" "digit_val (digit_char n) = n"
  using assms by (simp_all add: is_digit_def digit_char_def digit_val_def)

lemma show_nat_digits: "list_all is_digit (show_nat n)"
proof (induction n rule: show_nat.induct)
  case (1 n)
  then show ?case
    by (cases "n < 10") (simp_all add: show_nat.simps [of n] digit_char_props)
qed

lemma show_nat_nonempty [simp]: "show_nat n \<noteq> []"
  by (subst show_nat.simps) simp

lemma read_show_nat: "read_nat (show_nat n) = n"
proof (induction n rule: show_nat.induct)
  case (1 n)
  then show ?case
    by (cases "n < 10") (simp_all add: show_nat.simps [of n] digit_char_props read_nat_def)
qed

lemma digits_only_digits: "list_all is_digit s \<Longrightarrow> s \<noteq> [] \<or> b \<Longrightarrow> digits_only b s = Some s"
  by (induction s arbitrary: b) auto

lemma is_digit_not_space: "is_digit c \<Longrightarrow> \<not> is_space c"
  by (auto simp: is_digit_def is_space_def)

lemma strip_digits:
  assumes "list_all is_digit s" shows "py_strip s = s"
proof -
  have "dropWhile is_space t = t" if "list_all is_digit t" for t
    using that by (cases t) (auto simp: is_digit_not_space)
  moreover have "list_all is_digit (rev s)" using assms by (simp add: list_all_iff)
  ultimately show ?thesis using assms by (simp add: py_strip_def rstrip_by_def lstrip_by_def)
qed

lemma py_int_digits:
  assumes "list_all is_digit s" "s \<noteq> []"
  shows "py_int s = Some (int (read_nat s))"
proof -
  obtain c cs where s: "s = c # cs" using assms(2) by (cases s) auto
  have "c \<noteq> CHR ''-''" "c \<noteq> CHR ''+''" using assms(1) s by (auto simp: is_digit_def)
  with assms s show ?thesis
    by (simp add: py_int_def strip_digits digits_only_digits del: digits_only.simps)
qed

lemma py_int_show_nat: "py_int (show_nat n) = Some (int n)"
  by (simp add: py_int_digits show_nat_digits read_show_nat)

lemma py_int_isdigit: "py_isdigit s \<Longrightarrow> \<exists>n. py_int s = Some (int n)"
  by (auto simp: py_isdigit_def py_int_digits)

section \<open>Text of a value\<close>

definition hex_digit :: "nat \<Rightarrow> char" where
  "hex_digit n = (if n < 10 then char_of (48 + n) else char_of (87 + n))"

definition hex_byte :: "char \<Rightarrow> string" where
  "hex_byte c = [hex_digit ((of_char c :: nat) div 16), hex_digit ((of_char c :: nat) mod 16)]"

text \<open>One character of \<open>repr(s)\<close> with quote \<open>q\<close>; of the characters above 126 only
  code points below 256 occur, and of those 127 to 160 and 173 are not printable.\<close>

definition repr_char :: "char \<Rightarrow> char \<Rightarrow> string" where
  "repr_char q c =
     (let n = (of_char c :: nat) in
      if c = q \<or> n = 92 then [CHR 0x5C, c]
      else if n = 10 then [CHR 0x5C, CHR ''n'']
      else if n = 13 then [CHR 0x5C, CHR ''r'']
      else if n = 9 then [CHR 0x5C, CHR ''t'']
      else if n < 32 \<or> (127 \<le> n \<and> n \<le> 160) \<or> n = 173 then [CHR 0x5C, CHR ''x''] @ hex_byte c
      else [c])"

definition repr_str :: "string \<Rightarrow> string" where
  "repr_str s =
     (let q = (if CHR 0x27 \<in> set s \<and> CHR 0x22 \<notin> set s then CHR 0x22 else CHR 0x27)
      in [q] @ concat (map (repr_char q) s) @ [q])"

fun py_repr :: "pyval \<Rightarrow> string" and repr_items :: "(string \<times> pyval) list \<Rightarrow> string list"
  and repr_list :: "pyval list \<Rightarrow> string list" where
  "py_repr PNone = ''None''"
| "py_repr (PBool b) = (if b then ''True'' else ''False'')"
| "py_repr (PInt i) = show_int i"
| "py_repr (PStr s) = repr_str s"
| "py_repr (PList xs) = ''['' @ py_join '', '' (repr_list xs) @ '']''"
| "py_repr (PDict d) = ''{'' @ py_join '', '' (repr_items d) @ ''}''"
| "py_repr (PParam key safe dflt) = ''StepProviderParameter(key='' @ repr_str key @ '', safe=''
     @ (if safe then ''True'' else ''False'') @ '', default='' @ py_repr dflt @ '')''"
| "repr_items [] = []"
| "repr_items ((k, v) # d) = (repr_str k @ '': '' @ py_repr v) # repr_items d"
| "repr_list [] = []"
| "repr_list (v # vs) = py_repr v # repr_list vs"

definition py_str :: "pyval \<Rightarrow> string" where
  "py_str v = (case v of PStr s \<Rightarrow> s
     | PParam key safe dflt \<Rightarrow> ''key='' @ repr_str key @ '' safe=''
         @ (if safe then ''True'' else ''False'') @ '' default='' @ py_repr dflt
     | _ \<Rightarrow> py_repr v)"

text \<open>\<open>json.dumps(v)\<close> with the default settings; \<open>None\<close> where it raises
  \<open>TypeError\<close>.\<close>

definition json_char :: "char \<Rightarrow> string" where
  "json_char c =
     (let n = (of_char c :: nat) in
      if n = 34 \<or> n = 92 then [CHR 0x5C, c]
      else if n = 10 then [CHR 0x5C, CHR ''n'']
      else if n = 13 then [CHR 0x5C, CHR ''r'']
      else if n = 9 then [CHR 0x5C, CHR ''t'']
      else if n = 8 then [CHR 0x5C, CHR ''b'']
      else if n = 12 then [CHR 0x5C, CHR ''f'']
      else if n < 32 \<or> 127 \<le> n then [CHR 0x5C, CHR ''u'', CHR ''0'', CHR ''0''] @ hex_byte c
      else [c])"

definition json_str :: "string \<Rightarrow> string" where
  "json_str s = [CHR 0x22] @ concat (map json_char s) @ [CHR 0x22]"

fun json_dumps :: "pyval \<Rightarrow> string option" and json_items :: "(string \<times> pyval) list \<Rightarrow> string list option"
  and json_list :: "pyval list \<Rightarrow> string list option" where
  "json_dumps PNone = Some ''null''"
| "json_dumps (PBool b) = Some (if b then ''true'' else ''false'')"
| "json_dumps (PInt i) = Some (show_int i)"
| "json_dumps (PStr s) = Some (json_str s)"
| "json_dumps (PList xs) = map_option (\<lambda>ts. ''['' @ py_join '', '' ts @ '']'') (json_list xs)"
| "json_dumps (PDict d) = map_option (\<lambda>ts. ''{'' @ py_join '', '' ts @ ''}'') (json_items d)"
| "json_dumps (PParam key safe dflt) = None"
| "json_items [] = Some []"
| "json_items ((k, v) # d) =
     (case (json_dumps v, json_items d) of
        (Some t, Some ts) \<Rightarrow> Some ((json_str k @ '': '' @ t) # ts) | _ \<Rightarrow> None)"
| "json_list [] = Some []"
| "json_list (v # vs) =
     (case (json_dumps v, json_list vs) of (Some t, Some ts) \<Rightarrow> Some (t # ts) | _ \<Rightarrow> None)"

text \<open>\<open>s.splitlines()\<close>.\<close>

definition is_line_break :: "char \<Rightarrow> bool" where
  "is_line_break c \<longleftrightarrow> (of_char c :: nat) \<in> {10, 11, 12, 13, 28, 29, 30, 133}"

fun splitlines_scan :: "string \<Rightarrow> bool \<Rightarrow> string \<Rightarrow> string list" where
  "splitlines_scan cur after_cr [] = (if cur = [] then [] else [rev cur])"
| "splitlines_scan cur after_cr (c # cs) =
     (if after_cr \<and> c = CHR 0x0A then splitlines_scan cur False cs
      else if is_line_break c then rev cur # splitlines_scan [] (c = CHR 0x0D) cs
      else splitlines_scan (c # cur) False cs)"

definition splitlines :: "string \<Rightarrow> string list" where
  "splitlines s = splitlines_scan [] False s"

text \<open>\<open>s.replace(old, new, 1)\<close>: the first occurrence only.\<close>

definition replace_first :: "string \<Rightarrow> string \<Rightarrow> string \<Rightarrow> string" where
  "replace_first old new s =
     (case find_sub old s of None \<Rightarrow> s | Some k \<Rightarrow> take k s @ new @ drop (k + length old) s)"

lemma find_sub_Some:
  "find_sub p s = Some k \<Longrightarrow> k \<le> length s \<and> take (length p) (drop k s) = p"
proof (induction p s arbitrary: k rule: find_sub.induct)
  case (2 p c cs)
  then show ?case by (auto simp: starts_with_def split: if_splits)
qed (auto split: if_splits)

lemma contains_sub_append: "contains_sub p (xs @ p @ ys)"
proof (induction xs)
  case Nil
  have "starts_with p (p @ ys)" by (simp add: starts_with_def)
  then show ?case by (cases "p @ ys") (auto simp: contains_sub_def)
next
  case (Cons x xs)
  then show ?case by (auto simp: contains_sub_def)
qed

section \<open>UUIDs\<close>

definition is_hex :: "char \<Rightarrow> bool" where
  "is_hex c \<longleftrightarrow> is_digit c \<or> (97 \<le> (of_char c :: nat) \<and> (of_char c :: nat) \<le> 102)"

text \<open>\<open>uuid.UUID(s)\<close>: prefixes, braces and hyphens are dropped, 32 hexadecimal digits remain.\<close>

definition uuid_hex :: "string \<Rightarrow> string option" where
  "uuid_hex s =
     (let h = py_replace ''uuid:'' [] (py_replace ''urn:'' [] s);
          brace = (\<lambda>c. c = CHR ''{'' \<or> c = CHR ''}'');
          h = py_lower (py_replace ''-'' [] (rstrip_by brace (lstrip_by brace h)))
      in if length h = 32 \<and> list_all is_hex h then Some h else None)"

text \<open>\<open>str\<close> of a UUID: the digits in groups of 8, 4, 4, 4 and 12.\<close>

definition uuid_str :: "string \<Rightarrow> string" where
  "uuid_str h = take 8 h @ ''-'' @ take 4 (drop 8 h) @ ''-'' @ take 4 (drop 12 h) @ ''-''
     @ take 4 (drop 16 h) @ ''-'' @ drop 20 h"

section \<open>Time stamps\<close>

text \<open>An instant is a number of microseconds since 1970-01-01 in UTC.  The civil date is that of the
  proleptic Gregorian calendar; years are written with at least four digits, which is what
  \<open>strftime\<close> and \<open>isoformat\<close> agree on from the year 1000 on.\<close>

definition civil_date :: "int \<Rightarrow> int \<times> int \<times> int" where
  "civil_date days =
     (let z = days + 719468;
          doe = z mod 146097;
          yoe = (doe - doe div 1460 + doe div 36524 - doe div 146096) div 365;
          doy = doe - (365 * yoe + yoe div 4 - yoe div 100);
          mp = (5 * doy + 2) div 153;
          m = (if mp < 10 then mp + 3 else mp - 9)
      in (yoe + z div 146097 * 400 + (if m \<le> 2 then 1 else 0), m, doy - (153 * mp + 2) div 5 + 1))"

definition pad :: "nat \<Rightarrow> int \<Rightarrow> string" where
  "pad n i = replicate (n - length (show_int i)) CHR ''0'' @ show_int i"

text \<open>\<open>strftime("%Y-%m-%dT%H:%M:%S.%f")[:-3] + "Z"\<close> of the instant in UTC.\<close>

definition iso_millis :: "int \<Rightarrow> string" where
  "iso_millis us =
     (let secs = us div 1000000; day = secs mod 86400
      in (case civil_date (secs div 86400) of
            (y, m, d) \<Rightarrow> pad 4 y @ ''-'' @ pad 2 m @ ''-'' @ pad 2 d @ ''T'' @ pad 2 (day div 3600)
              @ '':'' @ pad 2 (day div 60 mod 60) @ '':'' @ pad 2 (day mod 60) @ ''.''
              @ pad 3 (us mod 1000000 div 1000) @ ''Z''))"

end
