(* ===== verification/ErrorStormGuard.thy ===== *)
theory ErrorStormGuard
  imports PyStrings
begin

text \<open>
  \<open>src/common/event_management/error_storm_guard.py\<close>: the in-process guard that rate-limits
  the writes of failed raw events.  The \<open>OrderedDict\<close> of the code is an association list,
  least recently used entry first; a value is the pair (window start, count).  A clock reading is
  an integer number of ticks.  SHA-1 is a parameter.
\<close>

record guard =
  window :: int
  max_per_key :: int
  max_entries :: int
  entries :: "(string \<times> int \<times> int) list"

text \<open>\<open>OrderedDict.move_to_end\<close> after an assignment: the key is taken out and put last.\<close>

definition put_last :: "'k \<Rightarrow> 'v \<Rightarrow> ('k \<times> 'v) list \<Rightarrow> ('k \<times> 'v) list" where
  "put_last k v es = filter (\<lambda>e. fst e \<noteq> k) es @ [(k, v)]"

text \<open>The eviction loop pops from the front while the map is over its limit.\<close>

fun evict :: "int \<Rightarrow> ('k \<times> 'v) list \<Rightarrow> ('k \<times> 'v) list" where
  "evict n [] = []"
| "evict n (e # es) = (if int (length (e # es)) > n then evict n es else e # es)"

definition should_record :: "int \<Rightarrow> string \<Rightarrow> guard \<Rightarrow> bool \<times> guard" where
  "should_record now key g =
     (case map_of (entries g) key of
        None \<Rightarrow> (True, g\<lparr>entries := evict (max_entries g) (put_last key (now, 1) (entries g))\<rparr>)
      | Some (start, count) \<Rightarrow>
          if now - start \<ge> window g then
            (True, g\<lparr>entries := evict (max_entries g) (put_last key (now, 1) (entries g))\<rparr>)
          else if count < max_per_key g then
            (True, g\<lparr>entries := put_last key (start, count + 1) (entries g)\<rparr>)
          else
            (False, g\<lparr>entries := put_last key (start, count) (entries g)\<rparr>))"

definition clear_guard :: "guard \<Rightarrow> guard" where
  "clear_guard g = g\<lparr>entries := []\<rparr>"

text \<open>The key: \<open>re.sub(r"\d+", "#", message[:200])\<close>, hashed with the error class.\<close>

fun norm_digits :: "bool \<Rightarrow> string \<Rightarrow> string" where
  "norm_digits in_run [] = []"
| "norm_digits in_run (c # cs) =
     (if is_digit c then (if in_run then norm_digits True cs else CHR ''#'' # norm_digits True cs)
      else c # norm_digits False cs)"

definition bounded_error_hash :: "(string \<Rightarrow> string) \<Rightarrow> string \<Rightarrow> string option \<Rightarrow> string" where
  "bounded_error_hash sha1 error_class error_message =
     (let message = take 200 (case error_message of None \<Rightarrow> [] | Some m \<Rightarrow> m)
      in sha1 (error_class @ ''|'' @ norm_digits False message))"

definition str_opt :: "string option \<Rightarrow> string" where
  "str_opt v = (case v of None \<Rightarrow> ''None'' | Some s \<Rightarrow> s)"

definition build_key ::
  "(string \<Rightarrow> string) \<Rightarrow> string option \<Rightarrow> string option \<Rightarrow> string \<Rightarrow> string option \<Rightarrow> string" where
  "build_key sha1 tenant_id provider_type error_class error_message =
     py_join ''|'' [str_opt tenant_id, str_opt provider_type,
       bounded_error_hash sha1 error_class error_message]"

definition should_record_error ::
  "(string \<Rightarrow> string) \<Rightarrow> int \<Rightarrow> string option \<Rightarrow> string option \<Rightarrow> string \<Rightarrow> string option \<Rightarrow> guard
     \<Rightarrow> bool \<times> guard" where
  "should_record_error sha1 now tenant_id provider_type error_class error_message g =
     should_record now (build_key sha1 tenant_id provider_type error_class error_message) g"

section \<open>Well-formedness\<close>

definition guard_wf :: "guard \<Rightarrow> bool" where
  "guard_wf g \<longleftrightarrow> distinct (map fst (entries g))
     \<and> int (length (entries g)) \<le> max 0 (max_entries g)
     \<and> (\<forall>(k, st, c) \<in> set (entries g). 1 \<le> c \<and> c \<le> max 1 (max_per_key g))"

lemma distinct_filter_keys: "distinct (map fst es) \<Longrightarrow> distinct (map fst (filter P es))"
  by (induction es) auto

lemma put_last_distinct [simp]: "distinct (map fst es) \<Longrightarrow> distinct (map fst (put_last k v es))"
  by (auto simp: put_last_def distinct_filter_keys)

lemma set_put_last: "set (put_last k v es) = {e \<in> set es. fst e \<noteq> k} \<union> {(k, v)}"
  by (auto simp: put_last_def)

lemma map_of_put_last [simp]: "map_of (put_last k v es) = (map_of es)(k \<mapsto> v)"
proof
  fix x
  show "map_of (put_last k v es) x = ((map_of es)(k \<mapsto> v)) x"
    by (induction es) (auto simp: put_last_def map_add_def split: option.splits if_splits)
qed

lemma length_put_last_member:
  assumes "distinct (map fst es)" "map_of es k = Some w"
  shows "length (put_last k v es) = length es"
proof -
  have "length (filter (\<lambda>e. fst e \<noteq> k) es) + 1 = length es" using assms
  proof (induction es)
    case (Cons e es)
    show ?case
    proof (cases "fst e = k")
      case True
      with Cons.prems have "filter (\<lambda>e. fst e \<noteq> k) es = es"
        by (auto simp: filter_id_conv image_iff)
      with True show ?thesis by simp
    next
      case False
      with Cons show ?thesis by (cases e) auto
    qed
  qed simp
  then show ?thesis by (simp add: put_last_def)
qed

lemma set_evict: "set (evict n es) \<subseteq> set es"
  by (induction es) auto

lemma evict_distinct [simp]: "distinct (map fst es) \<Longrightarrow> distinct (map fst (evict n es))"
  by (induction es) auto

lemma evict_length: "int (length (evict n es)) \<le> max 0 n"
  by (induction es) auto

lemma evict_keeps_last: "n \<ge> 1 \<Longrightarrow> evict n (es @ [e]) = evict (n - 1) es @ [e]"
  by (induction es) auto

lemma should_record_config:
  "should_record now k g = (b, g') \<Longrightarrow>
     window g' = window g \<and> max_per_key g' = max_per_key g \<and> max_entries g' = max_entries g"
  by (auto simp: should_record_def split: option.splits if_splits)

lemma should_record_wf:
  assumes wf: "guard_wf g" and step: "should_record now k g = (b, g')"
  shows "guard_wf g'"
proof -
  let ?fresh = "evict (max_entries g) (put_last k (now, 1) (entries g))"
  have fresh: "guard_wf (g\<lparr>entries := ?fresh\<rparr>)"
    using wf set_evict [of "max_entries g" "put_last k (now, 1) (entries g)"]
    by (auto simp: guard_wf_def evict_length set_put_last)
  have upd: "guard_wf (g\<lparr>entries := put_last k (st, c) (entries g)\<rparr>)"
    if "map_of (entries g) k = Some w" "1 \<le> c" "c \<le> max 1 (max_per_key g)" for st c w
    using wf that by (auto simp: guard_wf_def length_put_last_member set_put_last)
  have ent: "1 \<le> c \<and> c \<le> max 1 (max_per_key g)" if "map_of (entries g) k = Some (st, c)" for st c
    using wf map_of_SomeD [OF that] by (auto simp: guard_wf_def)
  show ?thesis
  proof (cases "map_of (entries g) k")
    case None
    with step fresh show ?thesis by (auto simp: should_record_def)
  next
    case (Some w)
    obtain st c where w: "w = (st, c)" by (cases w)
    with step fresh Some ent [of st c] upd [OF Some, of "c + 1" st] upd [OF Some, of c st]
    show ?thesis by (auto simp: should_record_def split: if_splits)
  qed
qed

section \<open>Runs\<close>

text \<open>A run of the guard over timed requests keeps the history of its answers, newest first.\<close>

type_synonym answer = "int \<times> string \<times> bool"

fun run_guard :: "guard \<Rightarrow> answer list \<Rightarrow> (int \<times> string) list \<Rightarrow> answer list \<times> guard" where
  "run_guard g h [] = (h, g)"
| "run_guard g h ((now, k) # rs) =
     (let (b, g') = should_record now k g in run_guard g' ((now, k, b) # h) rs)"

definition grants_since :: "string \<Rightarrow> int \<Rightarrow> answer list \<Rightarrow> nat" where
  "grants_since k st h = length (filter (\<lambda>(t, k', b). k' = k \<and> b \<and> st \<le> t) h)"

text \<open>What an entry says of the past: its count is covered by grants made since its start.\<close>

definition history_ok :: "guard \<Rightarrow> answer list \<Rightarrow> int \<Rightarrow> bool" where
  "history_ok g h now \<longleftrightarrow>
     (\<forall>(k, st, c) \<in> set (entries g). st \<le> now \<and> c \<le> int (grants_since k st h))"

lemma grants_since_Cons:
  "grants_since k st ((t, k', b) # h) = (if k' = k \<and> b \<and> st \<le> t then 1 else 0) + grants_since k st h"
  by (simp add: grants_since_def)

lemma history_ok_mono: "history_ok g h now \<Longrightarrow> now \<le> now' \<Longrightarrow> history_ok g h now'"
  by (auto simp: history_ok_def)

lemma should_record_history:
  assumes ok: "history_ok g h now" and step: "should_record now k g = (b, g')"
  shows "history_ok g' ((now, k, b) # h) now"
proof -
  let ?h = "(now, k, b) # h"
  have old: "st \<le> now \<and> c \<le> int (grants_since k' st ?h)"
    if "(k', st, c) \<in> set (entries g)" for k' st c
    using ok that by (force simp: history_ok_def grants_since_Cons)
  have upd: "history_ok g' ?h now"
    if "set (entries g') \<subseteq> set (put_last k (st, c) (entries g))"
      and "st \<le> now" "c \<le> int (grants_since k st ?h)" for st c
  proof -
    have "st' \<le> now \<and> c' \<le> int (grants_since k' st' ?h)"
      if "(k', st', c') \<in> set (entries g')" for k' st' c'
    proof (cases "k' = k \<and> st' = st \<and> c' = c")
      case False
      with that \<open>set (entries g') \<subseteq> _\<close> have "(k', st', c') \<in> set (entries g)"
        by (auto simp: set_put_last)
      then show ?thesis by (rule old)
    next
      case True
      with \<open>st \<le> now\<close> \<open>c \<le> _\<close> show ?thesis by simp
    qed
    then show ?thesis by (auto simp: history_ok_def)
  qed
  have fresh: ?thesis
    if "g' = g\<lparr>entries := evict (max_entries g) (put_last k (now, 1) (entries g))\<rparr>" "b"
    using that set_evict [of "max_entries g" "put_last k (now, 1) (entries g)"]
    by (intro upd [of now 1]) (auto simp: grants_since_Cons)
  show ?thesis
  proof (cases "map_of (entries g) k")
    case None
    with step fresh show ?thesis by (simp add: should_record_def)
  next
    case (Some w)
    obtain st c where w: "w = (st, c)" by (cases w)
    have cur: "st \<le> now" "c \<le> int (grants_since k st h)"
      using ok map_of_SomeD [OF Some] w by (auto simp: history_ok_def)
    show ?thesis
    proof (cases "now - st \<ge> window g")
      case True
      with step fresh Some w show ?thesis by (simp add: should_record_def)
    next
      case False
      with step Some w obtain c' where "c' = c + 1 \<and> b \<or> c' = c"
        and "g' = g\<lparr>entries := put_last k (st, c') (entries g)\<rparr>"
        by (auto simp: should_record_def split: if_splits)
      with cur show ?thesis by (intro upd [of st c']) (auto simp: grants_since_Cons)
    qed
  qed
qed

text \<open>A suppressed request is always backed by a full window of grants.\<close>

lemma suppressed_backed:
  assumes ok: "history_ok g h now" and step: "should_record now k g = (False, g')"
  shows "max_per_key g \<le> int (grants_since k (now - window g + 1) h)"
proof -
  from step obtain st c where e: "map_of (entries g) k = Some (st, c)"
    and w: "now - st < window g" and c: "max_per_key g \<le> c"
    by (auto simp: should_record_def split: option.splits if_splits)
  from ok map_of_SomeD [OF e] have "c \<le> int (grants_since k st h)"
    by (auto simp: history_ok_def)
  also have "grants_since k st h \<le> grants_since k (now - window g + 1) h"
    using w unfolding grants_since_def
    by (induction h) (auto simp: Suc_le_eq less_Suc_eq_le)
  finally show ?thesis using c by linarith
qed

lemma run_history_ok:
  "history_ok g h t0 \<Longrightarrow> sorted (t0 # map fst rs) \<Longrightarrow> run_guard g h rs = (h', g') \<Longrightarrow>
     \<exists>t. history_ok g' h' t \<and> (\<forall>r \<in> set rs. fst r \<le> t) \<and> t0 \<le> t \<and> (rs = [] \<longrightarrow> t = t0)
       \<and> (rs \<noteq> [] \<longrightarrow> t = fst (last rs))"
proof (induction rs arbitrary: g h t0)
  case Nil
  then show ?case by auto
next
  case (Cons r rs)
  obtain now k where r: "r = (now, k)" by (cases r)
  obtain b g1 where s: "should_record now k g = (b, g1)" by (cases "should_record now k g")
  have le: "t0 \<le> now" and srt: "sorted (now # map fst rs)" using Cons.prems(2) r by auto
  have "history_ok g1 ((now, k, b) # h) now"
    using should_record_history [OF history_ok_mono [OF Cons.prems(1) le] s] .
  from Cons.IH [OF this srt] Cons.prems(3) r s obtain t where
    "history_ok g' h' t" "\<forall>r \<in> set rs. fst r \<le> t" "now \<le> t" "rs = [] \<longrightarrow> t = now"
    "rs \<noteq> [] \<longrightarrow> t = fst (last rs)" by auto
  with r le show ?case by (intro exI [of _ t]) auto
qed

lemma run_guard_config:
  "run_guard g h rs = (h', g') \<Longrightarrow> window g' = window g \<and> max_per_key g' = max_per_key g
     \<and> max_entries g' = max_entries g"
  by (induction rs arbitrary: g h) (auto split: prod.splits dest: should_record_config)

lemma run_guard_wf: "guard_wf g \<Longrightarrow> run_guard g h rs = (h', g') \<Longrightarrow> guard_wf g'"
proof (induction rs arbitrary: g h)
  case (Cons r rs)
  obtain now k where r: "r = (now, k)" by (cases r)
  obtain b g1 where s: "should_record now k g = (b, g1)" by (cases "should_record now k g")
  from Cons r s should_record_wf [OF Cons.prems(1) s] show ?case by auto
qed simp

text \<open>Grants of one key inside one window: the entry is fixed while the window lasts.\<close>

definition grants :: "answer list \<Rightarrow> nat" where
  "grants h = length (filter (\<lambda>(t, k, b). b) h)"

lemma run_one_key_window:
  assumes "map_of (entries g) k = Some (st, c)"
    and "\<forall>r \<in> set rs. snd r = k \<and> fst r < st + window g"
    and "run_guard g h rs = (h', g')" and "c \<le> max 1 (max_per_key g)"
  shows "int (grants h') + c \<le> int (grants h) + max 1 (max_per_key g)"
  using assms
proof (induction rs arbitrary: g h c)
  case Nil
  then show ?case by simp
next
  case (Cons r rs)
  obtain now where r: "r = (now, k)" using Cons.prems(2) by (cases r) auto
  have inw: "\<not> now - st \<ge> window g" using Cons.prems(2) r by auto
  show ?case
  proof (cases "c < max_per_key g")
    case True
    let ?g = "g\<lparr>entries := put_last k (st, c + 1) (entries g)\<rparr>"
    have "int (grants h') + (c + 1) \<le> int (grants ((now, k, True) # h)) + max 1 (max_per_key ?g)"
      using Cons.prems True inw r
      by (intro Cons.IH [of ?g "c + 1"]) (auto simp: should_record_def)
    then show ?thesis by (simp add: grants_def)
  next
    case False
    let ?g = "g\<lparr>entries := put_last k (st, c) (entries g)\<rparr>"
    have "int (grants h') + c \<le> int (grants ((now, k, False) # h)) + max 1 (max_per_key ?g)"
      using Cons.prems False inw r
      by (intro Cons.IH [of ?g c]) (auto simp: should_record_def)
    then show ?thesis by (simp add: grants_def)
  qed
qed

lemma fresh_entry:
  assumes "map_of (entries g) k = None" "max_entries g \<ge> 1"
  shows "should_record now k g =
      (True, g\<lparr>entries := evict (max_entries g - 1) (filter (\<lambda>e. fst e \<noteq> k) (entries g)) @ [(k, now, 1)]\<rparr>)"
  using assms by (simp add: should_record_def put_last_def evict_keeps_last)

lemma norm_digits_run:
  "list_all is_digit ds \<Longrightarrow> norm_digits True (ds @ ys) = norm_digits True ys"
  by (induction ds) auto

lemma norm_digits_swap:
  assumes "list_all is_digit ds" "list_all is_digit es" "ds \<noteq> []" "es \<noteq> []"
  shows "norm_digits b (xs @ ds @ ys) = norm_digits b (xs @ es @ ys)"
proof (induction xs arbitrary: b)
  case Nil
  from assms obtain d ds' e es' where "ds = d # ds'" "es = e # es'"
    by (metis list.exhaust)
  with assms show ?case by (auto simp: norm_digits_run)
qed auto

section \<open>Properties\<close>

text \<open>C1: the guard fails open.  Started empty and asked at non-decreasing times, it refuses a
  write only when it has already granted \<open>max_per_key\<close> writes for the same key within
  the last window; evictions never cause a refusal.\<close>

theorem guard_never_falsely_suppresses:
  assumes "entries g = []"
    and "sorted (map fst (rs @ [(now, k)]))"
    and "run_guard g [] rs = (h, g')"
    and "should_record now k g' = (False, g'')"
  shows "max_per_key g \<le> int (grants_since k (now - window g + 1) h)"
proof -
  define t0 where "t0 = (case rs of [] \<Rightarrow> now | r # _ \<Rightarrow> fst r)"
  have "history_ok g [] t0" using assms(1) by (simp add: history_ok_def)
  moreover have "sorted (t0 # map fst rs)"
    using assms(2) by (cases rs) (auto simp: t0_def sorted_append)
  ultimately obtain t where t: "history_ok g' h t" "rs = [] \<longrightarrow> t = t0" "rs \<noteq> [] \<longrightarrow> t = fst (last rs)"
    using run_history_ok [OF _ _ assms(3)] by blast
  have "t \<le> now" using t(2,3) assms(2) by (cases "rs = []") (auto simp: t0_def sorted_append)
  from suppressed_backed [OF history_ok_mono [OF t(1) this] assms(4)] run_guard_config [OF assms(3)]
  show ?thesis by simp
qed


text \<open>Every run keeps the map within its bound, its keys distinct and every count between one
  and the limit.\<close>

theorem guard_map_bounded:
  assumes "entries g = []" and "run_guard g [] rs = (h, g')"
  shows "int (length (entries g')) \<le> max 0 (max_entries g) \<and> distinct (map fst (entries g'))
    \<and> (\<forall>(k, st, c) \<in> set (entries g'). 1 \<le> c \<and> c \<le> max 1 (max_per_key g))"
proof -
  have "guard_wf g" using assms(1) by (simp add: guard_wf_def)
  from run_guard_wf [OF this assms(2)] run_guard_config [OF assms(2)]
  show ?thesis by (simp add: guard_wf_def)
qed

text \<open>Two error messages that differ only in one run of digits (an id, a counter) within the
  hashed prefix fall under the same key, whatever the hash function.\<close>

theorem guard_key_ignores_digits:
  assumes "list_all is_digit ds" "list_all is_digit es" "ds \<noteq> []" "es \<noteq> []"
    and "length (xs @ ds @ ys) \<le> 200" "length (xs @ es @ ys) \<le> 200"
  shows "build_key sha1 t p ec (Some (xs @ ds @ ys)) = build_key sha1 t p ec (Some (xs @ es @ ys))"
  using norm_digits_swap [OF assms(1-4), of False xs ys] assms(5,6)
  by (simp add: build_key_def bounded_error_hash_def Let_def)

definition sample_guard :: guard where
  "sample_guard = \<lparr>window = 60, max_per_key = 2, max_entries = 10, entries = []\<rparr>"

lemma sample_run:
  "run_guard sample_guard [] [(0, ''a''), (1, ''a'')] =
     ([(1, ''a'', True), (0, ''a'', True)], sample_guard\<lparr>entries := [(''a'', 0, 2)]\<rparr>)"
  by (simp add: sample_guard_def should_record_def put_last_def)

theorem guard_never_falsely_suppresses_witness:
  "max_per_key sample_guard \<le>
     int (grants_since ''a'' (2 - window sample_guard + 1) [(1, ''a'', True), (0, ''a'', True)])"
  by (rule guard_never_falsely_suppresses [OF _ _ sample_run,
        where g'' = "sample_guard\<lparr>entries := [(''a'', 0, 2)]\<rparr>"])
    (simp_all add: sample_guard_def should_record_def put_last_def)


theorem guard_map_bounded_witness:
  "int (length (entries (sample_guard\<lparr>entries := [(''a'', 0, 2)]\<rparr>))) \<le> max 0 (max_entries sample_guard)"
  using guard_map_bounded [OF _ sample_run] by (simp add: sample_guard_def)

theorem guard_key_ignores_digits_witness:
  "build_key id None None ''E'' (Some (''id='' @ ''123'' @ '' gone''))
     = build_key id None None ''E'' (Some (''id='' @ ''45'' @ '' gone''))"
  by (rule guard_key_ignores_digits) (simp_all add: is_digit_def)

end
