(* ===== verification/ContextManager.thy ===== *)
theory ContextManager
  imports PyStrings
begin

text \<open>
  \<open>src/contextmanager/contextmanager.py\<close>: the mutable context one workflow run threads through
  its steps.  Every step has one entry in \<open>steps_context\<close>, created once and then changed in
  place; \<open>steps_context["this"]\<close> is an alias of the entry of the step that last stored a
  result, so the model keeps the name of that step (\<open>this_step\<close>) and looks the entry up.  Steps
  are taken not to be called \<open>this\<close>.  The secret manager, the database of last executions and
  the logger are not part of the state.
\<close>

record ctx =
  cm_tenant_id :: string
  cm_workflow_id :: "string option"
  cm_execution_id :: "string option"
  steps_context :: pydict
  this_step :: "string option"
  providers_context :: pydict
  actions_context :: pydict
  event_context :: pyval
  incident_context :: pyval
  foreach_context :: pydict
  consts_context :: pyval
  current_step_vars :: pyval
  current_step_aliases :: pyval
  secret_context :: pydict
  last_workflow_results :: pyval
  last_workflow_run_time :: pyval
  cm_aliases :: pydict
  workflow_inputs :: pyval

definition new_ctx :: "string \<Rightarrow> string option \<Rightarrow> ctx" where
  "new_ctx tenant_id workflow_id =
     \<lparr>cm_tenant_id = tenant_id, cm_workflow_id = workflow_id, cm_execution_id = None,
      steps_context = [], this_step = None, providers_context = [], actions_context = [],
      event_context = PDict [], incident_context = PNone,
      foreach_context = [(''value'', PNone), (''items'', PNone)],
      consts_context = PDict [], current_step_vars = PDict [], current_step_aliases = PDict [],
      secret_context = [], last_workflow_results = PDict [], last_workflow_run_time = PNone,
      cm_aliases = [], workflow_inputs = PNone\<rparr>"

text \<open>The last successful execution (its results and start time) is loaded when the text of the
  workflow mentions it; a lookup that fails counts as none.\<close>

definition load_last_execution :: "string \<Rightarrow> (pyval \<times> pyval) option \<Rightarrow> ctx \<Rightarrow> ctx" where
  "load_last_execution workflow_str last_execution c =
     (if contains_sub ''last_workflow_results'' workflow_str \<or> contains_sub ''last_workflow_run_time'' workflow_str
      then (case last_execution of
              None \<Rightarrow> c
            | Some (results, started) \<Rightarrow> c\<lparr>last_workflow_results := results, last_workflow_run_time := started\<rparr>)
      else c)"

text \<open>The secret of the workflow, read by the secret manager; a failed or empty read gives the
  empty dictionary.\<close>

definition secret_name :: "ctx \<Rightarrow> string" where
  "secret_name c = cm_tenant_id c @ ''_'' @ (case cm_workflow_id c of None \<Rightarrow> ''None'' | Some w \<Rightarrow> w) @ ''_secrets''"

definition set_secret_context :: "(string \<Rightarrow> pydict option result) \<Rightarrow> ctx \<Rightarrow> ctx" where
  "set_secret_context read_secret c =
     c\<lparr>secret_context := (case read_secret (secret_name c) of Inr (Some s) \<Rightarrow> s | _ \<Rightarrow> [])\<rparr>"

definition set_execution_context :: "string \<Rightarrow> string \<Rightarrow> ctx \<Rightarrow> ctx" where
  "set_execution_context workflow_id execution_id c =
     c\<lparr>cm_execution_id := Some execution_id, cm_workflow_id := Some workflow_id\<rparr>"

definition set_inputs :: "pyval \<Rightarrow> ctx \<Rightarrow> ctx" where
  "set_inputs inputs c = c\<lparr>workflow_inputs := inputs\<rparr>"

definition set_event_context :: "pyval \<Rightarrow> ctx \<Rightarrow> ctx" where
  "set_event_context event c = c\<lparr>event_context := event\<rparr>"

definition set_incident_context :: "pyval \<Rightarrow> ctx \<Rightarrow> ctx" where
  "set_incident_context incident c = c\<lparr>incident_context := incident\<rparr>"

definition set_consts_context :: "pyval \<Rightarrow> ctx \<Rightarrow> ctx" where
  "set_consts_context consts c = c\<lparr>consts_context := consts\<rparr>"

text \<open>The dictionary a template sees under \<open>steps\<close>, with the alias \<open>this\<close> resolved.\<close>

definition steps_view :: "ctx \<Rightarrow> pydict" where
  "steps_view c =
     (case this_step c of
        None \<Rightarrow> steps_context c
      | Some sid \<Rightarrow> dset ''this'' (dict_get (steps_context c) sid PNone) (steps_context c))"

definition get_full_context :: "bool \<Rightarrow> ctx \<Rightarrow> pydict" where
  "get_full_context exclude_providers c =
     (let full_context =
        [(''steps'', PDict (steps_view c)), (''actions'', PDict (steps_view c)),
         (''foreach'', PDict (foreach_context c)), (''event'', event_context c),
         (''last_workflow_results'', last_workflow_results c),
         (''last_workflow_run_time'', last_workflow_run_time c),
         (''alert'', event_context c), (''incident'', incident_context c),
         (''consts'', consts_context c), (''vars'', current_step_vars c),
         (''aliases'', current_step_aliases c), (''secrets'', PDict (secret_context c)),
         (''inputs'', workflow_inputs c)];
        full_context = (if exclude_providers then full_context
          else dset ''providers'' (PDict (providers_context c)) full_context)
      in dupdate full_context (cm_aliases c))"

definition set_foreach_items :: "pyval \<Rightarrow> ctx \<Rightarrow> ctx" where
  "set_foreach_items items c = c\<lparr>foreach_context := dset ''items'' items (foreach_context c)\<rparr>"

definition set_foreach_value :: "pyval \<Rightarrow> ctx \<Rightarrow> ctx" where
  "set_foreach_value v c = c\<lparr>foreach_context := dset ''value'' v (foreach_context c)\<rparr>"

definition reset_foreach_context :: "ctx \<Rightarrow> ctx" where
  "reset_foreach_context c = c\<lparr>foreach_context := [(''value'', PNone), (''items'', PNone)]\<rparr>"

text \<open>An entry of \<open>steps_context\<close> is a dictionary; reading or writing a key of anything else is
  an error of the code.\<close>

definition entry_of :: "ctx \<Rightarrow> string \<Rightarrow> pydict" where
  "entry_of c sid = (case dget (steps_context c) sid of Some (PDict d) \<Rightarrow> d | _ \<Rightarrow> [])"

definition put_entry :: "string \<Rightarrow> pydict \<Rightarrow> ctx \<Rightarrow> ctx" where
  "put_entry sid d c = c\<lparr>steps_context := dset sid (PDict d) (steps_context c)\<rparr>"

definition fresh_entry :: "pydict" where
  "fresh_entry = [(''provider_parameters'', PDict []), (''results'', PList []), (''vars'', PDict [])]"

definition ensure_entry :: "string \<Rightarrow> pydict \<Rightarrow> ctx \<Rightarrow> ctx" where
  "ensure_entry sid d c = (if dget (steps_context c) sid = None then put_entry sid d c else c)"

definition set_condition_results ::
  "string \<Rightarrow> string \<Rightarrow> pyval \<Rightarrow> pyval \<Rightarrow> pyval \<Rightarrow> pyval \<Rightarrow> string \<Rightarrow> pyval \<Rightarrow> pydict \<Rightarrow> ctx \<Rightarrow> ctx" where
  "set_condition_results action_id condition_name condition_type compare_to compare_value
      result condition_alias raw kwargs c =
     (let c = ensure_entry action_id [(''conditions'', PDict []), (''results'', PDict [])] c;
          entry = entry_of c action_id;
          conds = (case dget entry ''conditions'' of Some (PDict d) \<Rightarrow> d | _ \<Rightarrow> [(condition_name, PList [])]);
          old = (case dget conds condition_name of Some (PList l) \<Rightarrow> l | _ \<Rightarrow> []);
          rec = dupdate [(''value'', raw), (''compare_value'', compare_value), (''compare_to'', compare_to),
            (''result'', result), (''type'', condition_type), (''alias'', PStr condition_alias)] kwargs;
          c = put_entry action_id
            (dset ''conditions'' (PDict (dset condition_name (PList (old @ [PDict rec])) conds)) entry) c;
          c = c\<lparr>foreach_context := dupdate (foreach_context c)
            ([(''compare_value'', compare_value), (''compare_to'', compare_to)] @ kwargs)\<rparr>
      in if condition_alias \<noteq> [] then c\<lparr>cm_aliases := dset condition_alias result (cm_aliases c)\<rparr> else c)"

definition set_step_provider_parameters :: "string \<Rightarrow> pydict \<Rightarrow> ctx \<Rightarrow> ctx" where
  "set_step_provider_parameters sid params c =
     (let c = ensure_entry sid fresh_entry c
      in put_entry sid (dset ''provider_parameters'' (PDict params) (entry_of c sid)) c)"

text \<open>Appending to \<open>results\<close> raises when the entry's \<open>results\<close> is not a list.\<close>

definition set_step_context :: "string \<Rightarrow> pyval \<Rightarrow> bool \<Rightarrow> ctx \<Rightarrow> ctx result" where
  "set_step_context sid results foreach c =
     (let c = ensure_entry sid fresh_entry c; entry = entry_of c sid
      in if foreach then
           (case dget entry ''results'' of
              Some (PList rs) \<Rightarrow>
                Inr ((put_entry sid (dset ''results'' (PList (rs @ [results])) entry) c)\<lparr>this_step := Some sid\<rparr>)
            | Some _ \<Rightarrow> Inl (Exn EAttributeError ''append'')
            | None \<Rightarrow> Inl (Exn EKeyError ''results''))
         else Inr ((put_entry sid (dset ''results'' results entry) c)\<lparr>this_step := Some sid\<rparr>))"

definition set_step_vars :: "string \<Rightarrow> pydict \<Rightarrow> pydict \<Rightarrow> ctx \<Rightarrow> ctx" where
  "set_step_vars sid vars aliases c =
     (let c = ensure_entry sid (fresh_entry @ [(''aliases'', PDict [])]) c;
          c = c\<lparr>current_step_vars := PDict vars, current_step_aliases := PDict aliases\<rparr>;
          c = put_entry sid (dset ''aliases'' (PDict aliases) (dset ''vars'' (PDict vars) (entry_of c sid))) c
      in c\<lparr>secret_context := dupdate (secret_context c) vars\<rparr>)"

section \<open>What the operations keep\<close>

lemma dget_dset_other [simp]: "k' \<noteq> k \<Longrightarrow> dget (dset k v d) k' = dget d k'"
  by simp

lemma entry_put [simp]: "entry_of (put_entry sid d c) sid' = (if sid' = sid then d else entry_of c sid')"
  by (simp add: entry_of_def put_entry_def)

lemma put_entry_frame [simp]:
  "this_step (put_entry sid d c) = this_step c"
  "cm_aliases (put_entry sid d c) = cm_aliases c"
  "foreach_context (put_entry sid d c) = foreach_context c"
  "secret_context (put_entry sid d c) = secret_context c"
  by (simp_all add: put_entry_def)

lemma ensure_entry_frame [simp]:
  "this_step (ensure_entry sid d c) = this_step c"
  "foreach_context (ensure_entry sid d c) = foreach_context c"
  by (simp_all add: ensure_entry_def)

lemma entry_ensure:
  "entry_of (ensure_entry sid d c) sid' =
     (if sid' = sid \<and> dget (steps_context c) sid = None then d else entry_of c sid')"
  by (simp add: ensure_entry_def)

text \<open>The step's list of results, as a foreach reads it.\<close>

definition results_of :: "ctx \<Rightarrow> string \<Rightarrow> pyval option" where
  "results_of c sid = dget (entry_of c sid) ''results''"

lemma set_step_context_results:
  assumes "set_step_context sid v False c = Inr c'"
  shows "results_of c' sid = Some v \<and> this_step c' = Some sid"
  using assms by (auto simp: set_step_context_def Let_def results_of_def entry_of_def put_entry_def)

lemma set_step_context_foreach:
  assumes "results_of c sid = Some (PList rs)"
  shows "\<exists>c'. set_step_context sid v True c = Inr c' \<and> results_of c' sid = Some (PList (rs @ [v]))"
proof -
  have "dget (steps_context c) sid \<noteq> None"
    using assms by (auto simp: results_of_def entry_of_def split: option.splits)
  then have e: "ensure_entry sid fresh_entry c = c" by (auto simp: ensure_entry_def)
  from assms show ?thesis
    by (simp add: set_step_context_def e results_of_def)
      (simp add: entry_of_def put_entry_def)
qed

lemma set_step_vars_results:
  "dget (steps_context c) sid = None \<Longrightarrow> results_of (set_step_vars sid vs als c) sid = Some (PList [])"
  "dget (steps_context c) sid = Some (PDict d) \<Longrightarrow>
     results_of (set_step_vars sid vs als c) sid = results_of c sid"
  by (simp_all add: set_step_vars_def Let_def results_of_def entry_of_def put_entry_def
      ensure_entry_def fresh_entry_def dget_Cons)

text \<open>The step variables are visible to templates as \<open>vars\<close> and, merged, as secrets.\<close>

lemma set_step_vars_secrets:
  "wf_dict vs \<Longrightarrow> dget vs k = Some v \<Longrightarrow> dget (secret_context (set_step_vars sid vs als c)) k = Some v"
  by (simp add: set_step_vars_def Let_def dget_dupdate_wf)

section \<open>Frames\<close>

text \<open>The results a step has accumulated so far: none before its entry exists.\<close>

definition accumulated :: "ctx \<Rightarrow> string \<Rightarrow> pyval list \<Rightarrow> bool" where
  "accumulated c sid rs \<longleftrightarrow>
     (dget (steps_context c) sid = None \<and> rs = []) \<or> results_of c sid = Some (PList rs)"

text \<open>A change of the context that concerns one step only: the entries of all others stay.\<close>

definition touches_only :: "string \<Rightarrow> ctx \<Rightarrow> ctx \<Rightarrow> bool" where
  "touches_only sid c c' \<longleftrightarrow> (\<forall>x. x \<noteq> sid \<longrightarrow> entry_of c' x = entry_of c x)"

text \<open>A change that keeps the accumulated results as well.\<close>

definition keeps_results :: "string \<Rightarrow> ctx \<Rightarrow> ctx \<Rightarrow> bool" where
  "keeps_results sid c c' \<longleftrightarrow> touches_only sid c c' \<and> (\<forall>rs. accumulated c sid rs \<longrightarrow> accumulated c' sid rs)"

lemma touches_only_refl [simp]: "touches_only sid c c"
  by (simp add: touches_only_def)

lemma touches_only_trans [trans]: "touches_only sid a b \<Longrightarrow> touches_only sid b c \<Longrightarrow> touches_only sid a c"
  by (simp add: touches_only_def)

lemma keeps_results_refl [simp]: "keeps_results sid c c"
  by (simp add: keeps_results_def)

lemma keeps_results_trans [trans]: "keeps_results sid a b \<Longrightarrow> keeps_results sid b c \<Longrightarrow> keeps_results sid a c"
  by (auto simp: keeps_results_def intro: touches_only_trans)

lemma keeps_results_touches: "keeps_results sid a b \<Longrightarrow> touches_only sid a b"
  by (simp add: keeps_results_def)

lemma steps_context_put [simp]:
  "dget (steps_context (put_entry sid d c)) x = (if x = sid then Some (PDict d) else dget (steps_context c) x)"
  by (simp add: put_entry_def)

text \<open>Updates outside \<open>steps_context\<close> change nothing here.\<close>

lemma keeps_results_steps:
  "steps_context c' = steps_context c \<Longrightarrow> keeps_results sid c c'"
  by (simp add: keeps_results_def touches_only_def accumulated_def results_of_def entry_of_def)

lemma keeps_results_put:
  assumes "\<And>rs. accumulated c sid rs \<Longrightarrow> dget d ''results'' = Some (PList rs)"
  shows "keeps_results sid c (put_entry sid d c)"
  using assms by (auto simp: keeps_results_def touches_only_def accumulated_def results_of_def)

lemma accumulated_ensured:
  assumes "accumulated (ensure_entry sid d c) sid rs" "dget d ''results'' = Some (PList [])"
  shows "dget (entry_of (ensure_entry sid d c) sid) ''results'' = Some (PList rs)"
  using assms by (auto simp: accumulated_def ensure_entry_def results_of_def split: if_splits)

lemma keeps_results_ensure:
  "dget d ''results'' = Some (PList []) \<Longrightarrow> keeps_results sid c (ensure_entry sid d c)"
  by (auto simp: ensure_entry_def accumulated_def results_of_def entry_of_def intro!: keeps_results_put)

lemma fresh_results: "dget fresh_entry ''results'' = Some (PList [])"
  "dget (fresh_entry @ [(''aliases'', PDict [])]) ''results'' = Some (PList [])"
  by (simp_all add: fresh_entry_def dget_Cons)

lemma set_step_vars_keeps: "keeps_results sid c (set_step_vars sid vs als c)"
proof -
  let ?c1 = "ensure_entry sid (fresh_entry @ [(''aliases'', PDict [])]) c"
  let ?c2 = "?c1\<lparr>current_step_vars := PDict vs, current_step_aliases := PDict als\<rparr>"
  let ?d = "dset ''aliases'' (PDict als) (dset ''vars'' (PDict vs) (entry_of ?c2 sid))"
  have "keeps_results sid c ?c1" by (rule keeps_results_ensure [OF fresh_results(2)])
  also have "keeps_results sid ?c1 ?c2" by (rule keeps_results_steps) simp
  also have "keeps_results sid ?c2 (put_entry sid ?d ?c2)"
  proof (rule keeps_results_put)
    fix rs assume "accumulated ?c2 sid rs"
    then have "accumulated ?c1 sid rs"
      by (simp add: accumulated_def results_of_def entry_of_def)
    from accumulated_ensured [OF this fresh_results(2)]
    show "dget ?d ''results'' = Some (PList rs)" by (simp add: entry_of_def)
  qed
  also have "keeps_results sid (put_entry sid ?d ?c2) (set_step_vars sid vs als c)"
    by (rule keeps_results_steps) (simp add: set_step_vars_def Let_def)
  finally show ?thesis .
qed

lemma set_step_vars_entry [simp]: "dget (steps_context (set_step_vars sid vs als c)) sid \<noteq> None"
  by (simp add: set_step_vars_def Let_def)

lemma set_condition_results_keeps:
  assumes "dget (steps_context c) sid \<noteq> None"
  shows "keeps_results sid c (set_condition_results sid n t ct cv r al raw kw c)
    \<and> dget (steps_context (set_condition_results sid n t ct cv r al raw kw c)) sid \<noteq> None"
proof -
  have e: "ensure_entry sid d c = c" for d using assms by (auto simp: ensure_entry_def)
  obtain d where d: "steps_context (set_condition_results sid n t ct cv r al raw kw c) =
      steps_context (put_entry sid (dset ''conditions'' d (entry_of c sid)) c)"
  proof -
    have "\<exists>d. steps_context (set_condition_results sid n t ct cv r al raw kw c) =
        steps_context (put_entry sid (dset ''conditions'' d (entry_of c sid)) c)"
      by (cases "al = []"; simp add: set_condition_results_def Let_def e put_entry_def; rule exI; rule refl)
    then show ?thesis using that by blast
  qed
  have "keeps_results sid c (put_entry sid (dset ''conditions'' d (entry_of c sid)) c)"
    using assms by (intro keeps_results_put) (auto simp: accumulated_def results_of_def)
  also have "keeps_results sid \<dots> (set_condition_results sid n t ct cv r al raw kw c)"
    by (rule keeps_results_steps [OF d])
  finally show ?thesis by (simp add: d)
qed

lemma set_step_provider_parameters_keeps: "keeps_results sid c (set_step_provider_parameters sid ps c)"
proof -
  let ?c1 = "ensure_entry sid fresh_entry c"
  have "keeps_results sid c ?c1" by (rule keeps_results_ensure [OF fresh_results(1)])
  also have "keeps_results sid ?c1 (set_step_provider_parameters sid ps c)"
    unfolding set_step_provider_parameters_def Let_def
    by (rule keeps_results_put) (use accumulated_ensured [OF _ fresh_results(1)] in simp)
  finally show ?thesis .
qed

lemma set_step_context_touches:
  assumes "set_step_context sid v fe c = Inr c'"
  shows "touches_only sid c c'"
  using assms
  by (auto simp: set_step_context_def Let_def touches_only_def entry_ensure entry_of_def put_entry_def
      ensure_entry_def split: if_splits option.splits pyval.splits)

lemma set_step_context_appends:
  assumes "set_step_context sid v True c = Inr c'" "accumulated c sid rs"
  shows "accumulated c' sid (rs @ [v])"
proof -
  let ?e = "entry_of (ensure_entry sid fresh_entry c) sid"
  have "accumulated (ensure_entry sid fresh_entry c) sid rs"
    using keeps_results_ensure [OF fresh_results(1)] assms(2) by (simp add: keeps_results_def)
  from accumulated_ensured [OF this fresh_results(1)]
  have "dget ?e ''results'' = Some (PList rs)" .
  with assms(1) have "c' = (put_entry sid (dset ''results'' (PList (rs @ [v])) ?e)
      (ensure_entry sid fresh_entry c))\<lparr>this_step := Some sid\<rparr>"
    by (simp add: set_step_context_def Let_def)
  then show ?thesis by (simp add: accumulated_def results_of_def entry_of_def)
qed

end
