(* ===== verification/IOHandler.thy ===== *)
theory IOHandler
  imports ContextManager
begin

text \<open>
  \<open>src/iohandler/iohandler.py\<close>: rendering of templates.  A template is first expanded with
  \<open>chevron\<close> until nothing changes, then the calls \<open>keep.f(\<dots>)\<close> in it are cut out by a
  character scanner, parsed with Python's \<open>ast\<close>, evaluated and replaced by the text of their
  values.  Code outside the repository is the record \<open>io_env\<close>: \<open>chevron\<close> gives the expanded text
  and what it wrote to stderr; \<open>ast_parse\<close> gives the statements of a module, each with its
  expression if it has one; \<open>keep_function\<close> looks up a function of \<open>src/functions\<close> with whether
  its signature has \<open>kwargs\<close>.  The URL shortener of the command line client is off, as it is
  whenever no click context is given.
\<close>

section \<open>What the renderer calls\<close>

datatype ast =
    ACall "string option" "ast list" "(string \<times> ast) list"
  | AConst string
  | ADict "pyval result"
  | ASeq string
  | AName string
  | AOther

type_synonym keep_fun = "bool \<times> (pyval list \<Rightarrow> pydict \<Rightarrow> pyval result)"

record io_env =
  chevron :: "string \<Rightarrow> pydict \<Rightarrow> (string \<times> string) result"
  html_unescape :: "string \<Rightarrow> string"
  ast_parse :: "string \<Rightarrow> ast option list result"
  py_eval :: "string \<Rightarrow> pyval result"
  keep_function :: "string \<Rightarrow> keep_fun option"

section \<open>Quoting of mustache tags\<close>

text \<open>The regular expression at one position: two opening braces, a non-empty run of other
  characters than a closing brace, two closing braces and no quote after them.  Leading white space
  is not part of the group, unless the run is nothing else.\<close>

definition not_brace :: "char \<Rightarrow> bool" where
  "not_brace c \<longleftrightarrow> c \<noteq> CHR ''}''"

definition quote_group :: "string \<Rightarrow> string" where
  "quote_group body = (if dropWhile is_space body = [] then [last body] else dropWhile is_space body)"

definition quote_match :: "string \<Rightarrow> (string \<times> nat) option" where
  "quote_match s =
     (let body = takeWhile not_brace (drop 2 s); rest = dropWhile not_brace (drop 2 s)
      in if starts_with ''{{'' s \<and> body \<noteq> [] \<and> starts_with ''}}'' rest
           \<and> \<not> starts_with [CHR 0x27] (drop 2 rest)
         then Some (quote_group body, length body + 4) else None)"

fun quote_scan :: "bool \<Rightarrow> nat \<Rightarrow> string \<Rightarrow> string" where
  "quote_scan after_quote k [] = []"
| "quote_scan after_quote (Suc k) (c # cs) = quote_scan (c = CHR 0x27) k cs"
| "quote_scan after_quote 0 (c # cs) =
     (case (if after_quote then None else quote_match (c # cs)) of
        Some (g, n) \<Rightarrow> [CHR 0x27] @ ''{{ '' @ g @ '' }}'' @ [CHR 0x27]
          @ quote_scan False (n - 1) cs
      | None \<Rightarrow> c # quote_scan (c = CHR 0x27) 0 cs)"

definition quote :: "string \<Rightarrow> string" where
  "quote template = quote_scan False 0 template"

section \<open>Cutting out the calls\<close>

text \<open>The inner loop, on the text from the character after the opening parenthesis.  Its state is
  the number of open parentheses, the quote character of the string being read, and whether the
  next character is escaped; one pass also says whether the quote at this index is to be escaped
  (the keys of the code's dictionary).  Looking past the last character raises
  \<open>IndexError\<close>.\<close>

definition is_quote :: "char \<Rightarrow> bool" where
  "is_quote c \<longleftrightarrow> c = CHR 0x22 \<or> c = CHR 0x27"

definition closes_string :: "char \<Rightarrow> bool" where
  "closes_string d \<longleftrightarrow> \<not> is_alnum d \<and> d \<noteq> CHR '' ''"

type_synonym scan_state = "nat \<times> char option \<times> bool"

definition scan_pass :: "scan_state \<Rightarrow> char \<Rightarrow> string \<Rightarrow> (scan_state \<times> bool) result" where
  "scan_pass st c rest =
     (case st of (pc, q, esc) \<Rightarrow>
      if c = CHR 0x5C \<and> q \<noteq> None \<and> \<not> esc then Inr ((pc, q, True), False)
      else if is_quote c then
        (if q = None then Inr ((pc, Some c, False), False)
         else if q = Some c \<and> \<not> esc then
           (case rest of
              [] \<Rightarrow> Inl (Exn EIndexError ''string index out of range'')
            | d # _ \<Rightarrow> if closes_string d then Inr ((pc, None, False), False)
                else Inr ((pc, q, False), True))
         else Inr ((pc, q, False), False))
      else if c = CHR ''('' \<and> q = None then Inr ((Suc pc, q, False), False)
      else if c = CHR '')'' \<and> q = None then Inr ((pc - 1, q, False), False)
      else Inr ((pc, q, False), False))"

fun scan_call :: "nat \<Rightarrow> scan_state \<Rightarrow> nat list \<Rightarrow> string \<Rightarrow> (nat \<times> nat \<times> nat list) result" where
  "scan_call i st es [] = Inr (i, fst st, es)"
| "scan_call i st es (c # cs) =
     (if fst st = 0 \<and> fst (snd st) = None then Inr (i, fst st, es)
      else rbind (scan_pass st c cs) (\<lambda>r.
        scan_call (Suc i) (fst r) (if snd r then es @ [i] else es) cs))"

lemma scan_call_ge: "scan_call i st es cs = Inr (j, pc, es') \<Longrightarrow> i \<le> j \<and> j \<le> i + length cs"
proof (induction cs arbitrary: i st es)
  case (Cons c cs)
  show ?case
  proof (cases "fst st = 0 \<and> fst (snd st) = None")
    case True
    with Cons.prems show ?thesis by simp
  next
    case False
    with Cons.prems obtain r where
      "scan_call (Suc i) (fst r) (if snd r then es @ [i] else es) cs = Inr (j, pc, es')"
      by (simp only: scan_call.simps if_False rbind_Inr_iff) blast
    from Cons.IH [OF this] show ?thesis by simp
  qed
qed simp

type_synonym keep_token = "string \<times> nat list"

definition opening_after :: "string \<Rightarrow> nat \<Rightarrow> nat option" where
  "opening_after text start = map_option ((+) start) (find_sub ''('' (drop start text))"

function extract_from :: "string \<Rightarrow> nat \<Rightarrow> keep_token list result" where
  "extract_from text i =
     (if i < length text then
        (if take 5 (drop i text) = ''keep.'' then
           (case opening_after text i of
              Some f \<Rightarrow>
                (case scan_call (Suc f) (1, None, False) [] (drop (Suc f) text) of
                   Inl e \<Rightarrow> Inl e
                 | Inr (j, pc, es) \<Rightarrow>
                     rbind (extract_from text j) (\<lambda>ts.
                       Inr (if pc = 0 then (take (j - i) (drop i text), es) # ts else ts)))
            | None \<Rightarrow> extract_from text (i + 5))
         else extract_from text (Suc i))
      else Inr [])"
  by pat_completeness auto
termination
proof (relation "measure (\<lambda>(text, i). length text - i)")
  fix s :: string and i f jp j y pc es
  assume i: "i < length s" and f: "opening_after s i = Some f"
    and s: "scan_call (Suc f) (1, None, False) [] (drop (Suc f) s) = Inr jp"
    "(j, y) = jp" "(pc, es) = y"
  have "i \<le> f" using f by (auto simp: opening_after_def)
  moreover have "Suc f \<le> j" using s scan_call_ge by (metis)
  ultimately show "((s, j), s, i) \<in> measure (\<lambda>(text, i). length text - i)"
    using i by simp
qed auto

declare extract_from.simps [simp del]

definition extract_keep_functions :: "string \<Rightarrow> keep_token list result" where
  "extract_keep_functions text = extract_from text 0"

section \<open>Evaluating a call\<close>

text \<open>A falsy argument is dropped unless it is the empty string or zero.\<close>

definition keep_arg :: "pyval \<Rightarrow> bool" where
  "keep_arg v \<longleftrightarrow> truthy v \<or> v = PStr [] \<or> v = PInt 0"

definition bracketed :: "string \<Rightarrow> bool" where
  "bracketed s \<longleftrightarrow> starts_with ''['' s \<and> ends_with '']'' s
     \<or> starts_with ''{'' s \<and> ends_with ''}'' s \<or> starts_with ''('' s \<and> ends_with '')'' s"

definition escape_newlines :: "pyval \<Rightarrow> pyval" where
  "escape_newlines v = (case v of PStr s \<Rightarrow> PStr (py_replace [CHR 0x0A] [CHR 0x5C, CHR ''n''] s) | _ \<Rightarrow> v)"

definition apply_function ::
  "io_env \<Rightarrow> string \<Rightarrow> string option \<Rightarrow> pyval list \<Rightarrow> pydict \<Rightarrow> pyval result" where
  "apply_function env tenant_id attr as ks =
     (case Option.bind attr (keep_function env) of
        None \<Rightarrow> Inl (Exn EAttributeError (case attr of None \<Rightarrow> ''attr'' | Some f \<Rightarrow> f))
      | Some (takes_kwargs, f) \<Rightarrow>
          let ks = (if takes_kwargs then dset ''tenant_id'' (PStr tenant_id) ks else ks)
          in (case f as ks of
                Inr v \<Rightarrow> Inr v
              | Inl e \<Rightarrow> if is_value_error (exn_kind e)
                  then f (map escape_newlines as) (map (\<lambda>(k, v). (k, escape_newlines v)) ks)
                  else Inl e))"

text \<open>\<open>_parse_token\<close>'s inner function.  An expression that is not a call has the value
  \<open>None\<close>.  A bracketed literal is evaluated; on \<open>ValueError\<close> a positional argument
  stays text and a keyword argument is not passed at all.\<close>

fun parse_call :: "io_env \<Rightarrow> string \<Rightarrow> ast \<Rightarrow> pyval result"
  and parse_arg :: "io_env \<Rightarrow> string \<Rightarrow> ast \<Rightarrow> pyval result"
  and parse_args :: "io_env \<Rightarrow> string \<Rightarrow> ast list \<Rightarrow> pyval list result"
  and parse_keywords :: "io_env \<Rightarrow> string \<Rightarrow> pydict \<Rightarrow> (string \<times> ast) list \<Rightarrow> pydict result" where
  "parse_call env tid (ACall attr as ks) =
     rbind (parse_args env tid as) (\<lambda>vs.
       rbind (parse_keywords env tid [] ks) (\<lambda>kvs. apply_function env tid attr vs kvs))"
| "parse_call env tid (AConst s) = Inr PNone"
| "parse_call env tid (ADict r) = Inr PNone"
| "parse_call env tid (ASeq s) = Inr PNone"
| "parse_call env tid (AName i) = Inr PNone"
| "parse_call env tid AOther = Inr PNone"
| "parse_arg env tid (ACall attr as ks) =
     rbind (parse_args env tid as) (\<lambda>vs.
       rbind (parse_keywords env tid [] ks) (\<lambda>kvs. apply_function env tid attr vs kvs))"
| "parse_arg env tid (AConst s) = Inr (PStr s)"
| "parse_arg env tid (ADict r) = r"
| "parse_arg env tid (ASeq s) =
     (if bracketed (py_strip s) then
        (case py_eval env (py_strip s) of
           Inr v \<Rightarrow> Inr v
         | Inl e \<Rightarrow> if is_value_error (exn_kind e) then Inr (PStr (py_strip s)) else Inl e)
      else Inr (PStr (py_strip s)))"
| "parse_arg env tid (AName i) = Inr (PStr i)"
| "parse_arg env tid AOther = Inl (Exn EAttributeError ''id'')"
| "parse_args env tid [] = Inr []"
| "parse_args env tid (a # as) =
     rbind (parse_arg env tid a) (\<lambda>v. rbind (parse_args env tid as) (\<lambda>vs.
       Inr (if keep_arg v then v # vs else vs)))"
| "parse_keywords env tid d [] = Inr d"
| "parse_keywords env tid d ((k, a) # ks) =
     (case a of
        ASeq s \<Rightarrow>
          if bracketed (py_strip s) then
            (case py_eval env (py_strip s) of
               Inr v \<Rightarrow> parse_keywords env tid (dset k v d) ks
             | Inl e \<Rightarrow> if is_value_error (exn_kind e) then parse_keywords env tid d ks else Inl e)
          else parse_keywords env tid d ks
      | _ \<Rightarrow> rbind (parse_arg env tid a) (\<lambda>v. parse_keywords env tid (dset k v d) ks))"

definition parse_module :: "io_env \<Rightarrow> string \<Rightarrow> ast option list \<Rightarrow> pyval result" where
  "parse_module env tid body =
     (case body of
        [] \<Rightarrow> Inl (Exn EIndexError ''list index out of range'')
      | None # _ \<Rightarrow> Inl (Exn EAttributeError ''value'')
      | Some e # _ \<Rightarrow> parse_call env tid e)"

text \<open>\<open>_encode_single_quotes_in_double_quotes\<close>; \<open>after_bs\<close> says that the previous character
  is a backslash.\<close>

fun encode_scan :: "bool \<Rightarrow> bool \<Rightarrow> string \<Rightarrow> string" where
  "encode_scan in_dq after_bs [] = []"
| "encode_scan in_dq after_bs (c # cs) =
     (if c = CHR 0x22 then c # encode_scan (\<not> in_dq) False cs
      else if c = CHR 0x27 \<and> in_dq then
        (if after_bs then [c] else [CHR 0x5C, c]) @ encode_scan in_dq False cs
      else c # encode_scan in_dq (c = CHR 0x5C) cs)"

definition encode_single_quotes_in_double_quotes :: "string \<Rightarrow> string" where
  "encode_single_quotes_in_double_quotes s = encode_scan False False s"

text \<open>\<open>str.encode("unicode_escape")\<close>.\<close>

definition unicode_escape :: "string \<Rightarrow> string" where
  "unicode_escape s = concat (map (\<lambda>c.
     (let n = (of_char c :: nat) in
      if n = 92 then [CHR 0x5C, CHR 0x5C]
      else if n = 10 then [CHR 0x5C, CHR ''n'']
      else if n = 13 then [CHR 0x5C, CHR ''r'']
      else if n = 9 then [CHR 0x5C, CHR ''t'']
      else if n < 32 \<or> 127 \<le> n then [CHR 0x5C, CHR ''x''] @ hex_byte c
      else [c])) s)"

abbreviation nl :: string where "nl \<equiv> [CHR 0x0A]"
abbreviation cr :: string where "cr \<equiv> [CHR 0x0D]"
abbreviation bs_n :: string where "bs_n \<equiv> [CHR 0x5C, CHR ''n'']"

definition unescape_token :: "io_env \<Rightarrow> string \<Rightarrow> string" where
  "unescape_token env token = html_unescape env
     (py_replace cr [] (py_replace bs_n [] (py_replace nl [] (py_replace (cr @ nl) [] token))))"

definition escape_token :: "io_env \<Rightarrow> string \<Rightarrow> string" where
  "escape_token env token = encode_single_quotes_in_double_quotes
     (py_replace nl bs_n (py_replace [CHR 0x5C] [] (py_replace bs_n nl
       (html_unescape env (py_replace nl [] (py_replace (cr @ nl) [] token))))))"

definition requote_token :: "string \<Rightarrow> string" where
  "requote_token t = py_replace [CHR 0x27, CHR '',''] [CHR 0x22, CHR '','']
     (py_replace [CHR 0x27, CHR '')''] [CHR 0x22, CHR '')'']
       (py_replace [CHR ''('', CHR 0x27] [CHR ''('', CHR 0x22] t))"

text \<open>The parse attempts of \<open>_parse_token\<close>, each tried when the one before raised.\<close>

definition parse_attempts :: "io_env \<Rightarrow> string \<Rightarrow> ast option list result" where
  "parse_attempts env token =
     (case ast_parse env token of
        Inr body \<Rightarrow> Inr body
      | Inl e \<Rightarrow>
          if exn_kind e \<noteq> ESyntaxError then Inl e
          else if contains_sub ''unterminated string literal'' (exn_msg e) then
            (case ast_parse env (unescape_token env token) of
               Inr body \<Rightarrow> Inr body
             | Inl _ \<Rightarrow>
                 (case ast_parse env (escape_token env token) of
                    Inr body \<Rightarrow> Inr body
                  | Inl _ \<Rightarrow> ast_parse env (requote_token (escape_token env token))))
          else ast_parse env (unicode_escape token))"

definition parse_token :: "io_env \<Rightarrow> string \<Rightarrow> string \<Rightarrow> pyval result" where
  "parse_token env tid token = rbind (parse_attempts env token) (parse_module env tid)"

section \<open>Replacing the calls by their values\<close>

definition trim_token_error :: "string \<Rightarrow> string" where
  "trim_token_error token =
     (if 64 < length token then
        (case py_split ''keep.'' token of
           _ # p # _ \<Rightarrow> ''keep.'' @ hd (py_split ''('' p) @ ''(...)''
         | _ \<Rightarrow> token)
      else token)"

definition token_error :: "string \<Rightarrow> exn \<Rightarrow> exn" where
  "token_error token e =
     (case rev (splitlines (exn_msg e)) of
        [] \<Rightarrow> Exn EIndexError ''list index out of range''
      | l # _ \<Rightarrow> Exn EException (''Got '' @ kind_name (exn_kind e) @ '' while parsing token ''
          @ [CHR 0x27] @ trim_token_error token @ [CHR 0x27] @ '': '' @ l))"

definition insert_escape :: "nat \<Rightarrow> string \<Rightarrow> string" where
  "insert_escape n token = take n token @ [CHR 0x5C] @ drop n token"

fun escape_counted :: "nat \<Rightarrow> nat list \<Rightarrow> string \<Rightarrow> string" where
  "escape_counted k [] token = token"
| "escape_counted k (e # es) token = escape_counted (Suc k) es (insert_escape (e + k) token)"

fun escape_uncounted :: "nat list \<Rightarrow> string \<Rightarrow> string" where
  "escape_uncounted [] token = token"
| "escape_uncounted (e # es) token = escape_uncounted es (insert_escape e token)"

definition eval_token :: "io_env \<Rightarrow> string \<Rightarrow> string \<Rightarrow> pyval result" where
  "eval_token env tid token =
     (case parse_token env tid token of Inr v \<Rightarrow> Inr v | Inl e \<Rightarrow> Inl (token_error token e))"

definition replace_single :: "io_env \<Rightarrow> string \<Rightarrow> string \<Rightarrow> keep_token \<Rightarrow> pyval result" where
  "replace_single env tid parsed t =
     (case t of (tok, es) \<Rightarrow>
       rbind (eval_token env tid (escape_counted 0 es tok)) (\<lambda>v.
         (case v of
            PDict d \<Rightarrow>
              if parsed = tok then Inr v
              else (case json_dumps v of
                      None \<Rightarrow> Inl (Exn ETypeError ''not JSON serializable'')
                    | Some j \<Rightarrow> Inr (PStr (py_replace tok j parsed)))
          | _ \<Rightarrow> Inr (PStr (py_replace tok (py_str v) parsed)))))"

fun replace_all :: "io_env \<Rightarrow> string \<Rightarrow> string list \<Rightarrow> string \<Rightarrow> keep_token list \<Rightarrow> string result" where
  "replace_all env tid handled parsed [] = Inr parsed"
| "replace_all env tid handled parsed ((tok, es) # ts) =
     (if tok \<in> set handled then replace_all env tid handled parsed ts
      else rbind (eval_token env tid (escape_uncounted es tok)) (\<lambda>v.
        replace_all env tid (tok # handled) (py_replace tok (py_str v) parsed) ts))"

definition raw_prefix :: string where
  "raw_prefix = ''raw_render_without_execution(''"

definition parse_rendered :: "io_env \<Rightarrow> string \<Rightarrow> string \<Rightarrow> pyval result" where
  "parse_rendered env tid s =
     (if starts_with raw_prefix s \<and> ends_with '')'' s
      then Inr (PStr (rev (replace_first '')'' [] (rev (replace_first raw_prefix [] s)))))
      else rbind (extract_keep_functions s) (\<lambda>ts.
        (case ts of
           [] \<Rightarrow> Inr (PStr s)
         | [t] \<Rightarrow> replace_single env tid s t
         | _ \<Rightarrow> rbind (replace_all env tid [] s ts) (\<lambda>r. Inr (PStr r)))))"

section \<open>Rendering\<close>

text \<open>\<open>render_recursively\<close> with \<open>n\<close> iterations left; the warnings are kept from the first
  iteration only, the one that runs with \<open>warn=True\<close>.\<close>

definition render_once :: "io_env \<Rightarrow> pydict \<Rightarrow> string \<Rightarrow> (string \<times> string) result" where
  "render_once env context tmpl =
     rbind (chevron env tmpl context) (\<lambda>(r, warnings). Inr (html_unescape env r, warnings))"

definition render_stops :: "string \<Rightarrow> string \<Rightarrow> bool" where
  "render_stops current rendered \<longleftrightarrow>
     rendered = current \<or> \<not> contains_sub ''{{'' rendered \<or> contains_sub ''providers.'' rendered"

fun render_loop :: "io_env \<Rightarrow> pydict \<Rightarrow> nat \<Rightarrow> string \<Rightarrow> string result" where
  "render_loop env context 0 current = Inr current"
| "render_loop env context (Suc n) current =
     rbind (render_once env context current) (\<lambda>(rendered, _).
       if render_stops current rendered then Inr rendered
       else render_loop env context n rendered)"

definition max_iterations :: nat where "max_iterations = 10"

definition render_recursively :: "io_env \<Rightarrow> pydict \<Rightarrow> string \<Rightarrow> (string \<times> string) result" where
  "render_recursively env context tmpl =
     rbind (render_once env context tmpl) (\<lambda>(_, warnings).
       rbind (render_loop env context max_iterations tmpl) (\<lambda>r. Inr (r, warnings)))"

text \<open>The list of missing keys comes out of a set; the model keeps its members in order of first
  occurrence.\<close>

definition missing_key_error :: "string \<Rightarrow> exn" where
  "missing_key_error err_output =
     (let parts = py_split ''Could not find key'' err_output
      in Exn ERenderException
        ((if 1 < count_sub ''Could not find key'' err_output
          then ''Could not find keys: '' @
            py_join '', '' (remdups (map (\<lambda>k. py_replace nl [] (py_strip k)) (tl parts)))
          else py_replace nl [] err_output) @ '' in the context.''))"

definition render_key :: "io_env \<Rightarrow> ctx \<Rightarrow> bool \<Rightarrow> pyval \<Rightarrow> pydict \<Rightarrow> string \<Rightarrow> pyval result" where
  "render_key env c safe dflt additional key =
     (let safe = safe \<and> \<not> contains_sub ''{{^'' key \<and> \<not> contains_sub ''{{ ^'' key;
          context = dupdate (get_full_context True c) additional
      in rbind (render_recursively env context key) (\<lambda>(rendered, err_output).
           let rendered = py_replace ''&quot;'' [CHR 0x22] rendered
           in if safe \<and> contains_sub ''Could not find key'' err_output
              then Inl (missing_key_error err_output)
              else if rendered = [] then Inr dflt else Inr (PStr rendered)))"

text \<open>\<open>parse\<close>: a default that is not text has no \<open>startswith\<close>.\<close>

definition parse :: "io_env \<Rightarrow> ctx \<Rightarrow> bool \<Rightarrow> pyval \<Rightarrow> pydict \<Rightarrow> string \<Rightarrow> pyval result" where
  "parse env c safe dflt additional tmpl =
     rbind (render_key env c safe dflt additional tmpl) (\<lambda>v.
       (case v of
          PStr s \<Rightarrow> parse_rendered env (cm_tenant_id c) s
        | _ \<Rightarrow> Inl (Exn EAttributeError ''startswith'')))"

definition balanced :: "string \<Rightarrow> bool" where
  "balanced tmpl \<longleftrightarrow> count_sub ''}}'' tmpl = count_sub ''{{'' tmpl
     \<and> count_sub ''('' tmpl = count_sub '')'' tmpl"

definition render :: "io_env \<Rightarrow> ctx \<Rightarrow> bool \<Rightarrow> pyval \<Rightarrow> pydict \<Rightarrow> pyval \<Rightarrow> pyval result" where
  "render env c safe dflt additional tmpl =
     (case tmpl of
        PStr s \<Rightarrow>
          if count_sub ''}}'' s \<noteq> count_sub ''{{'' s
          then Inl (Exn EException (''Invalid template - number of } and { does not match '' @ s))
          else if count_sub ''('' s \<noteq> count_sub '')'' s
          then Inl (Exn EException (''Invalid template - number of ( and ) does not match '' @ s))
          else parse env c safe dflt additional s
      | _ \<Rightarrow> Inr tmpl)"

text \<open>\<open>render_context\<close> and \<open>_render_list_context\<close>: a \<open>StepProviderParameter\<close> is rendered
  in a dictionary and kept as it is in a list.\<close>

fun render_value :: "io_env \<Rightarrow> ctx \<Rightarrow> pydict \<Rightarrow> bool \<Rightarrow> pyval \<Rightarrow> pyval result"
  and render_items :: "io_env \<Rightarrow> ctx \<Rightarrow> pydict \<Rightarrow> pydict \<Rightarrow> pydict result"
  and render_list :: "io_env \<Rightarrow> ctx \<Rightarrow> pydict \<Rightarrow> pyval list \<Rightarrow> pyval list result" where
  "render_value env c extra in_dict (PStr s) = render env c True (PStr []) extra (PStr s)"
| "render_value env c extra in_dict (PList vs) = rbind (render_list env c extra vs) (\<lambda>vs. Inr (PList vs))"
| "render_value env c extra in_dict (PDict d) = rbind (render_items env c extra d) (\<lambda>d. Inr (PDict d))"
| "render_value env c extra in_dict (PParam key safe dflt) =
     (if in_dict then render env c (safe \<and> dflt \<noteq> PNone) dflt extra (PStr key)
      else Inr (PParam key safe dflt))"
| "render_value env c extra in_dict PNone = Inr PNone"
| "render_value env c extra in_dict (PBool b) = Inr (PBool b)"
| "render_value env c extra in_dict (PInt i) = Inr (PInt i)"
| "render_items env c extra [] = Inr []"
| "render_items env c extra ((k, v) # d) =
     rbind (render_value env c extra True v) (\<lambda>v.
       rbind (render_items env c extra d) (\<lambda>d. Inr ((k, v) # d)))"
| "render_list env c extra [] = Inr []"
| "render_list env c extra (v # vs) =
     rbind (render_value env c extra False v) (\<lambda>v.
       rbind (render_list env c extra vs) (\<lambda>vs. Inr (v # vs)))"

definition render_context :: "io_env \<Rightarrow> ctx \<Rightarrow> pydict \<Rightarrow> pydict \<Rightarrow> pydict result" where
  "render_context env c extra d = render_items env c extra d"

section \<open>Lemmas\<close>

lemma scan_call_closes:
  assumes "scan_call i st es cs = Inr (j, 0, es')" "fst st \<noteq> 0"
  shows "i < j \<and> cs ! (j - Suc i) = CHR '')''"
  using assms
proof (induction cs arbitrary: i st es)
  case (Cons c cs)
  then obtain r where r: "scan_pass st c cs = Inr r"
    and s: "scan_call (Suc i) (fst r) (if snd r then es @ [i] else es) cs = Inr (j, 0, es')"
    by (simp only: scan_call.simps rbind_Inr_iff if_False simp_thms) blast
  show ?case
  proof (cases "fst (fst r) = 0")
    case False
    from Cons.IH [OF s False] have "Suc i < j" "cs ! (j - Suc (Suc i)) = CHR '')''" by simp_all
    then show ?thesis
      by (metis Suc_diff_Suc Suc_lessD nth_Cons_Suc)
  next
    case True
    with r Cons.prems(2) have "c = CHR '')'' \<and> fst (snd (fst r)) = None"
      by (auto simp: scan_pass_def split: prod.splits if_splits list.splits)
    with s True have "c = CHR '')''" "j = Suc i" by (cases cs; simp)+
    then show ?thesis by simp
  qed
qed simp

lemma opening_after_props:
  assumes "opening_after s i = Some f"
  shows "i \<le> f \<and> f < length s"
proof -
  obtain k where k: "find_sub ''('' (drop i s) = Some k" "f = i + k"
    using assms by (auto simp: opening_after_def)
  have "take 1 (drop k (drop i s)) = ''(''" using find_sub_Some [OF k(1)] by simp
  then have "drop k (drop i s) \<noteq> []" by auto
  with k(2) show ?thesis by simp
qed

lemma scan_call_escapes:
  assumes "scan_call i st es cs = Inr (j, pc, es')" "e \<in> set es'"
  shows "e \<in> set es \<or> (i \<le> e \<and> e < j \<and> e < i + length cs \<and> is_quote (cs ! (e - i)))"
  using assms
proof (induction cs arbitrary: i st es)
  case (Cons c cs)
  show ?case
  proof (cases "fst st = 0 \<and> fst (snd st) = None")
    case True
    with Cons.prems show ?thesis by simp
  next
    case False
    with Cons.prems(1) obtain r where r: "scan_pass st c cs = Inr r"
      and s: "scan_call (Suc i) (fst r) (if snd r then es @ [i] else es) cs = Inr (j, pc, es')"
      by (simp only: scan_call.simps rbind_Inr_iff if_False) blast
    have q: "snd r \<Longrightarrow> is_quote c"
      using r by (auto simp: scan_pass_def split: prod.splits if_splits list.splits)
    have ij: "Suc i \<le> j" using scan_call_ge [OF s] by simp
    have "e \<in> set (if snd r then es @ [i] else es) \<or> (Suc i \<le> e \<and> e < j \<and> e < Suc i + length cs
        \<and> is_quote (cs ! (e - Suc i)))"
      using Cons.IH [OF s Cons.prems(2)] .
    then show ?thesis
    proof
      assume "e \<in> set (if snd r then es @ [i] else es)"
      with q ij show ?thesis by (auto split: if_splits)
    next
      assume a: "Suc i \<le> e \<and> e < j \<and> e < Suc i + length cs \<and> is_quote (cs ! (e - Suc i))"
      then have "e - i = Suc (e - Suc i)" by (simp add: Suc_diff_Suc Suc_le_eq)
      with a show ?thesis by simp
    qed
  qed
qed simp

text \<open>Where a token lies in the text, and what the code records with it.\<close>

definition token_at :: "string \<Rightarrow> nat \<Rightarrow> keep_token \<Rightarrow> bool" where
  "token_at s k t \<longleftrightarrow>
     k + length (fst t) \<le> length s \<and> take (length (fst t)) (drop k s) = fst t
     \<and> starts_with ''keep.'' (fst t) \<and> last (fst t) = CHR '')''
     \<and> (\<forall>e \<in> set (snd t). k \<le> e \<and> e < k + length (fst t) \<and> is_quote (s ! e))"

lemma token_found:
  assumes i: "take 5 (drop i s) = ''keep.''" and f: "opening_after s i = Some f"
    and sc: "scan_call (Suc f) (1, None, False) [] (drop (Suc f) s) = Inr (j, 0, es)"
  shows "token_at s i (take (j - i) (drop i s), es)"
proof -
  have f': "i \<le> f" "f < length s" using opening_after_props [OF f] by auto
  have j: "Suc f \<le> j" "j \<le> length s" using scan_call_ge [OF sc] f' by auto
  have cl: "Suc f < j" "drop (Suc f) s ! (j - Suc (Suc f)) = CHR '')''"
    using scan_call_closes [OF sc] by auto
  have sj: "s ! (j - 1) = CHR '')''"
    using cl j f' by (simp add: Suc_diff_Suc numeral_2_eq_2)
  have "f - i < 5 \<Longrightarrow> s ! f \<in> set ''keep.''"
  proof -
    assume a: "f - i < 5"
    have "take 5 (drop i s) ! (f - i) = s ! f" using a f' by simp
    then show ?thesis using i a by (metis length_take length_drop min_less_iff_conj nth_mem f' less_diff_conv2 diff_less_mono)
  qed
  moreover have sf: "s ! f = CHR ''(''"
  proof -
    obtain k where k: "find_sub ''('' (drop i s) = Some k" "f = i + k"
      using f by (auto simp: opening_after_def)
    have "take 1 (drop k (drop i s)) = ''(''" using find_sub_Some [OF k(1)] by simp
    then show ?thesis using f' k(2) by (metis drop_drop add.commute hd_drop_conv_nth list.sel(1) hd_take zero_less_one)
  qed
  ultimately have "i + 5 \<le> f" using f' by (cases "f - i < 5") auto
  then have "5 \<le> j - i" using j by simp
  then have p: "starts_with ''keep.'' (take (j - i) (drop i s))"
  proof -
    assume "5 \<le> j - i"
    then have "take 5 (take (j - i) (drop i s)) = ''keep.''" using i by (simp only: take_take min_absorb1)
    moreover have "length ''keep.'' = 5" by simp
    ultimately show ?thesis by (simp only: starts_with_def)
  qed
  have len: "length (take (j - i) (drop i s)) = j - i" using j by simp
  have ij: "i < j" using j f' by simp
  have l: "last (take (j - i) (drop i s)) = CHR '')''"
  proof -
    have ne: "take (j - i) (drop i s) \<noteq> []" using ij j by auto
    show ?thesis unfolding last_conv_nth [OF ne] len using ij j sj by simp
  qed
  have e: "Suc f \<le> e \<and> e < j \<and> is_quote (s ! e)" if "e \<in> set es" for e
    using scan_call_escapes [OF sc that] f' by auto
  show ?thesis
    unfolding token_at_def fst_conv snd_conv
    using p l j ij e f' len by fastforce
qed

lemma extract_from_tokens:
  "extract_from s i = Inr ts \<Longrightarrow> t \<in> set ts \<Longrightarrow> \<exists>k. token_at s k t"
proof (induction s i arbitrary: ts rule: extract_from.induct)
  case (1 s i)
  show ?case
  proof (cases "i < length s \<and> take 5 (drop i s) = ''keep.'' \<and> opening_after s i \<noteq> None")
    case False
    then consider "\<not> i < length s" | "i < length s" "take 5 (drop i s) \<noteq> ''keep.''"
      | "i < length s" "take 5 (drop i s) = ''keep.''" "opening_after s i = None" by auto
    then show ?thesis
    proof cases
      case 1
      with "1.prems" show ?thesis by (subst (asm) extract_from.simps) simp
    next
      case 2
      with "1.prems" have "extract_from s (Suc i) = Inr ts"
        by (subst (asm) extract_from.simps) simp
      from "1.IH"(3) [OF 2 this "1.prems"(2)] show ?thesis .
    next
      case 3
      with "1.prems" have "extract_from s (i + 5) = Inr ts"
        by (subst (asm) extract_from.simps) simp
      from "1.IH"(1) [OF 3 this "1.prems"(2)] show ?thesis .
    qed
  next
    case True
    then obtain f where f: "i < length s" "take 5 (drop i s) = ''keep.''" "opening_after s i = Some f"
      by auto
    show ?thesis
    proof (cases "scan_call (Suc f) (1, None, False) [] (drop (Suc f) s)")
      case (Inl e)
      with f "1.prems" show ?thesis by (subst (asm) extract_from.simps) simp
    next
      case (Inr r)
      obtain j pc es where r: "r = (j, pc, es)" by (cases r)
      from "1.prems"(1) f Inr r obtain ts' where ts': "extract_from s j = Inr ts'"
        "ts = (if pc = 0 then (take (j - i) (drop i s), es) # ts' else ts')"
        by (subst (asm) extract_from.simps) (auto simp: rbind_Inr_iff)
      show ?thesis
      proof (cases "t \<in> set ts'")
        case True
        from "1.IH"(2) [OF f Inr r [symmetric] refl ts'(1) True] show ?thesis .
      next
        case False
        with ts'(2) "1.prems"(2) have "pc = 0" "t = (take (j - i) (drop i s), es)"
          by (auto split: if_splits)
        with token_found [OF f(2,3)] Inr r show ?thesis by blast
      qed
    qed
  qed
qed

text \<open>\<open>n\<close> rounds of rendering, without any stopping condition.\<close>

fun render_n :: "io_env \<Rightarrow> pydict \<Rightarrow> nat \<Rightarrow> string \<Rightarrow> string result" where
  "render_n env context 0 current = Inr current"
| "render_n env context (Suc n) current =
     rbind (render_once env context current) (\<lambda>(rendered, _). render_n env context n rendered)"

text \<open>The last of \<open>n\<close> rounds goes from \<open>prev\<close> to \<open>r\<close>, and no earlier round may stop.\<close>

fun rounds_to :: "io_env \<Rightarrow> pydict \<Rightarrow> nat \<Rightarrow> string \<Rightarrow> string \<Rightarrow> string \<Rightarrow> bool" where
  "rounds_to env context 0 current prev r \<longleftrightarrow> False"
| "rounds_to env context (Suc n) current prev r \<longleftrightarrow>
     (case render_once env context current of
        Inl e \<Rightarrow> False
      | Inr (rendered, _) \<Rightarrow>
          if n = 0 then prev = current \<and> r = rendered
          else \<not> render_stops current rendered \<and> rounds_to env context n rendered prev r)"

lemma rounds_to_render_n:
  "rounds_to env context n current prev r \<Longrightarrow> render_n env context n current = Inr r"
  by (induction n arbitrary: current)
    (auto split: sum.splits prod.splits if_splits)

lemma render_loop_rounds:
  "render_loop env context n current = Inr r \<Longrightarrow> 0 < n \<Longrightarrow>
     \<exists>k prev. 0 < k \<and> k \<le> n \<and> rounds_to env context k current prev r
       \<and> (k < n \<longrightarrow> render_stops prev r)"
proof (induction n arbitrary: current)
  case (Suc n)
  from Suc.prems(1) obtain r1 w where r1: "render_once env context current = Inr (r1, w)"
    by (auto simp: rbind_Inr_iff)
  show ?case
  proof (cases "render_stops current r1")
    case True
    with Suc.prems(1) r1 have "r = r1" by simp
    with r1 True show ?thesis by (intro exI [of _ "Suc 0"] exI [of _ current]) simp
  next
    case False
    with Suc.prems(1) r1 have l: "render_loop env context n r1 = Inr r" by simp
    show ?thesis
    proof (cases "n = 0")
      case True
      with l r1 show ?thesis by (intro exI [of _ "Suc 0"] exI [of _ current]) simp
    next
      case n: False
      with Suc.IH [OF l] obtain k prev where k: "0 < k" "k \<le> n"
        "rounds_to env context k r1 prev r" "k < n \<longrightarrow> render_stops prev r" by blast
      with False r1 show ?thesis by (intro exI [of _ "Suc k"] exI [of _ prev]) simp
    qed
  qed
qed simp

text \<open>What the call scanner cuts out.  Every token is a part of the text that begins with
  \<open>keep.\<close> and ends with a closing parenthesis, and every recorded escape index is the
  position, counted from the start of the whole text, of a quote character inside that token.\<close>

theorem extracted_tokens:
  assumes "extract_keep_functions s = Inr ts" and "t \<in> set ts"
  shows "\<exists>k. token_at s k t"
  using assms extract_from_tokens by (simp add: extract_keep_functions_def)

text \<open>C13: recursive rendering.  The result is reached by between one and ten rounds of expansion;
  no round before the last was one at which rendering stops, and unless all ten were used the last
  round changed nothing, left no tag, or produced a reference to \<open>providers.\<close>.\<close>

theorem render_recursively_rounds:
  assumes "render_recursively env context tmpl = Inr (r, w)"
  shows "\<exists>k prev. 0 < k \<and> k \<le> 10 \<and> rounds_to env context k tmpl prev r
    \<and> render_n env context k tmpl = Inr r
    \<and> (k < 10 \<longrightarrow> r = prev \<or> \<not> contains_sub ''{{'' r \<or> contains_sub ''providers.'' r)"
proof -
  have l: "render_loop env context 10 tmpl = Inr r"
    using assms by (auto simp: render_recursively_def rbind_Inr_iff max_iterations_def)
  obtain k prev where k: "0 < k" "k \<le> 10" "rounds_to env context k tmpl prev r"
    "k < 10 \<longrightarrow> render_stops prev r"
    using render_loop_rounds [OF l] by auto
  from k(3) have "render_n env context k tmpl = Inr r" by (rule rounds_to_render_n)
  with k show ?thesis unfolding render_stops_def by blast
qed

text \<open>A template language for the witnesses: one tag \<open>{{a}}\<close> whose value is \<open>{{b}}\<close>, which has the
  value \<open>c\<close>.\<close>

definition demo_env :: io_env where
  "demo_env = \<lparr>chevron = (\<lambda>t d. if contains_sub ''{{a}}'' t then Inr (py_replace ''{{a}}'' ''{{b}}'' t, [])
       else Inr (py_replace ''{{b}}'' ''c'' t, [])),
     html_unescape = (\<lambda>t. t),
     ast_parse = (\<lambda>t. Inr [Some (ACall (Some ''f'') [AConst t] [])]),
     py_eval = (\<lambda>t. Inl (Exn EValueError [])),
     keep_function = (\<lambda>f. Some (False, (\<lambda>as ks. Inr (PInt (int (length as)))))) \<rparr>"

theorem extracted_tokens_witness:
  "\<exists>k. token_at ''a keep.f(x) b'' k (''keep.f(x)'', [])"
proof -
  have e: "extract_keep_functions ''a keep.f(x) b'' = Inr [(''keep.f(x)'', [])]" by code_simp
  show ?thesis using extracted_tokens [OF e, of "(''keep.f(x)'', [])"] by simp
qed

theorem render_recursively_rounds_witness:
  "\<exists>k. 0 < k \<and> k \<le> 10 \<and> render_n demo_env [] k ''x {{a}}'' = Inr ''x c''"
proof -
  have e: "render_recursively demo_env [] ''x {{a}}'' = Inr (''x c'', [])" by code_simp
  show ?thesis using render_recursively_rounds [OF e] by blast
qed

end
