(* ===== verification/Conditions.thy ===== *)
theory Conditions
  imports IOHandler "HOL-Library.Char_ord" Complex_Main
begin

text \<open>
  \<open>src/conditions/\<close>: the conditions a step evaluates before it runs.  \<open>assert\<close> and
  \<open>threshold\<close> are modelled; the arithmetic of \<open>stddev\<close> is a parameter, as are the conversion
  \<open>float(s)\<close> (its value as a real number, none on \<open>ValueError\<close>) and the expression interpreter
  \<open>asteval\<close>.  An interpreter is a function of the list of what it has been given so far:
  it yields the last value, its accumulated error message and whether the last call failed.
\<close>

record aeval_out =
  ae_value :: pyval
  ae_error_msg :: string
  ae_error :: bool

record cond_env =
  ce_io :: io_env
  py_float :: "string \<Rightarrow> real option"
  aeval :: "pyval list \<Rightarrow> aeval_out"
  apply_stddev :: "pyval \<Rightarrow> pyval \<Rightarrow> pyval \<Rightarrow> (bool \<times> pyval) result"

section \<open>The base class and the factory\<close>

record condition =
  cd_type :: string
  cd_name :: string
  cd_alias :: string
  cd_config :: pydict
  cd_context :: pydict

definition get_condition :: "pyval \<Rightarrow> string \<Rightarrow> pydict \<Rightarrow> condition result" where
  "get_condition ctype name config =
     (let c = \<lparr>cd_type = py_str ctype, cd_name = name,
        cd_alias = (case dget config ''alias'' of Some (PStr (a # as)) \<Rightarrow> a # as | _ \<Rightarrow> name),
        cd_config = config,
        cd_context = (if ctype = PStr ''stddev'' then [(''stddev'', PList [])] else [])\<rparr>
      in if ctype \<in> {PStr ''assert'', PStr ''threshold'', PStr ''stddev''} then Inr c
         else Inl (Exn (EOther ''ModuleNotFoundError'') (py_str ctype)))"

definition get_compare_to :: "cond_env \<Rightarrow> ctx \<Rightarrow> condition \<Rightarrow> pyval result" where
  "get_compare_to env c cd = render (ce_io env) c False (PStr []) [] (dict_get (cd_config cd) ''compare_to'' PNone)"

definition get_compare_value :: "cond_env \<Rightarrow> ctx \<Rightarrow> condition \<Rightarrow> pyval result" where
  "get_compare_value env c cd =
     (if cd_type cd = ''assert'' then
        render (ce_io env) c False (PStr []) [] (dict_get (cd_config cd) ''assert'' PNone)
      else rbind (render (ce_io env) c False (PStr []) [] (dict_get (cd_config cd) ''value'' PNone)) (\<lambda>v.
        if cd_type cd = ''stddev'' then Inr v
        else (case v of PStr s \<Rightarrow> Inr (PStr (py_strip s)) | _ \<Rightarrow> Inl (Exn EAttributeError ''strip''))))"

section \<open>Assert\<close>

definition apply_assert :: "cond_env \<Rightarrow> pyval \<Rightarrow> bool result" where
  "apply_assert env compare_value =
     (case compare_value of
        PStr s \<Rightarrow> Inr (truthy (ae_value (aeval env [PStr (unicode_escape s)])))
      | _ \<Rightarrow> Inl (Exn EAttributeError ''encode''))"

section \<open>Threshold\<close>

text \<open>\<open>str(a).replace(".", "", 1).isdigit()\<close>.\<close>

definition looks_numeric :: "string \<Rightarrow> bool" where
  "looks_numeric s \<longleftrightarrow> py_isdigit (replace_first ''.'' [] s)"

definition strip_percent :: "string \<Rightarrow> string" where
  "strip_percent s = rstrip_by (\<lambda>c. c = CHR ''%'') (lstrip_by (\<lambda>c. c = CHR ''%'') s)"

definition is_percentage :: "cond_env \<Rightarrow> string \<Rightarrow> bool result" where
  "is_percentage env a =
     (if \<not> ends_with ''%'' a then Inr False
      else (case py_float env (strip_percent a) of
              None \<Rightarrow> Inl (Exn EValueError ''could not convert string to float'')
            | Some x \<Rightarrow> Inr (0 \<le> x \<and> x \<le> 100)))"

datatype operands = Floats real real | Texts string string

definition unsupported :: "'a result" where
  "unsupported = Inl (Exn EException ''Invalid threshold value, currently support only numeric and percentage values'')"

definition validate :: "cond_env \<Rightarrow> string \<Rightarrow> pyval \<Rightarrow> operands result" where
  "validate env s threshold =
     (if looks_numeric s then
        (case py_float env s of
           None \<Rightarrow> Inl (Exn EValueError ''could not convert string to float'')
         | Some x \<Rightarrow>
             (case threshold of
                PStr t \<Rightarrow>
                  (case py_float env t of
                     None \<Rightarrow> Inl (Exn EException ''Invalid values for threshold'')
                   | Some y \<Rightarrow> Inr (Floats x y))
              | PInt i \<Rightarrow> Inr (Floats x (of_int i))
              | PBool b \<Rightarrow> Inr (Floats x (if b then 1 else 0))
              | _ \<Rightarrow> Inl (Exn ETypeError ''float() argument must be a string or a real number'')))
      else (case threshold of
              PStr t \<Rightarrow>
                rbind (is_percentage env s) (\<lambda>p.
                  if p then rbind (is_percentage env t) (\<lambda>q.
                    if q then Inr (Texts s t) else unsupported)
                  else Inr (Texts s t))
            | _ \<Rightarrow> unsupported))"

text \<open>Python compares strings by code points, lexicographically.\<close>

fun str_less :: "string \<Rightarrow> string \<Rightarrow> bool" where
  "str_less [] [] = False"
| "str_less [] (d # ds) = True"
| "str_less (c # cs) [] = False"
| "str_less (c # cs) (d # ds) = (c < d \<or> c = d \<and> str_less cs ds)"

definition op_less :: "operands \<Rightarrow> bool" where
  "op_less p = (case p of Floats x y \<Rightarrow> x < y | Texts s t \<Rightarrow> str_less s t)"

definition op_greater :: "operands \<Rightarrow> bool" where
  "op_greater p = (case p of Floats x y \<Rightarrow> y < x | Texts s t \<Rightarrow> str_less t s)"

definition apply_threshold :: "cond_env \<Rightarrow> pydict \<Rightarrow> pyval \<Rightarrow> pyval \<Rightarrow> bool result" where
  "apply_threshold env config step_output threshold =
     (case step_output of
        PStr s \<Rightarrow>
          rbind (validate env s threshold) (\<lambda>p.
            let compare_type = dict_get config ''compare_type'' (PStr ''gt'')
            in if compare_type = PStr ''gt'' then Inr (op_greater p)
               else if compare_type = PStr ''lt'' then Inr (op_less p)
               else Inl (Exn EException ''Invalid threshold type, currently support only gt and lt''))
      | _ \<Rightarrow> unsupported)"

fun first_level :: "cond_env \<Rightarrow> pydict \<Rightarrow> pyval \<Rightarrow> string list \<Rightarrow> string list \<Rightarrow> string option result" where
  "first_level env config v (t # ts) (l # ls) =
     rbind (apply_threshold env config v (PStr t)) (\<lambda>b.
       if b then Inr (Some l) else first_level env config v ts ls)"
| "first_level env config v _ _ = Inr None"

text \<open>A comma in the threshold makes it a list of thresholds with a level each.\<close>

definition apply_threshold_condition ::
  "cond_env \<Rightarrow> condition \<Rightarrow> pyval \<Rightarrow> pyval \<Rightarrow> (bool \<times> pydict) result" where
  "apply_threshold_condition env cd compare_to compare_value =
     (if contains_sub '','' (py_str compare_to) then
        (case dget (cd_config cd) ''level'' of
           Some (PStr levels) \<Rightarrow>
             (case compare_to of
                PStr ts \<Rightarrow>
                  if length (py_split '','' levels) \<noteq> length (py_split '','' ts)
                  then Inl (Exn EValueError ''Number of levels and number of thresholds do not match'')
                  else rbind (first_level env (cd_config cd) compare_value
                      (map py_strip (py_split '','' ts)) (map py_strip (py_split '','' levels))) (\<lambda>r.
                    (case r of
                       None \<Rightarrow> Inr (False, cd_context cd)
                     | Some l \<Rightarrow> Inr (True, dset ''level'' (PStr l) (cd_context cd))))
              | _ \<Rightarrow> Inl (Exn EAttributeError ''split''))
         | _ \<Rightarrow> Inl (Exn EAttributeError ''split''))
      else rbind (apply_threshold env (cd_config cd) compare_value compare_to) (\<lambda>b.
        Inr (b, cd_context cd)))"

definition apply_condition :: "cond_env \<Rightarrow> condition \<Rightarrow> pyval \<Rightarrow> pyval \<Rightarrow> (bool \<times> pydict) result" where
  "apply_condition env cd compare_to compare_value =
     (if cd_type cd = ''assert'' then
        rbind (apply_assert env compare_value) (\<lambda>b. Inr (b, cd_context cd))
      else if cd_type cd = ''threshold'' then apply_threshold_condition env cd compare_to compare_value
      else rbind (apply_stddev env compare_to compare_value (dict_get (cd_config cd) ''pivot_column'' (PInt 0)))
        (\<lambda>(b, sd). Inr (b, dset ''stddev'' sd (cd_context cd))))"

section \<open>Properties\<close>

lemma first_level_spec:
  "first_level env config v ts ls = Inr r \<Longrightarrow> length ts = length ls \<Longrightarrow>
     (case r of
        None \<Rightarrow> \<forall>t \<in> set ts. apply_threshold env config v (PStr t) = Inr False
      | Some l \<Rightarrow> \<exists>i < length ts. l = ls ! i \<and> apply_threshold env config v (PStr (ts ! i)) = Inr True
          \<and> (\<forall>j < i. apply_threshold env config v (PStr (ts ! j)) = Inr False))"
proof (induction env config v ts ls arbitrary: r rule: first_level.induct)
  case (1 env config v t ts l ls)
  from "1.prems"(1) obtain b where b: "apply_threshold env config v (PStr t) = Inr b"
    by (auto simp: rbind_Inr_iff)
  show ?case
  proof (cases b)
    case True
    with "1.prems"(1) b have "r = Some l" by simp
    with True b show ?thesis by (auto intro!: exI [of _ 0])
  next
    case False
    with "1.prems" b have f: "first_level env config v ts ls = Inr r" by simp
    have len: "length ts = length ls" using "1.prems" by simp
    note ih = "1.IH" [OF False f len]
    show ?thesis
    proof (cases r)
      case None
      with ih False b show ?thesis by simp
    next
      case (Some m)
      with ih obtain i where i: "i < length ts" "m = ls ! i"
        "apply_threshold env config v (PStr (ts ! i)) = Inr True"
        "\<forall>j < i. apply_threshold env config v (PStr (ts ! j)) = Inr False" by auto
      then have "\<forall>j < Suc i. apply_threshold env config v (PStr ((t # ts) ! j)) = Inr False"
        using b False by (auto simp: less_Suc_eq_0_disj)
      with i Some show ?thesis by (auto intro!: exI [of _ "Suc i"])
    qed
  qed
qed auto

lemma find_sub_single: "find_sub [c] s = Some k \<Longrightarrow> s = take k s @ c # drop (Suc k) s"
proof -
  assume "find_sub [c] s = Some k"
  from find_sub_Some [OF this] have "take 1 (drop k s) = [c]" "k \<le> length s" by auto
  then have "drop k s = c # drop (Suc k) s"
    by (cases "drop k s") (auto simp: drop_Suc tl_drop [symmetric])
  then show ?thesis by (metis append_take_drop_id)
qed

lemma percentage_not_numeric:
  assumes "ends_with ''%'' s" shows "\<not> looks_numeric s"
proof -
  have p: "CHR ''%'' \<in> set s" using assms
    by (auto simp: ends_with_def starts_with_append)
  have "CHR ''%'' \<in> set (replace_first ''.'' [] s)"
  proof (cases "find_sub ''.'' s")
    case None
    with p show ?thesis by (simp add: replace_first_def)
  next
    case (Some k)
    from find_sub_single [OF Some] p have "CHR ''%'' \<in> set (take k s) \<union> {CHR ''.''} \<union> set (drop (Suc k) s)"
      by (metis Un_iff insert_is_Un list.simps(15) set_append)
    with Some show ?thesis by (auto simp: replace_first_def)
  qed
  moreover have "\<not> is_digit (CHR ''%'')" by (simp add: is_digit_def)
  ultimately show ?thesis by (auto simp: looks_numeric_def py_isdigit_def list_all_iff)
qed

text \<open>Percentages are compared as text.  When both sides are percentages the outcome of a
  threshold is the lexicographic order of their digits, so a value of 9% exceeds a threshold of
  10%, however \<open>float\<close> reads them.\<close>

theorem percentages_compared_as_text:
  assumes "is_percentage env s = Inr True" and "is_percentage env t = Inr True"
  shows "apply_threshold env config (PStr s) (PStr t) =
     (let compare_type = dict_get config ''compare_type'' (PStr ''gt'')
      in if compare_type = PStr ''gt'' then Inr (str_less t s)
         else if compare_type = PStr ''lt'' then Inr (str_less s t)
         else Inl (Exn EException ''Invalid threshold type, currently support only gt and lt''))"
proof -
  have "ends_with ''%'' s" using assms(1) by (simp add: is_percentage_def split: if_splits)
  then have "\<not> looks_numeric s" by (rule percentage_not_numeric)
  with assms have "validate env s (PStr t) = Inr (Texts s t)" by (simp add: validate_def)
  then show ?thesis by (simp add: apply_threshold_def op_greater_def op_less_def Let_def)
qed

text \<open>A list of thresholds gives the level of the first threshold that applies; when none does
  the condition is false and its context unchanged.\<close>

theorem multithreshold_first_level:
  assumes "apply_threshold_condition env cd (PStr ts) v = Inr (b, cx)"
    and "contains_sub '','' ts" and "dget (cd_config cd) ''level'' = Some (PStr levels)"
  shows "let thresholds = map py_strip (py_split '','' ts); lvls = map py_strip (py_split '','' levels);
             holds = (\<lambda>i. apply_threshold env (cd_config cd) v (PStr (thresholds ! i)))
         in length lvls = length thresholds \<and>
            (if b then \<exists>i < length thresholds. holds i = Inr True \<and> (\<forall>j < i. holds j = Inr False)
                 \<and> cx = dset ''level'' (PStr (lvls ! i)) (cd_context cd)
             else (\<forall>i < length thresholds. holds i = Inr False) \<and> cx = cd_context cd)"
proof -
  let ?t = "map py_strip (py_split '','' ts)" and ?l = "map py_strip (py_split '','' levels)"
  have c: "contains_sub '','' (py_str (PStr ts))" using assms(2) by (simp add: py_str_def)
  have len: "length ?t = length ?l"
    using assms c by (simp add: apply_threshold_condition_def split: if_splits)
  obtain r where r: "first_level env (cd_config cd) v ?t ?l = Inr r"
    "(b, cx) = (case r of None \<Rightarrow> (False, cd_context cd)
       | Some l \<Rightarrow> (True, dset ''level'' (PStr l) (cd_context cd)))"
    using assms c by (auto simp: apply_threshold_condition_def rbind_Inr_iff
      split: if_splits option.splits)
  note spec = first_level_spec [OF r(1) len]
  show ?thesis
  proof (cases r)
    case None
    have "apply_threshold env (cd_config cd) v (PStr (?t ! i)) = Inr False" if "i < length ?t" for i
    proof -
      have "\<forall>t \<in> set ?t. apply_threshold env (cd_config cd) v (PStr t) = Inr False"
        using spec None by (simp only: option.case)
      then show ?thesis using nth_mem [OF that] by (rule bspec)
    qed
    with None r(2) len show ?thesis by (simp add: Let_def)
  next
    case (Some l)
    with spec obtain i where "i < length ?t" "l = ?l ! i"
      "apply_threshold env (cd_config cd) v (PStr (?t ! i)) = Inr True"
      "\<forall>j < i. apply_threshold env (cd_config cd) v (PStr (?t ! j)) = Inr False" by auto
    with Some r(2) len show ?thesis unfolding Let_def by auto
  qed
qed

text \<open>A concrete environment: numbers are read by \<open>int\<close>.\<close>

definition demo_cond_env :: cond_env where
  "demo_cond_env = \<lparr>ce_io = demo_env, py_float = (\<lambda>s. map_option of_int (py_int s)),
     aeval = (\<lambda>es. \<lparr>ae_value = PBool True, ae_error_msg = [], ae_error = False\<rparr>),
     apply_stddev = (\<lambda>a b c. Inr (False, PList []))\<rparr>"

lemma demo_percentages:
  "is_percentage demo_cond_env ''9%'' = Inr True" "is_percentage demo_cond_env ''10%'' = Inr True"
proof -
  have "py_int (strip_percent ''9%'') = Some 9" "py_int (strip_percent ''10%'') = Some 10"
    "ends_with ''%'' ''9%''" "ends_with ''%'' ''10%''" by code_simp+
  then show "is_percentage demo_cond_env ''9%'' = Inr True" "is_percentage demo_cond_env ''10%'' = Inr True"
    by (simp_all add: is_percentage_def demo_cond_env_def)
qed

theorem percentages_compared_as_text_witness:
  "apply_threshold demo_cond_env [] (PStr ''9%'') (PStr ''10%'') = Inr True"
  unfolding percentages_compared_as_text [OF demo_percentages] by code_simp

definition demo_condition :: condition where
  "demo_condition = \<lparr>cd_type = ''threshold'', cd_name = ''t'', cd_alias = ''t'',
     cd_config = [(''level'', PStr ''major, minor'')], cd_context = []\<rparr>"

theorem multithreshold_first_level_witness:
  "\<exists>i < length (map py_strip (py_split '','' ''9%, 10%'')).
     [(''level'', PStr ''minor'')] =
       dset ''level'' (PStr (map py_strip (py_split '','' ''major, minor'') ! i)) []"
proof -
  have p: "py_split '','' ''9%, 10%'' = [''9%'', '' 10%'']"
    "py_split '','' ''major, minor'' = [''major'', '' minor'']"
    "py_strip ''9%'' = ''9%''" "py_strip '' 10%'' = ''10%''" "py_strip ''major'' = ''major''"
    "py_strip '' minor'' = ''minor''" "contains_sub '','' ''9%, 10%''" by code_simp+
  have l: "str_less ''9%'' ''9%'' = False" "str_less ''10%'' ''9%'' = True" by code_simp+
  have "apply_threshold_condition demo_cond_env demo_condition (PStr ''9%, 10%'') (PStr ''9%'')
      = Inr (True, [(''level'', PStr ''minor'')])"
    using p l demo_percentages
    by (simp add: apply_threshold_condition_def demo_condition_def py_str_def dget_Cons
        apply_threshold_def validate_def percentage_not_numeric op_greater_def dict_get_def
        dset_def ends_with_def starts_with_def)
      (simp add: looks_numeric_def)?
  from multithreshold_first_level [OF this p(7), of "''major, minor''"] show ?thesis
    by (auto simp: demo_condition_def dget_Cons Let_def)
qed

end
