(* ===== verification/WorkflowTable.thy ===== *)
theory WorkflowTable
  imports PyStrings
begin

text \<open>
  The workflow and workflow-version tables (\<open>src/common/models/db/workflow.py\<close>) and the
  functions of \<open>src/common/core/db.py\<close> that read and write them.  A table is the list of its
  rows in insertion order; \<open>first()\<close> without an \<open>ORDER BY\<close> takes the first
  matching row of that order.  Times are integers (seconds).  A commit that violates a primary key
  is the exception \<open>IntegrityError\<close> and leaves the tables as they were.
\<close>

record wf_row =
  wr_id :: string
  wr_tenant_id :: string
  wr_name :: string
  wr_description :: "string option"
  wr_created_by :: string
  wr_updated_by :: "string option"
  wr_interval :: "int option"
  wr_raw :: string
  wr_is_deleted :: bool
  wr_is_disabled :: bool
  wr_revision :: int
  wr_last_updated :: int
  wr_provisioned :: bool
  wr_provisioned_file :: "string option"
  wr_is_test :: bool

record wf_version =
  wv_workflow_id :: string
  wv_revision :: int
  wv_raw :: string
  wv_updated_by :: string
  wv_updated_at :: int
  wv_is_valid :: bool
  wv_is_current :: bool
  wv_comment :: "string option"

record wf_table =
  workflows :: "wf_row list"
  versions :: "wf_version list"

section \<open>Queries\<close>

definition live :: "string \<Rightarrow> wf_row \<Rightarrow> bool" where
  "live tenant_id w \<longleftrightarrow> wr_tenant_id w = tenant_id \<and> \<not> wr_is_deleted w \<and> \<not> wr_is_test w"

definition get_all_workflows :: "string \<Rightarrow> bool \<Rightarrow> wf_table \<Rightarrow> wf_row list" where
  "get_all_workflows tenant_id exclude_disabled t =
     filter (\<lambda>w. live tenant_id w \<and> (exclude_disabled \<longrightarrow> \<not> wr_is_disabled w)) (workflows t)"

definition get_all_provisioned_workflows :: "string \<Rightarrow> wf_table \<Rightarrow> wf_row list" where
  "get_all_provisioned_workflows tenant_id t =
     filter (\<lambda>w. live tenant_id w \<and> wr_provisioned w) (workflows t)"

definition get_all_workflows_yamls :: "string \<Rightarrow> wf_table \<Rightarrow> string list" where
  "get_all_workflows_yamls tenant_id t = map wr_raw (filter (live tenant_id) (workflows t))"

definition get_workflow_by_name :: "string \<Rightarrow> string \<Rightarrow> wf_table \<Rightarrow> wf_row option" where
  "get_workflow_by_name tenant_id name t =
     find (\<lambda>w. live tenant_id w \<and> wr_name w = name) (workflows t)"

definition get_workflow_by_id :: "string \<Rightarrow> string \<Rightarrow> wf_table \<Rightarrow> wf_row option" where
  "get_workflow_by_id tenant_id wid t =
     find (\<lambda>w. live tenant_id w \<and> wr_id w = wid) (workflows t)"

definition get_workflow_id :: "string \<Rightarrow> string \<Rightarrow> wf_table \<Rightarrow> string option" where
  "get_workflow_id tenant_id name t =
     map_option wr_id (find (\<lambda>w. live tenant_id w \<and> wr_name w = name) (workflows t))"

definition get_workflow_versions :: "string \<Rightarrow> string \<Rightarrow> wf_table \<Rightarrow> wf_version list" where
  "get_workflow_versions tenant_id wid t =
     (if get_workflow_by_id tenant_id wid t = None then []
      else sort_key (\<lambda>v. - wv_revision v)
        (filter (\<lambda>v. wv_workflow_id v = wid) (versions t)))"

definition get_workflow_version :: "string \<Rightarrow> string \<Rightarrow> int \<Rightarrow> wf_table \<Rightarrow> wf_version option" where
  "get_workflow_version tenant_id wid revision t =
     (if get_workflow_by_id tenant_id wid t = None then None
      else find (\<lambda>v. wv_workflow_id v = wid \<and> wv_revision v = revision) (versions t))"

section \<open>Updates\<close>

text \<open>\<open>ORDER BY revision DESC LIMIT 1\<close> over the versions of one workflow.\<close>

definition latest_revision :: "string \<Rightarrow> wf_version list \<Rightarrow> int" where
  "latest_revision wid vs =
     (case map wv_revision (filter (\<lambda>v. wv_workflow_id v = wid) vs) of
        [] \<Rightarrow> 0 | r # rs \<Rightarrow> fold max rs r)"

definition retire_versions :: "string \<Rightarrow> wf_version list \<Rightarrow> wf_version list" where
  "retire_versions wid vs =
     map (\<lambda>v. if wv_workflow_id v = wid then v\<lparr>wv_is_current := False\<rparr> else v) vs"

record wf_values =
  v_name :: string
  v_description :: "string option"
  v_interval :: "int option"
  v_raw :: string
  v_is_disabled :: bool
  v_updated_by :: string
  v_provisioned :: bool
  v_provisioned_file :: "string option"

definition updated_row :: "int \<Rightarrow> wf_values \<Rightarrow> int \<Rightarrow> wf_row \<Rightarrow> wf_row" where
  "updated_row now vals next_revision w =
     w\<lparr>wr_name := (if v_name vals = [] then wr_name w else v_name vals),
       wr_description := v_description vals, wr_updated_by := Some (v_updated_by vals),
       wr_interval := v_interval vals, wr_raw := v_raw vals, wr_revision := next_revision,
       wr_last_updated := now, wr_is_deleted := False, wr_is_disabled := v_is_disabled vals,
       wr_provisioned := v_provisioned vals, wr_provisioned_file := v_provisioned_file vals\<rparr>"

definition update_workflow_with_values ::
  "int \<Rightarrow> wf_row \<Rightarrow> wf_values \<Rightarrow> wf_table \<Rightarrow> wf_row \<times> wf_table" where
  "update_workflow_with_values now existing vals t =
     (let wid = wr_id existing;
          next_revision = latest_revision wid (versions t) + 1;
          version = \<lparr>wv_workflow_id = wid, wv_revision = next_revision, wv_raw = v_raw vals,
            wv_updated_by = v_updated_by vals, wv_updated_at = now, wv_is_valid = True,
            wv_is_current = True, wv_comment = Some (''Updated by '' @ v_updated_by vals)\<rparr>;
          row = updated_row now vals next_revision existing
      in (row,
          t\<lparr>workflows := map (\<lambda>w. if wr_id w = wid then row else w) (workflows t),
            versions := retire_versions wid (versions t) @ [version]\<rparr>))"

definition update_workflow_by_id ::
  "int \<Rightarrow> string \<Rightarrow> string \<Rightarrow> wf_values \<Rightarrow> wf_table \<Rightarrow> wf_row result \<times> wf_table" where
  "update_workflow_by_id now wid tenant_id vals t =
     (case (if v_provisioned vals then get_workflow_by_name tenant_id (v_name vals) t
            else get_workflow_by_id tenant_id wid t) of
        None \<Rightarrow> (Inl (Exn EValueError ''Workflow not found''), t)
      | Some existing \<Rightarrow>
          (let (row, t') = update_workflow_with_values now existing vals t in (Inr row, t')))"

definition is_equal_workflow_dicts :: "string \<Rightarrow> bool \<Rightarrow> wf_values \<Rightarrow> wf_row \<Rightarrow> bool" where
  "is_equal_workflow_dicts tenant_id is_test vals w \<longleftrightarrow>
     wr_raw w = v_raw vals \<and> wr_tenant_id w = tenant_id \<and> wr_is_test w = is_test
     \<and> wr_is_deleted w = False \<and> wr_is_disabled w = v_is_disabled vals
     \<and> wr_name w = v_name vals \<and> wr_description w = v_description vals
     \<and> wr_interval w = v_interval vals \<and> wr_provisioned w = v_provisioned vals
     \<and> wr_provisioned_file w = v_provisioned_file vals"

definition new_row :: "int \<Rightarrow> string \<Rightarrow> string \<Rightarrow> string \<Rightarrow> bool \<Rightarrow> wf_values \<Rightarrow> wf_row" where
  "new_row now wid tenant_id created_by is_test vals =
     \<lparr>wr_id = wid, wr_tenant_id = tenant_id, wr_name = v_name vals,
      wr_description = v_description vals, wr_created_by = created_by,
      wr_updated_by = Some (v_updated_by vals), wr_interval = v_interval vals,
      wr_raw = v_raw vals, wr_is_deleted = False, wr_is_disabled = v_is_disabled vals,
      wr_revision = 1, wr_last_updated = now, wr_provisioned = v_provisioned vals,
      wr_provisioned_file = v_provisioned_file vals, wr_is_test = is_test\<rparr>"

definition add_or_update_workflow ::
  "int \<Rightarrow> string \<Rightarrow> string \<Rightarrow> string \<Rightarrow> bool \<Rightarrow> bool \<Rightarrow> bool \<Rightarrow> wf_values \<Rightarrow> wf_table
     \<Rightarrow> wf_row result \<times> wf_table" where
  "add_or_update_workflow now wid tenant_id created_by force_update is_test lookup_by_name vals t =
     (case (if v_provisioned vals \<or> lookup_by_name then get_workflow_by_name tenant_id (v_name vals) t
            else get_workflow_by_id tenant_id wid t) of
        Some existing \<Rightarrow>
          if is_equal_workflow_dicts tenant_id is_test vals existing \<and> \<not> force_update
          then (Inr existing, t)
          else (let (row, t') = update_workflow_with_values now existing vals t in (Inr row, t'))
      | None \<Rightarrow>
          let row = new_row now wid tenant_id created_by is_test vals;
              version = \<lparr>wv_workflow_id = wid, wv_revision = 1, wv_raw = v_raw vals,
                wv_updated_by = v_updated_by vals, wv_updated_at = now, wv_is_valid = True,
                wv_is_current = True, wv_comment = Some (''Created by '' @ created_by)\<rparr>
          in if wid \<in> set (map wr_id (workflows t))
               \<or> (wid, 1) \<in> set (map (\<lambda>v. (wv_workflow_id v, wv_revision v)) (versions t))
             then (Inl (Exn EIntegrityError ''duplicate key''), t)
             else (Inr row, t\<lparr>workflows := workflows t @ [row], versions := versions t @ [version]\<rparr>))"

text \<open>Deletion marks the first matching row, whatever its state.\<close>

fun mark_deleted :: "(wf_row \<Rightarrow> bool) \<Rightarrow> wf_row list \<Rightarrow> wf_row list" where
  "mark_deleted P [] = []"
| "mark_deleted P (w # ws) = (if P w then w\<lparr>wr_is_deleted := True\<rparr> # ws else w # mark_deleted P ws)"

definition delete_workflow :: "string \<Rightarrow> string \<Rightarrow> wf_table \<Rightarrow> wf_table" where
  "delete_workflow tenant_id wid t =
     t\<lparr>workflows := mark_deleted (\<lambda>w. wr_tenant_id w = tenant_id \<and> wr_id w = wid) (workflows t)\<rparr>"

definition delete_workflow_by_provisioned_file :: "string \<Rightarrow> string option \<Rightarrow> wf_table \<Rightarrow> wf_table" where
  "delete_workflow_by_provisioned_file tenant_id file t =
     t\<lparr>workflows := mark_deleted
        (\<lambda>w. wr_tenant_id w = tenant_id \<and> wr_provisioned_file w = file) (workflows t)\<rparr>"

section \<open>The version history\<close>

definition versions_of :: "string \<Rightarrow> wf_table \<Rightarrow> wf_version list" where
  "versions_of wid t = filter (\<lambda>v. wv_workflow_id v = wid) (versions t)"

text \<open>The invariant: ids are unique, every workflow's versions are numbered \<open>1, 2, \<dots>, n\<close> in
  order, only the last one is current, and the workflow row shows that version.\<close>

definition history_of :: "wf_row \<Rightarrow> wf_version list \<Rightarrow> bool" where
  "history_of w vs \<longleftrightarrow>
     map wv_revision vs = map int [1..<Suc (length vs)] \<and> vs \<noteq> []
     \<and> map wv_is_current vs = replicate (length vs - 1) False @ [True]
     \<and> wr_revision w = int (length vs) \<and> wv_raw (last vs) = wr_raw w"

definition table_ok :: "wf_table \<Rightarrow> bool" where
  "table_ok t \<longleftrightarrow> distinct (map wr_id (workflows t))
     \<and> (\<forall>w \<in> set (workflows t). history_of w (versions_of (wr_id w) t))
     \<and> wv_workflow_id ` set (versions t) \<subseteq> wr_id ` set (workflows t)"

text \<open>The abstract view: for each workflow the list of raw texts it has ever had.\<close>

definition raw_log :: "wf_table \<Rightarrow> string \<Rightarrow> string list" where
  "raw_log t wid = map wv_raw (versions_of wid t)"

lemma fold_max_le: "(\<forall>x \<in> set rs. x \<le> m) \<Longrightarrow> r \<le> m \<Longrightarrow> fold max rs r \<le> (m::int)"
  by (induction rs arbitrary: r) auto

lemma fold_max_ge: "x \<in> set rs \<or> x \<le> r \<Longrightarrow> x \<le> fold max rs (r::int)"
  by (induction rs arbitrary: r) (auto simp: le_max_iff_disj)

lemma latest_revision_history:
  assumes "map wv_revision (versions_of wid t) = map int [1..<Suc n]"
  shows "latest_revision wid (versions t) = int n"
proof (cases n)
  case 0
  with assms show ?thesis by (simp add: latest_revision_def versions_of_def)
next
  case (Suc m)
  have m: "map wv_revision (filter (\<lambda>v. wv_workflow_id v = wid) (versions t)) = 1 # map int [Suc 1..<Suc n]"
    using assms Suc by (simp add: versions_of_def upt_conv_Cons del: upt_Suc)
  have "fold max (map int [Suc 1..<Suc n]) 1 = int n"
    using Suc by (intro antisym fold_max_le fold_max_ge) (auto simp: image_iff intro: bexI [of _ n])
  with m show ?thesis by (simp add: latest_revision_def)
qed

lemma filter_retire:
  "filter (\<lambda>v. wv_workflow_id v = wid) (retire_versions wid' vs) =
     (if wid = wid' then map (\<lambda>v. v\<lparr>wv_is_current := False\<rparr>) (filter (\<lambda>v. wv_workflow_id v = wid) vs)
      else filter (\<lambda>v. wv_workflow_id v = wid) vs)"
  by (induction vs) (auto simp: retire_versions_def)

lemma versions_of_update:
  "update_workflow_with_values now e vals t = (row, t') \<Longrightarrow>
     versions_of wid t' = (if wid = wr_id e
       then map (\<lambda>v. v\<lparr>wv_is_current := False\<rparr>) (versions_of wid t)
         @ [\<lparr>wv_workflow_id = wid, wv_revision = latest_revision wid (versions t) + 1,
             wv_raw = v_raw vals, wv_updated_by = v_updated_by vals, wv_updated_at = now,
             wv_is_valid = True, wv_is_current = True,
             wv_comment = Some (''Updated by '' @ v_updated_by vals)\<rparr>]
       else versions_of wid t)"
  by (auto simp: update_workflow_with_values_def versions_of_def Let_def filter_retire)

lemma history_of_extend:
  assumes "history_of w vs" "wv_revision v = int (length vs) + 1" "wv_is_current v"
    and "wr_revision w' = int (length vs) + 1" "wr_raw w' = wv_raw v"
  shows "history_of w' (map (\<lambda>v. v\<lparr>wv_is_current := False\<rparr>) vs @ [v])"
proof -
  have "map wv_is_current (map (\<lambda>v. v\<lparr>wv_is_current := False\<rparr>) vs) = replicate (length vs) False"
    by (simp add: comp_def map_replicate_const)
  with assms show ?thesis by (auto simp: history_of_def comp_def)
qed

lemma lookup_member:
  "get_workflow_by_id tn wid t = Some w \<Longrightarrow> w \<in> set (workflows t) \<and> wr_id w = wid \<and> live tn w"
  "get_workflow_by_name tn nm t = Some w \<Longrightarrow> w \<in> set (workflows t) \<and> wr_name w = nm \<and> live tn w"
  by (auto simp: get_workflow_by_id_def get_workflow_by_name_def dest: find_in_set)

lemma update_latest:
  assumes "table_ok t" "e \<in> set (workflows t)"
  shows "latest_revision (wr_id e) (versions t) = int (length (versions_of (wr_id e) t))"
  using assms by (intro latest_revision_history) (auto simp: table_ok_def history_of_def)

lemma update_table_ok:
  assumes ok: "table_ok t" and e: "e \<in> set (workflows t)"
    and upd: "update_workflow_with_values now e vals t = (row, t')"
  shows "table_ok t'"
proof -
  have row: "row = updated_row now vals (int (length (versions_of (wr_id e) t)) + 1) e"
    using upd update_latest [OF ok e] by (simp add: update_workflow_with_values_def Let_def)
  have ws: "workflows t' = map (\<lambda>w. if wr_id w = wr_id e then row else w) (workflows t)"
    using upd by (auto simp: update_workflow_with_values_def Let_def)
  have rid [simp]: "wr_id row = wr_id e" by (simp add: row updated_row_def)
  have ids: "map wr_id (workflows t') = map wr_id (workflows t)" by (simp add: ws)
  have "history_of w (versions_of (wr_id w) t')" if "w \<in> set (workflows t')" for w
  proof (cases "wr_id w = wr_id e")
    case True
    with that ws have "w = row" by auto
    moreover have "history_of e (versions_of (wr_id e) t)" using ok e by (auto simp: table_ok_def)
    ultimately show ?thesis
      by (simp add: versions_of_update [OF upd] update_latest [OF ok e])
        (rule history_of_extend, auto simp: row updated_row_def)
  next
    case False
    with that ws have "w \<in> set (workflows t)" by (auto split: if_splits)
    with ok False show ?thesis by (simp add: versions_of_update [OF upd] table_ok_def)
  qed
  moreover have "wv_workflow_id ` set (versions t') \<subseteq> wr_id ` set (workflows t')"
  proof -
    have "wv_workflow_id ` set (versions t') \<subseteq> insert (wr_id e) (wv_workflow_id ` set (versions t))"
      using upd by (auto simp: update_workflow_with_values_def Let_def retire_versions_def)
    also have "\<dots> \<subseteq> set (map wr_id (workflows t))" using ok e by (auto simp: table_ok_def)
    finally show ?thesis by (simp flip: ids)
  qed
  ultimately show ?thesis using ok by (simp add: table_ok_def ids)
qed

lemma insert_table_ok:
  assumes ok: "table_ok t" and new: "wr_id row \<notin> set (map wr_id (workflows t))"
    and v: "wv_workflow_id v = wr_id row" "wv_revision v = 1" "wv_is_current v" "wv_raw v = wr_raw row"
      "wr_revision row = 1"
  shows "table_ok (t\<lparr>workflows := workflows t @ [row], versions := versions t @ [v]\<rparr>)"
proof -
  have "wv_workflow_id u \<noteq> wr_id row" if "u \<in> set (versions t)" for u
  proof
    assume eq: "wv_workflow_id u = wr_id row"
    from ok that have "wv_workflow_id u \<in> wr_id ` set (workflows t)"
      by (simp add: table_ok_def image_subset_iff)
    with eq new show False by simp
  qed
  then have none: "versions_of (wr_id row) t = []"
    by (simp add: versions_of_def filter_empty_conv)
  have "history_of row [v]" using v by (simp add: history_of_def)
  with ok new none v show ?thesis
    by (auto simp: table_ok_def versions_of_def)
qed

lemma mark_deleted_map:
  "map f (mark_deleted P ws) = map f ws" if "\<And>w. f (w\<lparr>wr_is_deleted := True\<rparr>) = f w"
  by (induction ws) (auto simp: that)

lemma mark_deleted_history:
  "(\<forall>w \<in> set ws. history_of w (g (wr_id w))) \<Longrightarrow> w \<in> set (mark_deleted P ws) \<Longrightarrow>
     history_of w (g (wr_id w))"
  by (induction ws) (auto simp: history_of_def split: if_splits)

lemma delete_table_ok:
  assumes "table_ok t" shows "table_ok (t\<lparr>workflows := mark_deleted P (workflows t)\<rparr>)"
proof -
  have ids: "map wr_id (mark_deleted P (workflows t)) = map wr_id (workflows t)"
    by (rule mark_deleted_map) simp
  then have "wr_id ` set (mark_deleted P (workflows t)) = wr_id ` set (workflows t)"
    by (metis list.set_map)
  with assms ids show ?thesis
    using mark_deleted_history [of "workflows t" "\<lambda>i. versions_of i t" _ P]
    by (auto simp: table_ok_def versions_of_def)
qed

section \<open>Properties\<close>

text \<open>The shape of the result of \<open>add_or_update_workflow\<close>: nothing changed, an update of an
  existing row, or an insertion.\<close>

lemma add_or_update_cases:
  assumes "add_or_update_workflow now wid tn cb fu ist lbn vals t = (r, t')"
  obtains (skip) w where "r = Inr w" "t' = t" "w \<in> set (workflows t)" "live tn w"
      "is_equal_workflow_dicts tn ist vals w" "\<not> fu"
  | (update) e row where "e \<in> set (workflows t)" "live tn e" "r = Inr row"
      "update_workflow_with_values now e vals t = (row, t')"
  | (insert) "r = Inr (new_row now wid tn cb ist vals)"
      "t' = t\<lparr>workflows := workflows t @ [new_row now wid tn cb ist vals],
             versions := versions t @ [\<lparr>wv_workflow_id = wid, wv_revision = 1, wv_raw = v_raw vals,
                wv_updated_by = v_updated_by vals, wv_updated_at = now, wv_is_valid = True,
                wv_is_current = True, wv_comment = Some (''Created by '' @ cb)\<rparr>]\<rparr>"
      "wid \<notin> set (map wr_id (workflows t))"
  | (error) "r = Inl (Exn EIntegrityError ''duplicate key'')" "t' = t"
proof -
  let ?look = "if v_provisioned vals \<or> lbn then get_workflow_by_name tn (v_name vals) t
            else get_workflow_by_id tn wid t"
  show thesis
  proof (cases ?look)
    case None
    with assms insert error show thesis
      by (auto simp: add_or_update_workflow_def Let_def split: if_splits)
  next
    case (Some e)
    then have e: "e \<in> set (workflows t)" "live tn e"
      using lookup_member by (metis (no_types, lifting))+
    obtain row t2 where u: "update_workflow_with_values now e vals t = (row, t2)"
      by (cases "update_workflow_with_values now e vals t")
    from assms Some u e skip [of e] update [of e row] show thesis
      by (auto simp: add_or_update_workflow_def split: if_splits)
  qed
qed

text \<open>C5: every operation on the workflow table keeps the version history sound: versions of each
  workflow are numbered 1 to n without gaps, exactly the newest is current, and the workflow row
  carries its number and its text.\<close>

theorem add_or_update_table_ok:
  assumes "table_ok t"
    and "add_or_update_workflow now wid tn cb fu ist lbn vals t = (r, t')"
  shows "table_ok t' \<and> table_ok (delete_workflow tn i t') \<and> table_ok (delete_workflow_by_provisioned_file tn f t')"
proof -
  have "table_ok t'"
    using assms(2)
  proof (cases rule: add_or_update_cases)
    case update
    with assms(1) show ?thesis by (auto intro: update_table_ok)
  next
    case insert
    with assms(1) show ?thesis by (auto intro!: insert_table_ok simp: new_row_def)
  qed (use assms(1) in simp_all)
  then show ?thesis
    by (simp add: delete_workflow_def delete_workflow_by_provisioned_file_def delete_table_ok)
qed

text \<open>C6: refinement of the append-only log.  Seen as the list of texts every workflow has had, an
  update that succeeds either changes nothing (same properties and no force) or appends the new
  text to the log of the workflow it returns; no version is ever lost or rewritten.\<close>

theorem add_or_update_appends:
  assumes "table_ok t"
    and "add_or_update_workflow now wid tn cb fu ist lbn vals t = (Inr row, t')"
  shows "(t' = t \<and> is_equal_workflow_dicts tn ist vals row \<and> \<not> fu)
    \<or> raw_log t' = (raw_log t)(wr_id row := raw_log t (wr_id row) @ [v_raw vals])
       \<and> wr_raw row = v_raw vals \<and> row \<in> set (workflows t')"
  using assms(2)
proof (cases rule: add_or_update_cases)
  case (update e row')
  then have r: "row' = row" and id: "wr_id row = wr_id e" and raw: "wr_raw row = v_raw vals"
    by (auto simp: update_workflow_with_values_def Let_def updated_row_def)
  have "row \<in> set (workflows t')"
    using update r by (force simp: update_workflow_with_values_def Let_def)
  moreover have "raw_log t' = (raw_log t)(wr_id row := raw_log t (wr_id row) @ [v_raw vals])"
    using versions_of_update [OF update(4)] by (auto simp: raw_log_def id comp_def fun_eq_iff)
  ultimately show ?thesis using raw by simp
next
  case insert
  then show ?thesis by (auto simp: raw_log_def versions_of_def new_row_def fun_eq_iff)
qed auto

definition sample_values :: wf_values where
  "sample_values = \<lparr>v_name = ''wf'', v_description = None, v_interval = Some 60, v_raw = ''r1'',
     v_is_disabled = False, v_updated_by = ''me'', v_provisioned = False, v_provisioned_file = None\<rparr>"

definition sample_table :: wf_table where
  "sample_table = snd (add_or_update_workflow 0 ''w1'' ''t'' ''me'' False False False sample_values
     \<lparr>workflows = [], versions = []\<rparr>)"

lemma sample_table_eq:
  "add_or_update_workflow 0 ''w1'' ''t'' ''me'' False False False sample_values
     \<lparr>workflows = [], versions = []\<rparr> = (Inr (new_row 0 ''w1'' ''t'' ''me'' False sample_values), sample_table)"
  by (simp add: sample_table_def add_or_update_workflow_def get_workflow_by_id_def sample_values_def
      new_row_def Let_def)

lemma empty_table_ok: "table_ok \<lparr>workflows = [], versions = []\<rparr>"
  by (simp add: table_ok_def)

theorem add_or_update_table_ok_witness: "table_ok sample_table"
  using add_or_update_table_ok [OF empty_table_ok sample_table_eq] by blast

theorem add_or_update_appends_witness: "raw_log sample_table ''w1'' = [''r1'']"
  using add_or_update_appends [OF empty_table_ok sample_table_eq]
  by (auto simp: raw_log_def versions_of_def sample_table_def new_row_def sample_values_def
      add_or_update_workflow_def get_workflow_by_id_def Let_def)

end
