(* ===== verification/ExecutionStore.thy ===== *)
theory ExecutionStore
  imports WorkflowTable
begin

text \<open>
  The workflow-execution table (\<open>src/common/models/db/workflow.py\<close>) and its functions in
  \<open>src/common/core/db.py\<close>: creating and finishing an execution, the interval scheduler's query
  and the timeout query.  The table's unique constraint on workflow id, execution number,
  \<open>is_running\<close> and time slot is the lock by which competing schedulers agree.  Times are
  whole seconds, the uuid generator is a parameter read with a counter, foreign keys are taken to
  hold, and a query whose order SQL leaves open takes the first row in insertion order.
\<close>

record wf_execution =
  ex_id :: string
  ex_workflow_id :: string
  ex_revision :: int
  ex_tenant_id :: string
  ex_started :: int
  ex_triggered_by :: string
  ex_status :: string
  ex_is_running :: int
  ex_timeslot :: int
  ex_number :: int
  ex_error :: "string option"
  ex_time :: "int option"
  ex_results :: pyval
  ex_is_test :: bool

record exec_db =
  executions :: "wf_execution list"
  alert_links :: "(string \<times> string \<times> string option) list"
  incident_links :: "(string \<times> string option) list"
  uuid_ctr :: nat

text \<open>\<open>int(timestamp / 120)\<close>: truncation towards zero.\<close>

definition timeslot_of :: "int \<Rightarrow> int" where
  "timeslot_of now = (if 0 \<le> now then now div 120 else - ((- now) div 120))"

definition lock_key :: "wf_execution \<Rightarrow> string \<times> int \<times> int \<times> int" where
  "lock_key e = (ex_workflow_id e, ex_number e, ex_is_running e, ex_timeslot e)"

definition conflicts :: "wf_execution \<Rightarrow> wf_execution list \<Rightarrow> bool" where
  "conflicts e es \<longleftrightarrow> ex_id e \<in> set (map ex_id es) \<or> lock_key e \<in> set (map lock_key es)"

record create_args =
  ca_workflow_id :: string
  ca_revision :: int
  ca_tenant_id :: string
  ca_triggered_by :: string
  ca_number :: int
  ca_event_id :: "string option"
  ca_fingerprint :: "string option"
  ca_execution_id :: "string option"
  ca_event_type :: string
  ca_test_run :: bool

definition set_str :: "string option \<Rightarrow> bool" where
  "set_str s \<longleftrightarrow> s \<noteq> None \<and> s \<noteq> Some []"

definition created_id :: "(nat \<Rightarrow> string) \<Rightarrow> create_args \<Rightarrow> exec_db \<Rightarrow> string" where
  "created_id uuid a db =
     (if set_str (ca_execution_id a) then the (ca_execution_id a)
      else if ca_test_run a then ''test_'' @ uuid (uuid_ctr db) else uuid (uuid_ctr db))"

definition created_row :: "int \<Rightarrow> string \<Rightarrow> create_args \<Rightarrow> wf_execution" where
  "created_row now eid a =
     \<lparr>ex_id = eid, ex_workflow_id = ca_workflow_id a, ex_revision = ca_revision a,
      ex_tenant_id = ca_tenant_id a, ex_started = now,
      ex_triggered_by = take 255 (ca_triggered_by a), ex_status = ''in_progress'',
      ex_is_running = 1, ex_timeslot = timeslot_of now, ex_number = ca_number a,
      ex_error = None, ex_time = None, ex_results = PDict [], ex_is_test = ca_test_run a\<rparr>"

definition create_workflow_execution ::
  "bool \<Rightarrow> (nat \<Rightarrow> string) \<Rightarrow> int \<Rightarrow> create_args \<Rightarrow> exec_db \<Rightarrow> string result \<times> exec_db" where
  "create_workflow_execution audit uuid now a db =
     (let eid = created_id uuid a db;
          row = created_row now eid a;
          is_alert = set_str (ca_fingerprint a) \<and> ca_event_type a = ''alert'';
          db = (if set_str (ca_execution_id a) then db else db\<lparr>uuid_ctr := Suc (uuid_ctr db)\<rparr>)
      in if conflicts row (executions db) then (Inl (Exn EIntegrityError ''constraint''), db)
         else (Inr eid,
           db\<lparr>executions := executions db @ [row],
             alert_links := alert_links db @
               (if audit \<and> is_alert then [(eid, the (ca_fingerprint a), ca_event_id a)] else []),
             incident_links := incident_links db @
               (if audit \<and> \<not> is_alert \<and> ca_event_type a = ''incident''
                then [(eid, ca_event_id a)] else [])\<rparr>))"

text \<open>Finishing: \<open>is_running\<close> becomes the random number \<open>r\<close>; the commit is checked
  against the unique constraint like any other.\<close>

definition finished_row :: "int \<Rightarrow> int \<Rightarrow> string \<Rightarrow> string option \<Rightarrow> wf_execution \<Rightarrow> wf_execution" where
  "finished_row now r status error e =
     e\<lparr>ex_is_running := r, ex_status := status,
       ex_error := (if set_str error then Some (take 511 (the error)) else None),
       ex_time := Some (now - ex_started e)\<rparr>"

definition replace_execution :: "wf_execution \<Rightarrow> exec_db \<Rightarrow> exec_db" where
  "replace_execution e db =
     db\<lparr>executions := map (\<lambda>x. if ex_id x = ex_id e then e else x) (executions db)\<rparr>"

definition finish_workflow_execution ::
  "int \<Rightarrow> int \<Rightarrow> string option \<Rightarrow> string \<Rightarrow> string option \<Rightarrow> exec_db \<Rightarrow> unit result \<times> exec_db" where
  "finish_workflow_execution now r eid status error db =
     (case find (\<lambda>e. Some (ex_id e) = eid) (executions db) of
        None \<Rightarrow> (Inl (Exn EValueError ''Execution not found''), db)
      | Some e \<Rightarrow>
          let e' = finished_row now r status error e in
          if lock_key e' \<in> set (map lock_key (filter (\<lambda>x. ex_id x \<noteq> ex_id e) (executions db)))
          then (Inl (Exn EIntegrityError ''constraint''), db)
          else (Inr (), replace_execution e' db))"

section \<open>Queries\<close>

definition completed_statuses :: "string list" where
  "completed_statuses = [''success'', ''error'', ''providers_not_configured'']"

definition first_of :: "'a list \<Rightarrow> 'a option" where
  "first_of xs = (case xs of [] \<Rightarrow> None | x # _ \<Rightarrow> Some x)"

definition newest_first :: "wf_execution list \<Rightarrow> wf_execution list" where
  "newest_first es = sort_key (\<lambda>e. - ex_started e) es"

definition get_last_completed_execution :: "string \<Rightarrow> exec_db \<Rightarrow> wf_execution option" where
  "get_last_completed_execution wid db =
     first_of (newest_first (filter (\<lambda>e. ex_workflow_id e = wid \<and> \<not> ex_is_test e
       \<and> ex_status e \<in> set completed_statuses) (executions db)))"

definition WORKFLOWS_TIMEOUT :: int where "WORKFLOWS_TIMEOUT = 120 * 60"

definition INTERVAL_WORKFLOWS_RELAUNCH_TIMEOUT :: int where
  "INTERVAL_WORKFLOWS_RELAUNCH_TIMEOUT = 60 * 60"

definition get_timeouted_workflow_executions :: "int \<Rightarrow> exec_db \<Rightarrow> wf_execution list" where
  "get_timeouted_workflow_executions now db =
     filter (\<lambda>e. ex_status e = ''in_progress'' \<and> ex_started e \<le> now - WORKFLOWS_TIMEOUT)
       (executions db)"

definition get_last_workflow_execution_by_workflow_id ::
  "int \<Rightarrow> string \<Rightarrow> string \<Rightarrow> string option \<Rightarrow> string list \<Rightarrow> exec_db \<Rightarrow> wf_execution option" where
  "get_last_workflow_execution_by_workflow_id now tenant_id wid status exclude_ids db =
     first_of (newest_first (filter (\<lambda>e. ex_workflow_id e = wid \<and> ex_tenant_id e = tenant_id
       \<and> ex_started e \<ge> now - 86400
       \<and> (set_str status \<longrightarrow> ex_status e = the status)
       \<and> ex_id e \<notin> set exclude_ids) (executions db)))"

definition get_previous_execution_id ::
  "int \<Rightarrow> string \<Rightarrow> string \<Rightarrow> string \<Rightarrow> exec_db \<Rightarrow> wf_execution option" where
  "get_previous_execution_id now tenant_id wid eid db =
     first_of (newest_first (filter (\<lambda>e. ex_tenant_id e = tenant_id \<and> ex_workflow_id e = wid
       \<and> ex_id e \<noteq> eid \<and> \<not> ex_is_test e \<and> ex_started e \<ge> now - 86400) (executions db)))"

definition save_workflow_results ::
  "(pyval \<Rightarrow> string option) \<Rightarrow> (pyval \<Rightarrow> pyval) \<Rightarrow> string \<Rightarrow> string \<Rightarrow> pyval \<Rightarrow> exec_db
     \<Rightarrow> unit result \<times> exec_db" where
  "save_workflow_results dumps custom_serialize tenant_id eid results db =
     (case filter (\<lambda>e. ex_tenant_id e = tenant_id \<and> ex_id e = eid) (executions db) of
        [e] \<Rightarrow> (Inr (), replace_execution
          (e\<lparr>ex_results := (case dumps results of Some _ \<Rightarrow> results
              | None \<Rightarrow> custom_serialize results)\<rparr>) db)
      | _ \<Rightarrow> (Inl (Exn (EOther ''NoResultFound'') []), db))"

section \<open>The interval scheduler's query\<close>

text \<open>\<open>utc_now\<close> is the clock of new executions, \<open>local_now\<close> the naive local time
  (\<open>Asia/Jerusalem\<close>) the query compares the stored start times with.\<close>

record clocks =
  utc_now :: int
  local_now :: int

record run_entry =
  re_tenant_id :: string
  re_workflow_id :: string
  re_execution_id :: string

definition scheduler_args :: "wf_row \<Rightarrow> int \<Rightarrow> create_args" where
  "scheduler_args w number =
     \<lparr>ca_workflow_id = wr_id w, ca_revision = wr_revision w, ca_tenant_id = wr_tenant_id w,
      ca_triggered_by = ''scheduler'', ca_number = number, ca_event_id = None,
      ca_fingerprint = None, ca_execution_id = None, ca_event_type = ''alert'', ca_test_run = False\<rparr>"

definition run_entry_of :: "wf_row \<Rightarrow> string \<Rightarrow> run_entry" where
  "run_entry_of w eid = \<lparr>re_tenant_id = wr_tenant_id w, re_workflow_id = wr_id w, re_execution_id = eid\<rparr>"

definition interval_due :: "clocks \<Rightarrow> int \<Rightarrow> wf_execution \<Rightarrow> bool" where
  "interval_due c interval prev \<longleftrightarrow> ex_started prev + interval \<le> local_now c"

text \<open>Trying the lock: the entry to run when the execution could be created, none on
  \<open>IntegrityError\<close>.\<close>

definition try_run ::
  "bool \<Rightarrow> (nat \<Rightarrow> string) \<Rightarrow> int \<Rightarrow> wf_row \<Rightarrow> int \<Rightarrow> exec_db \<Rightarrow> run_entry list \<times> exec_db" where
  "try_run audit uuid now w number db =
     (case create_workflow_execution audit uuid now (scheduler_args w number) db of
        (Inr eid, db) \<Rightarrow> ([run_entry_of w eid], db)
      | (Inl _, db) \<Rightarrow> ([], db))"

text \<open>One workflow of the loop.\<close>

definition should_run_one ::
  "bool \<Rightarrow> (nat \<Rightarrow> string) \<Rightarrow> clocks \<Rightarrow> wf_row \<Rightarrow> exec_db \<Rightarrow> run_entry list \<times> exec_db" where
  "should_run_one audit uuid c w db =
     (case get_last_completed_execution (wr_id w) db of
        None \<Rightarrow> try_run audit uuid (utc_now c) w 1 db
      | Some prev \<Rightarrow>
          if interval_due c (case wr_interval w of None \<Rightarrow> 0 | Some i \<Rightarrow> i) prev then
            (case try_run audit uuid (utc_now c) w (ex_number prev + 1) db of
               ([], db) \<Rightarrow>
                 (case find (\<lambda>e. ex_workflow_id e = wr_id w \<and> ex_number e = ex_number prev + 1)
                         (executions db) of
                    None \<Rightarrow> ([], db)
                  | Some ongoing \<Rightarrow>
                      if ex_status ongoing \<noteq> ''in_progress'' then ([], db)
                      else if ex_started ongoing + INTERVAL_WORKFLOWS_RELAUNCH_TIMEOUT \<le> local_now c
                      then try_run audit uuid (utc_now c) w (ex_number ongoing + 1)
                             (replace_execution (ongoing\<lparr>ex_status := ''timeout''\<rparr>) db)
                      else ([], db))
             | (es, db) \<Rightarrow> (es, db))
          else ([], db))"

fun should_run_loop ::
  "bool \<Rightarrow> (nat \<Rightarrow> string) \<Rightarrow> clocks \<Rightarrow> wf_row list \<Rightarrow> exec_db \<Rightarrow> run_entry list \<times> exec_db" where
  "should_run_loop audit uuid c [] db = ([], db)"
| "should_run_loop audit uuid c (w # ws) db =
     (let (es, db) = should_run_one audit uuid c w db;
          (es', db) = should_run_loop audit uuid c ws db
      in (es @ es', db))"

definition workflows_with_interval :: "wf_table \<Rightarrow> wf_row list" where
  "workflows_with_interval t =
     filter (\<lambda>w. \<not> wr_is_deleted w \<and> \<not> wr_is_disabled w
       \<and> (case wr_interval w of None \<Rightarrow> False | Some i \<Rightarrow> 0 < i)) (workflows t)"

definition get_workflows_that_should_run ::
  "bool \<Rightarrow> (nat \<Rightarrow> string) \<Rightarrow> clocks \<Rightarrow> wf_table \<Rightarrow> exec_db \<Rightarrow> run_entry list \<times> exec_db" where
  "get_workflows_that_should_run audit uuid c t db =
     should_run_loop audit uuid c (workflows_with_interval t) db"

section \<open>The lock invariant\<close>

definition locks_ok :: "exec_db \<Rightarrow> bool" where
  "locks_ok db \<longleftrightarrow> distinct (map ex_id (executions db)) \<and> distinct (map lock_key (executions db))"

lemma create_Inr:
  assumes "create_workflow_execution audit uuid now a db = (Inr eid, db')"
  shows "executions db' = executions db @ [created_row now eid a]
    \<and> \<not> conflicts (created_row now eid a) (executions db)"
  using assms by (auto simp: create_workflow_execution_def Let_def split: if_splits)

lemma create_Inl:
  assumes "create_workflow_execution audit uuid now a db = (Inl e, db')"
  shows "executions db' = executions db \<and> e = Exn EIntegrityError ''constraint''
    \<and> (\<exists>eid. conflicts (created_row now eid a) (executions db))"
  using assms by (auto simp: create_workflow_execution_def Let_def split: if_splits)

lemma create_locks_ok:
  assumes ok: "locks_ok db" and c: "create_workflow_execution audit uuid now a db = (r, db')"
  shows "locks_ok db'"
proof (cases r)
  case (Inl e)
  with ok c show ?thesis by (auto simp: locks_ok_def dest: create_Inl)
next
  case (Inr eid)
  from create_Inr [OF c [unfolded Inr]] ok show ?thesis
    by (auto simp: locks_ok_def conflicts_def)
qed

lemma distinct_map_replace:
  assumes "distinct (map f xs)" "\<forall>x \<in> set xs. P x \<longrightarrow> x = y"
    and "f z \<notin> f ` {x \<in> set xs. \<not> P x}"
  shows "distinct (map f (map (\<lambda>x. if P x then z else x) xs))"
  using assms
proof (induction xs)
  case (Cons x xs)
  have IH: "distinct (map f (map (\<lambda>x. if P x then z else x) xs))"
    using Cons.prems by (intro Cons.IH) auto
  show ?case
  proof (cases "P x")
    case True
    with Cons.prems have "\<forall>u \<in> set xs. \<not> P u" by (metis (no_types, lifting) distinct.simps(2)
          image_eqI list.set_intros list.set_map list.simps(9))
    moreover from this have "map (\<lambda>x. if P x then z else x) xs = xs" by (simp add: map_idI)
    moreover have "f z \<notin> f ` set xs" using Cons.prems(3) calculation(1) by auto
    ultimately show ?thesis using True Cons.prems(1) by simp
  next
    case False
    have "f x \<noteq> f z" using Cons.prems(3) False by (metis (mono_tags, lifting) imageI
          list.set_intros(1) mem_Collect_eq)
    moreover have "f x \<notin> f ` set xs" using Cons.prems(1) by simp
    ultimately have "f x \<noteq> f (if P u then z else u)" if "u \<in> set xs" for u
      using that by (metis imageI)
    then have "f x \<notin> set (map f (map (\<lambda>x. if P x then z else x) xs))" by auto
    with IH False show ?thesis by (simp only: list.map distinct.simps if_False simp_thms)
  qed
qed simp

lemma ids_replace [simp]: "map ex_id (executions (replace_execution e db)) = map ex_id (executions db)"
  by (auto simp: replace_execution_def)

lemma replace_locks_ok:
  assumes ok: "locks_ok db"
    and free: "lock_key e \<notin> set (map lock_key (filter (\<lambda>x. ex_id x \<noteq> ex_id e) (executions db)))"
  shows "locks_ok (replace_execution e db)"
proof -
  have "distinct (map lock_key (executions (replace_execution e db)))"
  proof (cases "\<exists>y \<in> set (executions db). ex_id y = ex_id e")
    case False
    then have "executions (replace_execution e db) = executions db"
      by (simp add: replace_execution_def map_idI)
    with ok show ?thesis by (simp add: locks_ok_def)
  next
    case True
    then obtain y where y: "y \<in> set (executions db)" "ex_id y = ex_id e" by blast
    have "\<forall>x \<in> set (executions db). ex_id x = ex_id e \<longrightarrow> x = y"
      using ok y by (metis distinct_map inj_onD locks_ok_def)
    moreover have "lock_key e \<notin> lock_key ` {x \<in> set (executions db). ex_id x \<noteq> ex_id e}"
      using free by auto
    moreover have "distinct (map lock_key (executions db))" using ok by (simp add: locks_ok_def)
    ultimately have "distinct (map lock_key
        (map (\<lambda>x. if ex_id x = ex_id e then e else x) (executions db)))"
      by (intro distinct_map_replace [where y = y])
    then show ?thesis by (simp add: replace_execution_def)
  qed
  with ok show ?thesis by (simp add: locks_ok_def)
qed

lemma finish_locks_ok:
  "locks_ok db \<Longrightarrow> finish_workflow_execution now r eid status error db = (x, db') \<Longrightarrow> locks_ok db'"
  by (auto simp: finish_workflow_execution_def Let_def finished_row_def
      split: option.splits if_splits intro!: replace_locks_ok)

lemma status_locks_ok:
  assumes "locks_ok db" "e \<in> set (executions db)"
  shows "locks_ok (replace_execution (e\<lparr>ex_status := s\<rparr>) db)"
proof (rule replace_locks_ok [OF assms(1)])
  show "lock_key (e\<lparr>ex_status := s\<rparr>)
      \<notin> set (map lock_key (filter (\<lambda>x. ex_id x \<noteq> ex_id (e\<lparr>ex_status := s\<rparr>)) (executions db)))"
    using assms by (auto simp: locks_ok_def distinct_map inj_on_def lock_key_def)
qed

lemma try_run_locks_ok: "locks_ok db \<Longrightarrow> locks_ok (snd (try_run audit uuid now w n db))"
  by (auto simp: try_run_def split: prod.splits sum.splits dest: create_locks_ok)

lemma should_run_one_locks_ok:
  assumes ok: "locks_ok db" shows "locks_ok (snd (should_run_one audit uuid c w db))"
proof -
  have relaunch: "locks_ok (snd (try_run audit uuid n w m (replace_execution (e\<lparr>ex_status := st\<rparr>) d)))"
    if "locks_ok d" "find P (executions d) = Some e" for n m e st d P
    using that by (auto dest!: find_in_set intro!: try_run_locks_ok status_locks_ok)
  have first: "locks_ok d" if "try_run audit uuid n w m db = (es, d)" for n m es d
    using try_run_locks_ok [OF ok] that by (metis snd_conv)
  show ?thesis
    by (auto simp: should_run_one_def ok try_run_locks_ok
        split: option.splits prod.splits list.splits if_splits dest: first intro: relaunch)
qed

lemma should_run_loop_Cons:
  "should_run_loop audit uuid c (w # ws) db =
     (fst (should_run_one audit uuid c w db)
        @ fst (should_run_loop audit uuid c ws (snd (should_run_one audit uuid c w db))),
      snd (should_run_loop audit uuid c ws (snd (should_run_one audit uuid c w db))))"
  by (simp add: case_prod_beta Let_def)

declare should_run_loop.simps(2) [simp del]

lemma should_run_loop_locks_ok:
  "locks_ok db \<Longrightarrow> locks_ok (snd (should_run_loop audit uuid c ws db))"
  by (induction ws arbitrary: db) (simp_all add: should_run_loop_Cons should_run_one_locks_ok)

lemma save_locks_ok:
  assumes ok: "locks_ok db" and s: "save_workflow_results jd cs tn eid res db = (x, db')"
  shows "locks_ok db'"
proof (cases "\<exists>e. filter (\<lambda>e. ex_tenant_id e = tn \<and> ex_id e = eid) (executions db) = [e]")
  case True
  then obtain e where f: "filter (\<lambda>e. ex_tenant_id e = tn \<and> ex_id e = eid) (executions db) = [e]" ..
  then have e: "e \<in> set (executions db)" by (metis filter_eq_ConsD in_set_conv_decomp)
  have "locks_ok (replace_execution (e\<lparr>ex_results := v\<rparr>) db)" for v
    using ok e by (intro replace_locks_ok) (auto simp: locks_ok_def distinct_map inj_on_def lock_key_def)
  with s f show ?thesis by (auto simp: save_workflow_results_def)
next
  case False
  with s ok show ?thesis by (auto simp: save_workflow_results_def split: list.splits)
qed

section \<open>Reachable stores\<close>

inductive reachable_db :: "exec_db \<Rightarrow> bool" where
  start: "executions db = [] \<Longrightarrow> reachable_db db"
| create: "reachable_db db \<Longrightarrow> create_workflow_execution audit uuid now a db = (x, db') \<Longrightarrow>
     reachable_db db'"
| finish: "reachable_db db \<Longrightarrow> finish_workflow_execution now r eid status error db = (y, db') \<Longrightarrow>
     reachable_db db'"
| poll: "reachable_db db \<Longrightarrow> get_workflows_that_should_run audit uuid c t db = (es, db') \<Longrightarrow>
     reachable_db db'"
| save: "reachable_db db \<Longrightarrow> save_workflow_results jd cs tn eid res db = (y, db') \<Longrightarrow>
     reachable_db db'"

lemma reachable_locks_ok: "reachable_db db \<Longrightarrow> locks_ok db"
proof (induction rule: reachable_db.induct)
  case (start db)
  then show ?case by (simp add: locks_ok_def)
next
  case (poll db audit uuid c t es db')
  then show ?case
    using should_run_loop_locks_ok by (metis get_workflows_that_should_run_def snd_conv)
qed (auto intro: create_locks_ok finish_locks_ok save_locks_ok)

text \<open>What one round of the interval query returns.\<close>

definition entry_ok :: "exec_db \<Rightarrow> exec_db \<Rightarrow> run_entry \<Rightarrow> bool" where
  "entry_ok db db' en \<longleftrightarrow> re_execution_id en \<notin> ex_id ` set (executions db)
     \<and> (\<exists>row \<in> set (executions db'). ex_id row = re_execution_id en
          \<and> ex_workflow_id row = re_workflow_id en \<and> ex_tenant_id row = re_tenant_id en
          \<and> ex_status row = ''in_progress'' \<and> ex_is_running row = 1 \<and> ex_triggered_by row = ''scheduler'')"

definition grows :: "exec_db \<Rightarrow> exec_db \<Rightarrow> bool" where
  "grows db db' \<longleftrightarrow> ex_id ` set (executions db) \<subseteq> ex_id ` set (executions db')"

definition round_ok :: "string \<Rightarrow> exec_db \<Rightarrow> run_entry list \<times> exec_db \<Rightarrow> bool" where
  "round_ok wid db r \<longleftrightarrow> grows db (snd r) \<and> length (fst r) \<le> 1
     \<and> (\<forall>en \<in> set (fst r). entry_ok db (snd r) en \<and> re_workflow_id en = wid)"

lemma ids_replace_set [simp]:
  "ex_id ` set (executions (replace_execution e d)) = ex_id ` set (executions d)"
  using ids_replace [of e d] by (metis list.set_map)

lemma try_run_round: "round_ok (wr_id w) db (try_run audit uuid now w n db)"
  by (auto simp: try_run_def round_ok_def grows_def entry_ok_def run_entry_of_def conflicts_def
      created_row_def scheduler_args_def
      split: prod.splits sum.splits dest!: create_Inr create_Inl)

lemma round_after_replace:
  "ex_id ` set (executions d) = ex_id ` set (executions db) \<Longrightarrow>
     round_ok wid (replace_execution e d) r \<Longrightarrow> round_ok wid db r"
  by (auto simp: round_ok_def grows_def entry_ok_def)

lemma try_run_Nil:
  "try_run audit uuid now w n db = ([], d) \<Longrightarrow> ex_id ` set (executions d) = ex_id ` set (executions db)"
  by (auto simp: try_run_def split: prod.splits sum.splits dest!: create_Inl)

lemma should_run_one_round: "round_ok (wr_id w) db (should_run_one audit uuid c w db)"
proof -
  have nil: "round_ok (wr_id w) db ([], d)"
    if "ex_id ` set (executions d) = ex_id ` set (executions db)" for d
    using that by (simp add: round_ok_def grows_def)
  have first: "round_ok (wr_id w) db (es, d)" if "try_run audit uuid n w m db = (es, d)" for n m es d
    using try_run_round that by metis
  show ?thesis
    by (auto simp: should_run_one_def try_run_round split: option.splits prod.splits list.splits if_splits
        dest: try_run_Nil first intro: nil round_after_replace [OF _ try_run_round])
qed

lemma entry_ok_mono:
  "entry_ok db1 db2 en \<Longrightarrow> grows db db1 \<Longrightarrow> entry_ok db db2 en"
  by (auto simp: entry_ok_def grows_def)

lemma should_run_loop_entries:
  "grows db (snd (should_run_loop audit uuid c ws db))
   \<and> distinct (map re_execution_id (fst (should_run_loop audit uuid c ws db)))
   \<and> length (fst (should_run_loop audit uuid c ws db)) \<le> length ws
   \<and> (\<forall>en \<in> set (fst (should_run_loop audit uuid c ws db)).
        re_execution_id en \<notin> ex_id ` set (executions db)
        \<and> re_execution_id en \<in> ex_id ` set (executions (snd (should_run_loop audit uuid c ws db)))
        \<and> re_workflow_id en \<in> wr_id ` set ws)"
proof (induction ws arbitrary: db)
  case Nil
  then show ?case by (simp add: grows_def)
next
  case (Cons w ws)
  let ?one = "should_run_one audit uuid c w db"
  let ?rest = "should_run_loop audit uuid c ws (snd ?one)"
  have one: "grows db (snd ?one)" "length (fst ?one) \<le> 1"
    using should_run_one_round [of w db audit uuid c] by (auto simp: round_ok_def)
  have one_en: "re_execution_id en \<notin> ex_id ` set (executions db)
        \<and> re_execution_id en \<in> ex_id ` set (executions (snd ?one)) \<and> re_workflow_id en = wr_id w"
    if "en \<in> set (fst ?one)" for en
    using should_run_one_round [of w db audit uuid c] that
    unfolding round_ok_def entry_ok_def by (metis imageI)
  note rest = Cons.IH [of "snd ?one"]
  have rest_en: "re_execution_id en \<notin> ex_id ` set (executions (snd ?one))
        \<and> re_execution_id en \<in> ex_id ` set (executions (snd ?rest)) \<and> re_workflow_id en \<in> wr_id ` set ws"
    if "en \<in> set (fst ?rest)" for en
    using rest [THEN conjunct2, THEN conjunct2, THEN conjunct2] that by (rule bspec)
  have apart: "re_execution_id a \<noteq> re_execution_id b"
    if "a \<in> set (fst ?one)" "b \<in> set (fst ?rest)" for a b
    using one_en [OF that(1)] rest_en [OF that(2)] by metis
  have up: "x \<in> ex_id ` set (executions (snd ?rest))"
    if "x \<in> ex_id ` set (executions (snd ?one))" for x
    using rest that by (auto simp: grows_def)
  have low: "x \<in> ex_id ` set (executions (snd ?one))" if "x \<in> ex_id ` set (executions db)" for x
    using one(1) that by (auto simp: grows_def)
  have "distinct (map re_execution_id (fst ?one))" using one(2) by (cases "fst ?one") auto
  moreover have "re_execution_id ` set (fst ?one) \<inter> re_execution_id ` set (fst ?rest) = {}"
    using apart by auto
  moreover have "grows db (snd ?rest)" using one(1) rest by (auto simp: grows_def)
  moreover have "length (fst ?one @ fst ?rest) \<le> length (w # ws)" using one(2) rest by simp
  moreover have "\<forall>en \<in> set (fst ?one @ fst ?rest).
        re_execution_id en \<notin> ex_id ` set (executions db)
        \<and> re_execution_id en \<in> ex_id ` set (executions (snd ?rest))
        \<and> re_workflow_id en \<in> wr_id ` set (w # ws)"
  proof
    fix en assume "en \<in> set (fst ?one @ fst ?rest)"
    then consider "en \<in> set (fst ?one)" | "en \<in> set (fst ?rest)" by auto
    then show "re_execution_id en \<notin> ex_id ` set (executions db)
        \<and> re_execution_id en \<in> ex_id ` set (executions (snd ?rest))
        \<and> re_workflow_id en \<in> wr_id ` set (w # ws)"
    proof cases
      case 1
      from one_en [OF 1] up show ?thesis by simp
    next
      case 2
      from rest_en [OF 2] low [of "re_execution_id en"] show ?thesis by auto
    qed
  qed
  ultimately show ?case using rest by (simp add: should_run_loop_Cons)
qed

section \<open>The interface the scheduler uses\<close>

text \<open>What a client of the table relies on: allocating an execution gives an id that was not there,
  a refused allocation and every other operation leave the set of ids alone.  The ids a client holds
  are then pairwise different for ever.\<close>

locale id_allocator =
  fixes ids :: "'d \<Rightarrow> string set"
    and alloc :: "'a \<Rightarrow> 'd \<Rightarrow> string result \<times> 'd"
  assumes alloc_Inr: "alloc a d = (Inr i, d') \<Longrightarrow> i \<notin> ids d \<and> ids d' = insert i (ids d)"
    and alloc_Inl: "alloc a d = (Inl e, d') \<Longrightarrow> ids d' = ids d"
begin

lemma held_after_alloc:
  assumes "alloc a d = (Inr i, d')" "distinct held" "set held \<subseteq> ids d"
  shows "distinct (held @ [i]) \<and> set (held @ [i]) \<subseteq> ids d'"
  using assms alloc_Inr [OF assms(1)] by auto

lemma ids_grow: "alloc a d = (r, d') \<Longrightarrow> ids d \<subseteq> ids d'"
  by (cases r) (auto dest: alloc_Inr alloc_Inl)

lemma held_by_two:
  assumes "alloc a d = (Inr i, d1)" "ids d1 \<subseteq> ids d2" "alloc b d2 = (Inr j, d3)"
  shows "i \<noteq> j"
  using alloc_Inr [OF assms(1)] alloc_Inr [OF assms(3)] assms(2) by auto

end

text \<open>A table whose locks exclude one another: an invariant that allocation keeps.\<close>

locale lock_table = id_allocator ids alloc
  for ids :: "'d \<Rightarrow> string set" and alloc :: "'a \<Rightarrow> 'd \<Rightarrow> string result \<times> 'd" +
  fixes locked :: "'d \<Rightarrow> bool"
    and unlock :: "'c \<Rightarrow> 'd \<Rightarrow> unit result \<times> 'd"
  assumes locked_alloc: "locked d \<Longrightarrow> alloc a d = (r, d') \<Longrightarrow> locked d'"
    and locked_unlock: "locked d \<Longrightarrow> unlock c d = (x, d') \<Longrightarrow> locked d'"
    and ids_unlock: "unlock c d = (x, d') \<Longrightarrow> ids d' = ids d"
begin

lemma alloc_after_unlock_new:
  assumes "alloc a d = (Inr i, d1)" "unlock c d1 = (x, d2)" "alloc b d2 = (Inr j, d3)"
  shows "i \<noteq> j"
  using held_by_two [OF assms(1) _ assms(3)] ids_unlock [OF assms(2)] by simp

end

definition exec_ids :: "exec_db \<Rightarrow> string set" where
  "exec_ids db = ex_id ` set (executions db)"

lemma finish_ids:
  "finish_workflow_execution now r eid status error db = (x, db') \<Longrightarrow> map ex_id (executions db') = map ex_id (executions db)"
  by (auto simp: finish_workflow_execution_def Let_def split: option.splits if_splits)

lemma save_ids:
  "save_workflow_results jd cs tn eid res db = (x, db') \<Longrightarrow> map ex_id (executions db') = map ex_id (executions db)"
  by (auto simp: save_workflow_results_def split: list.splits)

lemma exec_ids_finish: "finish_workflow_execution now r eid status error db = (x, db') \<Longrightarrow> exec_ids db' = exec_ids db"
  using finish_ids unfolding exec_ids_def by (metis list.set_map)

lemma exec_ids_save: "save_workflow_results jd cs tn eid res db = (x, db') \<Longrightarrow> exec_ids db' = exec_ids db"
  using save_ids unfolding exec_ids_def by (metis list.set_map)

interpretation locks: lock_table exec_ids "create_workflow_execution audit uuid now" locks_ok
    "\<lambda>(r, eid, status, error). finish_workflow_execution now r eid status error"
  for audit uuid now
proof unfold_locales
  show "i \<notin> exec_ids d \<and> exec_ids d' = insert i (exec_ids d)"
    if "create_workflow_execution audit uuid now a d = (Inr i, d')" for a d i d'
    using create_Inr [OF that] by (auto simp: exec_ids_def conflicts_def created_row_def)
  show "exec_ids d' = exec_ids d"
    if "create_workflow_execution audit uuid now a d = (Inl e, d')" for a d e d'
    using create_Inl [OF that] by (simp add: exec_ids_def)
qed (auto intro: create_locks_ok finish_locks_ok dest: exec_ids_finish)

lemma poll_fresh:
  assumes "get_workflows_that_should_run audit uuid c t db = (es, db')"
  shows "distinct (map re_execution_id es)
    \<and> re_execution_id ` set es \<inter> ex_id ` set (executions db) = {}
    \<and> re_execution_id ` set es \<subseteq> ex_id ` set (executions db')
    \<and> re_workflow_id ` set es \<subseteq> wr_id ` set (workflows_with_interval t)
    \<and> length es \<le> length (workflows_with_interval t)
    \<and> ex_id ` set (executions db) \<subseteq> ex_id ` set (executions db')"
proof -
  let ?l = "should_run_loop audit uuid c (workflows_with_interval t) db"
  have eqs: "es = fst ?l" "db' = snd ?l"
    using assms by (simp_all add: get_workflows_that_should_run_def)
  note L = should_run_loop_entries [of db audit uuid c "workflows_with_interval t"]
  have en: "re_execution_id en \<notin> ex_id ` set (executions db)
      \<and> re_execution_id en \<in> ex_id ` set (executions db')
      \<and> re_workflow_id en \<in> wr_id ` set (workflows_with_interval t)" if "en \<in> set es" for en
    using L [THEN conjunct2, THEN conjunct2, THEN conjunct2] that unfolding eqs by (rule bspec)
  have "re_execution_id ` set es \<inter> ex_id ` set (executions db) = {}"
  proof (rule equals0I)
    fix x assume "x \<in> re_execution_id ` set es \<inter> ex_id ` set (executions db)"
    then obtain e where "e \<in> set es" "x = re_execution_id e" "x \<in> ex_id ` set (executions db)"
      by (elim IntE imageE) simp
    with en [of e] show False by simp
  qed
  moreover have "distinct (map re_execution_id es)" "length es \<le> length (workflows_with_interval t)"
    "ex_id ` set (executions db) \<subseteq> ex_id ` set (executions db')"
    using L by (simp_all add: eqs grows_def)
  ultimately show ?thesis using en by (simp add: image_subset_iff)
qed

section \<open>Properties\<close>

text \<open>C7: mutual exclusion.  In every store the code can reach, two executions with the same
  workflow, execution number, \<open>is_running\<close> value and time slot are one and the same row.\<close>

theorem execution_lock_exclusive:
  assumes "reachable_db db" and "e1 \<in> set (executions db)" and "e2 \<in> set (executions db)"
    and "ex_workflow_id e1 = ex_workflow_id e2" "ex_number e1 = ex_number e2"
    and "ex_is_running e1 = ex_is_running e2" "ex_timeslot e1 = ex_timeslot e2"
  shows "e1 = e2"
proof -
  from reachable_locks_ok [OF assms(1)] have "inj_on lock_key (set (executions db))"
    by (simp add: locks_ok_def distinct_map)
  then show ?thesis
    by (rule inj_onD) (use assms in \<open>simp_all add: lock_key_def\<close>)
qed

text \<open>The exclusion ends with the two-minute time slot.  There is a reachable store in which two
  executions of the same workflow with the same execution number are both in progress, because the
  second was created in the next slot.\<close>

definition demo_args :: create_args where
  "demo_args = \<lparr>ca_workflow_id = ''w'', ca_revision = 1, ca_tenant_id = ''t'', ca_triggered_by = ''alert'',
     ca_number = 7, ca_event_id = None, ca_fingerprint = Some ''fp'', ca_execution_id = None,
     ca_event_type = ''alert'', ca_test_run = False\<rparr>"

definition demo_uuid :: "nat \<Rightarrow> string" where "demo_uuid n = replicate n (CHR ''x'')"

definition empty_db :: exec_db where
  "empty_db = \<lparr>executions = [], alert_links = [], incident_links = [], uuid_ctr = 0\<rparr>"

definition demo_db :: exec_db where
  "demo_db = snd (create_workflow_execution True demo_uuid 119 demo_args empty_db)"

definition demo_db2 :: exec_db where
  "demo_db2 = snd (create_workflow_execution True demo_uuid 120 demo_args demo_db)"

lemmas demo_defs = demo_db2_def demo_db_def empty_db_def demo_args_def demo_uuid_def
  create_workflow_execution_def created_id_def created_row_def conflicts_def lock_key_def
  timeslot_of_def set_str_def Let_def

lemma demo_reachable: "reachable_db demo_db" "reachable_db demo_db2"
proof -
  have "reachable_db empty_db" by (simp add: reachable_db.start empty_db_def)
  then show one: "reachable_db demo_db"
    unfolding demo_db_def by (rule reachable_db.create) (rule prod.collapse [symmetric])
  show "reachable_db demo_db2"
    unfolding demo_db2_def by (rule reachable_db.create [OF one]) (rule prod.collapse [symmetric])
qed

theorem execution_lock_expires:
  "\<exists>db e1 e2. reachable_db db \<and> e1 \<in> set (executions db) \<and> e2 \<in> set (executions db) \<and> e1 \<noteq> e2
     \<and> ex_workflow_id e1 = ex_workflow_id e2 \<and> ex_number e1 = ex_number e2
     \<and> ex_status e1 = ''in_progress'' \<and> ex_status e2 = ''in_progress''
     \<and> ex_is_running e1 = 1 \<and> ex_is_running e2 = 1"
proof -
  have "created_row 119 [] demo_args \<in> set (executions demo_db2)"
    "created_row 120 ''x'' demo_args \<in> set (executions demo_db2)"
    by (simp_all add: demo_defs)
  moreover have "created_row 119 [] demo_args \<noteq> created_row 120 ''x'' demo_args"
    by (simp add: created_row_def)
  ultimately show ?thesis
    by (intro exI [of _ demo_db2] exI [of _ "created_row 119 [] demo_args"]
        exI [of _ "created_row 120 ''x'' demo_args"])
      (simp add: demo_reachable created_row_def)
qed

text \<open>Finishing releases the lock exactly when the random \<open>is_running\<close> value is not 1.  After
  an execution created in a slot has finished, a second one for the same workflow and number can be
  created in the same slot if \<open>r\<close> differs from 1; with \<open>r = 1\<close>, which the code's range
  includes, the finished execution still blocks it.\<close>

theorem finish_releases_lock:
  assumes "locks_ok db" and "create_workflow_execution audit uuid now a db = (Inr eid, db1)"
    and "finish_workflow_execution now' r (Some eid) status error db1 = (Inr (), db2)"
    and "timeslot_of now'' = timeslot_of now" and "created_id uuid a db2 \<notin> ex_id ` set (executions db2)"
  shows "(\<exists>x d. create_workflow_execution audit uuid now'' a db2 = (Inr x, d)) \<longleftrightarrow> r \<noteq> 1"
proof -
  let ?row = "created_row now eid a"
  let ?fin = "finished_row now' r status error ?row"
  let ?key = "(ca_workflow_id a, ca_number a, 1, timeslot_of now)"
  from create_Inr [OF assms(2)] have ex1: "executions db1 = executions db @ [?row]"
    and nc: "\<not> conflicts ?row (executions db)" by auto
  have idr: "ex_id ?row = eid" by (simp add: created_row_def)
  have notin: "eid \<notin> ex_id ` set (executions db)" "?key \<notin> lock_key ` set (executions db)"
    using nc by (auto simp: conflicts_def lock_key_def created_row_def)
  have "find (\<lambda>e. Some (ex_id e) = Some eid) (executions db) = None"
    using notin(1) by (auto simp: find_None_iff)
  then have "find (\<lambda>e. Some (ex_id e) = Some eid) (executions db1) = Some ?row"
    using idr by (simp add: ex1 find_append)
  with assms(3) have db2: "db2 = replace_execution ?fin db1"
    by (auto simp: finish_workflow_execution_def Let_def split: if_splits)
  have "executions db2 = executions db @ [?fin]"
    using notin(1) by (auto simp: db2 replace_execution_def ex1 finished_row_def created_row_def
        intro!: map_idI)
  moreover have "lock_key ?fin = ?key \<longleftrightarrow> r = 1"
    by (auto simp: lock_key_def finished_row_def created_row_def)
  ultimately have "?key \<in> lock_key ` set (executions db2) \<longleftrightarrow> r = 1"
    using notin(2) by auto
  moreover have "conflicts (created_row now'' (created_id uuid a db2) a) (executions db2)
      \<longleftrightarrow> ?key \<in> lock_key ` set (executions db2)"
    using assms(4,5) by (auto simp: conflicts_def lock_key_def created_row_def)
  ultimately show ?thesis by (auto simp: create_workflow_execution_def Let_def)
qed


text \<open>The clock skew of the interval check.  The stored start times are UTC, the query compares
  them with the naive local time.  Whenever the local clock is ahead of UTC by at least the interval,
  a workflow that has just completed an execution counts as due, and is started again at once if
  its next execution number is free.\<close>

theorem interval_check_vacuous_under_skew:
  assumes "get_last_completed_execution (wr_id w) db = Some prev"
    and "wr_interval w = Some interval" and "ex_started prev \<le> utc_now c"
    and "utc_now c + interval \<le> local_now c"
    and "\<not> conflicts (created_row (utc_now c) (uuid (uuid_ctr db)) (scheduler_args w (ex_number prev + 1)))
          (executions db)"
  shows "\<exists>db'. should_run_one audit uuid c w db = ([run_entry_of w (uuid (uuid_ctr db))], db')"
proof -
  have "interval_due c interval prev" using assms(3,4) by (simp add: interval_due_def)
  then show ?thesis
    using assms(1,2,5)
    by (simp add: should_run_one_def try_run_def create_workflow_execution_def created_id_def
        scheduler_args_def set_str_def Let_def)
qed

section \<open>Witnesses\<close>

definition done_row :: wf_execution where
  "done_row = finished_row 100 5 ''success'' None (created_row 100 ''e1'' demo_args)"

definition skew_db :: exec_db where
  "skew_db = empty_db\<lparr>executions := [done_row]\<rparr>"

definition skew_wf :: wf_row where
  "skew_wf = new_row 0 ''w'' ''t'' ''me'' False sample_values"

definition skew_clocks :: clocks where
  "skew_clocks = \<lparr>utc_now = 101, local_now = 101 + 7200\<rparr>"

lemma skew_last: "get_last_completed_execution (wr_id skew_wf) skew_db = Some done_row"
  by (simp add: get_last_completed_execution_def skew_wf_def new_row_def skew_db_def done_row_def
      finished_row_def created_row_def demo_args_def completed_statuses_def newest_first_def
      first_of_def)

theorem interval_check_vacuous_under_skew_witness:
  "\<exists>db'. should_run_one True demo_uuid skew_clocks skew_wf skew_db
     = ([run_entry_of skew_wf (demo_uuid (uuid_ctr skew_db))], db')"
  by (rule interval_check_vacuous_under_skew [OF skew_last, of 60])
    (simp_all add: skew_wf_def new_row_def sample_values_def skew_clocks_def done_row_def
      finished_row_def created_row_def demo_args_def conflicts_def skew_db_def empty_db_def
      demo_uuid_def lock_key_def scheduler_args_def)

theorem execution_lock_exclusive_witness:
  "inj_on lock_key (set (executions demo_db2)) \<and> length (executions demo_db2) = 2"
proof
  show "inj_on lock_key (set (executions demo_db2))"
    by (rule inj_onI, rule execution_lock_exclusive [OF demo_reachable(2)])
      (simp_all add: lock_key_def)
qed (simp add: demo_defs)

lemma demo_create: "create_workflow_execution True demo_uuid 119 demo_args empty_db = (Inr [], demo_db)"
  by (simp add: demo_defs)

definition demo_done :: exec_db where
  "demo_done = replace_execution (finished_row 119 9 ''success'' None (created_row 119 [] demo_args)) demo_db"

lemma demo_finish:
  "finish_workflow_execution 119 9 (Some []) ''success'' None demo_db = (Inr (), demo_done)"
  by (simp add: finish_workflow_execution_def demo_done_def demo_defs finished_row_def)

theorem finish_releases_lock_witness:
  "\<exists>x d. create_workflow_execution True demo_uuid 60 demo_args demo_done = (Inr x, d)"
proof -
  have "locks_ok empty_db" by (simp add: locks_ok_def empty_db_def)
  from finish_releases_lock [OF this demo_create demo_finish, of 60] show ?thesis
    by (simp add: demo_done_def replace_execution_def finished_row_def demo_defs)
qed


end
