(* ===== verification/Throttle.thy ===== *)
theory Throttle
  imports ExecutionStore
begin

text \<open>
  \<open>src/throttles/one_until_resolved_throttle.py\<close> and the lookups of \<open>src/common/core/db.py\<close> it
  makes: the last execution of the workflow, the alert that execution is linked to, and that
  alert's status.  The alert table is a list of rows; an event id that is no UUID raises
  \<open>ValueError\<close>, a missing one \<open>TypeError\<close>.
\<close>

record alert_row =
  ar_tenant_id :: string
  ar_fingerprint :: string
  ar_id :: string
  ar_status :: "string option"

definition get_workflow_to_alert_execution ::
  "string \<Rightarrow> exec_db \<Rightarrow> (string \<times> string \<times> string option) option" where
  "get_workflow_to_alert_execution eid db = find (\<lambda>l. fst l = eid) (alert_links db)"

definition get_alert_by_fingerprint_and_event_id ::
  "string \<Rightarrow> string \<Rightarrow> string option \<Rightarrow> alert_row list \<Rightarrow> alert_row option result" where
  "get_alert_by_fingerprint_and_event_id tenant_id fingerprint event_id alerts =
     (case event_id of
        None \<Rightarrow> Inl (Exn ETypeError ''one of the hex, bytes arguments must be given'')
      | Some e \<Rightarrow>
          (case uuid_hex e of
             None \<Rightarrow> Inl (Exn EValueError ''badly formed hexadecimal UUID string'')
           | Some h \<Rightarrow> Inr (find (\<lambda>a. ar_tenant_id a = tenant_id \<and> ar_fingerprint a = fingerprint
               \<and> uuid_hex (ar_id a) = Some h) alerts)))"

definition status_throttles :: "string option \<Rightarrow> bool result" where
  "status_throttles status =
     (case status of
        Some s \<Rightarrow> if s \<in> set alert_statuses then Inr (s \<noteq> ''resolved'')
          else Inl (Exn EValueError s)
      | None \<Rightarrow> Inl (Exn EValueError ''None''))"

definition check_throttling ::
  "int \<Rightarrow> string \<Rightarrow> string \<Rightarrow> exec_db \<Rightarrow> alert_row list \<Rightarrow> bool result" where
  "check_throttling now tenant_id workflow_id db alerts =
     (case get_last_workflow_execution_by_workflow_id now tenant_id workflow_id None [] db of
        None \<Rightarrow> Inr False
      | Some run \<Rightarrow>
          (case get_workflow_to_alert_execution (ex_id run) db of
             None \<Rightarrow> Inr False
           | Some (_, fingerprint, event_id) \<Rightarrow>
               rbind (get_alert_by_fingerprint_and_event_id tenant_id fingerprint event_id alerts) (\<lambda>r.
                 (case r of None \<Rightarrow> Inr False | Some a \<Rightarrow> status_throttles (ar_status a)))))"

text \<open>\<open>ThrottleFactory.get_instance\<close>: the module of the type is imported by name.\<close>

definition run_throttle ::
  "string \<Rightarrow> int \<Rightarrow> string \<Rightarrow> string \<Rightarrow> exec_db \<Rightarrow> alert_row list \<Rightarrow> bool result" where
  "run_throttle throttle_type now tenant_id workflow_id db alerts =
     (if throttle_type = ''one_until_resolved'' then check_throttling now tenant_id workflow_id db alerts
      else Inl (Exn (EOther ''ModuleNotFoundError'') throttle_type))"

section \<open>The throttle looks at the running execution\<close>

lemma newest_is_created:
  assumes c: "create_workflow_execution True uuid started a db = (Inr eid, db')"
    and older: "\<forall>e \<in> set (executions db). ex_workflow_id e = ca_workflow_id a \<longrightarrow> ex_started e < started"
    and recent: "now - 86400 \<le> started"
  shows "get_last_workflow_execution_by_workflow_id now (ca_tenant_id a) (ca_workflow_id a) None [] db'
    = Some (created_row started eid a)"
proof -
  let ?P = "\<lambda>e. ex_workflow_id e = ca_workflow_id a \<and> ex_tenant_id e = ca_tenant_id a
    \<and> ex_started e \<ge> now - 86400"
  let ?new = "created_row started eid a"
  have ex: "executions db' = executions db @ [?new]" using create_Inr [OF c] by simp
  have p: "?P ?new" using recent by (simp add: created_row_def)
  have "\<forall>x \<in> set (filter ?P (executions db)). - ex_started ?new < - ex_started x"
    using older by (simp add: created_row_def)
  from sort_key_head [where f = "\<lambda>e. - ex_started e", OF this]
  obtain zs where "sort_key (\<lambda>e. - ex_started e) (filter ?P (executions db) @ [?new]) = ?new # zs" by blast
  with p ex show ?thesis
    by (simp add: get_last_workflow_execution_by_workflow_id_def newest_first_def set_str_def first_of_def)
qed

text \<open>The throttle of an action sees its own run.  When an execution has just been created for
  an alert event, later than all other executions of its workflow, the throttle finds that very
  execution and decides on the triggering alert itself: an alert that is not resolved is throttled,
  the first one included.\<close>

theorem throttle_sees_own_execution:
  assumes "create_workflow_execution True uuid started a db = (Inr eid, db')"
    and "\<forall>e \<in> set (executions db). ex_workflow_id e = ca_workflow_id a \<longrightarrow> ex_started e < started"
    and "now - 86400 \<le> started"
    and "ca_event_type a = ''alert''" and "ca_fingerprint a = Some fp" and "fp \<noteq> []"
    and "eid \<notin> fst ` set (alert_links db)"
    and "get_alert_by_fingerprint_and_event_id (ca_tenant_id a) fp (ca_event_id a) alerts = Inr (Some al)"
    and "ar_status al = Some s" and "s \<in> set alert_statuses"
  shows "check_throttling now (ca_tenant_id a) (ca_workflow_id a) db' alerts = Inr (s \<noteq> ''resolved'')"
proof -
  have "alert_links db' = alert_links db @ [(eid, fp, ca_event_id a)]"
    using assms(1,4-6) by (auto simp: create_workflow_execution_def Let_def set_str_def split: if_splits)
  moreover have "find (\<lambda>l. fst l = eid) (alert_links db) = None"
    unfolding find_None_iff using assms(7) by (metis imageI)
  ultimately have "get_workflow_to_alert_execution eid db' = Some (eid, fp, ca_event_id a)"
    by (simp add: get_workflow_to_alert_execution_def find_append)
  then show ?thesis
    using newest_is_created [OF assms(1-3)] assms(8-10)
    by (simp add: check_throttling_def status_throttles_def created_row_def)
qed

definition throttle_uuid :: "nat \<Rightarrow> string" where
  "throttle_uuid n = replicate (Suc n) (CHR ''u'')"

definition throttle_args :: create_args where
  "throttle_args = demo_args\<lparr>ca_event_id := Some (replicate 32 (CHR ''0'')), ca_fingerprint := Some ''fp''\<rparr>"

theorem throttle_sees_own_execution_witness:
  "check_throttling 0 ''t'' (ca_workflow_id throttle_args)
     (snd (create_workflow_execution True throttle_uuid 0 throttle_args empty_db))
     [\<lparr>ar_tenant_id = ''t'', ar_fingerprint = ''fp'', ar_id = replicate 32 (CHR ''0''), ar_status = Some ''firing''\<rparr>]
   = Inr True"
proof -
  let ?al = "\<lparr>ar_tenant_id = ''t'', ar_fingerprint = ''fp'', ar_id = replicate 32 (CHR ''0''), ar_status = Some ''firing''\<rparr>"
  have t: "ca_tenant_id throttle_args = ''t''" "ca_event_type throttle_args = ''alert''"
    "ca_fingerprint throttle_args = Some ''fp''" "executions empty_db = []" "alert_links empty_db = []"
    by (simp_all add: throttle_args_def demo_args_def empty_db_def)
  have c: "create_workflow_execution True throttle_uuid 0 throttle_args empty_db = (Inr ''u'',
      snd (create_workflow_execution True throttle_uuid 0 throttle_args empty_db))" by code_simp
  have g: "get_alert_by_fingerprint_and_event_id (ca_tenant_id throttle_args) ''fp''
      (ca_event_id throttle_args) [?al] = Inr (Some ?al)" by code_simp
  have "check_throttling 0 (ca_tenant_id throttle_args) (ca_workflow_id throttle_args)
     (snd (create_workflow_execution True throttle_uuid 0 throttle_args empty_db)) [?al] = Inr (''firing'' \<noteq> ''resolved'')"
    by (rule throttle_sees_own_execution [OF c _ _ t(2,3) _ _ g])
      (simp_all add: t alert_statuses_def)
  then show ?thesis by (simp add: t(1))
qed

end
