(* ===== verification/Step.thy ===== *)
theory Step
  imports Conditions Throttle
begin

text \<open>
  \<open>src/step/step.py\<close>: one step or action of a workflow.  A run renders the aliases, evaluates the
  conditions, decides with the \<open>if\<close> expression, asks the throttle, and then calls the
  provider with retries; \<open>foreach\<close> repeats this for every item of a list.  The provider is a
  function of the calls made before (its answers may change from call to call); the state is the
  context and the list of those calls, and the step itself, whose configuration a run changes.
\<close>

record step =
  st_id :: string
  st_is_action :: bool
  st_keep_provider :: bool
  st_config :: pydict
  st_params :: pydict
  st_conditions :: "pyval list"
  st_vars :: pydict
  st_retry_count :: int
  st_retry_interval :: int
  st_continue :: bool

type_synonym call = "string \<times> pydict"

record step_env =
  se_cond :: cond_env
  provider_call :: "call list \<Rightarrow> bool \<Rightarrow> string \<Rightarrow> pydict \<Rightarrow> pyval result"
  provider_expose :: "call list \<Rightarrow> string \<Rightarrow> pydict"
  se_now :: int
  se_db :: exec_db
  se_alerts :: "alert_row list"

record world =
  w_ctx :: ctx
  w_calls :: "call list"

type_synonym 'a run = "'a result \<times> step \<times> world"

definition se_io :: "step_env \<Rightarrow> io_env" where
  "se_io env = ce_io (se_cond env)"

section \<open>Construction\<close>

text \<open>Parts of a configuration that must be dictionaries, lists or numbers.\<close>

definition need_dict :: "pyval \<Rightarrow> pydict result" where
  "need_dict v = (case v of PDict d \<Rightarrow> Inr d | _ \<Rightarrow> Inl (Exn EAttributeError ''get''))"

definition need_list :: "pyval \<Rightarrow> pyval list result" where
  "need_list v = (case v of PList l \<Rightarrow> Inr l | _ \<Rightarrow> Inl (Exn ETypeError ''not iterable''))"

definition need_int :: "pyval \<Rightarrow> int result" where
  "need_int v = (case v of PInt i \<Rightarrow> Inr i | PBool b \<Rightarrow> Inr (if b then 1 else 0)
     | _ \<Rightarrow> Inl (Exn ETypeError ''unsupported operand''))"

definition new_step :: "string \<Rightarrow> pydict \<Rightarrow> bool \<Rightarrow> bool \<Rightarrow> pydict \<Rightarrow> step result" where
  "new_step sid config is_action keep_provider params =
     rbind (need_dict (dict_get config ''provider'' (PDict []))) (\<lambda>prov.
       let legacy = dict_get prov ''on-failure'' (PDict []);
           own = dict_get config ''on-failure'' (PDict [])
       in rbind (need_dict (if truthy own then own else legacy)) (\<lambda>on_failure.
          rbind (need_dict (dict_get on_failure ''retry'' (PDict []))) (\<lambda>retry.
          rbind (need_int (dict_get retry ''count'' (PInt 0))) (\<lambda>count.
          rbind (need_int (dict_get retry ''interval'' (PInt 0))) (\<lambda>interval.
          rbind (need_list (dict_get config ''condition'' (PList []))) (\<lambda>conds.
          rbind (need_dict (dict_get config ''vars'' (PDict []))) (\<lambda>vars.
            Inr \<lparr>st_id = sid, st_is_action = is_action, st_keep_provider = keep_provider,
              st_config = config, st_params = params, st_conditions = conds, st_vars = vars,
              st_retry_count = count, st_retry_interval = interval,
              st_continue = truthy (dict_get config ''continue'' (PBool True))\<rparr>)))))))"

section \<open>Aliases and conditions\<close>

text \<open>The loop over the aliases writes each rendered value back into the configuration.\<close>

fun render_aliases :: "io_env \<Rightarrow> ctx \<Rightarrow> pydict \<Rightarrow> pydict \<Rightarrow> exn option \<times> pydict" where
  "render_aliases env c aliases [] = (None, aliases)"
| "render_aliases env c aliases ((k, v) # kvs) =
     (case render env c False (PStr []) [] v of
        Inl e \<Rightarrow> (Some e, aliases)
      | Inr v' \<Rightarrow> render_aliases env c (dset k v' aliases) kvs)"

definition alias_dict :: "step \<Rightarrow> pydict" where
  "alias_dict s = (case dget (st_config s) ''alias'' of Some (PDict d) \<Rightarrow> d | _ \<Rightarrow> [])"

definition put_aliases :: "pydict \<Rightarrow> step \<Rightarrow> step" where
  "put_aliases d s =
     (case dget (st_config s) ''alias'' of
        Some (PDict _) \<Rightarrow> s\<lparr>st_config := dset ''alias'' (PDict d) (st_config s)\<rparr> | _ \<Rightarrow> s)"

definition make_condition :: "pyval \<Rightarrow> condition result" where
  "make_condition cfg =
     rbind (need_dict cfg) (\<lambda>d.
       (case dict_get d ''name'' PNone of
          PStr (n # ns) \<Rightarrow> get_condition (dict_get d ''type'' PNone) (n # ns) d
        | _ \<Rightarrow> Inl (Exn EException ''Condition must have a name'')))"

fun apply_conditions :: "cond_env \<Rightarrow> string \<Rightarrow> condition list \<Rightarrow> ctx \<Rightarrow> unit result \<times> ctx" where
  "apply_conditions env sid [] c = (Inr (), c)"
| "apply_conditions env sid (cd # cds) c =
     (case rbind (get_compare_to env c cd) (\<lambda>compare_to.
             rbind (get_compare_value env c cd) (\<lambda>compare_value.
             rbind (apply_condition env cd compare_to compare_value) (\<lambda>(b, cx).
               Inr (set_condition_results sid (cd_name cd) (PStr (cd_type cd)) compare_to compare_value
                      (PBool b) (cd_alias cd) PNone cx c)))) of
        Inl e \<Rightarrow> (Inl e, c)
      | Inr c \<Rightarrow> apply_conditions env sid cds c)"

section \<open>The decision\<close>

text \<open>Without an \<open>if\<close> the conditions are joined by \<open>and\<close>.\<close>

definition if_expression :: "step \<Rightarrow> condition list \<Rightarrow> pyval" where
  "if_expression s cds =
     (if truthy (dict_get (st_config s) ''if'' PNone) then dict_get (st_config s) ''if'' PNone
      else PStr (py_join '' and '' (map (\<lambda>cd. ''{{ '' @ cd_alias cd @ '' }} '') cds)))"

text \<open>A new interpreter evaluates the text, and once more when the value is itself text.\<close>

definition eval_text :: "cond_env \<Rightarrow> pyval \<Rightarrow> aeval_out" where
  "eval_text env v =
     (let r = aeval env [v]
      in (case ae_value r of PStr s \<Rightarrow> aeval env [v, PStr s] | _ \<Rightarrow> r))"

definition if_error :: "exn" where
  "if_error = Exn EException ''Failed to evaluate if condition''"

definition evaluate_if :: "cond_env \<Rightarrow> ctx \<Rightarrow> string \<Rightarrow> pyval result" where
  "evaluate_if env c if_conf =
     (let quoted = quote if_conf
      in rbind (render (ce_io env) c False (PStr []) [] (PStr quoted)) (\<lambda>if_met.
           let r = eval_text env if_met
           in if ae_error_msg r \<noteq> [] \<and> if_conf = quoted then Inl if_error
              else if ae_error_msg r \<noteq> [] \<or> ae_error r then
                rbind (render (ce_io env) c False (PStr []) [] (PStr if_conf)) (\<lambda>if_met.
                  let r = eval_text env if_met
                  in if ae_error_msg r \<noteq> [] then Inl if_error else Inr (ae_value r))
              else Inr (ae_value r)))"

definition decide :: "cond_env \<Rightarrow> ctx \<Rightarrow> pyval \<Rightarrow> bool result" where
  "decide env c if_conf =
     (case if_conf of
        PStr [] \<Rightarrow> Inr True
      | PStr s \<Rightarrow> rbind (evaluate_if env c s) (\<lambda>v. Inr (truthy v))
      | _ \<Rightarrow> Inl (Exn ETypeError ''expected string or bytes-like object''))"

definition check_step_throttling :: "step_env \<Rightarrow> step \<Rightarrow> ctx \<Rightarrow> bool result" where
  "check_step_throttling env s c =
     (let throttling = dict_get (st_config s) ''throttle'' PNone
      in if \<not> truthy throttling then Inr False
         else rbind (need_dict throttling) (\<lambda>t.
           run_throttle (py_str (dict_get t ''type'' PNone)) (se_now env) (cm_tenant_id c)
             (case cm_workflow_id c of None \<Rightarrow> [] | Some w \<Rightarrow> w) (se_db env) (se_alerts env)))"

section \<open>The provider call with retries\<close>

definition has_foreach :: "step \<Rightarrow> bool" where
  "has_foreach s \<longleftrightarrow> truthy (dict_get (st_config s) ''foreach'' PNone)"

definition step_error :: "exn \<Rightarrow> exn" where
  "step_error e = Exn EStepError (exn_msg e)"

text \<open>One attempt: the call and the storing of its result.\<close>

definition attempt :: "step_env \<Rightarrow> step \<Rightarrow> pydict \<Rightarrow> world \<Rightarrow> unit result \<times> world" where
  "attempt env s params w =
     (let w' = w\<lparr>w_calls := w_calls w @ [(st_id s, params)]\<rparr>
      in (case rbind (provider_call env (w_calls w) (st_is_action s) (st_id s) params)
                (\<lambda>out. set_step_context (st_id s) out (has_foreach s) (w_ctx w)) of
            Inl e \<Rightarrow> (Inl e, w')
          | Inr c \<Rightarrow> (Inr (), w'\<lparr>w_ctx := c\<rparr>)))"

fun attempts :: "step_env \<Rightarrow> step \<Rightarrow> pydict \<Rightarrow> nat \<Rightarrow> world \<Rightarrow> unit result \<times> world" where
  "attempts env s params 0 w = (Inr (), w)"
| "attempts env s params (Suc n) w =
     (case attempt env s params w of
        (Inr _, w) \<Rightarrow> (Inr (), w)
      | (Inl e, w) \<Rightarrow> if n = 0 then (Inl (step_error e), w) else attempts env s params n w)"

text \<open>A provider that renders its own parameters is handed the step's dictionary itself, so what
  \<open>expose\<close> adds stays in it.\<close>

definition call_provider :: "step_env \<Rightarrow> bool \<Rightarrow> step \<Rightarrow> world \<Rightarrow> unit run" where
  "call_provider env dont_render s w =
     (case (if dont_render then Inr (st_params s)
            else render_context (se_io env) (w_ctx w) [] (st_params s)) of
        Inl e \<Rightarrow> (Inl (step_error e), s, w)
      | Inr params \<Rightarrow>
          (case attempts env s params (nat (st_retry_count s + 1)) w of
             (Inl e, w) \<Rightarrow> (Inl (step_error e), s, w)
           | (Inr _, w) \<Rightarrow>
               let params = dupdate params (provider_expose env (w_calls w) (st_id s));
                   s = (if dont_render then s\<lparr>st_params := params\<rparr> else s)
               in (Inr (), s, w\<lparr>w_ctx := set_step_provider_parameters (st_id s) params (w_ctx w)\<rparr>)))"

section \<open>Running\<close>

definition run_single :: "step_env \<Rightarrow> bool \<Rightarrow> step \<Rightarrow> world \<Rightarrow> bool run" where
  "run_single env dont_render s w =
     (case render_aliases (se_io env) (w_ctx w) (alias_dict s) (alias_dict s) of
        (Some e, als) \<Rightarrow> (Inl e, put_aliases als s, w)
      | (None, als) \<Rightarrow>
          let s = put_aliases als s;
              w = w\<lparr>w_ctx := set_step_vars (st_id s) (st_vars s) als (w_ctx w)\<rparr>
          in (case rmap make_condition (st_conditions s) of
                Inl e \<Rightarrow> (Inl e, s, w)
              | Inr cds \<Rightarrow>
                  (case apply_conditions (se_cond env) (st_id s) cds (w_ctx w) of
                     (Inl e, c) \<Rightarrow> (Inl e, s, w\<lparr>w_ctx := c\<rparr>)
                   | (Inr _, c) \<Rightarrow>
                       let w = w\<lparr>w_ctx := c\<rparr>
                       in (case rbind (decide (se_cond env) c (if_expression s cds)) (\<lambda>go.
                                  if \<not> go then Inr False
                                  else rbind (check_step_throttling env s c) (\<lambda>t. Inr (\<not> t))) of
                             Inl e \<Rightarrow> (Inl e, s, w)
                           | Inr False \<Rightarrow> (Inr False, s, w)
                           | Inr True \<Rightarrow>
                               (case call_provider env dont_render s w of
                                  (Inl e, s, w) \<Rightarrow> (Inl e, s, w)
                                | (Inr _, s, w) \<Rightarrow> (Inr True, s, w))))))"

text \<open>The items of a \<open>foreach\<close>: paths into the context separated by \<open>&&\<close>; several
  paths are zipped.\<close>

fun follow_path :: "pyval \<Rightarrow> string list \<Rightarrow> pyval" where
  "follow_path v [] = v"
| "follow_path v (i # is) =
     follow_path (case v of PDict d \<Rightarrow> dict_get d i (PDict []) | _ \<Rightarrow> PDict []) is"

definition foreach_path :: "string \<Rightarrow> string list" where
  "foreach_path s = map py_strip (py_split ''.'' (py_replace ''}}'' [] (py_replace ''{{'' [] s)))"

definition iterate :: "pyval \<Rightarrow> pyval list result" where
  "iterate v =
     (case v of
        PList l \<Rightarrow> Inr l
      | PDict d \<Rightarrow> Inr (map (PStr \<circ> fst) d)
      | PStr s \<Rightarrow> Inr (map (\<lambda>c. PStr [c]) s)
      | _ \<Rightarrow> Inl (Exn ETypeError ''object is not iterable''))"

fun zip_all :: "pyval list list \<Rightarrow> pyval list" where
  "zip_all [] = []"
| "zip_all [l] = map (\<lambda>x. PList [x]) l"
| "zip_all (l # ls) = map2 (\<lambda>x t. PList (x # (case t of PList xs \<Rightarrow> xs | _ \<Rightarrow> []))) l (zip_all ls)"

definition get_foreach_items :: "step \<Rightarrow> ctx \<Rightarrow> pyval result" where
  "get_foreach_items s c =
     (case dict_get (st_config s) ''foreach'' PNone of
        PStr fe \<Rightarrow>
          (case map (\<lambda>p. follow_path (PDict (get_full_context False c)) (foreach_path p)) (py_split ''&&'' fe) of
             [v] \<Rightarrow> if truthy v then Inr v else rbind (iterate v) (\<lambda>l. Inr (PList (zip_all [l])))
           | vs \<Rightarrow> rbind (rmap iterate vs) (\<lambda>ls. Inr (PList (zip_all ls))))
      | _ \<Rightarrow> Inl (Exn EAttributeError ''split''))"

fun foreach_loop :: "step_env \<Rightarrow> pyval list \<Rightarrow> bool \<Rightarrow> step \<Rightarrow> world \<Rightarrow> bool \<times> step \<times> world" where
  "foreach_loop env [] any s w = (any, s, w)"
| "foreach_loop env (item # items) any s w =
     (case run_single env False s (w\<lparr>w_ctx := set_foreach_value item (w_ctx w)\<rparr>) of
        (Inl _, s, w) \<Rightarrow> foreach_loop env items any s w
      | (Inr did_run, s, w) \<Rightarrow> foreach_loop env items (any \<or> did_run) s w)"

definition run_foreach :: "step_env \<Rightarrow> step \<Rightarrow> world \<Rightarrow> bool run" where
  "run_foreach env s w =
     (case get_foreach_items s (w_ctx w) of
        Inl e \<Rightarrow> (Inl e, s, w)
      | Inr items \<Rightarrow>
          let w = w\<lparr>w_ctx := set_foreach_items items (w_ctx w)\<rparr>
          in (case iterate items of
                Inl e \<Rightarrow> (Inl e, s, w)
              | Inr l \<Rightarrow>
                  (case foreach_loop env l False s w of
                     (any, s, w) \<Rightarrow> (Inr any, s, w\<lparr>w_ctx := reset_foreach_context (w_ctx w)\<rparr>))))"

definition action_error :: "exn \<Rightarrow> exn" where
  "action_error e = Exn EActionError (exn_msg e)"

definition run_step :: "step_env \<Rightarrow> step \<Rightarrow> world \<Rightarrow> bool run" where
  "run_step env s w =
     (case (if has_foreach s then run_foreach env s w
            else run_single env (st_is_action s \<and> st_keep_provider s) s w) of
        (Inl e, s, w) \<Rightarrow> (Inl (action_error e), s, w)
      | r \<Rightarrow> r)"

section \<open>What a run leaves alone\<close>

lemma need_simps [simp]: "need_dict (PDict d) = Inr d" "need_list (PList l) = Inr l" "need_int (PInt i) = Inr i"
  by (simp_all add: need_dict_def need_list_def need_int_def)

lemma put_aliases_frame [simp]:
  "st_id (put_aliases als s) = st_id s" "st_params (put_aliases als s) = st_params s"
  "st_retry_count (put_aliases als s) = st_retry_count s"
  "st_conditions (put_aliases als s) = st_conditions s" "st_vars (put_aliases als s) = st_vars s"
  "st_continue (put_aliases als s) = st_continue s"
  by (auto simp: put_aliases_def split: option.splits pyval.splits)

lemma has_foreach_put_aliases [simp]: "has_foreach (put_aliases als s) = has_foreach s"
  by (auto simp: put_aliases_def has_foreach_def dict_get_def split: option.splits pyval.splits)

lemma apply_conditions_keeps:
  "apply_conditions env sid cds c = (r, c') \<Longrightarrow> dget (steps_context c) sid \<noteq> None \<Longrightarrow>
     keeps_results sid c c' \<and> dget (steps_context c') sid \<noteq> None"
proof (induction env sid cds c rule: apply_conditions.induct)
  case (2 env sid cd cds c)
  show ?case
  proof (cases "rbind (get_compare_to env c cd) (\<lambda>compare_to.
             rbind (get_compare_value env c cd) (\<lambda>compare_value.
             rbind (apply_condition env cd compare_to compare_value) (\<lambda>(b, cx).
               Inr (set_condition_results sid (cd_name cd) (PStr (cd_type cd)) compare_to compare_value
                      (PBool b) (cd_alias cd) PNone cx c))))")
    case (Inl e)
    with "2.prems" show ?thesis by simp
  next
    case (Inr c1)
    then obtain ct cv b cx where
      c1: "c1 = set_condition_results sid (cd_name cd) (PStr (cd_type cd)) ct cv (PBool b) (cd_alias cd) PNone cx c"
      by (auto simp: rbind_Inr_iff)
    from "2.prems"(1) Inr have "apply_conditions env sid cds c1 = (r, c')" by simp
    from "2.IH" [OF Inr this] set_condition_results_keeps [OF "2.prems"(2)] c1
    show ?thesis by (blast intro: keeps_results_trans)
  qed
qed simp

text \<open>The calls of the attempts: at least one when any is allowed, all the same; failing uses up
  every attempt.\<close>

lemma attempt_calls:
  "attempt env s ps w = (r, w') \<Longrightarrow> w_calls w' = w_calls w @ [(st_id s, ps)]
     \<and> touches_only (st_id s) (w_ctx w) (w_ctx w')"
  by (auto simp: attempt_def Let_def rbind_Inr_iff dest: set_step_context_touches split: sum.splits)

lemma attempts_calls:
  "attempts env s ps n w = (r, w') \<Longrightarrow>
     \<exists>k \<le> n. w_calls w' = w_calls w @ replicate k (st_id s, ps)
       \<and> (r \<noteq> Inr () \<longrightarrow> k = n \<and> 0 < n) \<and> (0 < n \<longrightarrow> 0 < k)
       \<and> touches_only (st_id s) (w_ctx w) (w_ctx w')"
proof (induction n arbitrary: w)
  case (Suc n)
  obtain r1 w1 where a: "attempt env s ps w = (r1, w1)" by (cases "attempt env s ps w")
  note c = attempt_calls [OF a]
  show ?case
  proof (cases "r1 = Inr () \<or> n = 0")
    case True
    then have "w' = w1" "r \<noteq> Inr () \<longrightarrow> n = 0"
      using Suc.prems a by (cases r1; simp split: if_splits)+
    with c show ?thesis by (intro exI [of _ 1]) simp
  next
    case False
    then obtain e where "r1 = Inl e" by (cases r1) auto
    with Suc.prems a False have "attempts env s ps n w1 = (r, w')" by simp
    from Suc.IH [OF this] obtain k where k: "k \<le> n"
      "w_calls w' = w_calls w1 @ replicate k (st_id s, ps)"
      "r \<noteq> Inr () \<longrightarrow> k = n \<and> 0 < n" "touches_only (st_id s) (w_ctx w1) (w_ctx w')" by (elim exE conjE) (rule that; assumption)
    have "touches_only (st_id s) (w_ctx w) (w_ctx w')"
      using c k(4) by (elim conjE) (rule touches_only_trans)
    with c k show ?thesis by (intro exI [of _ "Suc k"]) simp
  qed
qed simp

lemma call_provider_calls:
  assumes "call_provider env d s w = (r, s', w')"
  shows "\<exists>k ps. int k \<le> max 0 (st_retry_count s + 1)
    \<and> w_calls w' = w_calls w @ replicate k (st_id s, ps) \<and> (r = Inr () \<and> 0 \<le> st_retry_count s \<longrightarrow> 0 < k)
    \<and> touches_only (st_id s) (w_ctx w) (w_ctx w')
    \<and> st_id s' = st_id s \<and> st_config s' = st_config s \<and> st_retry_count s' = st_retry_count s"
proof (cases "if d then Inr (st_params s) else render_context (se_io env) (w_ctx w) [] (st_params s)")
  case (Inl e)
  with assms show ?thesis by (auto simp: call_provider_def intro!: exI [of _ 0])
next
  case (Inr ps)
  obtain r1 w1 where a: "attempts env s ps (nat (st_retry_count s + 1)) w = (r1, w1)"
    by (cases "attempts env s ps (nat (st_retry_count s + 1)) w")
  from attempts_calls [OF a] obtain k where k: "k \<le> nat (st_retry_count s + 1)"
    "w_calls w1 = w_calls w @ replicate k (st_id s, ps)"
    "0 < nat (st_retry_count s + 1) \<longrightarrow> 0 < k" "touches_only (st_id s) (w_ctx w) (w_ctx w1)" by (elim exE conjE) (rule that; assumption)
  have kb: "int k \<le> max 0 (st_retry_count s + 1)" using k(1) by simp
  show ?thesis
  proof (cases r1)
    case (Inl e)
    with assms Inr a have "r = Inl (step_error e)" "s' = s" "w' = w1" by (auto simp: call_provider_def)
    with k kb show ?thesis by (intro exI [of _ k] exI [of _ ps]) simp
  next
    case r1: (Inr u)
    then have w': "w_calls w' = w_calls w1" "st_id s' = st_id s" "st_config s' = st_config s"
      "st_retry_count s' = st_retry_count s"
      "\<exists>p. w_ctx w' = set_step_provider_parameters (st_id s) p (w_ctx w1)"
      using assms Inr a by (auto simp: call_provider_def Let_def)
    then have "touches_only (st_id s) (w_ctx w1) (w_ctx w')"
      using set_step_provider_parameters_keeps keeps_results_touches by metis
    with k(4) have "touches_only (st_id s) (w_ctx w) (w_ctx w')" by (rule touches_only_trans)
    with w'(1-4) k kb show ?thesis by (intro exI [of _ k] exI [of _ ps]) auto
  qed
qed

section \<open>The phases of a run\<close>

text \<open>The state in which the decision is taken: aliases written back, conditions applied.\<close>

definition reaches_decision :: "step_env \<Rightarrow> step \<Rightarrow> world \<Rightarrow> step \<Rightarrow> condition list \<Rightarrow> ctx \<Rightarrow> bool" where
  "reaches_decision env s w s1 cds c \<longleftrightarrow>
     (\<exists>als. render_aliases (se_io env) (w_ctx w) (alias_dict s) (alias_dict s) = (None, als)
        \<and> s1 = put_aliases als s \<and> rmap make_condition (st_conditions s) = Inr cds
        \<and> apply_conditions (se_cond env) (st_id s) cds (set_step_vars (st_id s) (st_vars s) als (w_ctx w))
            = (Inr (), c))"

lemma reaches_decision_keeps:
  assumes "reaches_decision env s w s1 cds c"
  shows "keeps_results (st_id s) (w_ctx w) c" "st_id s1 = st_id s"
    "st_retry_count s1 = st_retry_count s" "has_foreach s1 = has_foreach s"
proof -
  obtain als where a: "s1 = put_aliases als s"
    "apply_conditions (se_cond env) (st_id s) cds (set_step_vars (st_id s) (st_vars s) als (w_ctx w)) = (Inr (), c)"
    using assms by (auto simp: reaches_decision_def)
  from apply_conditions_keeps [OF a(2) set_step_vars_entry]
  have "keeps_results (st_id s) (set_step_vars (st_id s) (st_vars s) als (w_ctx w)) c" by blast
  with set_step_vars_keeps show "keeps_results (st_id s) (w_ctx w) c" by (rule keeps_results_trans)
qed (use assms in \<open>auto simp: reaches_decision_def\<close>)

text \<open>A run either calls the provider, after a positive decision, or makes no call at all.\<close>

lemma run_single_cases:
  assumes "run_single env d s w = (r, s', w')"
  obtains (quiet) "w_calls w' = w_calls w" "r \<noteq> Inr True" "keeps_results (st_id s) (w_ctx w) (w_ctx w')"
      "st_id s' = st_id s" "st_retry_count s' = st_retry_count s" "has_foreach s' = has_foreach s"
  | (called) s1 cds c x where "reaches_decision env s w s1 cds c"
      "decide (se_cond env) c (if_expression s1 cds) = Inr True"
      "check_step_throttling env s1 c = Inr False"
      "call_provider env d s1 (w\<lparr>w_ctx := c\<rparr>) = (x, s', w')"
      "r = (case x of Inl e \<Rightarrow> Inl e | Inr _ \<Rightarrow> Inr True)"
proof -
  obtain err als where al: "render_aliases (se_io env) (w_ctx w) (alias_dict s) (alias_dict s) = (err, als)"
    by (cases "render_aliases (se_io env) (w_ctx w) (alias_dict s) (alias_dict s)")
  let ?s = "put_aliases als s"
  let ?c = "set_step_vars (st_id s) (st_vars s) als (w_ctx w)"
  show thesis
  proof (cases err)
    case (Some e)
    with assms al have "r = Inl e" "s' = ?s" "w' = w" by (auto simp: run_single_def)
    then show thesis by (intro quiet) auto
  next
    case None
    show thesis
    proof (cases "rmap make_condition (st_conditions s)")
      case (Inl e)
      with assms al None have "r = Inl e" "s' = ?s" "w' = w\<lparr>w_ctx := ?c\<rparr>" by (auto simp: run_single_def Let_def)
      then show thesis by (intro quiet) (auto intro: set_step_vars_keeps)
    next
      case (Inr cds)
      obtain ra c where ac: "apply_conditions (se_cond env) (st_id s) cds ?c = (ra, c)"
        by (cases "apply_conditions (se_cond env) (st_id s) cds ?c")
      have kc: "keeps_results (st_id s) (w_ctx w) c"
        using apply_conditions_keeps [OF ac set_step_vars_entry] set_step_vars_keeps
        by (blast intro: keeps_results_trans)
      let ?go = "rbind (decide (se_cond env) c (if_expression ?s cds)) (\<lambda>go.
                  if \<not> go then Inr False
                  else rbind (check_step_throttling env ?s c) (\<lambda>t. Inr (\<not> t)))"
      show thesis
      proof (cases "ra = Inr () \<and> ?go = Inr True")
        case True
        then have ra: "ra = Inr ()" and go: "?go = Inr True" by auto
        from go have dec: "decide (se_cond env) c (if_expression ?s cds) = Inr True"
          and th: "check_step_throttling env ?s c = Inr False"
          by (auto simp: rbind_Inr_iff split: if_splits)
        obtain x s2 w2 where cp: "call_provider env d ?s (w\<lparr>w_ctx := c\<rparr>) = (x, s2, w2)"
          by (cases "call_provider env d ?s (w\<lparr>w_ctx := c\<rparr>)")
        have "reaches_decision env s w ?s cds c"
          using al None Inr ac ra by (auto simp: reaches_decision_def)
        moreover have "run_single env d s w = ((case x of Inl e \<Rightarrow> Inl e | Inr _ \<Rightarrow> Inr True), s2, w2)"
          using al None Inr ac ra dec th cp by (cases x) (simp_all add: run_single_def Let_def)
        then have "r = (case x of Inl e \<Rightarrow> Inl e | Inr _ \<Rightarrow> Inr True)" "s2 = s'" "w2 = w'"
          using assms by simp_all
        ultimately show thesis using called [OF _ dec th] cp by simp
      next
        case False
        have "r \<noteq> Inr True" "s' = ?s" "w' = w\<lparr>w_ctx := c\<rparr>"
          using assms al None Inr ac False
          by (auto simp: run_single_def Let_def split: sum.splits bool.splits prod.splits)
        with kc show thesis by (intro quiet) auto
      qed
    qed
  qed
qed

lemma run_single_frame:
  assumes "run_single env d s w = (r, s', w')"
  shows "touches_only (st_id s) (w_ctx w) (w_ctx w') \<and> st_id s' = st_id s
    \<and> st_retry_count s' = st_retry_count s"
  using assms
proof (cases rule: run_single_cases)
  case quiet
  then show ?thesis by (simp add: keeps_results_touches)
next
  case (called s1 cds c x)
  note k = reaches_decision_keeps [OF called(1)]
  from call_provider_calls [OF called(4)] k(2,3)
  have "touches_only (st_id s) c (w_ctx w')" "st_id s' = st_id s" "st_retry_count s' = st_retry_count s"
    by auto
  moreover have "touches_only (st_id s) (w_ctx w) c" using k(1) by (rule keeps_results_touches)
  ultimately show ?thesis using touches_only_trans by simp
qed

lemma foreach_loop_frame:
  "foreach_loop env items any s w = (r, s', w') \<Longrightarrow> touches_only (st_id s) (w_ctx w) (w_ctx w')"
proof (induction items arbitrary: any s w)
  case (Cons item items)
  let ?w = "w\<lparr>w_ctx := set_foreach_value item (w_ctx w)\<rparr>"
  obtain r1 s1 w1 where r1: "run_single env False s ?w = (r1, s1, w1)"
    by (cases "run_single env False s ?w")
  note f = run_single_frame [OF r1]
  obtain any1 where "foreach_loop env items any1 s1 w1 = (r, s', w')"
    using Cons.prems r1 by (cases r1) auto
  from Cons.IH [OF this] f have "touches_only (st_id s) (w_ctx w1) (w_ctx w')" by simp
  moreover have "touches_only (st_id s) (w_ctx w) (w_ctx ?w)"
    by (intro keeps_results_touches keeps_results_steps) (simp add: set_foreach_value_def)
  ultimately show ?case using f touches_only_trans by simp blast
qed simp

text \<open>C17: bounded provider calls.  One run of a step makes \<open>k\<close> calls to its own provider, all with
  the same parameters; \<open>k\<close> is at most the retry count plus one, zero when the step did not run,
  and at least one when it ran and the retry count is not negative.\<close>

theorem provider_calls_bounded:
  assumes "run_single env d s w = (r, s', w')"
  shows "\<exists>k ps. w_calls w' = w_calls w @ replicate k (st_id s, ps)
    \<and> int k \<le> max 0 (st_retry_count s + 1) \<and> (r = Inr False \<longrightarrow> k = 0)
    \<and> (r = Inr True \<and> 0 \<le> st_retry_count s \<longrightarrow> 0 < k)"
  using assms
proof (cases rule: run_single_cases)
  case quiet
  then show ?thesis by (intro exI [of _ 0]) simp
next
  case (called s1 cds c x)
  note k = reaches_decision_keeps [OF called(1)]
  from call_provider_calls [OF called(4)] k(2,3) obtain n ps where
    n: "int n \<le> max 0 (st_retry_count s + 1)" "w_calls w' = w_calls w @ replicate n (st_id s, ps)"
    "x = Inr () \<and> 0 \<le> st_retry_count s \<longrightarrow> 0 < n" by auto
  have "r = Inr True \<longrightarrow> x = Inr ()" "r \<noteq> Inr False" using called(5) by (auto split: sum.splits)
  with n show ?thesis by (intro exI [of _ n] exI [of _ ps]) auto
qed

text \<open>C18: no call without permission.  If a run called the provider or reports that it ran, all
  aliases were rendered, all conditions applied without an exception, the \<open>if\<close> expression (or
  the conjunction of the conditions) was true in that state, and the throttle let it pass.\<close>

theorem provider_called_only_when_allowed:
  assumes "run_single env d s w = (r, s', w')"
    and "w_calls w' \<noteq> w_calls w \<or> r = Inr True"
  shows "\<exists>s1 cds c. reaches_decision env s w s1 cds c
    \<and> decide (se_cond env) c (if_expression s1 cds) = Inr True
    \<and> check_step_throttling env s1 c = Inr False"
  using assms(1)
proof (cases rule: run_single_cases)
  case quiet
  with assms(2) show ?thesis by simp
qed blast

text \<open>A step changes its own entry of the context only, whatever it runs and however it ends:
  the results of all other steps are what they were.\<close>

theorem run_step_frame:
  assumes "run_step env s w = (r, s', w')" and "sid \<noteq> st_id s"
  shows "entry_of (w_ctx w') sid = entry_of (w_ctx w) sid"
proof -
  have "touches_only (st_id s) (w_ctx w) (w_ctx w')"
  proof (cases "has_foreach s")
    case False
    then obtain r1 where "run_single env (st_is_action s \<and> st_keep_provider s) s w = (r1, s', w')"
      using assms(1) by (auto simp: run_step_def split: sum.splits prod.splits)
    then show ?thesis using run_single_frame by blast
  next
    case True
    then obtain r1 where f: "run_foreach env s w = (r1, s', w')"
      using assms(1) by (auto simp: run_step_def split: sum.splits prod.splits)
    show ?thesis
    proof (cases "get_foreach_items s (w_ctx w)")
      case (Inl e)
      with f show ?thesis by (simp add: run_foreach_def)
    next
      case (Inr items)
      let ?w = "w\<lparr>w_ctx := set_foreach_items items (w_ctx w)\<rparr>"
      have i: "touches_only (st_id s) (w_ctx w) (w_ctx ?w)"
        by (intro keeps_results_touches keeps_results_steps) (simp add: set_foreach_items_def)
      show ?thesis
      proof (cases "iterate items")
        case (Inl e)
        with f Inr i show ?thesis by (auto simp: run_foreach_def Let_def)
      next
        case l: (Inr l)
        obtain any s2 w2 where fl: "foreach_loop env l False s ?w = (any, s2, w2)"
          by (cases "foreach_loop env l False s ?w")
        with f Inr l have "w_ctx w' = reset_foreach_context (w_ctx w2)"
          by (auto simp: run_foreach_def Let_def)
        then have "touches_only (st_id s) (w_ctx w2) (w_ctx w')"
          by (intro keeps_results_touches keeps_results_steps) (simp add: reset_foreach_context_def)
        with i foreach_loop_frame [OF fl] show ?thesis using touches_only_trans by blast
      qed
    qed
  qed
  with assms(2) show ?thesis by (simp add: touches_only_def)
qed

section \<open>Results of a foreach\<close>

lemma attempts_accumulate:
  assumes "attempts env s ps n w = (r, w')" "has_foreach s" "accumulated (w_ctx w) (st_id s) rs" "0 < n"
  shows "\<exists>outs. accumulated (w_ctx w') (st_id s) (rs @ outs) \<and> length outs = (if r = Inr () then 1 else 0)"
  using assms
proof (induction n arbitrary: w)
  case (Suc n)
  obtain r1 w1 where a: "attempt env s ps w = (r1, w1)" by (cases "attempt env s ps w")
  show ?case
  proof (cases r1)
    case (Inl e)
    with a have c: "w_ctx w1 = w_ctx w" by (auto simp: attempt_def Let_def split: sum.splits)
    show ?thesis
    proof (cases "n = 0")
      case True
      with Suc.prems(1) a Inl have "r = Inl (step_error e)" "w' = w1" by simp_all
      with c Suc.prems(3) show ?thesis by (intro exI [of _ "[]"]) simp
    next
      case False
      with Suc.prems(1) a Inl have "attempts env s ps n w1 = (r, w')" by simp
      from Suc.IH [OF this Suc.prems(2)] False c Suc.prems(3) show ?thesis by simp
    qed
  next
    case (Inr u)
    with Suc.prems(1) a have "r = Inr ()" "w' = w1" by simp_all
    moreover obtain out where "set_step_context (st_id s) out True (w_ctx w) = Inr (w_ctx w1)"
      using a Inr Suc.prems(2) by (auto simp: attempt_def Let_def rbind_Inr_iff split: sum.splits)
    then have "accumulated (w_ctx w1) (st_id s) (rs @ [out])"
      using Suc.prems(3) by (rule set_step_context_appends)
    ultimately show ?thesis by (intro exI [of _ "[out]"]) simp
  qed
qed simp

lemma call_provider_accumulates:
  assumes "call_provider env d s w = (r, s', w')" "has_foreach s" "0 \<le> st_retry_count s"
    "accumulated (w_ctx w) (st_id s) rs"
  shows "\<exists>outs. accumulated (w_ctx w') (st_id s) (rs @ outs) \<and> length outs = (if r = Inr () then 1 else 0)
    \<and> has_foreach s'"
proof (cases "if d then Inr (st_params s) else render_context (se_io env) (w_ctx w) [] (st_params s)")
  case (Inl e)
  with assms have "r = Inl (step_error e)" "s' = s" "w' = w" by (auto simp: call_provider_def)
  with assms show ?thesis by (intro exI [of _ "[]"]) simp
next
  case (Inr ps)
  obtain r1 w1 where a: "attempts env s ps (nat (st_retry_count s + 1)) w = (r1, w1)"
    by (cases "attempts env s ps (nat (st_retry_count s + 1)) w")
  from attempts_accumulate [OF a assms(2,4)] assms(3) obtain outs where
    o: "accumulated (w_ctx w1) (st_id s) (rs @ outs)" "length outs = (if r1 = Inr () then 1 else 0)" by auto
  show ?thesis
  proof (cases r1)
    case (Inl e)
    with assms Inr a have "r = Inl (step_error e)" "s' = s" "w' = w1" by (auto simp: call_provider_def)
    with o Inl assms(2) show ?thesis by (intro exI [of _ outs]) simp
  next
    case r1: (Inr u)
    then have w': "r = Inr ()" "has_foreach s'"
      "\<exists>p. w_ctx w' = set_step_provider_parameters (st_id s) p (w_ctx w1)"
      using assms(1,2) Inr a by (auto simp: call_provider_def Let_def has_foreach_def)
    then have "accumulated (w_ctx w') (st_id s) (rs @ outs)"
      using o(1) set_step_provider_parameters_keeps by (auto simp: keeps_results_def)
    with w' o r1 show ?thesis by (intro exI [of _ outs]) simp
  qed
qed

lemma run_single_accumulates:
  assumes "run_single env d s w = (r, s', w')" "has_foreach s" "0 \<le> st_retry_count s"
    "accumulated (w_ctx w) (st_id s) rs"
  shows "\<exists>outs. accumulated (w_ctx w') (st_id s) (rs @ outs) \<and> length outs = (if r = Inr True then 1 else 0)
    \<and> has_foreach s'"
  using assms(1)
proof (cases rule: run_single_cases)
  case quiet
  with assms(2,4) show ?thesis by (intro exI [of _ "[]"]) (simp add: keeps_results_def)
next
  case (called s1 cds c x)
  note k = reaches_decision_keeps [OF called(1)]
  have "accumulated c (st_id s1) rs" using k(1,2) assms(4) by (simp add: keeps_results_def)
  moreover have "r = Inr True \<longleftrightarrow> x = Inr ()" using called(5) by (auto split: sum.splits)
  ultimately show ?thesis
    using call_provider_accumulates [OF called(4), of rs] k(2-4) assms(2,3) by simp
qed

lemma foreach_loop_accumulates:
  assumes "foreach_loop env items any s w = (any', s', w')" "has_foreach s" "0 \<le> st_retry_count s"
    "accumulated (w_ctx w) (st_id s) rs"
  shows "\<exists>outs. accumulated (w_ctx w') (st_id s) (rs @ outs) \<and> length outs \<le> length items
    \<and> any' = (any \<or> outs \<noteq> [])"
  using assms
proof (induction items arbitrary: any s w rs)
  case Nil
  then show ?case by (intro exI [of _ "[]"]) simp
next
  case (Cons item items)
  let ?w = "w\<lparr>w_ctx := set_foreach_value item (w_ctx w)\<rparr>"
  obtain r1 s1 w1 where r1: "run_single env False s ?w = (r1, s1, w1)"
    by (cases "run_single env False s ?w")
  note f = run_single_frame [OF r1]
  have "keeps_results (st_id s) (w_ctx w) (w_ctx ?w)"
    by (rule keeps_results_steps) (simp add: set_foreach_value_def)
  then have "accumulated (w_ctx ?w) (st_id s) rs" using Cons.prems(4) by (simp only: keeps_results_def)
  from run_single_accumulates [OF r1 Cons.prems(2,3) this] obtain o1 where
    o1: "accumulated (w_ctx w1) (st_id s) (rs @ o1)" "length o1 = (if r1 = Inr True then 1 else 0)"
    "has_foreach s1" by blast
  have "o1 \<noteq> [] \<longleftrightarrow> r1 = Inr True" using o1(2) by (auto split: if_splits)
  then have l: "foreach_loop env items (any \<or> o1 \<noteq> []) s1 w1 = (any', s', w')"
    using Cons.prems(1) r1 by (cases r1) auto
  have "st_id s1 = st_id s" "0 \<le> st_retry_count s1" using f Cons.prems(3) by simp_all
  then obtain o2 where "accumulated (w_ctx w') (st_id s) ((rs @ o1) @ o2)" "length o2 \<le> length items"
    "any' = ((any \<or> o1 \<noteq> []) \<or> o2 \<noteq> [])"
    using Cons.IH [OF l o1(3), of "rs @ o1"] o1(1) by auto
  with o1(2) show ?case by (intro exI [of _ "o1 @ o2"]) auto
qed


section \<open>Aliases\<close>

lemma dset_same: "dget d k = Some v \<Longrightarrow> dset k v d = d"
  by (simp add: dget_def dset_def update_triv)

lemma render_aliases_plain:
  assumes "wf_dict d" "\<forall>(k, v) \<in> set kvs. dget d k = Some v \<and> render env c False (PStr []) [] v = Inr v"
  shows "render_aliases env c d kvs = (None, d)"
  using assms by (induction kvs) (auto simp: dset_same)

lemma render_aliases_wf: "render_aliases env c d kvs = (e, d') \<Longrightarrow> wf_dict d \<Longrightarrow> wf_dict d'"
  by (induction env c d kvs rule: render_aliases.induct) (auto split: sum.splits)

text \<open>Aliases are rendered once.  A run writes the rendered values back into the step's
  configuration.  If rendering leaves those values as they are in every context (they hold no
  template any more), every later rendering of the step's aliases yields the same values, whatever
  the context is then: the later items of a foreach see the alias of the first.\<close>

theorem aliases_frozen:
  assumes "render_aliases (se_io env) c (alias_dict s) (alias_dict s) = (None, als)"
    and "wf_dict (alias_dict s)"
    and "\<forall>(k, v) \<in> set als. \<forall>c. render (se_io env) c False (PStr []) [] v = Inr v"
  shows "alias_dict (put_aliases als s) = als
    \<and> render_aliases (se_io env) c' (alias_dict (put_aliases als s)) (alias_dict (put_aliases als s))
        = (None, als)"
proof -
  have wf: "wf_dict als" using render_aliases_wf [OF assms(1,2)] .
  have a: "alias_dict (put_aliases als s) = als"
  proof (cases "\<exists>d. dget (st_config s) ''alias'' = Some (PDict d)")
    case True
    then show ?thesis by (auto simp: alias_dict_def put_aliases_def)
  next
    case False
    then have "alias_dict s = []" and "put_aliases als s = s"
      by (auto simp: alias_dict_def put_aliases_def split: option.splits pyval.splits)
    with assms(1) show ?thesis by simp
  qed
  have "\<forall>(k, v) \<in> set als. dget als k = Some v \<and> render (se_io env) c' False (PStr []) [] v = Inr v"
    using assms(3) wf by (auto simp: dget_def wf_dict_def)
  from render_aliases_plain [OF wf this] show ?thesis by (simp add: a)
qed

section \<open>Witnesses\<close>

text \<open>A provider that fails on the first call and counts from then on.\<close>

definition demo_step_env :: step_env where
  "demo_step_env = \<lparr>se_cond = demo_cond_env,
     provider_call = (\<lambda>calls a sid ps. if calls = [] then Inl (Exn EException ''first'')
       else Inr (PInt (int (length calls)))),
     provider_expose = (\<lambda>calls sid. []), se_now = 0, se_db = empty_db, se_alerts = []\<rparr>"

definition demo_step :: step where
  "demo_step = \<lparr>st_id = ''s'', st_is_action = False, st_keep_provider = False,
     st_config = [(''alias'', PDict [(''x'', PStr ''{{a}}'')])], st_params = [(''p'', PInt 1)], st_conditions = [],
     st_vars = [], st_retry_count = 2, st_retry_interval = 0, st_continue = True\<rparr>"

definition demo_foreach :: step where
  "demo_foreach = demo_step\<lparr>st_config := [(''foreach'', PStr ''{{ consts.l }}'')], st_retry_count := 0\<rparr>"

definition demo_world :: world where
  "demo_world = \<lparr>w_ctx = set_consts_context (PDict [(''l'', PList [PInt 1, PInt 2])]) (new_ctx ''t'' (Some ''w'')),
     w_calls = []\<rparr>"

lemma demo_run: "w_calls (snd (snd (run_single demo_step_env False demo_step demo_world)))
    = replicate 2 (''s'', [(''p'', PInt 1)])
  \<and> fst (run_single demo_step_env False demo_step demo_world) = Inr True"
  by code_simp

theorem provider_calls_bounded_witness:
  "\<exists>k ps. w_calls (snd (snd (run_single demo_step_env False demo_step demo_world))) = replicate k (''s'', ps)
    \<and> 0 < k \<and> k \<le> 3"
proof -
  obtain r s' w' where e: "run_single demo_step_env False demo_step demo_world = (r, s', w')"
    by (cases "run_single demo_step_env False demo_step demo_world")
  with demo_run have "r = Inr True" by simp
  with provider_calls_bounded [OF e] e show ?thesis
    by (fastforce simp: demo_step_def demo_world_def)
qed

theorem provider_called_only_when_allowed_witness:
  "\<exists>s1 cds c. reaches_decision demo_step_env demo_step demo_world s1 cds c
    \<and> decide demo_cond_env c (if_expression s1 cds) = Inr True"
proof -
  obtain r s' w' where e: "run_single demo_step_env False demo_step demo_world = (r, s', w')"
    by (cases "run_single demo_step_env False demo_step demo_world")
  with demo_run have "r = Inr True" by simp
  with provider_called_only_when_allowed [OF e] show ?thesis
    by (auto simp: demo_step_env_def)
qed

theorem run_step_frame_witness:
  "entry_of (w_ctx (snd (snd (run_step demo_step_env demo_step demo_world)))) ''other'' = []"
proof -
  obtain r s' w' where e: "run_step demo_step_env demo_step demo_world = (r, s', w')"
    by (cases "run_step demo_step_env demo_step demo_world")
  have "''other'' \<noteq> st_id demo_step" by (simp add: demo_step_def)
  from run_step_frame [OF e this] e show ?thesis
    by (simp add: demo_world_def new_ctx_def set_consts_context_def entry_of_def)
qed


lemma demo_render_c: "render (se_io demo_step_env) c False (PStr []) [] (PStr ''c'') = Inr (PStr ''c'')"
proof -
  have u: "count_sub ''}}'' ''c'' = count_sub ''{{'' ''c''" "count_sub ''('' ''c'' = count_sub '')'' ''c''"
    by code_simp+
  have r: "render_recursively demo_env x ''c'' = Inr (''c'', [])" for x
  proof -
    have "contains_sub ''{{a}}'' ''c'' = False" "py_replace ''{{b}}'' ''c'' ''c'' = ''c''"
      "contains_sub ''{{'' ''c'' = False" by code_simp+
    then show ?thesis
      by (simp add: render_recursively_def render_once_def demo_env_def max_iterations_def
        numeral_eq_Suc render_stops_def)
  qed
  have "py_replace ''&quot;'' [CHR 0x22] ''c'' = ''c''" "extract_keep_functions ''c'' = Inr []"
    "starts_with raw_prefix ''c'' = False" by code_simp+
  with u r show ?thesis
    by (simp add: render_def parse_def render_key_def Let_def parse_rendered_def se_io_def demo_step_env_def
      demo_cond_env_def)
qed

theorem aliases_frozen_witness:
  "\<forall>c'. render_aliases (se_io demo_step_env) c' (alias_dict (put_aliases [(''x'', PStr ''c'')] demo_step))
     (alias_dict (put_aliases [(''x'', PStr ''c'')] demo_step)) = (None, [(''x'', PStr ''c'')])"
proof -
  have r: "render_aliases (se_io demo_step_env) (w_ctx demo_world) (alias_dict demo_step) (alias_dict demo_step)
      = (None, [(''x'', PStr ''c'')])" by code_simp
  have w: "wf_dict (alias_dict demo_step)" by code_simp
  have "\<forall>(k, v) \<in> set [(''x'', PStr ''c'')].
      \<forall>c. render (se_io demo_step_env) c False (PStr []) [] v = Inr v"
    by (simp add: demo_render_c)
  from aliases_frozen [OF r w this] show ?thesis by blast
qed

end
