(* ===== verification/Workflow.thy ===== *)
theory Workflow
  imports Step
begin

text \<open>
  \<open>src/workflowmanager/workflow.py\<close>: a workflow is a list of steps followed by a list of actions
  that share one context.  The state of a run is the world of its steps and the step id the
  executing thread is marked with (what the log handler attaches to every record).
\<close>

record workflow =
  wk_id :: string
  wk_revision :: int
  wk_name :: string
  wk_interval :: int
  wk_triggers :: "pydict list"
  wk_steps :: "step list"
  wk_actions :: "step list"
  wk_disabled :: bool
  wk_providers_type :: "string list"
  wk_strategy :: string
  wk_on_failure :: "step option"
  wk_consts :: pyval
  wk_debug :: bool
  wk_permissions :: "string list"
  wk_is_test :: bool

definition PARALLEL :: string where "PARALLEL = ''parallel''"
definition NONPARALLEL :: string where "NONPARALLEL = ''nonparallel''"
definition NONPARALLEL_WITH_RETRY :: string where "NONPARALLEL_WITH_RETRY = ''nonparallel_with_retry''"

section \<open>Steps\<close>

text \<open>\<open>run_steps\<close>: the thread is marked before each step and unmarked after a step that ran; only
  a \<open>StepError\<close> unmarks it on failure.  The result holds the steps as the runs left them.\<close>

fun run_steps :: "step_env \<Rightarrow> step list \<Rightarrow> world \<Rightarrow> string option
     \<Rightarrow> unit result \<times> step list \<times> world \<times> string option" where
  "run_steps env [] w th = (Inr (), [], w, th)"
| "run_steps env (s # ss) w th =
     (case run_step env s w of
        (Inl e, s', w) \<Rightarrow>
          (Inl e, s' # ss, w, if exn_kind e = EStepError then None else Some (st_id s))
      | (Inr did_run, s', w) \<Rightarrow>
          let th = (if did_run then None else Some (st_id s))
          in if did_run \<and> \<not> st_continue s' then (Inr (), s' # ss, w, th)
             else (case run_steps env ss w th of (r, ss', w, th) \<Rightarrow> (r, s' # ss', w, th)))"

section \<open>Actions\<close>

definition run_action :: "step_env \<Rightarrow> step \<Rightarrow> world \<Rightarrow> (bool \<times> string option \<times> bool) \<times> step \<times> world" where
  "run_action env a w =
     (case run_step env a w of
        (Inl e, a', w) \<Rightarrow>
          ((False, Some (''Failed to run action '' @ st_id a @ '': '' @ exn_msg e), False), a', w)
      | (Inr did_run, a', w) \<Rightarrow> ((did_run, None, did_run \<and> \<not> st_continue a'), a', w))"

fun run_actions :: "step_env \<Rightarrow> step list \<Rightarrow> world \<Rightarrow> (bool list \<times> string list) \<times> step list \<times> world" where
  "run_actions env [] w = (([], []), [], w)"
| "run_actions env (a # as) w =
     (case run_action env a w of
        ((status, Some err, stop), a', w) \<Rightarrow>
          (case run_actions env as w of
             ((firing, errors), as', w) \<Rightarrow> ((status # firing, err # errors), a' # as', w))
      | ((status, None, stop), a', w) \<Rightarrow>
          if status \<and> stop then (([], []), a' # as, w)
          else (case run_actions env as w of (r, as', w) \<Rightarrow> (r, a' # as', w)))"

section \<open>The workflow\<close>

text \<open>\<open>run\<close>: nothing for a disabled workflow (the code returns \<open>None\<close>), otherwise the steps and
  then the actions; the errors of the actions are the result.\<close>

definition run_workflow ::
  "step_env \<Rightarrow> workflow \<Rightarrow> string \<Rightarrow> world \<Rightarrow> string option
     \<Rightarrow> string list option result \<times> workflow \<times> world \<times> string option" where
  "run_workflow env wk execution_id w th =
     (if wk_disabled wk then (Inr None, wk, w, th)
      else let w = w\<lparr>w_ctx := set_execution_context (wk_id wk) execution_id (w_ctx w)\<rparr>
           in (case run_steps env (wk_steps wk) w th of
                 (Inl e, ss, w, th) \<Rightarrow> (Inl e, wk\<lparr>wk_steps := ss\<rparr>, w, th)
               | (Inr _, ss, w, th) \<Rightarrow>
                   (case run_actions env (wk_actions wk) w of
                      ((firing, errors), as, w) \<Rightarrow>
                        (Inr (Some errors), wk\<lparr>wk_steps := ss, wk_actions := as\<rparr>, w,
                         if wk_actions wk = [] then th else None))))"

definition ROLE_ADMIN :: string where "ROLE_ADMIN = ''admin''"

definition check_run_permissions :: "string list \<Rightarrow> string \<Rightarrow> string option \<Rightarrow> bool" where
  "check_run_permissions permissions user_email user_role \<longleftrightarrow>
     permissions = [] \<or> user_role = Some ROLE_ADMIN
     \<or> (let standardized = map (\<lambda>p. py_strip (py_lower p)) permissions
        in user_email \<in> set standardized
           \<or> (case user_role of None \<Rightarrow> False | Some r \<Rightarrow> r \<in> set standardized))"

section \<open>Lemmas\<close>

lemma run_single_calls:
  assumes "run_single env d s w = (r, s', w')"
  shows "\<exists>cs. w_calls w' = w_calls w @ cs \<and> (\<forall>c \<in> set cs. fst c = st_id s)"
  using assms
proof (cases rule: run_single_cases)
  case quiet
  then show ?thesis by (intro exI [of _ "[]"]) simp
next
  case (called s1 cds c x)
  from call_provider_calls [OF called(4)] reaches_decision_keeps(2) [OF called(1)]
  obtain k ps where "w_calls w' = w_calls w @ replicate k (st_id s, ps)" by auto
  then show ?thesis by (intro exI [of _ "replicate k (st_id s, ps)"]) simp
qed

lemma foreach_loop_calls:
  "foreach_loop env items any s w = (r, s', w') \<Longrightarrow>
     (\<exists>cs. w_calls w' = w_calls w @ cs \<and> (\<forall>c \<in> set cs. fst c = st_id s)) \<and> st_id s' = st_id s"
proof (induction items arbitrary: any s w)
  case Nil
  then show ?case by simp
next
  case (Cons item items)
  let ?w = "w\<lparr>w_ctx := set_foreach_value item (w_ctx w)\<rparr>"
  obtain r1 s1 w1 where r1: "run_single env False s ?w = (r1, s1, w1)"
    by (cases "run_single env False s ?w")
  obtain any1 where l: "foreach_loop env items any1 s1 w1 = (r, s', w')"
    using Cons.prems r1 by (cases r1) auto
  have id1: "st_id s1 = st_id s" using run_single_frame [OF r1] by simp
  obtain cs1 where "w_calls w1 = w_calls w @ cs1" "\<forall>c \<in> set cs1. fst c = st_id s"
    using run_single_calls [OF r1] by auto
  moreover obtain cs2 where "w_calls w' = w_calls w1 @ cs2" "\<forall>c \<in> set cs2. fst c = st_id s"
    "st_id s' = st_id s"
    using Cons.IH [OF l] id1 by auto
  ultimately show ?case by (intro conjI exI [of _ "cs1 @ cs2"]) auto
qed

lemma run_foreach_calls:
  assumes "run_foreach env s w = (r, s', w')"
  shows "(\<exists>cs. w_calls w' = w_calls w @ cs \<and> (\<forall>c \<in> set cs. fst c = st_id s)) \<and> st_id s' = st_id s"
proof (cases "get_foreach_items s (w_ctx w)")
  case (Inl e)
  with assms show ?thesis by (simp add: run_foreach_def)
next
  case (Inr items)
  show ?thesis
  proof (cases "iterate items")
    case (Inl e)
    with assms Inr show ?thesis by (auto simp: run_foreach_def Let_def)
  next
    case l: (Inr l)
    let ?w = "w\<lparr>w_ctx := set_foreach_items items (w_ctx w)\<rparr>"
    obtain any s2 w2 where f: "foreach_loop env l False s ?w = (any, s2, w2)"
      by (cases "foreach_loop env l False s ?w")
    with assms Inr l have "s' = s2" "w_calls w' = w_calls w2" by (auto simp: run_foreach_def Let_def)
    with foreach_loop_calls [OF f] show ?thesis by simp
  qed
qed

text \<open>Whatever a step does, its calls are its own and its failure is an \<open>ActionError\<close>.\<close>

lemma run_step_calls:
  assumes "run_step env s w = (r, s', w')"
  shows "(\<exists>cs. w_calls w' = w_calls w @ cs \<and> (\<forall>c \<in> set cs. fst c = st_id s)) \<and> st_id s' = st_id s"
proof (cases "has_foreach s")
  case True
  then obtain r1 where "run_foreach env s w = (r1, s', w')"
    using assms by (auto simp: run_step_def split: sum.splits prod.splits)
  then show ?thesis by (rule run_foreach_calls)
next
  case False
  then obtain r1 where "run_single env (st_is_action s \<and> st_keep_provider s) s w = (r1, s', w')"
    using assms by (auto simp: run_step_def split: sum.splits prod.splits)
  then show ?thesis using run_single_calls run_single_frame by blast
qed

lemma run_step_error: "run_step env s w = (Inl e, s', w') \<Longrightarrow> exn_kind e = EActionError"
  by (auto simp: run_step_def action_error_def split: sum.splits prod.splits)

lemma run_steps_calls:
  assumes "run_steps env ss w th = (r, ss', w', th')"
  shows "\<exists>k \<le> length ss. \<exists>cs. w_calls w' = w_calls w @ cs \<and> fst ` set cs \<subseteq> st_id ` set (take k ss)
    \<and> (\<forall>e. r = Inl e \<longrightarrow> 0 < k \<and> exn_kind e = EActionError \<and> th' = Some (st_id (ss ! (k - 1))))"
  using assms
proof (induction ss arbitrary: w th ss')
  case Nil
  then show ?case by (intro exI [of _ 0]) auto
next
  case (Cons s ss)
  obtain r1 s1 w1 where r1: "run_step env s w = (r1, s1, w1)" by (cases "run_step env s w")
  obtain cs1 where cs1: "w_calls w1 = w_calls w @ cs1" "\<forall>c \<in> set cs1. fst c = st_id s"
    using run_step_calls [OF r1] by auto
  show ?case
  proof (cases "\<exists>b. r1 = Inr b \<and> \<not> (b \<and> \<not> st_continue s1)")
    case False
    then have "w' = w1 \<and> (\<forall>e. r = Inl e \<longrightarrow> r1 = Inl e \<and> (exn_kind e \<noteq> EStepError \<longrightarrow> th' = Some (st_id s)))"
      using Cons.prems r1 by (cases r1) (auto simp: Let_def split: if_splits)
    with cs1 r1 run_step_error show ?thesis
      by (intro exI [of _ 1] conjI exI [of _ cs1]) (auto simp: take_Suc)
  next
    case True
    then obtain b where b: "r1 = Inr b" "\<not> (b \<and> \<not> st_continue s1)" by blast
    obtain ss1 where "run_steps env ss w1 (if b then None else Some (st_id s)) = (r, ss1, w', th')"
      using Cons.prems r1 b by (auto simp: Let_def split: prod.splits)
    from Cons.IH [OF this] obtain k cs2 where k: "k \<le> length ss" "w_calls w' = w_calls w1 @ cs2"
      "fst ` set cs2 \<subseteq> st_id ` set (take k ss)"
      "\<forall>e. r = Inl e \<longrightarrow> 0 < k \<and> exn_kind e = EActionError \<and> th' = Some (st_id (ss ! (k - 1)))"
      by (elim exE conjE) (rule that; assumption)
    have "fst ` set (cs1 @ cs2) \<subseteq> st_id ` set (take (Suc k) (s # ss))"
      using cs1(2) k(3) by auto
    moreover have "\<forall>e. r = Inl e \<longrightarrow> 0 < Suc k \<and> exn_kind e = EActionError
        \<and> th' = Some (st_id ((s # ss) ! (Suc k - 1)))"
      using k(4) by (auto simp: nth_Cons')
    ultimately show ?thesis using k(1,2) cs1(1)
      by (intro exI [of _ "Suc k"] conjI exI [of _ "cs1 @ cs2"]) auto
  qed
qed

lemma strip_sublist: "set (py_strip s) \<subseteq> set s"
proof -
  have d: "set (dropWhile P xs) \<subseteq> set xs" for P and xs :: string
    by (meson set_dropWhileD subsetI)
  show ?thesis unfolding py_strip_def rstrip_by_def lstrip_by_def
    using d [of is_space "rev (dropWhile is_space s)"] d [of is_space s] by auto
qed

lemma py_lower_fixed: "(\<forall>c \<in> set s. to_lower c = c) \<Longrightarrow> py_lower s = s"
  by (simp add: py_lower_def map_idI)

lemma lower_strip_lower: "py_lower (py_strip (py_lower p)) = py_strip (py_lower p)"
proof (rule py_lower_fixed, rule ballI)
  fix c assume "c \<in> set (py_strip (py_lower p))"
  then have "c \<in> set (py_lower p)" using strip_sublist by blast
  then show "to_lower c = c" by (auto simp: py_lower_def to_lower_idem)
qed

section \<open>Properties\<close>

text \<open>C22: a failing step ends the workflow.  When a run raises, no action was started: the calls made
  belong to the steps up to the failing one, the actions are as they were, the exception is an
  \<open>ActionError\<close> (the handlers for \<open>StepError\<close> never see one), and the thread is still marked
  with the failing step.\<close>

theorem failed_step_stops_workflow:
  assumes "run_workflow env wk eid w th = (Inl e, wk', w', th')"
  shows "wk_actions wk' = wk_actions wk \<and> exn_kind e = EActionError
    \<and> (\<exists>k < length (wk_steps wk). th' = Some (st_id (wk_steps wk ! k))
        \<and> (\<exists>cs. w_calls w' = w_calls w @ cs \<and> fst ` set cs \<subseteq> st_id ` set (take (Suc k) (wk_steps wk))))"
proof -
  let ?w = "w\<lparr>w_ctx := set_execution_context (wk_id wk) eid (w_ctx w)\<rparr>"
  have d: "\<not> wk_disabled wk" using assms by (auto simp: run_workflow_def)
  obtain r ss w1 th1 where rs: "run_steps env (wk_steps wk) ?w th = (r, ss, w1, th1)"
    by (cases "run_steps env (wk_steps wk) ?w th")
  have r: "r = Inl e" "wk' = wk\<lparr>wk_steps := ss\<rparr>" "w' = w1" "th' = th1"
    using assms d rs by (cases r; auto simp: run_workflow_def Let_def split: prod.splits)+
  from run_steps_calls [OF rs] r(1) obtain k cs where k: "k \<le> length (wk_steps wk)" "0 < k"
    "w_calls w1 = w_calls w @ cs" "fst ` set cs \<subseteq> st_id ` set (take k (wk_steps wk))"
    "exn_kind e = EActionError" "th1 = Some (st_id (wk_steps wk ! (k - 1)))" by auto
  then obtain j where "k = Suc j" by (cases k) auto
  with k r show ?thesis by (intro conjI exI [of _ j] exI [of _ cs]) auto
qed

text \<open>Run permissions compare the user as given with the lower-cased permissions.  A user other
  than an admin whose e-mail and role both contain an upper-case letter is refused by every non-empty
  list, also one that names that e-mail or role literally.\<close>

theorem permissions_need_lower_case:
  assumes "permissions \<noteq> []" and "user_role \<noteq> Some ROLE_ADMIN"
    and "py_lower user_email \<noteq> user_email"
    and "\<forall>r. user_role = Some r \<longrightarrow> py_lower r \<noteq> r"
  shows "\<not> check_run_permissions permissions user_email user_role"
proof -
  let ?S = "set (map (\<lambda>p. py_strip (py_lower p)) permissions)"
  have l: "py_lower x = x" if "x \<in> ?S" for x
    using that lower_strip_lower by auto
  have "user_email \<notin> ?S" using l assms(3) by blast
  moreover have "r \<notin> ?S" if "user_role = Some r" for r using l assms(4) that by blast
  ultimately show ?thesis using assms(1,2)
    unfolding check_run_permissions_def Let_def by (cases user_role) simp_all
qed

section \<open>Witnesses\<close>

text \<open>A workflow whose only step has a name-less condition, so that it fails.\<close>

definition demo_workflow :: workflow where
  "demo_workflow = \<lparr>wk_id = ''w'', wk_revision = 1, wk_name = ''w'', wk_interval = 0, wk_triggers = [],
     wk_steps = [demo_step\<lparr>st_conditions := [PDict []]\<rparr>], wk_actions = [demo_step\<lparr>st_id := ''a''\<rparr>],
     wk_disabled = False, wk_providers_type = [''bash''], wk_strategy = NONPARALLEL_WITH_RETRY,
     wk_on_failure = None, wk_consts = PDict [], wk_debug = False, wk_permissions = [], wk_is_test = False\<rparr>"

theorem failed_step_stops_workflow_witness:
  "\<exists>e. fst (run_workflow demo_step_env demo_workflow ''e'' demo_world None) = Inl e
    \<and> exn_kind e = EActionError
    \<and> snd (snd (snd (run_workflow demo_step_env demo_workflow ''e'' demo_world None))) = Some ''s''"
proof -
  obtain r wk' w' th' where x: "run_workflow demo_step_env demo_workflow ''e'' demo_world None = (r, wk', w', th')"
    by (cases "run_workflow demo_step_env demo_workflow ''e'' demo_world None")
  have "fst (run_workflow demo_step_env demo_workflow ''e'' demo_world None) = Inl (action_error (Exn EException ''Condition must have a name''))"
    by code_simp
  with x have r: "r = Inl (action_error (Exn EException ''Condition must have a name''))" by simp
  from failed_step_stops_workflow [OF x [unfolded r]] show ?thesis
    unfolding x r by (auto simp: demo_workflow_def demo_step_def)
qed

theorem permissions_need_lower_case_witness:
  "\<not> check_run_permissions [''Bob@x.io''] ''Bob@x.io'' None"
proof -
  have "py_lower ''Bob@x.io'' \<noteq> ''Bob@x.io''" by code_simp
  then show ?thesis by (intro permissions_need_lower_case) simp_all
qed

end
