(* ===== verification/CelFilters.thy ===== *)
theory CelFilters
  imports PyStrings
begin

text \<open>
  Trigger expressions.  Old key/value filters are turned into CEL text
  (\<open>src/workflowmanager/workflowmanager.py\<close>, \<open>_convert_filters_to_cel\<close>), comparisons of the list
  \<open>source\<close> into membership tests (the regular expression of \<open>insert_events\<close>), and comparisons
  with a severity name into comparisons with its order (\<open>src/common/utils/cel_utils.py\<close>).
  The evaluation of CEL is the library \<open>celpy\<close> and not modelled here.
\<close>

section \<open>Severities\<close>

definition alert_severities :: "(string \<times> nat) list" where
  "alert_severities = [(''critical'', 5), (''high'', 4), (''warning'', 3), (''info'', 2), (''low'', 1)]"

text \<open>\<open>AlertSeverity(name).order\<close>, none where the code raises \<open>ValueError\<close>.\<close>

definition severity_order :: "string \<Rightarrow> nat option" where
  "severity_order name = map_of alert_severities name"

section \<open>Filters to CEL\<close>

definition dq :: "string \<Rightarrow> string" where
  "dq s = [CHR 0x22] @ s @ [CHR 0x22]"

definition contains_clause :: "bool \<Rightarrow> string \<Rightarrow> string \<Rightarrow> string" where
  "contains_clause exclude key v = (if exclude then ''!'' else []) @ key @ ''.contains('' @ dq v @ '')''"

definition equals_clause :: "bool \<Rightarrow> string \<Rightarrow> string \<Rightarrow> string" where
  "equals_clause exclude key v = key @ (if exclude then '' != '' else '' == '') @ dq v"

text \<open>The source is a list, so it is tested by membership.\<close>

definition value_clause :: "bool \<Rightarrow> string \<Rightarrow> string \<Rightarrow> string" where
  "value_clause exclude key v =
     (if key = ''source'' then contains_clause exclude key v else equals_clause exclude key v)"

definition strip_alternative :: "string \<Rightarrow> string" where
  "strip_alternative v = py_strip (rstrip_by (\<lambda>c. c = CHR '')'') (lstrip_by (\<lambda>c. c = CHR ''('') v))"

definition unsupported_regex :: "string \<Rightarrow> exn" where
  "unsupported_regex v = Exn EException (''Unsupported regex: '' @ v @ '', move to new CEL filters'')"

definition regex_clauses :: "bool \<Rightarrow> string \<Rightarrow> string \<Rightarrow> string list result" where
  "regex_clauses exclude key v =
     (if contains_sub '']^'' v \<or> contains_sub '']+'' v then Inl (unsupported_regex v)
      else if contains_sub ''|'' v
      then Inr (map (\<lambda>a. value_clause exclude key (strip_alternative a)) (py_split ''|'' v))
      else if v = ''.*'' then Inr [''has('' @ key @ '')'']
      else if v = ''^$'' then Inr [equals_clause exclude key []]
      else if starts_with ''.*'' v \<and> ends_with ''.*'' v
      then Inr [contains_clause exclude key (drop 2 (butlast (butlast v)))]
      else if ends_with ''.*'' v then Inr [contains_clause exclude key (butlast (butlast v))]
      else Inl (unsupported_regex v))"

text \<open>The prefix that marks a regular expression: an \<open>r\<close> and a double quote.\<close>

definition regex_mark :: string where "regex_mark = [CHR ''r'', CHR 0x22]"

text \<open>One filter: no clause when the key or the value is missing, an exception when the value has no
  \<open>startswith\<close>.\<close>

definition filter_clause :: "pydict \<Rightarrow> string option result" where
  "filter_clause f =
     (let key = dict_get f ''key'' PNone; v = dict_get f ''value'' PNone;
          exclude = truthy (dict_get f ''exclude'' (PBool False))
      in if \<not> truthy key \<or> \<not> truthy v then Inr None
         else (case v of
                 PStr s \<Rightarrow>
                   if starts_with regex_mark s
                   then rbind (regex_clauses exclude (py_str key) (butlast (drop 2 s))) (\<lambda>cs.
                     Inr (Some (''('' @ py_join (if exclude then '' && '' else '' || '') cs @ '')'')))
                   else Inr (Some (value_clause exclude (py_str key) s))
               | _ \<Rightarrow> Inl (Exn EAttributeError ''startswith'')))"

definition as_filter :: "pyval \<Rightarrow> pydict result" where
  "as_filter v = (case v of PDict d \<Rightarrow> Inr d | _ \<Rightarrow> Inl (Exn EAttributeError ''get''))"

fun filter_clauses :: "pyval list \<Rightarrow> string list result" where
  "filter_clauses [] = Inr []"
| "filter_clauses (f # fs) =
     rbind (rbind (as_filter f) filter_clause) (\<lambda>c.
       rbind (filter_clauses fs) (\<lambda>cs. Inr (case c of None \<Rightarrow> cs | Some t \<Rightarrow> t # cs)))"

definition convert_filters_to_cel :: "pyval \<Rightarrow> string result" where
  "convert_filters_to_cel filters =
     (case filters of
        PList fs \<Rightarrow> rbind (filter_clauses fs) (\<lambda>cs. Inr (py_join '' && '' cs))
      | _ \<Rightarrow> Inl (Exn ETypeError ''not iterable''))"

section \<open>Comparisons of the source\<close>

definition is_cel_quote :: "char \<Rightarrow> bool" where
  "is_cel_quote c \<longleftrightarrow> c = CHR 0x22 \<or> c = CHR 0x27"

definition skip_spaces :: "string \<Rightarrow> string" where
  "skip_spaces s = dropWhile is_space s"

text \<open>The regular expression at one position: the replacement and the length of the match.\<close>

definition source_match :: "string \<Rightarrow> (string \<times> nat) option" where
  "source_match s =
     (if starts_with ''source'' s then
        (let r = skip_spaces (drop 6 s) in
         if starts_with ''=='' r then
           (case skip_spaces (drop 2 r) of
              [] \<Rightarrow> None
            | q # r2 \<Rightarrow>
                let v = takeWhile (\<lambda>c. \<not> is_cel_quote c) r2; rest = dropWhile (\<lambda>c. \<not> is_cel_quote c) r2
                in if is_cel_quote q \<and> v \<noteq> [] \<and> rest \<noteq> []
                   then Some (''source.contains('' @ dq v @ '')'', length s - length (tl rest)) else None)
         else None)
      else None)"

text \<open>\<open>re.sub\<close> with a matcher: the text is scanned from the left, a match is replaced and
  skipped; the matcher is told whether the position continues a word.\<close>

definition is_word :: "char \<Rightarrow> bool" where
  "is_word c \<longleftrightarrow> is_alnum c \<or> c = CHR ''_''"

fun sub_scan :: "(bool \<Rightarrow> string \<Rightarrow> (string \<times> nat) option) \<Rightarrow> bool \<Rightarrow> nat \<Rightarrow> string \<Rightarrow> string" where
  "sub_scan m in_word k [] = []"
| "sub_scan m in_word (Suc k) (c # cs) = sub_scan m (is_word c) k cs"
| "sub_scan m in_word 0 (c # cs) =
     (case m in_word (c # cs) of
        Some (t, n) \<Rightarrow> t @ sub_scan m (is_word c) (n - 1) cs
      | None \<Rightarrow> c # sub_scan m (is_word c) 0 cs)"

definition replace_source :: "string \<Rightarrow> string" where
  "replace_source cel = sub_scan (\<lambda>_. source_match) False 0 cel"

section \<open>Comparisons of the severity\<close>

text \<open>The operators: one of the four characters, then an equals sign if there is one.\<close>

definition read_operator :: "string \<Rightarrow> (string \<times> string) option" where
  "read_operator s =
     (case s of
        [] \<Rightarrow> None
      | c # r \<Rightarrow>
          if c \<in> {CHR ''='', CHR ''>'', CHR ''<'', CHR ''!''} then
            (case r of
               [] \<Rightarrow> Some ([c], r)
             | d # r' \<Rightarrow> if d = CHR ''='' then Some ([c, d], r') else Some ([c], r))
          else None)"

text \<open>A severity name in quotes of one kind, in any case.\<close>

definition quoted_severity :: "string \<Rightarrow> (nat \<times> nat) option" where
  "quoted_severity s =
     (case s of
        [] \<Rightarrow> None
      | q # r \<Rightarrow>
          if is_cel_quote q then
            (case find (\<lambda>(name, ord). py_lower (take (length name) r) = name
                \<and> starts_with [q] (drop (length name) r)) alert_severities of
               None \<Rightarrow> None
             | Some (name, ord) \<Rightarrow> Some (ord, length name + 2))
          else None)"

text \<open>The regular expression at the start of a word; inside a word it cannot match, because what
  follows the word is the same.  A comparison of another field is replaced by itself.\<close>

definition severity_match :: "bool \<Rightarrow> string \<Rightarrow> (string \<times> nat) option" where
  "severity_match in_word s =
     (let w = takeWhile is_word s
      in if in_word \<or> w = [] then None
         else (case read_operator (skip_spaces (dropWhile is_word s)) of
                 None \<Rightarrow> None
               | Some (op, r) \<Rightarrow>
                   (case quoted_severity (skip_spaces r) of
                      None \<Rightarrow> None
                    | Some (ord, n) \<Rightarrow>
                        let len = length s - length (drop n (skip_spaces r))
                        in Some (if py_lower w = ''severity''
                                 then w @ '' '' @ op @ '' '' @ show_nat ord else take len s, len))))"

definition preprocess_cel_expression :: "string \<Rightarrow> string" where
  "preprocess_cel_expression cel = sub_scan severity_match False 0 cel"

section \<open>Lemmas\<close>

lemma sub_scan_no_match:
  assumes "\<And>b r. r \<noteq> [] \<Longrightarrow> \<exists>p. s = p @ r \<Longrightarrow> m b r = None"
  shows "sub_scan m b 0 s = s"
  using assms
proof (induction s arbitrary: b)
  case (Cons c s)
  have "sub_scan m (is_word c) 0 s = s"
  proof (rule Cons.IH)
    fix b r assume "r \<noteq> []" "\<exists>p. s = p @ r"
    then show "m b r = None" using Cons.prems by (metis append_Cons)
  qed
  moreover have "m b (c # s) = None" using Cons.prems by blast
  ultimately show ?case by simp
qed simp

lemma sub_scan_skip: "sub_scan m b (length u) (u @ r) =
    sub_scan m (if u = [] then b else is_word (last u)) 0 r"
  by (induction u arbitrary: b) auto

lemma sub_scan_match:
  assumes "m b (u @ r) = Some (t, length u)" "u \<noteq> []"
  shows "sub_scan m b 0 (u @ r) = t @ sub_scan m (is_word (last u)) 0 r"
proof -
  obtain c v where u: "u = c # v" using assms(2) by (cases u) auto
  have "sub_scan m b 0 (u @ r) = t @ sub_scan m (is_word c) (length v) (v @ r)"
    using assms(1) by (simp add: u)
  then show ?thesis by (simp add: sub_scan_skip u)
qed

definition cel_operators :: "string list" where
  "cel_operators = [''=='', ''>='', ''<='', ''!='', ''='', ''>'', ''<'', ''!'']"

lemma read_operator_spec:
  assumes "op \<in> set cel_operators" "r \<noteq> []" "hd r \<noteq> CHR ''=''"
  shows "read_operator (op @ r) = Some (op, r)"
  using assms by (cases r) (auto simp: cel_operators_def read_operator_def)

lemma skip_spaces_append:
  "list_all is_space sp \<Longrightarrow> r \<noteq> [] \<Longrightarrow> \<not> is_space (hd r) \<Longrightarrow> skip_spaces (sp @ r) = r"
  by (induction sp) (auto simp: skip_spaces_def neq_Nil_conv)

lemma quote_props: "is_cel_quote q \<Longrightarrow> \<not> is_space q \<and> \<not> is_word q \<and> q \<noteq> CHR ''=''"
  by (auto simp: is_cel_quote_def is_space_def is_word_def is_alnum_def is_digit_def is_upper_def is_lower_def)

lemma severity_names:
  "(name, ord) \<in> set alert_severities \<Longrightarrow> (name', ord') \<in> set alert_severities \<Longrightarrow>
     py_lower (take (length name') (nm @ q # r)) = name' \<Longrightarrow> starts_with [q] (drop (length name') (nm @ q # r)) \<Longrightarrow>
     py_lower nm = name \<Longrightarrow> is_cel_quote q \<Longrightarrow> name' = name \<and> ord' = ord"
proof -
  assume a: "(name, ord) \<in> set alert_severities" "(name', ord') \<in> set alert_severities"
    "py_lower (take (length name') (nm @ q # r)) = name'"
    "starts_with [q] (drop (length name') (nm @ q # r))" "py_lower nm = name" "is_cel_quote q"
  have len: "length name = length nm" using a(5) by (auto simp: py_lower_def)
  have hn: "hd name \<noteq> hd name' \<or> name = name' \<and> ord = ord'"
    and ne: "name \<noteq> []" "name' \<noteq> []"
    using a(1,2) by (auto simp: alert_severities_def)
  have "hd name' = to_lower (hd nm)"
    using a(3) ne len by (cases nm; cases name') (auto simp: py_lower_def)
  moreover have "hd name = to_lower (hd nm)" using a(5) ne len by (cases nm) (auto simp: py_lower_def)
  ultimately show "name' = name \<and> ord' = ord" using hn by auto
qed

lemma quoted_severity_spec:
  assumes "is_cel_quote q" "(py_lower nm, ord) \<in> set alert_severities"
  shows "quoted_severity ([q] @ nm @ [q] @ r) = Some (ord, length nm + 2)"
proof -
  let ?P = "\<lambda>(name, ord). py_lower (take (length name) (nm @ q # r)) = name
      \<and> starts_with [q] (drop (length name) (nm @ q # r))"
  have len: "length (py_lower nm) = length nm" by (simp add: py_lower_def)
  have "?P (py_lower nm, ord)" by (simp add: len starts_with_def)
  then have "find ?P alert_severities \<noteq> None" using assms(2) unfolding find_None_iff by blast
  then obtain y where y: "find ?P alert_severities = Some y" by blast
  then have "y \<in> set alert_severities \<and> ?P y" by (rule find_in_set)
  with severity_names [OF assms(2), of "fst y" "snd y" nm q r] assms(1)
  have "y = (py_lower nm, ord)" by (cases y) simp
  with y assms(1) show ?thesis by (simp add: quoted_severity_def len)
qed

text \<open>Comparisons with a severity name.  Wherever the field \<open>severity\<close> (in any case) at the
  start of a word is compared with a quoted severity name (in any case, either quote, any white
  space), the comparison becomes one with the name's order, and the rest of the expression is
  processed by itself.\<close>

theorem severity_comparison_by_order:
  assumes "list_all is_word w" and "py_lower w = ''severity''" and "op \<in> set cel_operators"
    and "list_all is_space sp1" and "list_all is_space sp2" and "is_cel_quote q"
    and "(py_lower name, ord) \<in> set alert_severities"
  shows "preprocess_cel_expression (w @ sp1 @ op @ sp2 @ [q] @ name @ [q] @ rest) =
    w @ '' '' @ op @ '' '' @ show_nat ord @ preprocess_cel_expression rest"
proof -
  let ?u = "w @ sp1 @ op @ sp2 @ [q] @ name @ [q]"
  have wne: "w \<noteq> []" using assms(2) by (auto simp: py_lower_def)
  have opne: "op \<noteq> [] \<and> \<not> is_space (hd op) \<and> \<not> is_word (hd op)" using assms(3)
    by (auto simp: cel_operators_def is_space_def is_word_def is_alnum_def is_digit_def is_upper_def is_lower_def)
  have spw: "\<not> is_word c" if "is_space c" for c
    using that by (auto simp: is_space_def is_word_def is_alnum_def is_digit_def is_upper_def is_lower_def)
  let ?s1 = "sp1 @ op @ sp2 @ [q] @ name @ [q] @ rest"
  have "\<not> is_word (hd ?s1)" using opne spw assms(4) by (cases sp1) auto
  then have tw: "takeWhile is_word (w @ ?s1) = w" "dropWhile is_word (w @ ?s1) = ?s1"
    using assms(1) opne by (auto simp: takeWhile_append2 list_all_iff takeWhile_eq_Nil_iff
        dropWhile_append2 dropWhile_eq_self_iff)
  have ss: "skip_spaces ?s1 = op @ sp2 @ [q] @ name @ [q] @ rest"
    using opne by (intro skip_spaces_append [OF assms(4)]) auto
  have "hd (sp2 @ [q] @ name @ [q] @ rest) \<noteq> CHR ''=''"
    using quote_props [OF assms(6)] assms(5) by (cases sp2) (auto simp: is_space_def)
  then have ro: "read_operator (op @ sp2 @ [q] @ name @ [q] @ rest)
      = Some (op, sp2 @ [q] @ name @ [q] @ rest)"
    by (intro read_operator_spec [OF assms(3)]) auto
  have s2: "skip_spaces (sp2 @ [q] @ name @ [q] @ rest) = [q] @ name @ [q] @ rest"
    using quote_props [OF assms(6)] by (intro skip_spaces_append [OF assms(5)]) auto
  have "severity_match False (w @ ?s1) = Some (w @ '' '' @ op @ '' '' @ show_nat ord, length ?u)"
    unfolding severity_match_def Let_def tw ss ro option.case prod.case s2
      quoted_severity_spec [OF assms(6,7)]
    using wne assms(2) by simp
  then have "severity_match False (?u @ rest) = Some (w @ '' '' @ op @ '' '' @ show_nat ord, length ?u)"
    by simp
  from sub_scan_match [where m = severity_match, OF this] quote_props [OF assms(6)] show ?thesis
    by (simp add: preprocess_cel_expression_def)
qed

theorem severity_comparison_by_order_witness:
  "preprocess_cel_expression (''Severity>= '' @ [CHR 0x27] @ ''High'' @ [CHR 0x27] @ '' && a'') = ''Severity >= 4 && a''"
proof -
  have p: "list_all is_word ''Severity''" "py_lower ''Severity'' = ''severity''" "''>='' \<in> set cel_operators"
    "list_all is_space ([]::string)" "list_all is_space '' ''" "is_cel_quote (CHR 0x27)"
    "(py_lower ''High'', 4) \<in> set alert_severities" by code_simp+
  have "show_nat 4 = ''4''" "preprocess_cel_expression '' && a'' = '' && a''" by code_simp+
  with severity_comparison_by_order [OF p, of "'' && a''"] show ?thesis by simp
qed

end
