(* ===== verification/WorkflowManager.thy ===== *)
theory WorkflowManager
  imports Workflow CelFilters
begin

text \<open>
  \<open>src/workflowmanager/workflowmanager.py\<close>: which workflows an alert or incident starts, and the run
  of one workflow with its failure handler.  Events are mutable objects that the queue of the
  scheduler shares with its callers, so they live in a heap and the queue holds their addresses;
  workflows are loaded anew for every event.  The workflow loader, the CEL library, the enrichment
  and previous-alert lookups are the record \<open>mgr_env\<close>.
\<close>

section \<open>Events, queue and environment\<close>

record event =
  ev_incident :: bool
  ev_fields :: pydict

record queue_entry =
  qe_workflow :: "workflow option"
  qe_workflow_id :: string
  qe_tenant_id :: string
  qe_execution_id :: "string option"
  qe_triggered_by :: string
  qe_user :: string
  qe_event :: nat
  qe_retry :: bool
  qe_inputs :: pydict

record mgr =
  mg_heap :: "event list"
  mg_queue :: "queue_entry list"

text \<open>\<open>cel_program\<close> is \<open>compile\<close> and \<open>program\<close>; the inner function is
  \<open>evaluate\<close> on the event's dictionary, whose \<open>CELEvalError\<close> the code catches.\<close>

record mgr_env =
  me_table :: wf_table
  load_workflow :: "string \<Rightarrow> string \<Rightarrow> workflow result"
  cel_program :: "string \<Rightarrow> (pydict \<Rightarrow> bool result) result"
  find_enrichment :: "string \<Rightarrow> string \<Rightarrow> pydict option"
  previous_alert :: "string \<Rightarrow> string \<Rightarrow> pydict option"

definition CELEvalError :: exn_kind where
  "CELEvalError = EOther ''CELEvalError''"

definition field :: "string \<Rightarrow> event \<Rightarrow> pyval" where
  "field k e = dict_get (ev_fields e) k PNone"

definition set_field :: "string \<Rightarrow> pyval \<Rightarrow> event \<Rightarrow> event" where
  "set_field k v e = e\<lparr>ev_fields := dset k v (ev_fields e)\<rparr>"

definition set_fields :: "pydict \<Rightarrow> event \<Rightarrow> event" where
  "set_fields d e = e\<lparr>ev_fields := dupdate (ev_fields e) d\<rparr>"

definition update_event :: "nat \<Rightarrow> (event \<Rightarrow> event) \<Rightarrow> mgr \<Rightarrow> mgr" where
  "update_event a f m = m\<lparr>mg_heap := (mg_heap m)[a := f (mg_heap m ! a)]\<rparr>"

definition get_workflow_from_store :: "mgr_env \<Rightarrow> string \<Rightarrow> string \<Rightarrow> workflow option" where
  "get_workflow_from_store env tenant_id wid =
     (case load_workflow env tenant_id wid of Inl _ \<Rightarrow> None | Inr w \<Rightarrow> Some w)"

definition enqueue :: "queue_entry \<Rightarrow> mgr \<Rightarrow> mgr" where
  "enqueue q m = m\<lparr>mg_queue := mg_queue m @ [q]\<rparr>"

definition event_entry :: "workflow \<Rightarrow> string \<Rightarrow> string \<Rightarrow> string \<Rightarrow> nat \<Rightarrow> queue_entry" where
  "event_entry w wid tenant_id triggered_by a =
     \<lparr>qe_workflow = Some w, qe_workflow_id = wid, qe_tenant_id = tenant_id, qe_execution_id = None,
      qe_triggered_by = triggered_by, qe_user = [], qe_event = a, qe_retry = False, qe_inputs = []\<rparr>"

section \<open>Incidents\<close>

text \<open>A trigger without a type raises \<open>KeyError\<close>.\<close>

fun incident_triggers :: "pydict list \<Rightarrow> pyval list result" where
  "incident_triggers [] = Inr []"
| "incident_triggers (t # ts) =
     (case dget t ''type'' of
        None \<Rightarrow> Inl (Exn EKeyError ''type'')
      | Some ty \<Rightarrow>
          rbind (incident_triggers ts) (\<lambda>es.
            if ty = PStr ''incident''
            then (case dict_get t ''events'' (PList []) of
                    PList l \<Rightarrow> Inr (l @ es) | _ \<Rightarrow> Inl (Exn ETypeError ''not iterable''))
            else Inr es))"

definition insert_incident_one ::
  "mgr_env \<Rightarrow> string \<Rightarrow> string \<Rightarrow> nat \<Rightarrow> wf_row \<Rightarrow> mgr \<Rightarrow> unit result \<times> mgr" where
  "insert_incident_one env tenant_id trigger a row m =
     (if wr_is_disabled row then (Inr (), m)
      else (case get_workflow_from_store env tenant_id (wr_id row) of
              None \<Rightarrow> (Inr (), m)
            | Some w \<Rightarrow>
                (case incident_triggers (wk_triggers w) of
                   Inl e \<Rightarrow> (Inl e, m)
                 | Inr es \<Rightarrow>
                     if PStr trigger \<notin> set es then (Inr (), m)
                     else let m = (case find_enrichment env tenant_id (py_str (field ''id'' (mg_heap m ! a))) of
                                     None \<Rightarrow> m
                                   | Some d \<Rightarrow> update_event a (set_fields d) m)
                          in (Inr (), enqueue (event_entry w (wr_id row) tenant_id (''incident:'' @ trigger) a) m))))"

fun for_each :: "('a \<Rightarrow> 's \<Rightarrow> unit result \<times> 's) \<Rightarrow> 'a list \<Rightarrow> 's \<Rightarrow> unit result \<times> 's" where
  "for_each f [] s = (Inr (), s)"
| "for_each f (x # xs) s =
     (case f x s of (Inl e, s) \<Rightarrow> (Inl e, s) | (Inr _, s) \<Rightarrow> for_each f xs s)"

definition insert_incident ::
  "mgr_env \<Rightarrow> string \<Rightarrow> nat \<Rightarrow> string \<Rightarrow> mgr \<Rightarrow> unit result \<times> mgr" where
  "insert_incident env tenant_id a trigger m =
     for_each (insert_incident_one env tenant_id trigger a)
       (get_all_workflows tenant_id False (me_table env)) m"

section \<open>Alerts\<close>

text \<open>The severity of the payload as a number, when it is a severity's name.\<close>

definition normalize_severity :: "pydict \<Rightarrow> pydict" where
  "normalize_severity payload =
     (case dget payload ''severity'' of
        Some (PStr s) \<Rightarrow>
          (case severity_order (py_lower s) of
             None \<Rightarrow> payload | Some n \<Rightarrow> dset ''severity'' (PInt (int n)) payload)
      | _ \<Rightarrow> payload)"

text \<open>The expression of a trigger: none when the trigger is skipped.\<close>

definition trigger_cel :: "pydict \<Rightarrow> string option" where
  "trigger_cel t =
     (case (case dget t ''filters'' of
              Some fs \<Rightarrow> (case convert_filters_to_cel fs of Inl _ \<Rightarrow> None | Inr c \<Rightarrow> Some (PStr c))
            | None \<Rightarrow> Some (dict_get t ''cel'' (PStr []))) of
        Some (PStr (c # cs)) \<Rightarrow>
          Some (preprocess_cel_expression
            (if contains_sub ''source'' (c # cs) then replace_source (c # cs) else c # cs))
      | _ \<Rightarrow> None)"

text \<open>Whether a trigger wants the event.  A trigger with neither filters nor CEL always does; a
  compilation error leaves the whole insertion.\<close>

definition trigger_matches :: "mgr_env \<Rightarrow> pydict \<Rightarrow> pydict \<Rightarrow> bool result" where
  "trigger_matches env t payload =
     (if dget t ''filters'' = None \<and> dget t ''cel'' = None then Inr True
      else (case trigger_cel t of
              None \<Rightarrow> Inr False
            | Some cel \<Rightarrow>
                rbind (cel_program env cel) (\<lambda>program.
                  (case program (normalize_severity payload) of
                     Inr b \<Rightarrow> Inr b
                   | Inl e \<Rightarrow> if exn_kind e = CELEvalError then Inr False else Inl e))))"

definition change_fields :: "pydict \<Rightarrow> string list" where
  "change_fields t =
     (case dict_get t ''only_on_change'' (PList []) of PList l \<Rightarrow> map py_str l | _ \<Rightarrow> [])
     @ (if truthy (dict_get t ''severity_changed'' (PBool False)) then [''severity''] else [])"

definition alert_severity :: "pyval \<Rightarrow> nat result" where
  "alert_severity v =
     (case v of
        PStr s \<Rightarrow> (case severity_order s of None \<Rightarrow> Inl (Exn EValueError s) | Some n \<Rightarrow> Inr n)
      | _ \<Rightarrow> Inl (Exn EValueError (py_str v)))"

text \<open>The change check: an event whose compared fields are not all different from the previous
  alert's does not run; a severity change is recorded on the event.\<close>

definition check_changes :: "mgr_env \<Rightarrow> string \<Rightarrow> pydict \<Rightarrow> nat \<Rightarrow> mgr \<Rightarrow> bool result \<times> mgr" where
  "check_changes env tenant_id t a m =
     (let e = mg_heap m ! a; fields = change_fields t;
          severity_changed = truthy (dict_get t ''severity_changed'' (PBool False))
      in (case (if fields = [] then None
                else previous_alert env tenant_id (py_str (field ''fingerprint'' e))) of
            None \<Rightarrow> (Inr True, m)
          | Some prev \<Rightarrow>
              if \<exists>f \<in> set fields. field f e = dict_get prev f PNone then (Inr False, m)
              else if \<not> severity_changed then (Inr True, m)
              else let prev_sev = dict_get prev ''severity'' PNone;
                       m = update_event a (set_field ''previous_severity'' prev_sev
                             \<circ> set_field ''severity_changed'' (PBool True)) m
                   in (case rbind (alert_severity prev_sev) (\<lambda>p.
                              rbind (alert_severity (field ''severity'' e)) (\<lambda>n. Inr (p < n))) of
                         Inl x \<Rightarrow> (Inl x, m)
                       | Inr inc \<Rightarrow> (Inr True, update_event a (set_field ''severity_change''
                           (PStr (if inc then ''increased'' else ''decreased''))) m))))"

text \<open>The event is marked and enriched before the change check.\<close>

definition prepare_event :: "mgr_env \<Rightarrow> string \<Rightarrow> nat \<Rightarrow> mgr \<Rightarrow> mgr" where
  "prepare_event env tenant_id a m =
     (let m = update_event a (set_field ''trigger'' (PStr ''alert'')) m
      in (case find_enrichment env tenant_id (py_str (field ''fingerprint'' (mg_heap m ! a))) of
            None \<Rightarrow> m | Some d \<Rightarrow> update_event a (set_fields d) m))"

definition insert_trigger ::
  "mgr_env \<Rightarrow> string \<Rightarrow> nat \<Rightarrow> string \<Rightarrow> workflow \<Rightarrow> pydict \<Rightarrow> mgr \<Rightarrow> unit result \<times> mgr" where
  "insert_trigger env tenant_id a wid w t m =
     (if dget t ''type'' \<noteq> Some (PStr ''alert'') then (Inr (), m)
      else (case trigger_matches env t (ev_fields (mg_heap m ! a)) of
              Inl e \<Rightarrow> (Inl e, m)
            | Inr False \<Rightarrow> (Inr (), m)
            | Inr True \<Rightarrow>
                (case check_changes env tenant_id t a (prepare_event env tenant_id a m) of
                   (Inl e, m) \<Rightarrow> (Inl e, m)
                 | (Inr False, m) \<Rightarrow> (Inr (), m)
                 | (Inr True, m) \<Rightarrow> (Inr (), enqueue (event_entry w wid tenant_id ''alert'' a) m))))"

definition insert_event_one ::
  "mgr_env \<Rightarrow> string \<Rightarrow> nat \<Rightarrow> wf_row \<Rightarrow> mgr \<Rightarrow> unit result \<times> mgr" where
  "insert_event_one env tenant_id a row m =
     (case get_workflow_from_store env tenant_id (wr_id row) of
        None \<Rightarrow> (Inr (), m)
      | Some w \<Rightarrow> for_each (insert_trigger env tenant_id a (wr_id row) w) (wk_triggers w) m)"

definition insert_events :: "mgr_env \<Rightarrow> string \<Rightarrow> nat list \<Rightarrow> mgr \<Rightarrow> unit result \<times> mgr" where
  "insert_events env tenant_id events m =
     for_each (\<lambda>a. for_each (insert_event_one env tenant_id a)
       (get_all_workflows tenant_id True (me_table env))) events m"

text \<open>\<open>_get_event_value\<close>: a dotted key is followed through dictionaries, and a falsy value on the
  way ends the search.\<close>

fun follow_keys :: "pyval \<Rightarrow> string list \<Rightarrow> pyval result" where
  "follow_keys v [] = Inr v"
| "follow_keys v (k # ks) =
     (case v of
        PDict d \<Rightarrow> if truthy (dict_get d k PNone) then follow_keys (dict_get d k PNone) ks else Inr PNone
      | _ \<Rightarrow> Inl (Exn EAttributeError ''get''))"

definition get_event_value :: "event \<Rightarrow> string \<Rightarrow> pyval result" where
  "get_event_value e key =
     (if contains_sub ''.'' key then
        (case py_split ''.'' key of
           [] \<Rightarrow> Inr PNone
         | k # ks \<Rightarrow> if truthy (field k e) then follow_keys (field k e) ks else Inr PNone)
      else Inr (field key e))"

text \<open>\<open>_apply_filter\<close>: the matches of a regular expression (a parameter; none where it raises), or
  equality, a boolean filter being compared with text by its name.\<close>

definition apply_filter :: "(string \<Rightarrow> pyval \<Rightarrow> pyval option) \<Rightarrow> pyval \<Rightarrow> pyval \<Rightarrow> pyval" where
  "apply_filter findall filter_val v =
     (case filter_val of
        PStr s \<Rightarrow>
          if starts_with regex_mark s
          then (case findall (butlast (drop 2 s)) v of None \<Rightarrow> PBool False | Some ms \<Rightarrow> ms)
          else PBool (v = PStr s)
      | PBool b \<Rightarrow> (case v of PStr t \<Rightarrow> PBool (t = py_str (PBool b))
          | PInt i \<Rightarrow> PBool (i = (if b then 1 else 0)) | _ \<Rightarrow> PBool (v = PBool b))
      | PInt i \<Rightarrow> (case v of PBool b \<Rightarrow> PBool (i = (if b then 1 else 0)) | _ \<Rightarrow> PBool (v = PInt i))
      | _ \<Rightarrow> PBool (v = filter_val))"

section \<open>Running one workflow\<close>

definition PREMIUM_PROVIDERS :: "string list" where
  "PREMIUM_PROVIDERS = [''bash'', ''python'', ''llamacpp'', ''ollama'']"

definition check_premium_providers :: "bool \<Rightarrow> workflow \<Rightarrow> unit result" where
  "check_premium_providers multi_tenant wk =
     (case (if multi_tenant then find (\<lambda>p. p \<in> set PREMIUM_PROVIDERS) (wk_providers_type wk) else None) of
        None \<Rightarrow> Inr ()
      | Some p \<Rightarrow> Inl (Exn EException (''Provider '' @ p @ '' is a premium provider.'')))"

text \<open>The failure handler gets the message as a parameter, which stays in its dictionary.\<close>

definition run_on_failure ::
  "step_env \<Rightarrow> workflow \<Rightarrow> string \<Rightarrow> world \<Rightarrow> unit result \<times> workflow \<times> world" where
  "run_on_failure env wk error_message w =
     (case wk_on_failure wk of
        None \<Rightarrow> (Inr (), wk, w)
      | Some s \<Rightarrow>
          let message = ''Workflow '' @ wk_id wk @ '' failed with errors: '' @ error_message;
              s = s\<lparr>st_params := dset ''message'' (PStr message) (st_params s)\<rparr>
          in (case run_step env s w of
                (Inl e, s, w) \<Rightarrow> (Inl e, wk\<lparr>wk_on_failure := Some s\<rparr>, w)
              | (Inr _, s, w) \<Rightarrow> (Inr (), wk\<lparr>wk_on_failure := Some s\<rparr>, w)))"

text \<open>The body of the \<open>try\<close>: the premium check, the run, and the handler for the errors of
  actions.\<close>

definition try_workflow ::
  "step_env \<Rightarrow> bool \<Rightarrow> workflow \<Rightarrow> string \<Rightarrow> world \<Rightarrow> string option
     \<Rightarrow> string list option result \<times> workflow \<times> world \<times> string option" where
  "try_workflow env multi_tenant wk eid w th =
     (case check_premium_providers multi_tenant wk of
        Inl e \<Rightarrow> (Inl e, wk, w, th)
      | Inr _ \<Rightarrow>
          (case run_workflow env wk eid w th of
             (Inl e, wk, w, th) \<Rightarrow> (Inl e, wk, w, th)
           | (Inr errors, wk, w, th) \<Rightarrow>
               (case errors of
                  Some (e # es) \<Rightarrow>
                    (case run_on_failure env wk (py_join '', '' (e # es)) w of
                       (Inl x, wk, w) \<Rightarrow> (Inl x, wk, w, th)
                     | (Inr _, wk, w) \<Rightarrow> (Inr errors, wk, w, th))
                | _ \<Rightarrow> (Inr errors, wk, w, th))))"

text \<open>The results of the providers, actions first; equal names keep the first place and the last
  value.  The handler's own exception replaces the one it handles.\<close>

definition workflow_results :: "(call list \<Rightarrow> string \<Rightarrow> pyval) \<Rightarrow> workflow \<Rightarrow> world \<Rightarrow> pydict" where
  "workflow_results provider_results wk w =
     fold (\<lambda>s. dset (st_id s) (provider_results (w_calls w) (st_id s))) (wk_actions wk @ wk_steps wk) []"

definition manager_run_workflow ::
  "step_env \<Rightarrow> bool \<Rightarrow> (call list \<Rightarrow> string \<Rightarrow> pyval) \<Rightarrow> (pyval \<Rightarrow> pyval) \<Rightarrow> workflow \<Rightarrow> string
     \<Rightarrow> world \<Rightarrow> exec_db \<Rightarrow> string list option result \<times> workflow \<times> world \<times> exec_db" where
  "manager_run_workflow env multi_tenant provider_results serialize wk eid w db =
     (case try_workflow env multi_tenant wk eid w None of
        (Inl e, wk, w, th) \<Rightarrow>
          (case run_on_failure env wk (exn_msg e) w of
             (Inl x, wk, w) \<Rightarrow> (Inl x, wk, w, db)
           | (Inr _, wk, w) \<Rightarrow> (Inl e, wk, w, db))
      | (Inr errors, wk, w, th) \<Rightarrow>
          (case save_workflow_results json_dumps serialize (cm_tenant_id (w_ctx w)) eid
                  (PDict (workflow_results provider_results wk w)) db of
             (Inl e, db) \<Rightarrow> (Inl e, wk, w, db)
           | (Inr _, db) \<Rightarrow> (Inr errors, wk, w, db)))"

section \<open>What insertion queues\<close>

text \<open>An invariant of every element's step is one of the loop.\<close>

lemma for_each_induct:
  assumes "for_each f xs s = (r, s')" "R s s"
    and "\<And>x a b r'. x \<in> set xs \<Longrightarrow> R s a \<Longrightarrow> f x a = (r', b) \<Longrightarrow> R s b"
  shows "R s s'"
proof -
  have "R s t \<Longrightarrow> (\<And>x a b r'. x \<in> set ys \<Longrightarrow> R s a \<Longrightarrow> f x a = (r', b) \<Longrightarrow> R s b) \<Longrightarrow>
      for_each f ys t = (r, s') \<Longrightarrow> R s s'" for ys t
  proof (induction ys arbitrary: t)
    case (Cons y ys)
    obtain r1 t1 where f: "f y t = (r1, t1)" by (cases "f y t")
    have "R s t1" using Cons.prems(1,2) f by (meson list.set_intros(1))
    show ?case
    proof (cases r1)
      case (Inl e)
      with Cons.prems(3) f \<open>R s t1\<close> show ?thesis by simp
    next
      case (Inr u)
      with Cons.prems(3) f have "for_each f ys t1 = (r, s')" by simp
      then show ?thesis
        using \<open>R s t1\<close> Cons.prems(2) by (intro Cons.IH [of t1]) auto
    qed
  qed simp
  from this [OF assms(2) assms(3) assms(1)] show ?thesis .
qed

text \<open>The fields of an event as the engine may have changed them: only the fields it writes itself and
  those of enrichments can differ.\<close>

definition engine_fields :: "string list" where
  "engine_fields = [''trigger'', ''severity_changed'', ''previous_severity'', ''severity_change'']"

definition derived_fields :: "mgr_env \<Rightarrow> string \<Rightarrow> pydict \<Rightarrow> pydict \<Rightarrow> bool" where
  "derived_fields env tenant_id d d' \<longleftrightarrow>
     (\<forall>k. k \<notin> set engine_fields \<and> (\<forall>fp e. find_enrichment env tenant_id fp = Some e \<longrightarrow> dget e k = None)
        \<longrightarrow> dget d' k = dget d k)"

text \<open>What a queue entry made for an alert looks like.\<close>

definition alert_entry_ok :: "mgr_env \<Rightarrow> string \<Rightarrow> nat set \<Rightarrow> mgr \<Rightarrow> queue_entry \<Rightarrow> bool" where
  "alert_entry_ok env tenant_id A m q \<longleftrightarrow>
     qe_event q \<in> A \<and> qe_tenant_id q = tenant_id \<and> qe_triggered_by q = ''alert''
     \<and> qe_execution_id q = None
     \<and> (\<exists>row w t payload. row \<in> set (get_all_workflows tenant_id True (me_table env))
          \<and> wr_id row = qe_workflow_id q
          \<and> load_workflow env tenant_id (wr_id row) = Inr w \<and> qe_workflow q = Some w
          \<and> t \<in> set (wk_triggers w) \<and> dget t ''type'' = Some (PStr ''alert'')
          \<and> derived_fields env tenant_id (ev_fields (mg_heap m ! qe_event q)) payload
          \<and> trigger_matches env t payload = Inr True)"

definition insertion :: "mgr_env \<Rightarrow> string \<Rightarrow> nat set \<Rightarrow> mgr \<Rightarrow> mgr \<Rightarrow> bool" where
  "insertion env tenant_id A m m' \<longleftrightarrow>
     (\<exists>new. mg_queue m' = mg_queue m @ new \<and> list_all (alert_entry_ok env tenant_id A m) new)
     \<and> (\<forall>a. derived_fields env tenant_id (ev_fields (mg_heap m ! a)) (ev_fields (mg_heap m' ! a)))"

lemma insertion_refl: "insertion env tn A m m"
  by (simp add: insertion_def derived_fields_def)

lemma insertion_update:
  assumes "insertion env tn A m m1"
    and "\<And>e. derived_fields env tn (ev_fields e) (ev_fields (f e))"
  shows "insertion env tn A m (update_event a f m1)"
proof -
  have "derived_fields env tn (ev_fields (mg_heap m ! b)) (ev_fields (mg_heap (update_event a f m1) ! b))" for b
  proof -
    have "derived_fields env tn (ev_fields (mg_heap m1 ! b)) (ev_fields (mg_heap (update_event a f m1) ! b))"
      using assms(2) by (cases "a < length (mg_heap m1)"; cases "b = a")
        (auto simp: update_event_def derived_fields_def list_update_beyond)
    with assms(1) show ?thesis by (auto simp: insertion_def derived_fields_def)
  qed
  with assms(1) show ?thesis by (simp add: insertion_def update_event_def)
qed

lemma derived_set_field:
  "k \<in> set engine_fields \<Longrightarrow> derived_fields env tn (ev_fields e) (ev_fields (set_field k v e))"
  by (auto simp: derived_fields_def set_field_def)

lemma derived_set_fields:
  assumes "find_enrichment env tn fp = Some d"
  shows "derived_fields env tn (ev_fields e) (ev_fields (set_fields d e))"
proof -
  have "map_of (rev d) k = None" if "dget d k = None" for k
    using that by (simp add: dget_def map_of_eq_None_iff)
  with assms show ?thesis by (auto simp: derived_fields_def set_fields_def dget_dupdate)
qed

lemma check_changes_insertion:
  assumes "check_changes env tn t a m1 = (r, m2)" "insertion env tn A m m1"
  shows "insertion env tn A m m2"
proof -
  let ?f = "\<lambda>v. set_field ''previous_severity'' v \<circ> set_field ''severity_changed'' (PBool True)"
  have f: "derived_fields env tn (ev_fields e) (ev_fields (?f v e))" for v e
    by (simp add: engine_fields_def derived_fields_def set_field_def)
  have g: "derived_fields env tn (ev_fields e) (ev_fields (set_field ''severity_change'' v e))" for v e
    by (rule derived_set_field) (simp add: engine_fields_def)
  have u: "insertion env tn A m (update_event a (?f v) m1)" for v
    using assms(2) f by (rule insertion_update)
  have "m2 = m1 \<or> (\<exists>v. m2 = update_event a (?f v) m1)
      \<or> (\<exists>v x. m2 = update_event a (set_field ''severity_change'' x) (update_event a (?f v) m1))"
    using assms(1) by (auto simp: check_changes_def Let_def split: option.splits if_splits sum.splits)
  moreover have "insertion env tn A m (update_event a (set_field ''severity_change'' x) (update_event a (?f v) m1))" for v x
    using u by (rule insertion_update) (rule g)
  ultimately show ?thesis using assms(2) u by (elim disjE exE) simp_all
qed

lemma prepare_event_insertion:
  assumes "insertion env tn A m m1" shows "insertion env tn A m (prepare_event env tn a m1)"
proof -
  have "insertion env tn A m (update_event a (set_field ''trigger'' v) m1)" for v
    using assms by (rule insertion_update) (simp add: derived_set_field engine_fields_def)
  then show ?thesis unfolding prepare_event_def Let_def
    by (auto simp: derived_set_fields intro: insertion_update split: option.split)
qed

lemma insert_trigger_insertion:
  assumes i: "insert_trigger env tn a wid w t m1 = (r, m')" and m1: "insertion env tn A m m1"
    and row: "row \<in> set (get_all_workflows tn True (me_table env))" "wr_id row = wid"
      "load_workflow env tn wid = Inr w" "t \<in> set (wk_triggers w)" "a \<in> A"
  shows "insertion env tn A m m'"
proof (cases "dget t ''type'' = Some (PStr ''alert'')
    \<and> trigger_matches env t (ev_fields (mg_heap m1 ! a)) = Inr True")
  case False
  with i have "m' = m1"
    by (auto simp: insert_trigger_def split: if_splits sum.splits bool.splits)
  with m1 show ?thesis by simp
next
  case True
  obtain b m4 where c: "check_changes env tn t a (prepare_event env tn a m1) = (b, m4)"
    by (cases "check_changes env tn t a (prepare_event env tn a m1)")
  from c prepare_event_insertion [OF m1] have m4: "insertion env tn A m m4" by (rule check_changes_insertion)
  have "derived_fields env tn (ev_fields (mg_heap m ! a)) (ev_fields (mg_heap m1 ! a))"
    using m1 by (simp add: insertion_def)
  with True row have ok: "alert_entry_ok env tn A m (event_entry w wid tn ''alert'' a)"
    by (auto simp: alert_entry_ok_def event_entry_def)
  have "m' = m4 \<or> m' = enqueue (event_entry w wid tn ''alert'' a) m4"
    using i True c by (auto simp: insert_trigger_def split: sum.splits bool.splits)
  with m4 ok show ?thesis by (auto simp: insertion_def enqueue_def)
qed

lemma insert_events_insertion:
  assumes "insert_events env tenant_id events m = (r, m')"
  shows "insertion env tenant_id (set events) m m'"
proof -
  let ?R = "insertion env tenant_id (set events)"
  have one: "?R m y" if "insert_event_one env tenant_id a row x = (r1, y)" "?R m x"
    "row \<in> set (get_all_workflows tenant_id True (me_table env))" "a \<in> set events" for a row x y r1
  proof (cases "load_workflow env tenant_id (wr_id row)")
    case (Inl e)
    with that show ?thesis by (simp add: insert_event_one_def get_workflow_from_store_def)
  next
    case (Inr w)
    with that(1) have "for_each (insert_trigger env tenant_id a (wr_id row) w) (wk_triggers w) x = (r1, y)"
      by (simp add: insert_event_one_def get_workflow_from_store_def)
    then show ?thesis
      by (rule for_each_induct [where R = "\<lambda>_. ?R m"])
        (use that(2) insert_trigger_insertion [OF _ _ that(3) refl Inr _ that(4)] in blast)+
  qed
  show "?R m m'"
    using assms unfolding insert_events_def
  proof (rule for_each_induct [where R = ?R])
    fix a x y r' assume a: "a \<in> set events" "?R m x"
      and f: "for_each (insert_event_one env tenant_id a) (get_all_workflows tenant_id True (me_table env)) x = (r', y)"
    show "?R m y" using f
      by (rule for_each_induct [where R = "\<lambda>_. ?R m"]) (use a one in blast)+
  qed (rule insertion_refl)
qed

text \<open>C25: what the insertion of alerts starts.  However it ends, the queue is only extended, and every
  new entry is for one of the inserted events and an enabled workflow of the tenant that could be
  loaded and has an alert trigger that accepted the event's fields, up to the fields the engine and
  the enrichments write.\<close>

theorem insert_events_queues_matching:
  assumes "insert_events env tenant_id events m = (r, m')"
  shows "\<exists>new. mg_queue m' = mg_queue m @ new
    \<and> list_all (alert_entry_ok env tenant_id (set events) m) new"
  using insert_events_insertion [OF assms] by (auto simp: insertion_def)

text \<open>Entries made by either insertion carry no execution id.\<close>

definition queues_new :: "mgr \<Rightarrow> mgr \<Rightarrow> bool" where
  "queues_new m m' \<longleftrightarrow> (\<exists>new. mg_queue m' = mg_queue m @ new \<and> (\<forall>q \<in> set new. qe_execution_id q = None))"

lemma insert_events_new: "insert_events env tn events m = (r, m') \<Longrightarrow> queues_new m m'"
  using insert_events_insertion [of env tn events m r m']
  by (auto simp: insertion_def queues_new_def list_all_iff alert_entry_ok_def)

lemma insert_incident_new:
  assumes "insert_incident env tn a trigger m = (r, m')"
  shows "queues_new m m'"
  using assms unfolding insert_incident_def
proof (rule for_each_induct [where R = queues_new])
  show "queues_new m m" by (simp add: queues_new_def)
  fix row x y r' assume "queues_new m x" "insert_incident_one env tn trigger a row x = (r', y)"
  then show "queues_new m y"
    by (auto simp: insert_incident_one_def queues_new_def Let_def enqueue_def update_event_def event_entry_def
        split: if_splits option.splits sum.splits)
qed

section \<open>A trigger that does not compile\<close>

lemma for_each_append:
  "for_each f (xs @ ys) s = (case for_each f xs s of (Inl e, s) \<Rightarrow> (Inl e, s) | (Inr _, s) \<Rightarrow> for_each f ys s)"
  by (induction xs arbitrary: s) (auto split: prod.splits sum.splits)

definition queues_only :: "string set \<Rightarrow> mgr \<Rightarrow> mgr \<Rightarrow> bool" where
  "queues_only W m m' \<longleftrightarrow> (\<exists>new. mg_queue m' = mg_queue m @ new \<and> qe_workflow_id ` set new \<subseteq> W)"

lemma queues_only_refl: "queues_only W m m"
  by (simp add: queues_only_def)

lemma queues_only_trans: "queues_only W a b \<Longrightarrow> queues_only W b c \<Longrightarrow> queues_only W a c"
  unfolding queues_only_def by (metis append_assoc image_Un le_sup_iff set_append)

lemma check_changes_queue: "check_changes env tn t a m = (r, m') \<Longrightarrow> mg_queue m' = mg_queue m"
  by (auto simp: check_changes_def Let_def update_event_def split: option.splits if_splits sum.splits)

lemma insert_trigger_queue:
  assumes "insert_trigger env tn a wid w t m = (r, m')"
  shows "queues_only {wid} m m'"
proof -
  obtain b m4 where c: "check_changes env tn t a (prepare_event env tn a m) = (b, m4)"
    by (cases "check_changes env tn t a (prepare_event env tn a m)")
  have q: "mg_queue m4 = mg_queue m"
    using check_changes_queue [OF c]
    by (simp add: prepare_event_def Let_def update_event_def split: option.splits)
  have "m' \<in> {m, m4, enqueue (event_entry w wid tn ''alert'' a) m4}"
    using assms c by (auto simp: insert_trigger_def split: if_splits sum.splits bool.splits)
  with q show ?thesis by (auto simp: queues_only_def enqueue_def event_entry_def)
qed

lemma insert_event_one_queue:
  assumes "insert_event_one env tn a row m = (r, m')"
  shows "queues_only {wr_id row} m m'"
proof (cases "get_workflow_from_store env tn (wr_id row)")
  case None
  with assms show ?thesis by (simp add: insert_event_one_def queues_only_refl)
next
  case (Some w)
  with assms have "for_each (insert_trigger env tn a (wr_id row) w) (wk_triggers w) m = (r, m')"
    by (simp add: insert_event_one_def)
  then show ?thesis
    by (rule for_each_induct [where R = "queues_only {wr_id row}"])
      (blast intro: queues_only_refl queues_only_trans insert_trigger_queue)+
qed

lemma insert_rows_queue:
  assumes "for_each (insert_event_one env tn a) rows m = (r, m')"
  shows "queues_only (wr_id ` set rows) m m'"
  using assms
proof (rule for_each_induct [where R = "queues_only (wr_id ` set rows)"])
  fix row x y r' assume a: "row \<in> set rows" "queues_only (wr_id ` set rows) m x"
    "insert_event_one env tn a row x = (r', y)"
  from insert_event_one_queue [OF a(3)] a(1) have "queues_only (wr_id ` set rows) x y"
    by (auto simp: queues_only_def)
  with a(2) show "queues_only (wr_id ` set rows) m y" by (rule queues_only_trans)
qed (rule queues_only_refl)

text \<open>One expression that does not compile stops the insertion.  If a workflow's first trigger is
  an alert trigger whose CEL raises when it is compiled, every insertion of alerts of that tenant
  raises, and only workflows listed before it can have been queued: those after it, and all further
  events, are lost.\<close>

theorem bad_cel_stops_insertion:
  assumes "get_all_workflows tenant_id True (me_table env) = before @ row # after"
    and "load_workflow env tenant_id (wr_id row) = Inr w" and "wk_triggers w = t # ts"
    and "dget t ''type'' = Some (PStr ''alert'')" and "trigger_cel t = Some cel"
    and "cel_program env cel = Inl e"
  shows "\<exists>x m'. insert_events env tenant_id (a # events) m = (Inl x, m')
    \<and> queues_only (wr_id ` set before) m m'"
proof -
  have tm: "trigger_matches env t p = Inl e" for p
  proof -
    have "\<not> (dget t ''filters'' = None \<and> dget t ''cel'' = None)"
    proof
      assume "dget t ''filters'' = None \<and> dget t ''cel'' = None"
      then have "trigger_cel t = None" by (simp add: trigger_cel_def dict_get_def)
      with assms(5) show False by simp
    qed
    with assms(5,6) show ?thesis unfolding trigger_matches_def by simp
  qed
  then have one: "insert_event_one env tenant_id a row x = (Inl e, x)" for x
    using assms(2-4) by (simp add: insert_event_one_def get_workflow_from_store_def insert_trigger_def)
  obtain r m1 where b: "for_each (insert_event_one env tenant_id a) before m = (r, m1)"
    by (cases "for_each (insert_event_one env tenant_id a) before m")
  have "\<exists>x. for_each (insert_event_one env tenant_id a) (before @ row # after) m = (Inl x, m1)"
    using b one by (cases r) (auto simp: for_each_append)
  then have "\<exists>x. insert_events env tenant_id (a # events) m = (Inl x, m1)"
    by (auto simp: insert_events_def assms(1))
  with insert_rows_queue [OF b] show ?thesis by blast
qed

section \<open>Witnesses\<close>

definition demo_row :: "string \<Rightarrow> wf_row" where
  "demo_row wid = new_row 0 wid ''t'' ''u'' False
     \<lparr>v_name = wid, v_description = None, v_interval = None, v_raw = [], v_is_disabled = False,
      v_updated_by = ''u'', v_provisioned = False, v_provisioned_file = None\<rparr>"

text \<open>Two workflows with an alert trigger: the second one's expression does not compile.\<close>

definition demo_mgr_env :: mgr_env where
  "demo_mgr_env = \<lparr>me_table = \<lparr>workflows = [demo_row ''w1'', demo_row ''w2''], versions = []\<rparr>,
     load_workflow = (\<lambda>tn wid. Inr (demo_workflow\<lparr>wk_id := wid, wk_triggers :=
       [[(''type'', PStr ''alert''), (''cel'', PStr (if wid = ''w1'' then ''a'' else ''b''))]]\<rparr>)),
     cel_program = (\<lambda>cel. if cel = ''a'' then Inr (\<lambda>p. Inr True)
       else Inl (Exn (EOther ''CELParseError'') [])),
     find_enrichment = (\<lambda>tn fp. None), previous_alert = (\<lambda>tn fp. None)\<rparr>"

definition demo_mgr :: mgr where
  "demo_mgr = \<lparr>mg_heap = [\<lparr>ev_incident = False, ev_fields = [(''fingerprint'', PStr ''fp'')]\<rparr>], mg_queue = []\<rparr>"

lemma demo_rows: "get_all_workflows ''t'' True (me_table demo_mgr_env) = [demo_row ''w1''] @ demo_row ''w2'' # []"
  by code_simp

theorem insert_events_queues_matching_witness:
  "\<exists>new. mg_queue (snd (insert_events demo_mgr_env ''t'' [0] demo_mgr)) = new
    \<and> list_all (alert_entry_ok demo_mgr_env ''t'' {0} demo_mgr) new \<and> length new = 1"
proof -
  obtain r m' where e: "insert_events demo_mgr_env ''t'' [0] demo_mgr = (r, m')"
    by (cases "insert_events demo_mgr_env ''t'' [0] demo_mgr")
  have l: "length (mg_queue (snd (insert_events demo_mgr_env ''t'' [0] demo_mgr))) = 1" by code_simp
  have "mg_queue demo_mgr = []" by (simp add: demo_mgr_def)
  with insert_events_queues_matching [OF e] l e show ?thesis by simp
qed

theorem bad_cel_stops_insertion_witness:
  "\<exists>x m'. insert_events demo_mgr_env ''t'' [0, 0] demo_mgr = (Inl x, m') \<and> queues_only {''w1''} demo_mgr m'"
proof -
  let ?w = "demo_workflow\<lparr>wk_id := ''w2'', wk_triggers := [[(''type'', PStr ''alert''), (''cel'', PStr ''b'')]]\<rparr>"
  have l: "load_workflow demo_mgr_env ''t'' (wr_id (demo_row ''w2'')) = Inr ?w"
    by (simp add: demo_mgr_env_def demo_row_def new_row_def)
  have c: "trigger_cel [(''type'', PStr ''alert''), (''cel'', PStr ''b'')] = Some ''b''" by code_simp
  have p: "cel_program demo_mgr_env ''b'' = Inl (Exn (EOther ''CELParseError'') [])"
    by (simp add: demo_mgr_env_def)
  have t: "dget [(''type'', PStr ''alert''), (''cel'', PStr ''b'')] ''type'' = Some (PStr ''alert'')"
    by (simp add: dget_Cons)
  have tr: "wk_triggers ?w = [(''type'', PStr ''alert''), (''cel'', PStr ''b'')] # []" by simp
  from bad_cel_stops_insertion [OF demo_rows l tr t c p, of 0 "[0]" demo_mgr] show ?thesis
    by (simp add: demo_row_def new_row_def)
qed

end
