(* ===== verification/Scheduler.thy ===== *)
theory Scheduler
  imports WorkflowManager
begin

text \<open>
  \<open>src/workflowmanager/workflowscheduler.py\<close>: the loop that turns due intervals and queued
  events into executions.  The state is the queue with the heap of its events, the execution table
  and the list of jobs handed to the thread pool, oldest first; a job runs as a step of its own,
  between any two operations of the loop.  SHA-256, the database's enrichment lookup, the DTO
  constructors and the random numbers are the record \<open>sched_env\<close>.
\<close>

section \<open>State\<close>

record job =
  jb_tenant_id :: string
  jb_workflow_id :: string
  jb_workflow :: workflow
  jb_execution_id :: string
  jb_event :: "nat option"
  jb_inputs :: pydict

record sched =
  sc_mgr :: mgr
  sc_db :: exec_db
  sc_jobs :: "job list"

record sched_env =
  sv_mgr :: mgr_env
  sv_audit :: bool
  sv_uuid :: "nat \<Rightarrow> string"
  sv_clocks :: clocks
  sv_random :: "exec_db \<Rightarrow> int"
  sha256 :: "string \<Rightarrow> nat"
  refreshed_enrichment :: "string \<Rightarrow> string option \<Rightarrow> pydict option result"
  make_dto :: "bool \<Rightarrow> pydict \<Rightarrow> pydict result"
  interval_enabled :: bool
  in_cloud_run :: bool

datatype workflow_status = SUCCESS | ERROR | PROVIDERS_NOT_CONFIGURED

fun status_value :: "workflow_status \<Rightarrow> string" where
  "status_value SUCCESS = ''success''"
| "status_value ERROR = ''error''"
| "status_value PROVIDERS_NOT_CONFIGURED = ''providers_not_configured''"

definition MAX_SIZE_SIGNED_INT :: int where
  "MAX_SIZE_SIGNED_INT = 2147483647"

section \<open>Helpers\<close>

definition now_of :: "sched_env \<Rightarrow> int" where
  "now_of env = utc_now (sv_clocks env)"

definition finish_execution ::
  "sched_env \<Rightarrow> string option \<Rightarrow> workflow_status \<Rightarrow> string option \<Rightarrow> sched \<Rightarrow> unit result \<times> sched" where
  "finish_execution env eid status error s =
     (case finish_workflow_execution (now_of env) (sv_random env (sc_db s)) eid (status_value status)
         error (sc_db s) of
        (r, db) \<Rightarrow> (r, s\<lparr>sc_db := db\<rparr>))"

definition hash_number :: "sched_env \<Rightarrow> string \<Rightarrow> int" where
  "hash_number env payload = int (sha256 env payload) mod (MAX_SIZE_SIGNED_INT + 1)"

definition get_unique_execution_number ::
  "sched_env \<Rightarrow> string option \<Rightarrow> string option \<Rightarrow> exec_db \<Rightarrow> int \<times> exec_db" where
  "get_unique_execution_number env fingerprint workflow_id db =
     (if set_str fingerprint \<and> set_str workflow_id
      then (hash_number env (the fingerprint @ '':'' @ the workflow_id), db)
      else if set_str fingerprint then (hash_number env (the fingerprint), db)
      else (hash_number env (sv_uuid env (uuid_ctr db)), db\<lparr>uuid_ctr := Suc (uuid_ctr db)\<rparr>))"

definition submit :: "job \<Rightarrow> sched \<Rightarrow> sched" where
  "submit j s = s\<lparr>sc_jobs := sc_jobs s @ [j]\<rparr>"

section \<open>Interval workflows\<close>

definition interval_error :: "string \<Rightarrow> exn \<Rightarrow> workflow_status \<times> string" where
  "interval_error wid e =
     (if exn_kind e = EProviderConfig
      then (PROVIDERS_NOT_CONFIGURED, ''Providers are not configured for workflow '' @ wid)
      else (ERROR, ''Error getting workflow: '' @ exn_msg e))"

definition handle_interval_one :: "sched_env \<Rightarrow> run_entry \<Rightarrow> sched \<Rightarrow> unit result \<times> sched" where
  "handle_interval_one env en s =
     (case load_workflow (sv_mgr env) (re_tenant_id en) (re_workflow_id en) of
        Inl e \<Rightarrow>
          (case interval_error (re_workflow_id en) e of (status, error) \<Rightarrow>
             finish_execution env (Some (re_execution_id en)) status (Some error) s)
      | Inr w \<Rightarrow>
          (Inr (), submit \<lparr>jb_tenant_id = re_tenant_id en, jb_workflow_id = re_workflow_id en,
             jb_workflow = w, jb_execution_id = re_execution_id en, jb_event = None, jb_inputs = []\<rparr> s))"

definition handle_interval_workflows :: "sched_env \<Rightarrow> sched \<Rightarrow> unit result \<times> sched" where
  "handle_interval_workflows env s =
     (if \<not> interval_enabled env then (Inr (), s)
      else (case get_workflows_that_should_run (sv_audit env) (sv_uuid env) (sv_clocks env)
               (me_table (sv_mgr env)) (sc_db s) of
              (es, db) \<Rightarrow> for_each (handle_interval_one env) es (s\<lparr>sc_db := db\<rparr>)))"

section \<open>Manual runs\<close>

text \<open>Event id, event type and fingerprint of an event, as the manual path reads them.\<close>

definition opt_str :: "pyval \<Rightarrow> string option" where
  "opt_str v = (case v of PNone \<Rightarrow> None | _ \<Rightarrow> Some (py_str v))"

definition alert_key :: "event \<Rightarrow> string option \<times> string \<times> string option" where
  "alert_key e =
     (if truthy (field ''id'' e) then Some (py_str (field ''id'' e)) else None, ''alert'',
      opt_str (field ''fingerprint'' e))"

definition manual_key :: "event \<Rightarrow> string option \<times> string \<times> string option" where
  "manual_key e =
     (if ev_incident e
      then (Some (py_str (field ''id'' e)), ''incident'', Some (''incident:'' @ py_str (field ''id'' e)))
      else alert_key e)"

definition handle_manual_event_workflow ::
  "sched_env \<Rightarrow> string \<Rightarrow> int \<Rightarrow> string \<Rightarrow> string \<Rightarrow> nat \<Rightarrow> workflow option \<Rightarrow> bool \<Rightarrow> pydict
     \<Rightarrow> sched \<Rightarrow> string result \<times> sched" where
  "handle_manual_event_workflow env wid revision tenant_id user a w test_run inputs s =
     (case get_unique_execution_number env None None (sc_db s) of (number, db) \<Rightarrow>
        case manual_key (mg_heap (sc_mgr s) ! a) of (event_id, event_type, fingerprint) \<Rightarrow>
        case create_workflow_execution (sv_audit env) (sv_uuid env) (now_of env)
            \<lparr>ca_workflow_id = wid, ca_revision = revision, ca_tenant_id = tenant_id,
             ca_triggered_by = ''manually by '' @ user, ca_number = number, ca_event_id = event_id,
             ca_fingerprint = fingerprint, ca_execution_id = None, ca_event_type = event_type,
             ca_test_run = test_run\<rparr> db of
          (Inl e, db) \<Rightarrow> (Inl e, s\<lparr>sc_db := db\<rparr>)
        | (Inr eid, db) \<Rightarrow>
            (Inr eid, s\<lparr>sc_db := db,
               sc_mgr := enqueue \<lparr>qe_workflow = w, qe_workflow_id = wid, qe_tenant_id = tenant_id,
                   qe_execution_id = Some eid, qe_triggered_by = ''manual'', qe_user = user,
                   qe_event = a, qe_retry = True, qe_inputs = inputs\<rparr>
                 (update_event a (set_field ''trigger'' (PStr ''manual'')) (sc_mgr s))\<rparr>))"

section \<open>Queued events\<close>

definition event_error :: "string \<Rightarrow> exn \<Rightarrow> workflow_status \<times> string" where
  "event_error wid e =
     (if exn_kind e = EProviderConfig
      then (PROVIDERS_NOT_CONFIGURED, ''Providers are not configured for workflow '' @ wid
              @ '', please configure it so Keep will be able to run it'')
      else (ERROR, ''Error getting workflow: '' @ exn_msg e))"

definition event_name :: "event \<Rightarrow> pyval" where
  "event_name e =
     (if \<not> ev_incident e then field ''name'' e
      else if truthy (field ''user_generated_name'' e) then field ''user_generated_name'' e
      else field ''ai_generated_name'' e)"

definition event_label :: "string \<Rightarrow> event \<Rightarrow> string" where
  "event_label kind e =
     ''type:'' @ kind @ '' name:'' @ py_str (event_name e) @ '' id:'' @ py_str (field ''id'' e)"

definition triggered_label :: "queue_entry \<Rightarrow> event \<Rightarrow> string" where
  "triggered_label q e =
     (if qe_triggered_by q = ''manual'' then ''manually by '' @ qe_user q
      else if starts_with ''incident:'' (qe_triggered_by q) then event_label (qe_triggered_by q) e
      else event_label ''alert'' e)"

definition event_key :: "event \<Rightarrow> string option \<times> string \<times> string option" where
  "event_key e =
     (if ev_incident e
      then (Some (py_str (field ''id'' e)), ''incident'', Some (py_str (field ''id'' e)))
      else alert_key e)"

text \<open>Two items collide on the execution number of a workflow that must not run in parallel; a parallel
  one takes a random number.\<close>

definition create_event_execution ::
  "sched_env \<Rightarrow> workflow \<Rightarrow> queue_entry \<Rightarrow> event \<Rightarrow> exec_db \<Rightarrow> string result \<times> exec_db" where
  "create_event_execution env w q e db =
     (case event_key e of (event_id, event_type, fingerprint) \<Rightarrow>
        let execution_id = sv_uuid env (uuid_ctr db); db = db\<lparr>uuid_ctr := Suc (uuid_ctr db)\<rparr>
        in (case (if wk_strategy w = PARALLEL then get_unique_execution_number env None None db
                  else get_unique_execution_number env fingerprint (Some (qe_workflow_id q)) db) of
              (number, db) \<Rightarrow>
                create_workflow_execution (sv_audit env) (sv_uuid env) (now_of env)
                  \<lparr>ca_workflow_id = qe_workflow_id q, ca_revision = wk_revision w,
                   ca_tenant_id = qe_tenant_id q, ca_triggered_by = triggered_label q e,
                   ca_number = number, ca_event_id = event_id, ca_fingerprint = fingerprint,
                   ca_execution_id = Some execution_id, ca_event_type = event_type,
                   ca_test_run = False\<rparr> db))"

definition retry_entry :: "queue_entry \<Rightarrow> event \<Rightarrow> queue_entry" where
  "retry_entry q e =
     \<lparr>qe_workflow = None, qe_workflow_id = qe_workflow_id q, qe_tenant_id = qe_tenant_id q,
      qe_execution_id = qe_execution_id q, qe_triggered_by = triggered_label q e, qe_user = [],
      qe_event = qe_event q, qe_retry = True, qe_inputs = []\<rparr>"

definition handle_collision ::
  "sched_env \<Rightarrow> workflow \<Rightarrow> queue_entry \<Rightarrow> event \<Rightarrow> sched \<Rightarrow> unit result \<times> sched" where
  "handle_collision env w q e s =
     (if wk_strategy w = NONPARALLEL_WITH_RETRY
      then (Inr (), s\<lparr>sc_mgr := enqueue (retry_entry q e) (sc_mgr s)\<rparr>)
      else if wk_strategy w = NONPARALLEL
      then finish_execution env (qe_execution_id q) ERROR
             (Some ''Workflow already running with the same fingerprint'') s
      else (Inr (), s))"

text \<open>A retried item runs with the current enrichments merged into a new event.\<close>

definition refresh_event :: "sched_env \<Rightarrow> queue_entry \<Rightarrow> sched \<Rightarrow> nat result \<times> sched" where
  "refresh_event env q s =
     (let e = mg_heap (sc_mgr s) ! qe_event q
      in if \<not> qe_retry q then (Inr (qe_event q), s)
         else (case refreshed_enrichment env (qe_tenant_id q) (snd (snd (event_key e))) of
                 Inl x \<Rightarrow> (Inl x, s)
               | Inr None \<Rightarrow> (Inr (qe_event q), s)
               | Inr (Some d) \<Rightarrow>
                   (case make_dto env (ev_incident e) (dupdate (ev_fields e) d) of
                      Inl x \<Rightarrow> (Inl x, s)
                    | Inr d' \<Rightarrow>
                        (Inr (length (mg_heap (sc_mgr s))),
                         s\<lparr>sc_mgr := (sc_mgr s)\<lparr>mg_heap := mg_heap (sc_mgr s)
                             @ [\<lparr>ev_incident = ev_incident e, ev_fields = d'\<rparr>]\<rparr>\<rparr>))))"

definition run_entry_now ::
  "sched_env \<Rightarrow> workflow \<Rightarrow> queue_entry \<Rightarrow> string \<Rightarrow> sched \<Rightarrow> unit result \<times> sched" where
  "run_entry_now env w q eid s =
     (case refresh_event env q s of
        (Inl x, s) \<Rightarrow>
          finish_execution env (Some eid) ERROR (Some (''Error getting alert by id: '' @ exn_msg x)) s
      | (Inr a, s) \<Rightarrow>
          (Inr (), submit \<lparr>jb_tenant_id = qe_tenant_id q, jb_workflow_id = qe_workflow_id q,
             jb_workflow = w, jb_execution_id = eid, jb_event = Some a, jb_inputs = qe_inputs q\<rparr> s))"

definition entry_workflow :: "sched_env \<Rightarrow> queue_entry \<Rightarrow> workflow result" where
  "entry_workflow env q =
     (case qe_workflow q of
        Some w \<Rightarrow> Inr w
      | None \<Rightarrow> load_workflow (sv_mgr env) (qe_tenant_id q) (qe_workflow_id q))"

definition handle_event_one :: "sched_env \<Rightarrow> queue_entry \<Rightarrow> sched \<Rightarrow> unit result \<times> sched" where
  "handle_event_one env q s =
     (case entry_workflow env q of
        Inl x \<Rightarrow>
          (case event_error (qe_workflow_id q) x of (status, error) \<Rightarrow>
             finish_execution env (qe_execution_id q) status (Some error) s)
      | Inr w \<Rightarrow>
          if set_str (qe_execution_id q) then run_entry_now env w q (the (qe_execution_id q)) s
          else (let e = mg_heap (sc_mgr s) ! qe_event q
                in (case create_event_execution env w q e (sc_db s) of
                      (Inr eid, db) \<Rightarrow> run_entry_now env w q eid (s\<lparr>sc_db := db\<rparr>)
                    | (Inl x, db) \<Rightarrow>
                        if exn_kind x = EIntegrityError then handle_collision env w q e (s\<lparr>sc_db := db\<rparr>)
                        else (Inr (), s\<lparr>sc_db := db\<rparr>))))"

text \<open>The queue is taken over as a whole and emptied before the first item is handled.\<close>

definition take_queue :: "sched \<Rightarrow> sched" where
  "take_queue s = s\<lparr>sc_mgr := (sc_mgr s)\<lparr>mg_queue := []\<rparr>\<rparr>"

definition handle_event_workflows :: "sched_env \<Rightarrow> sched \<Rightarrow> unit result \<times> sched" where
  "handle_event_workflows env s =
     for_each (handle_event_one env) (mg_queue (sc_mgr s)) (take_queue s)"

section \<open>Timeouts and the main loop\<close>

definition timeout_message :: "bool \<Rightarrow> string" where
  "timeout_message cloud =
     ''Workflow execution timed out. ''
     @ (if cloud then ''Please contact Keep support for help with this issue.''
        else ''Most probably it's caused by worker restart or crash ''
          @ ''during long workflow execution. Check backend logs.'')"

definition timeout_workflows :: "sched_env \<Rightarrow> sched \<Rightarrow> unit result \<times> sched" where
  "timeout_workflows env s =
     for_each (\<lambda>e. finish_execution env (Some (ex_id e)) ERROR (Some (timeout_message (in_cloud_run env))))
       (get_timeouted_workflow_executions (now_of env) (sc_db s)) s"

definition andThen :: "('s \<Rightarrow> unit result \<times> 's) \<Rightarrow> ('s \<Rightarrow> unit result \<times> 's) \<Rightarrow> 's \<Rightarrow> unit result \<times> 's" where
  "andThen f g s = (case f s of (Inl e, s) \<Rightarrow> (Inl e, s) | (Inr _, s) \<Rightarrow> g s)"

text \<open>One round of the loop; the exception that ends a round early is logged and dropped.\<close>

definition scheduler_round :: "sched_env \<Rightarrow> nat \<Rightarrow> sched \<Rightarrow> sched" where
  "scheduler_round env runs s =
     snd (andThen (handle_interval_workflows env)
       (andThen (handle_event_workflows env)
         (\<lambda>s. if runs mod 100 = 0 then timeout_workflows env s else (Inr (), s))) s)"

section \<open>Running a job\<close>

record run_env =
  rn_step :: step_env
  rn_multi_tenant :: bool
  rn_results :: "call list \<Rightarrow> string \<Rightarrow> pyval"
  rn_serialize :: "pyval \<Rightarrow> pyval"

definition job_context :: "sched \<Rightarrow> job \<Rightarrow> ctx \<Rightarrow> ctx" where
  "job_context s j c =
     (let c = (case jb_event j of
                 None \<Rightarrow> set_incident_context PNone c
               | Some a \<Rightarrow>
                   let e = mg_heap (sc_mgr s) ! a
                   in if ev_incident e then set_incident_context (PDict (ev_fields e)) c
                      else set_event_context (PDict (ev_fields e)) c)
      in if jb_inputs j = [] then c else set_inputs (PDict (jb_inputs j)) c)"

definition run_outcome :: "string list option result \<Rightarrow> workflow_status \<times> string option" where
  "run_outcome r =
     (case r of
        Inl e \<Rightarrow> (ERROR, Some (exn_msg e))
      | Inr None \<Rightarrow> (SUCCESS, None)
      | Inr (Some errors) \<Rightarrow>
          if \<exists>x \<in> set errors. x \<noteq> [] then (ERROR, Some (py_join [CHR 0x0A] errors)) else (SUCCESS, None))"

text \<open>\<open>_run_workflow\<close> in a worker thread; \<open>c\<close> is the context manager the workflow was loaded with and
  \<open>calls\<close> what its providers were asked before.\<close>

definition run_job ::
  "sched_env \<Rightarrow> run_env \<Rightarrow> ctx \<Rightarrow> call list \<Rightarrow> job \<Rightarrow> sched \<Rightarrow> unit result \<times> world \<times> sched" where
  "run_job env rn c calls j s =
     (case manager_run_workflow (rn_step rn) (rn_multi_tenant rn) (rn_results rn) (rn_serialize rn)
         (jb_workflow j) (jb_execution_id j) \<lparr>w_ctx = job_context s j c, w_calls = calls\<rparr> (sc_db s) of
        (r, wk, w, db) \<Rightarrow>
          (case run_outcome r of (status, error) \<Rightarrow>
             (case finish_execution env (Some (jb_execution_id j)) status error (s\<lparr>sc_db := db\<rparr>) of
                (x, s) \<Rightarrow> (x, w, s))))"

section \<open>What an operation hands out\<close>

definition queue_ids :: "queue_entry list \<Rightarrow> string list" where
  "queue_ids qs = concat (map (\<lambda>q. case qe_execution_id q of None \<Rightarrow> [] | Some i \<Rightarrow> [i]) qs)"

lemma queue_ids_simps [simp]:
  "queue_ids [] = []"
  "queue_ids (q # qs) = (case qe_execution_id q of None \<Rightarrow> [] | Some i \<Rightarrow> [i]) @ queue_ids qs"
  "queue_ids (qs @ rs) = queue_ids qs @ queue_ids rs"
  by (simp_all add: queue_ids_def)

lemma queue_ids_None: "(\<forall>q \<in> set qs. qe_execution_id q = None) \<Longrightarrow> queue_ids qs = []"
  by (induction qs) auto

text \<open>An operation that is given the execution ids \<open>src\<close> extends jobs and queue, and what it puts
  there is one of them or an execution it created.\<close>

definition hands_out :: "string list \<Rightarrow> sched \<Rightarrow> sched \<Rightarrow> bool" where
  "hands_out src s s' \<longleftrightarrow>
     exec_ids (sc_db s) \<subseteq> exec_ids (sc_db s') \<and> (locks_ok (sc_db s) \<longrightarrow> locks_ok (sc_db s'))
     \<and> (\<exists>js new. sc_jobs s' = sc_jobs s @ js \<and> mg_queue (sc_mgr s') = mg_queue (sc_mgr s) @ new
          \<and> distinct (map jb_execution_id js @ queue_ids new)
          \<and> (\<forall>i \<in> set (map jb_execution_id js @ queue_ids new).
                i \<in> set src \<or> i \<in> exec_ids (sc_db s') - exec_ids (sc_db s)))"

text \<open>The common shape: the table changed, and at most one job or one entry was added.\<close>

lemma hands_out_none:
  assumes "exec_ids (sc_db s) \<subseteq> exec_ids (sc_db s')" "locks_ok (sc_db s) \<Longrightarrow> locks_ok (sc_db s')"
    "sc_jobs s' = sc_jobs s" "mg_queue (sc_mgr s') = mg_queue (sc_mgr s)"
  shows "hands_out src s s'"
  unfolding hands_out_def using assms by (intro conjI exI [of _ "[]"]) auto

lemma hands_out_job:
  assumes "exec_ids (sc_db s) \<subseteq> exec_ids (sc_db s')" "locks_ok (sc_db s) \<Longrightarrow> locks_ok (sc_db s')"
    "sc_jobs s' = sc_jobs s @ [j]" "mg_queue (sc_mgr s') = mg_queue (sc_mgr s)"
    "jb_execution_id j \<in> set src \<or> jb_execution_id j \<in> exec_ids (sc_db s') - exec_ids (sc_db s)"
  shows "hands_out src s s'"
  unfolding hands_out_def using assms by (intro conjI exI [of _ "[j]"] exI [of _ "[]"]) auto

lemma hands_out_entry:
  assumes "exec_ids (sc_db s) \<subseteq> exec_ids (sc_db s')" "locks_ok (sc_db s) \<Longrightarrow> locks_ok (sc_db s')"
    "sc_jobs s' = sc_jobs s" "mg_queue (sc_mgr s') = mg_queue (sc_mgr s) @ [q]"
    "\<And>i. qe_execution_id q = Some i \<Longrightarrow> i \<in> set src \<or> i \<in> exec_ids (sc_db s') - exec_ids (sc_db s)"
  shows "hands_out src s s'"
  unfolding hands_out_def using assms
  by (intro conjI exI [of _ "[]"] exI [of _ "[q]"]) (auto split: option.splits)

lemma finish_execution_hands_out:
  assumes "finish_execution env eid status error s = (r, s')"
  shows "exec_ids (sc_db s') = exec_ids (sc_db s)" "locks_ok (sc_db s) \<Longrightarrow> locks_ok (sc_db s')"
    "sc_jobs s' = sc_jobs s" "sc_mgr s' = sc_mgr s"
  using assms by (auto simp: finish_execution_def dest: exec_ids_finish intro: finish_locks_ok split: prod.splits)

lemma finish_execution_none:
  "finish_execution env eid status error s = (r, s') \<Longrightarrow> hands_out src s s'"
  by (rule hands_out_none) (simp_all add: finish_execution_hands_out)

lemma handle_interval_one_hands_out:
  assumes "handle_interval_one env en s = (r, s')"
  shows "hands_out [re_execution_id en] s s'"
proof (cases "load_workflow (sv_mgr env) (re_tenant_id en) (re_workflow_id en)")
  case (Inl e)
  with assms show ?thesis
    by (auto simp: handle_interval_one_def intro: finish_execution_none split: prod.splits)
next
  case (Inr w)
  with assms show ?thesis
    by (auto simp: handle_interval_one_def submit_def intro!: hands_out_job)
qed

lemma unique_number_executions:
  "get_unique_execution_number env fp wid db = (n, db') \<Longrightarrow> executions db' = executions db"
  by (auto simp: get_unique_execution_number_def split: if_splits)

lemma locks_ok_executions: "executions d = executions d' \<Longrightarrow> locks_ok d \<longleftrightarrow> locks_ok d'"
  by (simp add: locks_ok_def)

lemma handle_manual_hands_out:
  assumes "handle_manual_event_workflow env wid revision tn user a w test inputs s = (r, s')"
  shows "hands_out [] s s'"
proof -
  obtain n db where n: "get_unique_execution_number env None None (sc_db s) = (n, db)"
    by (cases "get_unique_execution_number env None None (sc_db s)")
  note e = unique_number_executions [OF n]
  obtain k ty fp where k: "manual_key (mg_heap (sc_mgr s) ! a) = (k, ty, fp)"
    by (cases "manual_key (mg_heap (sc_mgr s) ! a)")
  let ?c = "create_workflow_execution (sv_audit env) (sv_uuid env) (now_of env)
      \<lparr>ca_workflow_id = wid, ca_revision = revision, ca_tenant_id = tn,
       ca_triggered_by = ''manually by '' @ user, ca_number = n, ca_event_id = k,
       ca_fingerprint = fp, ca_execution_id = None, ca_event_type = ty, ca_test_run = test\<rparr> db"
  obtain x db' where c: "?c = (x, db')" by (cases ?c)
  have ids: "exec_ids (sc_db s) = exec_ids db" by (simp add: exec_ids_def e)
  have ok: "locks_ok (sc_db s) \<Longrightarrow> locks_ok db'"
    using locks.locked_alloc [OF _ c] locks_ok_executions [OF e] by simp
  show ?thesis
  proof (cases x)
    case (Inl err)
    with assms n k c have "s' = s\<lparr>sc_db := db'\<rparr>" by (simp add: handle_manual_event_workflow_def)
    then show ?thesis using ids ok locks.ids_grow [OF c] by (intro hands_out_none) simp_all
  next
    case (Inr eid)
    with assms n k c show ?thesis
      using ids ok locks.alloc_Inr [OF c [unfolded Inr]]
      by (intro hands_out_entry) (auto simp: handle_manual_event_workflow_def enqueue_def update_event_def)
  qed
qed

lemma create_event_execution_ids:
  assumes "create_event_execution env w q e db = (r, db')"
  shows "r = Inr i \<Longrightarrow> i \<notin> exec_ids db \<and> exec_ids db' = insert i (exec_ids db)"
    and "r = Inl x \<Longrightarrow> executions db' = executions db"
    and "locks_ok db \<Longrightarrow> locks_ok db'"
proof -
  let ?db1 = "db\<lparr>uuid_ctr := Suc (uuid_ctr db)\<rparr>"
  obtain k ty fp where k: "event_key e = (k, ty, fp)" by (cases "event_key e")
  let ?n = "if wk_strategy w = PARALLEL then get_unique_execution_number env None None ?db1
    else get_unique_execution_number env fp (Some (qe_workflow_id q)) ?db1"
  obtain n db2 where n: "?n = (n, db2)" by (cases ?n)
  then have e2: "executions db2 = executions db"
    using unique_number_executions by (auto split: if_splits)
  obtain a where c: "create_workflow_execution (sv_audit env) (sv_uuid env) (now_of env) a db2 = (r, db')"
    using assms k n by (simp add: create_event_execution_def Let_def split: if_splits)
  have i2: "exec_ids db2 = exec_ids db" by (simp add: exec_ids_def e2)
  show "r = Inr i \<Longrightarrow> i \<notin> exec_ids db \<and> exec_ids db' = insert i (exec_ids db)"
    using locks.alloc_Inr [of _ _ _ a db2 i db'] c i2 by simp
  show "r = Inl x \<Longrightarrow> executions db' = executions db"
    using create_Inl c e2 by auto
  show "locks_ok db \<Longrightarrow> locks_ok db'"
    using locks.locked_alloc [OF _ c] locks_ok_executions [OF e2] by simp
qed

lemma refresh_event_frame:
  assumes "refresh_event env q s = (r, s')"
  shows "sc_db s' = sc_db s" "sc_jobs s' = sc_jobs s" "mg_queue (sc_mgr s') = mg_queue (sc_mgr s)"
  using assms by (auto simp: refresh_event_def Let_def split: if_splits sum.splits option.splits)

lemma run_entry_now_hands_out:
  assumes "run_entry_now env w q eid s = (r, s')"
  shows "hands_out [eid] s s'"
proof -
  obtain x s1 where f: "refresh_event env q s = (x, s1)" by (cases "refresh_event env q s")
  note frame = refresh_event_frame [OF f]
  show ?thesis
  proof (cases x)
    case (Inl err)
    with assms f obtain error where "finish_execution env (Some eid) ERROR error s1 = (r, s')"
      by (auto simp: run_entry_now_def)
    note g = finish_execution_hands_out [OF this]
    show ?thesis by (rule hands_out_none) (use g frame in simp_all)
  next
    case (Inr a)
    with assms f frame show ?thesis
      by (intro hands_out_job) (auto simp: run_entry_now_def submit_def)
  qed
qed

lemma hands_out_created:
  assumes "hands_out [eid] (s\<lparr>sc_db := db\<rparr>) s'" "eid \<notin> exec_ids (sc_db s)"
    "exec_ids db = insert eid (exec_ids (sc_db s))" "locks_ok (sc_db s) \<Longrightarrow> locks_ok db"
  shows "hands_out src s s'"
proof -
  from assms(1) obtain js new where a: "exec_ids db \<subseteq> exec_ids (sc_db s')"
    "locks_ok db \<longrightarrow> locks_ok (sc_db s')" "sc_jobs s' = sc_jobs s @ js"
    "mg_queue (sc_mgr s') = mg_queue (sc_mgr s) @ new"
    "distinct (map jb_execution_id js @ queue_ids new)"
    and b: "\<forall>i \<in> set (map jb_execution_id js @ queue_ids new). i \<in> set [eid] \<or> i \<in> exec_ids (sc_db s') - exec_ids db"
    unfolding hands_out_def by (elim exE conjE) (rule that; simp)
  have "\<forall>i \<in> set (map jb_execution_id js @ queue_ids new). i \<in> set src \<or> i \<in> exec_ids (sc_db s') - exec_ids (sc_db s)"
  proof
    fix i assume "i \<in> set (map jb_execution_id js @ queue_ids new)"
    from bspec [OF b this] a(1) assms(2,3) show "i \<in> set src \<or> i \<in> exec_ids (sc_db s') - exec_ids (sc_db s)"
      by auto
  qed
  with a assms(3,4) show ?thesis unfolding hands_out_def by (intro conjI exI) auto
qed

lemma handle_event_one_hands_out:
  assumes h: "handle_event_one env q s = (r, s')"
  shows "hands_out (queue_ids [q]) s s'"
proof (cases "entry_workflow env q")
  case (Inl x)
  with h show ?thesis
    by (auto simp: handle_event_one_def intro: finish_execution_none split: prod.splits)
next
  case (Inr w)
  show ?thesis
  proof (cases "set_str (qe_execution_id q)")
    case True
    then obtain i where i: "qe_execution_id q = Some i" by (auto simp: set_str_def)
    with h Inr True have "run_entry_now env w q i s = (r, s')" by (simp add: handle_event_one_def)
    from run_entry_now_hands_out [OF this] i show ?thesis by simp
  next
    case False
    let ?e = "mg_heap (sc_mgr s) ! qe_event q"
    obtain x db where c: "create_event_execution env w q ?e (sc_db s) = (x, db)"
      by (cases "create_event_execution env w q ?e (sc_db s)")
    note ids = create_event_execution_ids [OF c]
    show ?thesis
    proof (cases x)
      case i: (Inr eid)
      with h Inr False c have "run_entry_now env w q eid (s\<lparr>sc_db := db\<rparr>) = (r, s')"
        by (simp add: handle_event_one_def Let_def)
      from run_entry_now_hands_out [OF this] show ?thesis
        by (rule hands_out_created) (use ids(1) [OF i] ids(3) in simp_all)
    next
      case err: (Inl err)
      let ?s = "s\<lparr>sc_db := db\<rparr>"
      have same: "exec_ids db = exec_ids (sc_db s)" using ids(2) [OF err] by (simp add: exec_ids_def)
      consider "s' = ?s" | "s' = ?s\<lparr>sc_mgr := enqueue (retry_entry q ?e) (sc_mgr s)\<rparr>"
        | error where "finish_execution env (qe_execution_id q) ERROR error ?s = (r, s')"
        using h Inr False c err
        by (auto simp: handle_event_one_def handle_collision_def split: if_splits)
      then show ?thesis
      proof cases
        case 1
        with same ids(3) show ?thesis by (intro hands_out_none) simp_all
      next
        case 2
        with same ids(3) show ?thesis
          by (intro hands_out_entry) (auto simp: enqueue_def retry_entry_def)
      next
        case 3
        note g = finish_execution_hands_out [OF 3]
        show ?thesis by (rule hands_out_none) (use g same ids(3) in simp_all)
      qed
    qed
  qed
qed

lemma run_job_hands_out:
  assumes "run_job env rn c calls j s = (x, w, s')"
  shows "hands_out [] s s'"
proof -
  obtain r wk w1 db where m: "manager_run_workflow (rn_step rn) (rn_multi_tenant rn) (rn_results rn)
      (rn_serialize rn) (jb_workflow j) (jb_execution_id j)
      \<lparr>w_ctx = job_context s j c, w_calls = calls\<rparr> (sc_db s) = (r, wk, w1, db)"
    by (rule prod_cases4)
  obtain error status where "finish_execution env (Some (jb_execution_id j)) status error (s\<lparr>sc_db := db\<rparr>) = (x, s')"
    using assms m by (auto simp: run_job_def split: prod.splits)
  note g = finish_execution_hands_out [OF this]
  have "exec_ids db = exec_ids (sc_db s) \<and> (locks_ok (sc_db s) \<longrightarrow> locks_ok db)"
    using m by (auto simp: manager_run_workflow_def exec_ids_save intro: save_locks_ok
        split: prod.splits sum.splits)
  with g show ?thesis by (intro hands_out_none) simp_all
qed

section \<open>The loop as a step relation\<close>

text \<open>Where the loop stands: before a round, with due interval entries left, or with items of the
  taken queue left.  The other threads (insertions, manual runs, jobs) step in between any two of its
  steps, and every step has an environment of its own.\<close>

datatype loop_pc = Idle | Polled "run_entry list" | Taken "queue_entry list"

inductive sched_step :: "loop_pc \<times> sched \<Rightarrow> loop_pc \<times> sched \<Rightarrow> bool" where
  no_intervals: "\<not> interval_enabled (env :: sched_env) \<Longrightarrow> sched_step (Idle, s) (Polled [], s)"
| poll: "interval_enabled (env :: sched_env) \<Longrightarrow>
     get_workflows_that_should_run (sv_audit env) (sv_uuid env) (sv_clocks env) (me_table (sv_mgr env)) (sc_db s)
       = (es, db) \<Longrightarrow> sched_step (Idle, s) (Polled es, s\<lparr>sc_db := db\<rparr>)"
| interval: "handle_interval_one env en s = (Inr u, s') \<Longrightarrow>
     sched_step (Polled (en # es), s) (Polled es, s')"
| interval_abort: "handle_interval_one env en s = (Inl e, s') \<Longrightarrow>
     sched_step (Polled (en # es), s) (Idle, s')"
| take_over: "sched_step (Polled [], s) (Taken (mg_queue (sc_mgr s)), take_queue s)"
| item: "handle_event_one env q s = (Inr u, s') \<Longrightarrow> sched_step (Taken (q # qs), s) (Taken qs, s')"
| item_abort: "handle_event_one env q s = (Inl e, s') \<Longrightarrow> sched_step (Taken (q # qs), s) (Idle, s')"
| round_done: "sched_step (Taken [], s) (Idle, s)"
| timeouts: "timeout_workflows env s = (r, s') \<Longrightarrow> sched_step (Taken [], s) (Idle, s')"
| alerts: "insert_events menv tn events (sc_mgr s) = (r, m) \<Longrightarrow>
     sched_step (pc, s) (pc, s\<lparr>sc_mgr := m\<rparr>)"
| incident: "insert_incident menv tn a trigger (sc_mgr s) = (r, m) \<Longrightarrow>
     sched_step (pc, s) (pc, s\<lparr>sc_mgr := m\<rparr>)"
| new_event: "sched_step (pc, s) (pc, s\<lparr>sc_mgr := (sc_mgr s)\<lparr>mg_heap := mg_heap (sc_mgr s) @ [e]\<rparr>\<rparr>)"
| manual: "handle_manual_event_workflow env wid revision tn user a w test inputs s = (r, s') \<Longrightarrow>
     sched_step (pc, s) (pc, s')"
| run: "run_job env rn c calls j s = (x, w, s') \<Longrightarrow> sched_step (pc, s) (pc, s')"

inductive_cases sched_step_TakenE: "sched_step (Taken qs, s) (pc, s')"

inductive sched_reach :: "loop_pc \<times> sched \<Rightarrow> bool" where
  start: "executions (sc_db s) = [] \<Longrightarrow> mg_queue (sc_mgr s) = [] \<Longrightarrow> sc_jobs s = [] \<Longrightarrow>
     sched_reach (Idle, s)"
| step: "sched_reach x \<Longrightarrow> sched_step x y \<Longrightarrow> sched_reach y"

text \<open>The execution ids in use: of jobs, of what the loop still has to handle, of queued entries.\<close>

fun pc_ids :: "loop_pc \<Rightarrow> string list" where
  "pc_ids Idle = []"
| "pc_ids (Polled es) = map re_execution_id es"
| "pc_ids (Taken qs) = queue_ids qs"

definition held_ok :: "string list \<Rightarrow> sched \<Rightarrow> bool" where
  "held_ok rest s \<longleftrightarrow>
     locks_ok (sc_db s)
     \<and> distinct (map jb_execution_id (sc_jobs s) @ rest @ queue_ids (mg_queue (sc_mgr s)))
     \<and> set (map jb_execution_id (sc_jobs s) @ rest @ queue_ids (mg_queue (sc_mgr s))) \<subseteq> exec_ids (sc_db s)"

lemma distinct_handed:
  assumes "distinct (J @ (S @ R) @ Q)" "set (J @ (S @ R) @ Q) \<subseteq> E" "E \<subseteq> E'" "distinct (N @ M)"
    and "\<forall>i \<in> set (N @ M). i \<in> set S \<or> i \<in> E' - E"
  shows "distinct ((J @ N) @ R @ Q @ M)" "set ((J @ N) @ R @ Q @ M) \<subseteq> E'"
proof -
  have out: "i \<notin> set J" "i \<notin> set R" "i \<notin> set Q" "i \<in> E'" if "i \<in> set N \<union> set M" for i
    using bspec [OF assms(5), of i] that assms(1-3) by auto
  then have "set J \<inter> (set N \<union> set M) = {}" "set R \<inter> (set N \<union> set M) = {}" "set Q \<inter> (set N \<union> set M) = {}"
    "set N \<union> set M \<subseteq> E'" by blast+
  then show "distinct ((J @ N) @ R @ Q @ M)" "set ((J @ N) @ R @ Q @ M) \<subseteq> E'"
    using assms(1-4) by auto
qed

lemma distinct_inserted:
  assumes "distinct (J @ Q)" "set (J @ Q) \<subseteq> E" "distinct S" "set S \<inter> E = {}" "set S \<subseteq> E'" "E \<subseteq> E'"
  shows "distinct (J @ S @ Q) \<and> set (J @ S @ Q) \<subseteq> E'"
  using assms by auto

lemma held_ok_hands_out:
  assumes "held_ok (src @ rest) s" "hands_out src s s'"
  shows "held_ok rest s'"
proof -
  from assms(2) obtain js new where a: "exec_ids (sc_db s) \<subseteq> exec_ids (sc_db s')"
    "locks_ok (sc_db s) \<longrightarrow> locks_ok (sc_db s')" "sc_jobs s' = sc_jobs s @ js"
    "mg_queue (sc_mgr s') = mg_queue (sc_mgr s) @ new"
    "distinct (map jb_execution_id js @ queue_ids new)"
    "\<forall>i \<in> set (map jb_execution_id js @ queue_ids new). i \<in> set src \<or> i \<in> exec_ids (sc_db s') - exec_ids (sc_db s)"
    unfolding hands_out_def by (elim exE conjE) (rule that; assumption)
  from assms(1) have d: "distinct (map jb_execution_id (sc_jobs s) @ (src @ rest) @ queue_ids (mg_queue (sc_mgr s)))"
    "set (map jb_execution_id (sc_jobs s) @ (src @ rest) @ queue_ids (mg_queue (sc_mgr s))) \<subseteq> exec_ids (sc_db s)"
    and l: "locks_ok (sc_db s)"
    unfolding held_ok_def by simp_all
  from distinct_handed [OF d a(1,5,6)] l a(2) show ?thesis
    unfolding held_ok_def a(3,4) map_append queue_ids_simps by (intro conjI) simp_all
qed

lemma held_ok_shrink: "held_ok (src @ rest) s \<Longrightarrow> held_ok rest s"
  unfolding held_ok_def by auto

lemma held_ok_drop: "held_ok rest s \<Longrightarrow> held_ok [] s"
  using held_ok_shrink [of rest "[]"] by simp

text \<open>Insertions only add entries without an execution id.\<close>

lemma held_ok_insertion: "held_ok rest s \<Longrightarrow> queues_new (sc_mgr s) m \<Longrightarrow> held_ok rest (s\<lparr>sc_mgr := m\<rparr>)"
  by (auto simp: held_ok_def queues_new_def queue_ids_None)

lemma timeouts_hands_out:
  assumes "timeout_workflows env s = (r, s')" shows "hands_out [] s s'"
  using assms unfolding timeout_workflows_def
proof (rule for_each_induct [where R = "\<lambda>s s'. hands_out [] s s' \<and> sc_jobs s' = sc_jobs s
      \<and> mg_queue (sc_mgr s') = mg_queue (sc_mgr s)", THEN conjunct1])
  show "hands_out [] s s \<and> sc_jobs s = sc_jobs s \<and> mg_queue (sc_mgr s) = mg_queue (sc_mgr s)"
    by (simp add: hands_out_none)
next
  fix e a b r'
  assume a: "hands_out [] s a \<and> sc_jobs a = sc_jobs s \<and> mg_queue (sc_mgr a) = mg_queue (sc_mgr s)"
    and f: "finish_execution env (Some (ex_id e)) ERROR (Some (timeout_message (in_cloud_run env))) a = (r', b)"
  note g = finish_execution_hands_out [OF f]
  have "hands_out [] s b"
    by (rule hands_out_none) (use g a in \<open>auto simp: hands_out_def\<close>)
  with a g show "hands_out [] s b \<and> sc_jobs b = sc_jobs s \<and> mg_queue (sc_mgr b) = mg_queue (sc_mgr s)"
    by simp
qed

lemma held_ok_poll:
  assumes "held_ok [] s" and "get_workflows_that_should_run audit uuid c t (sc_db s) = (es, db)"
  shows "held_ok (map re_execution_id es) (s\<lparr>sc_db := db\<rparr>)"
proof -
  note f = poll_fresh [OF assms(2)]
  have "locks_ok db"
    using assms should_run_loop_locks_ok [of "sc_db s"]
    by (metis get_workflows_that_should_run_def held_ok_def snd_conv)
  moreover from assms(1) have "distinct (map jb_execution_id (sc_jobs s) @ queue_ids (mg_queue (sc_mgr s)))"
    "set (map jb_execution_id (sc_jobs s) @ queue_ids (mg_queue (sc_mgr s))) \<subseteq> exec_ids (sc_db s)"
    by (simp_all add: held_ok_def)
  from distinct_inserted [OF this, of "map re_execution_id es" "exec_ids db"] f
  have "distinct (map jb_execution_id (sc_jobs s) @ map re_execution_id es @ queue_ids (mg_queue (sc_mgr s)))
    \<and> set (map jb_execution_id (sc_jobs s) @ map re_execution_id es @ queue_ids (mg_queue (sc_mgr s))) \<subseteq> exec_ids db"
    by (simp add: exec_ids_def)
  ultimately show ?thesis by (simp add: held_ok_def)
qed

lemma sched_step_held_ok:
  assumes "sched_step (pc, s) (pc', s')" "held_ok (pc_ids pc) s"
  shows "held_ok (pc_ids pc') s'"
  using assms
proof (cases rule: sched_step.cases)
  case (poll env es db)
  with assms(2) held_ok_poll show ?thesis by simp
next
  case (interval env en u es)
  with assms(2) held_ok_hands_out [OF _ handle_interval_one_hands_out, of en "map re_execution_id es" s env]
  show ?thesis by simp
next
  case (interval_abort env en e es)
  with assms(2) held_ok_hands_out [OF _ handle_interval_one_hands_out, of en "map re_execution_id es" s env]
  show ?thesis by (simp add: held_ok_drop)
next
  case (take_over)
  with assms(2) show ?thesis by (simp add: held_ok_def take_queue_def)
next
  case (item env q u qs)
  with assms(2) held_ok_hands_out [OF _ handle_event_one_hands_out, of q "queue_ids qs" s env]
  show ?thesis by simp
next
  case (item_abort env q e qs)
  with assms(2) held_ok_hands_out [OF _ handle_event_one_hands_out, of q "queue_ids qs" s env]
  show ?thesis by (simp add: held_ok_drop)
next
  case (timeouts env r)
  with assms(2) held_ok_hands_out [OF _ timeouts_hands_out, of "[]" s env] show ?thesis by simp
next
  case (alerts menv tn events r m)
  with assms(2) show ?thesis by (simp add: held_ok_insertion insert_events_new)
next
  case (incident menv tn a trigger r m)
  with assms(2) show ?thesis by (simp add: held_ok_insertion insert_incident_new)
next
  case (manual env wid revision tn user a w test inputs r)
  with assms(2) held_ok_hands_out [OF _ handle_manual_hands_out] show ?thesis by simp
next
  case (run env rn c calls j x w)
  with assms(2) held_ok_hands_out [OF _ run_job_hands_out] show ?thesis by simp
qed (auto simp: held_ok_def)

lemma sched_reach_held_ok: "sched_reach x \<Longrightarrow> held_ok (pc_ids (fst x)) (snd x)"
proof (induction rule: sched_reach.induct)
  case (start s)
  then show ?case by (simp add: held_ok_def locks_ok_def)
next
  case (step x y)
  then show ?case using sched_step_held_ok [of "fst x" "snd x" "fst y" "snd y"] by simp
qed

section \<open>Rounds and collisions\<close>

lemma for_each_steps:
  assumes "\<And>x xs s u s'. f x s = (Inr u, s') \<Longrightarrow> R (P (x # xs), s) (P xs, s')"
    and "\<And>x xs s e s'. f x s = (Inl e, s') \<Longrightarrow> R (P (x # xs), s) (q, s')"
  shows "for_each f xs s = (r, s') \<Longrightarrow> R\<^sup>*\<^sup>* (P xs, s) (case r of Inl _ \<Rightarrow> q | Inr _ \<Rightarrow> P [], s')"
proof (induction xs arbitrary: s)
  case (Cons x xs)
  obtain r1 s1 where f: "f x s = (r1, s1)" by (cases "f x s")
  show ?case
  proof (cases r1)
    case (Inl e)
    with Cons.prems f have "r = Inl e" "s' = s1" by simp_all
    with assms(2) [OF f [unfolded Inl]] show ?thesis by auto
  next
    case (Inr u)
    with Cons.prems f have "for_each f xs s1 = (r, s')" by simp
    from Cons.IH [OF this] assms(1) [OF f [unfolded Inr]] show ?thesis
      by (meson converse_rtranclp_into_rtranclp)
  qed
qed auto

lemma interval_steps:
  "for_each (handle_interval_one env) es s = (r, s') \<Longrightarrow>
     sched_step\<^sup>*\<^sup>* (Polled es, s) (case r of Inl _ \<Rightarrow> Idle | Inr _ \<Rightarrow> Polled [], s')"
  by (rule for_each_steps) (erule sched_step.interval sched_step.interval_abort)+

lemma item_steps:
  "for_each (handle_event_one env) qs s = (r, s') \<Longrightarrow>
     sched_step\<^sup>*\<^sup>* (Taken qs, s) (case r of Inl _ \<Rightarrow> Idle | Inr _ \<Rightarrow> Taken [], s')"
  by (rule for_each_steps) (erule sched_step.item sched_step.item_abort)+

lemma interval_phase:
  assumes "handle_interval_workflows env s = (r, s')"
  shows "sched_step\<^sup>*\<^sup>* (Idle, s) (case r of Inl _ \<Rightarrow> Idle | Inr _ \<Rightarrow> Polled [], s')"
proof (cases "interval_enabled env")
  case False
  with assms have "r = Inr ()" "s' = s" by (simp_all add: handle_interval_workflows_def)
  with sched_step.no_intervals [OF False, of s] show ?thesis by simp
next
  case True
  obtain es db where p: "get_workflows_that_should_run (sv_audit env) (sv_uuid env) (sv_clocks env)
      (me_table (sv_mgr env)) (sc_db s) = (es, db)"
    by (rule that) (rule prod.collapse [symmetric])
  with assms True have "for_each (handle_interval_one env) es (s\<lparr>sc_db := db\<rparr>) = (r, s')"
    by (simp add: handle_interval_workflows_def)
  from interval_steps [OF this] sched_step.poll [OF True p] show ?thesis
    by (meson converse_rtranclp_into_rtranclp)
qed

lemma event_phase:
  assumes "handle_event_workflows env s = (r, s')"
  shows "sched_step\<^sup>*\<^sup>* (Polled [], s) (case r of Inl _ \<Rightarrow> Idle | Inr _ \<Rightarrow> Taken [], s')"
  using item_steps [OF assms [unfolded handle_event_workflows_def]] sched_step.take_over
  by (meson converse_rtranclp_into_rtranclp)

text \<open>A colliding item that may not be retried.\<close>

lemma collision_without_retry:
  assumes "entry_workflow env q = Inr w" "wk_strategy w = NONPARALLEL" "qe_execution_id q = None"
    and "create_event_execution env w q (mg_heap (sc_mgr s) ! qe_event q) (sc_db s) = (Inl x, db)"
    and "exn_kind x = EIntegrityError"
  shows "handle_event_one env q s = (Inl (Exn EValueError ''Execution not found''), s\<lparr>sc_db := db\<rparr>)"
proof -
  have "NONPARALLEL \<noteq> NONPARALLEL_WITH_RETRY" by (simp add: NONPARALLEL_def NONPARALLEL_WITH_RETRY_def)
  moreover have "find (\<lambda>e. False) es = None" for es :: "wf_execution list" by (induction es) simp_all
  ultimately show ?thesis using assms
    by (simp add: handle_event_one_def handle_collision_def set_str_def finish_execution_def
        finish_workflow_execution_def)
qed

lemma collision_with_retry:
  assumes "entry_workflow env q = Inr w" "wk_strategy w = NONPARALLEL_WITH_RETRY" "qe_execution_id q = None"
    and "create_event_execution env w q (mg_heap (sc_mgr s) ! qe_event q) (sc_db s) = (Inl x, db)"
    and "exn_kind x = EIntegrityError"
  shows "handle_event_one env q s = (Inr (),
    s\<lparr>sc_db := db, sc_mgr := enqueue (retry_entry q (mg_heap (sc_mgr s) ! qe_event q)) (sc_mgr s)\<rparr>)"
  using assms by (simp add: handle_event_one_def handle_collision_def set_str_def)

text \<open>No execution of the workflow holds a lock of the current slot.\<close>

definition slot_free :: "sched_env \<Rightarrow> string \<Rightarrow> exec_db \<Rightarrow> bool" where
  "slot_free env wid db \<longleftrightarrow>
     list_all (\<lambda>e. ex_workflow_id e = wid \<and> ex_is_running e = 1 \<longrightarrow> ex_timeslot e \<noteq> timeslot_of (now_of env))
       (executions db)"

definition fresh_uuid :: "sched_env \<Rightarrow> exec_db \<Rightarrow> bool" where
  "fresh_uuid env db \<longleftrightarrow> sv_uuid env (uuid_ctr db) \<noteq> [] \<and> sv_uuid env (uuid_ctr db) \<notin> exec_ids db"

lemma create_in_free_slot:
  assumes "slot_free env (qe_workflow_id q) db" "fresh_uuid env db"
  shows "\<exists>db' row. create_event_execution env w q e db = (Inr (sv_uuid env (uuid_ctr db)), db')
    \<and> executions db' = executions db @ [row] \<and> ex_id row = sv_uuid env (uuid_ctr db)
    \<and> ex_workflow_id row = qe_workflow_id q \<and> ex_triggered_by row = take 255 (triggered_label q e)"
proof -
  let ?db1 = "db\<lparr>uuid_ctr := Suc (uuid_ctr db)\<rparr>"
  let ?id = "sv_uuid env (uuid_ctr db)"
  obtain k ty fp where k: "event_key e = (k, ty, fp)" by (cases "event_key e")
  let ?n = "if wk_strategy w = PARALLEL then get_unique_execution_number env None None ?db1
    else get_unique_execution_number env fp (Some (qe_workflow_id q)) ?db1"
  obtain n db2 where n: "?n = (n, db2)" by (cases ?n)
  then have e2: "executions db2 = executions db"
    using unique_number_executions by (auto split: if_splits)
  let ?a = "\<lparr>ca_workflow_id = qe_workflow_id q, ca_revision = wk_revision w,
     ca_tenant_id = qe_tenant_id q, ca_triggered_by = triggered_label q e, ca_number = n, ca_event_id = k,
     ca_fingerprint = fp, ca_execution_id = Some ?id, ca_event_type = ty, ca_test_run = False\<rparr>"
  let ?row = "created_row (now_of env) ?id ?a"
  have id: "created_id (sv_uuid env) ?a db2 = ?id"
    using assms(2) by (simp add: created_id_def set_str_def fresh_uuid_def)
  have "\<not> conflicts ?row (executions db2)"
    using assms by (auto simp: conflicts_def created_row_def lock_key_def e2 slot_free_def list_all_iff
        fresh_uuid_def exec_ids_def)
  then have "\<exists>db'. create_workflow_execution (sv_audit env) (sv_uuid env) (now_of env) ?a db2 = (Inr ?id, db')"
    using assms(2) unfolding create_workflow_execution_def id Let_def
    by (simp add: set_str_def fresh_uuid_def)
  then obtain db' where "create_workflow_execution (sv_audit env) (sv_uuid env) (now_of env) ?a db2 = (Inr ?id, db')" ..
  moreover from create_Inr [OF this] e2 have "executions db' = executions db @ [?row]" by simp
  ultimately show ?thesis using k n
    by (intro exI [of _ db'] exI [of _ ?row]) (simp add: create_event_execution_def Let_def created_row_def)
qed

section \<open>The end of a job\<close>

lemma finish_execution_row:
  assumes "finish_execution env (Some eid) status error s = (Inr (), s')"
  shows "\<exists>e \<in> set (executions (sc_db s)). ex_id e = eid
    \<and> sc_db s' = replace_execution (finished_row (now_of env) (sv_random env (sc_db s)) (status_value status) error e)
        (sc_db s)"
proof -
  let ?P = "\<lambda>e. Some (ex_id e) = Some eid"
  show ?thesis
  proof (cases "find ?P (executions (sc_db s))")
    case None
    with assms show ?thesis by (simp add: finish_execution_def finish_workflow_execution_def)
  next
    case (Some e)
    with find_in_set [OF Some] assms show ?thesis
      by (intro bexI [of _ e])
        (auto simp: finish_execution_def finish_workflow_execution_def Let_def split: if_splits)
  qed
qed

lemma replace_execution_mem:
  "e \<in> set (executions db) \<Longrightarrow> ex_id x = ex_id e \<Longrightarrow> x \<in> set (executions (replace_execution x db))"
  by (auto simp: replace_execution_def image_iff)

section \<open>Properties\<close>

text \<open>C27: an execution is handed to the thread pool at most once.  In every state the loop and the
  other threads can reach, in whatever order they step, the jobs have pairwise different execution
  ids, each is a row of the table, none of them is also still waiting in the queue or in the loop's
  hands, and the table's locks exclude one another.\<close>

theorem executions_submitted_once:
  assumes "sched_reach (pc, s)"
  shows "distinct (map jb_execution_id (sc_jobs s))
    \<and> jb_execution_id ` set (sc_jobs s) \<subseteq> exec_ids (sc_db s)
    \<and> jb_execution_id ` set (sc_jobs s) \<inter> (set (pc_ids pc) \<union> set (queue_ids (mg_queue (sc_mgr s)))) = {}
    \<and> locks_ok (sc_db s)"
  using sched_reach_held_ok [OF assms] by (auto simp: held_ok_def)


text \<open>A collision without retry ends the whole batch.  When an item of a nonparallel workflow
  finds its lock taken, the code finishes an execution that was never created; the exception leaves
  the loop, the items after it are neither run nor queued again, and no timeout check follows.\<close>

theorem collision_drops_batch:
  assumes "mg_queue (sc_mgr s) = handled @ q # rest"
    and "for_each (handle_event_one env) handled (take_queue s) = (Inr (), s1)"
    and "entry_workflow env q = Inr w" and "wk_strategy w = NONPARALLEL" and "qe_execution_id q = None"
    and "create_event_execution env w q (mg_heap (sc_mgr s1) ! qe_event q) (sc_db s1) = (Inl x, db)"
    and "exn_kind x = EIntegrityError"
  shows "handle_event_workflows env s = (Inl (Exn EValueError ''Execution not found''), s1\<lparr>sc_db := db\<rparr>)
    \<and> executions db = executions (sc_db s1)"
  using collision_without_retry [OF assms(3-7)] create_event_execution_ids(2) [OF assms(6)] assms(1,2)
  by (simp add: handle_event_workflows_def for_each_append)


text \<open>C31: what the table says after a job.  When a job's end could be recorded, its row has the random
  \<open>is_running\<close> value, and the status \<open>error\<close> with the truncated text exactly when the run raised
  or an action's error is not empty, \<open>success\<close> without a text otherwise; all other rows are those
  the run left.\<close>

theorem job_outcome_recorded:
  assumes "manager_run_workflow (rn_step rn) (rn_multi_tenant rn) (rn_results rn) (rn_serialize rn)
      (jb_workflow j) (jb_execution_id j) \<lparr>w_ctx = job_context s j c, w_calls = calls\<rparr> (sc_db s) = (r, wk, w', db)"
    and "run_job env rn c calls j s = (Inr (), w, s')"
  shows "(\<exists>e \<in> set (executions (sc_db s')). ex_id e = jb_execution_id j \<and> ex_is_running e = sv_random env db
        \<and> ex_status e = (if (\<exists>x. r = Inl x) \<or> (\<exists>errors. r = Inr (Some errors) \<and> (\<exists>x \<in> set errors. x \<noteq> []))
             then ''error'' else ''success'')
        \<and> (ex_status e = ''success'' \<longrightarrow> ex_error e = None))
    \<and> filter (\<lambda>e. ex_id e \<noteq> jb_execution_id j) (executions (sc_db s'))
        = filter (\<lambda>e. ex_id e \<noteq> jb_execution_id j) (executions db)"
proof -
  obtain status error where o: "run_outcome r = (status, error)" by (cases "run_outcome r")
  have f: "finish_execution env (Some (jb_execution_id j)) status error (s\<lparr>sc_db := db\<rparr>) = (Inr (), s')"
    using assms o by (auto simp: run_job_def split: prod.splits)
  from finish_execution_row [OF f] obtain e where e: "e \<in> set (executions db)" "ex_id e = jb_execution_id j"
    "sc_db s' = replace_execution (finished_row (now_of env) (sv_random env db) (status_value status) error e) db"
    by auto
  let ?e = "finished_row (now_of env) (sv_random env db) (status_value status) error e"
  have id: "ex_id ?e = ex_id e" by (simp add: finished_row_def)
  have st: "status_value status = (if (\<exists>x. r = Inl x) \<or> (\<exists>errors. r = Inr (Some errors) \<and> (\<exists>x \<in> set errors. x \<noteq> []))
      then ''error'' else ''success'')" "status = SUCCESS \<longrightarrow> error = None" "status_value status = ''success'' \<longleftrightarrow> status = SUCCESS"
    using o by (auto simp: run_outcome_def split: sum.splits option.splits if_splits)
  have "filter (\<lambda>x. ex_id x \<noteq> ex_id e) (map (\<lambda>x. if ex_id x = ex_id e then ?e else x) xs)
      = filter (\<lambda>x. ex_id x \<noteq> ex_id e) xs" for xs
    using id by (induction xs) simp_all
  then have "filter (\<lambda>x. ex_id x \<noteq> jb_execution_id j) (executions (sc_db s'))
      = filter (\<lambda>x. ex_id x \<noteq> jb_execution_id j) (executions db)"
    by (simp add: e(3) replace_execution_def id e(2) [symmetric])
  moreover have "?e \<in> set (executions (sc_db s'))"
    unfolding e(3) using e(1) id by (rule replace_execution_mem)
  ultimately show ?thesis
    using st e(2) id by (intro conjI bexI [of _ ?e]) (simp_all add: finished_row_def set_str_def)
qed

section \<open>Witnesses\<close>

definition demo_sched_env :: "int \<Rightarrow> sched_env" where
  "demo_sched_env now = \<lparr>sv_mgr = demo_mgr_env, sv_audit = True, sv_uuid = (\<lambda>n. replicate (Suc n) (CHR ''x'')),
     sv_clocks = \<lparr>utc_now = now, local_now = now\<rparr>, sv_random = (\<lambda>db. 5), sha256 = length,
     refreshed_enrichment = (\<lambda>tn fp. Inr None), make_dto = (\<lambda>inc d. Inr d),
     interval_enabled = False, in_cloud_run = False\<rparr>"

definition demo_start :: sched where
  "demo_start = \<lparr>sc_mgr = demo_mgr, sc_db = empty_db, sc_jobs = []\<rparr>"

definition demo_manual :: sched where
  "demo_manual = snd (handle_manual_event_workflow (demo_sched_env 0) ''w'' 1 ''t'' ''bob'' 0
     (Some demo_workflow) False [] demo_start)"

definition demo_taken :: sched where
  "demo_taken = snd (handle_event_one (demo_sched_env 0) (hd (mg_queue (sc_mgr demo_manual)))
     (take_queue demo_manual))"

lemma demo_taken_reach: "sched_reach (Taken [], demo_taken)"
proof -
  have "sched_reach (Idle, demo_start)"
    by (rule sched_reach.start) (simp_all add: demo_start_def demo_mgr_def empty_db_def)
  then have "sched_reach (Idle, demo_manual)"
    by (rule sched_reach.step) (simp add: demo_manual_def sched_step.manual [OF prod.collapse [symmetric]])
  moreover have "\<not> interval_enabled (demo_sched_env 0)" by (simp add: demo_sched_env_def)
  ultimately have "sched_reach (Polled [], demo_manual)"
    using sched_step.no_intervals by (blast intro: sched_reach.step)
  then have t: "sched_reach (Taken (mg_queue (sc_mgr demo_manual)), take_queue demo_manual)"
    by (rule sched_reach.step) (rule sched_step.take_over)
  obtain q where q: "mg_queue (sc_mgr demo_manual) = [q]"
  proof -
    have "length (mg_queue (sc_mgr demo_manual)) = 1" by code_simp
    then show ?thesis using that by (auto simp: length_Suc_conv)
  qed
  have "fst (handle_event_one (demo_sched_env 0) (hd (mg_queue (sc_mgr demo_manual))) (take_queue demo_manual)) = Inr ()"
    by code_simp
  then have "handle_event_one (demo_sched_env 0) q (take_queue demo_manual) = (Inr (), demo_taken)"
    by (simp add: demo_taken_def q prod_eq_iff)
  from sched_step.item [OF this] t q show ?thesis by (metis sched_reach.step)
qed

theorem executions_submitted_once_witness:
  "distinct (map jb_execution_id (sc_jobs demo_taken)) \<and> length (sc_jobs demo_taken) = 1 \<and> locks_ok (sc_db demo_taken)"
proof -
  have "length (sc_jobs demo_taken) = 1" by code_simp
  with executions_submitted_once [OF demo_taken_reach] show ?thesis by simp
qed

text \<open>An item whose lock an earlier execution holds, followed by another one.\<close>

definition demo_item :: "string \<Rightarrow> queue_entry" where
  "demo_item strategy = event_entry (demo_workflow\<lparr>wk_strategy := strategy\<rparr>) ''w'' ''t'' ''alert'' 0"

definition demo_locked :: exec_db where
  "demo_locked = snd (create_event_execution (demo_sched_env 0) demo_workflow (demo_item NONPARALLEL)
     (mg_heap demo_mgr ! 0) empty_db)"

definition demo_busy :: "queue_entry list \<Rightarrow> sched" where
  "demo_busy qs = \<lparr>sc_mgr = demo_mgr\<lparr>mg_queue := qs\<rparr>, sc_db = demo_locked, sc_jobs = []\<rparr>"

lemma demo_collides:
  assumes "strategy \<noteq> PARALLEL"
  shows "\<exists>x db. create_event_execution (demo_sched_env 0) (demo_workflow\<lparr>wk_strategy := strategy\<rparr>)
      (demo_item strategy) (mg_heap demo_mgr ! 0) demo_locked = (Inl x, db) \<and> exn_kind x = EIntegrityError"
  using assms
  by (simp add: create_event_execution_def demo_locked_def demo_item_def demo_mgr_def event_entry_def
      event_key_def alert_key_def field_def dict_get_def dget_Cons opt_str_def py_str_def
      get_unique_execution_number_def set_str_def hash_number_def demo_sched_env_def empty_db_def
      create_workflow_execution_def created_id_def conflicts_def created_row_def lock_key_def now_of_def
      demo_workflow_def NONPARALLEL_WITH_RETRY_def PARALLEL_def MAX_SIZE_SIGNED_INT_def Let_def)

theorem collision_drops_batch_witness:
  "\<exists>s'. handle_event_workflows (demo_sched_env 0) (demo_busy [demo_item NONPARALLEL, demo_item PARALLEL])
      = (Inl (Exn EValueError ''Execution not found''), s') \<and> sc_jobs s' = [] \<and> mg_queue (sc_mgr s') = []"
proof -
  let ?s = "demo_busy [demo_item NONPARALLEL, demo_item PARALLEL]"
  have "NONPARALLEL \<noteq> PARALLEL" by (simp add: NONPARALLEL_def PARALLEL_def)
  from demo_collides [OF this] obtain x db where c: "create_event_execution (demo_sched_env 0)
      (demo_workflow\<lparr>wk_strategy := NONPARALLEL\<rparr>) (demo_item NONPARALLEL) (mg_heap demo_mgr ! 0) demo_locked = (Inl x, db)"
    "exn_kind x = EIntegrityError" by blast
  have "handle_event_workflows (demo_sched_env 0) ?s
      = (Inl (Exn EValueError ''Execution not found''), (take_queue ?s)\<lparr>sc_db := db\<rparr>)"
    by (rule collision_drops_batch [where handled = "[]" and q = "demo_item NONPARALLEL" and x = x
          and w = "demo_workflow\<lparr>wk_strategy := NONPARALLEL\<rparr>", THEN conjunct1])
      (use c in \<open>simp_all add: demo_busy_def demo_item_def event_entry_def entry_workflow_def take_queue_def\<close>)
  then show ?thesis by (simp add: take_queue_def demo_busy_def)
qed


definition demo_run_env :: run_env where
  "demo_run_env = \<lparr>rn_step = demo_step_env, rn_multi_tenant = False, rn_results = (\<lambda>cs sid. PNone),
     rn_serialize = (\<lambda>v. v)\<rparr>"

definition demo_job :: job where
  "demo_job = \<lparr>jb_tenant_id = ''t'', jb_workflow_id = ''w'', jb_workflow = demo_workflow,
     jb_execution_id = ''x'', jb_event = Some 0, jb_inputs = []\<rparr>"

theorem job_outcome_recorded_witness:
  "\<exists>s' w. run_job (demo_sched_env 1) demo_run_env (w_ctx demo_world) [] demo_job (demo_busy []) = (Inr (), w, s')
     \<and> (\<exists>e \<in> set (executions (sc_db s')). ex_id e = ''x'' \<and> ex_status e = ''error'')"
proof -
  let ?m = "manager_run_workflow (rn_step demo_run_env) (rn_multi_tenant demo_run_env) (rn_results demo_run_env)
    (rn_serialize demo_run_env) (jb_workflow demo_job) (jb_execution_id demo_job)
    \<lparr>w_ctx = job_context (demo_busy []) demo_job (w_ctx demo_world), w_calls = []\<rparr> (sc_db (demo_busy []))"
  obtain r wk w db where m: "?m = (r, wk, w, db)" by (rule prod_cases4)
  have "(case fst ?m of Inl x \<Rightarrow> True | Inr y \<Rightarrow> False)" by code_simp
  with m obtain x where r: "r = Inl x" by (cases r) simp_all
  let ?j = "run_job (demo_sched_env 1) demo_run_env (w_ctx demo_world) [] demo_job (demo_busy [])"
  obtain u v s' where j: "?j = (u, v, s')" by (rule prod_cases3)
  have "fst ?j = Inr ()" by code_simp
  with j have "?j = (Inr (), v, s')" by simp
  from job_outcome_recorded [OF m this] r this show ?thesis
    by (auto simp: demo_job_def)
qed

end
