(* ===== verification/NotifyCoalescer.thy ===== *)
theory NotifyCoalescer
  imports PyStrings "HOL-Library.Multiset"
begin

text \<open>
  The notification pool of \<open>src/common/event_management/process_event_task.py\<close>: notifications of
  the same tenant and event that wait for delivery are merged into one, and a drain task per key
  delivers what is pending.  The locked sections are atomic steps; a post is a step of its own, so
  submissions interleave with deliveries.  The pool's queue is a list of tasks.
\<close>

section \<open>Merging payloads\<close>

text \<open>How an item of a list is identified: an alert by its fingerprint, a hashable value by itself
  (\<open>True\<close> and \<open>1\<close> are equal), any other object by its own identity, for which its place in
  the list stands.\<close>

datatype ident = ByFingerprint pyval | ByValue pyval | ByObject nat

definition hash_key :: "pyval \<Rightarrow> pyval" where
  "hash_key v = (case v of PBool b \<Rightarrow> PInt (if b then 1 else 0) | _ \<Rightarrow> v)"

definition hashable :: "pyval \<Rightarrow> bool" where
  "hashable v = (case v of PList _ \<Rightarrow> False | PDict _ \<Rightarrow> False | _ \<Rightarrow> True)"

definition item_ident :: "nat \<Rightarrow> pyval \<Rightarrow> ident result" where
  "item_ident n item =
     (case item of
        PDict d \<Rightarrow>
          (let fingerprint = dict_get d ''fingerprint'' PNone
           in if fingerprint = PNone then Inr (ByObject n)
              else if hashable fingerprint then Inr (ByFingerprint (hash_key fingerprint))
              else Inl (Exn ETypeError ''unhashable type''))
      | _ \<Rightarrow> if hashable item then Inr (ByValue (hash_key item)) else Inr (ByObject n))"

fun number_from :: "nat \<Rightarrow> 'a list \<Rightarrow> (nat \<times> 'a) list" where
  "number_from n [] = []"
| "number_from n (x # xs) = (n, x) # number_from (Suc n) xs"

definition item_idents :: "pyval list \<Rightarrow> ident list result" where
  "item_idents items = rmap (\<lambda>(n, x). item_ident n x) (number_from 0 items)"

fun dedup_loop :: "(ident \<times> pyval) list \<Rightarrow> ident list \<Rightarrow> (ident \<times> pyval) list \<Rightarrow> ident list \<times> (ident \<times> pyval) list" where
  "dedup_loop [] order latest = (order, latest)"
| "dedup_loop ((i, x) # ps) order latest =
     dedup_loop ps (if map_of latest i = None then order @ [i] else order) (AList.update i x latest)"

definition dedup_list :: "pyval list \<Rightarrow> pyval list result" where
  "dedup_list items =
     rbind (item_idents items) (\<lambda>ids.
       (case dedup_loop (zip ids items) [] [] of
          (order, latest) \<Rightarrow> Inr (map (\<lambda>i. the (map_of latest i)) order)))"

fun merge_fields :: "pydict \<Rightarrow> pydict \<Rightarrow> pydict result" where
  "merge_fields merged [] = Inr merged"
| "merge_fields merged ((f, new_val) # fs) =
     (case (dict_get merged f PNone, new_val) of
        (PList old, PList new) \<Rightarrow>
          rbind (dedup_list (old @ new)) (\<lambda>l. merge_fields (dset f (PList l) merged) fs)
      | _ \<Rightarrow> merge_fields (dset f new_val merged) fs)"

definition merge_coalesced_data :: "pyval \<Rightarrow> pyval \<Rightarrow> pyval result" where
  "merge_coalesced_data old_data new_data =
     (case (old_data, new_data) of
        (PDict old, PDict new) \<Rightarrow> rbind (merge_fields old new) (\<lambda>d. Inr (PDict d))
      | _ \<Rightarrow> Inr new_data)"

section \<open>The pool\<close>

type_synonym nkey = "string \<times> string"

datatype task = Drain nkey | Notify string nkey pyval

text \<open>A worker about to look for a pending entry, or about to post one it took.\<close>

datatype worker = Looking nkey | Posting nkey string pyval

record notifier =
  nf_pending :: "(nkey \<times> string \<times> pyval) list"
  nf_scheduled :: "nkey list"
  nf_tasks :: "task list"
  nf_workers :: "worker list"
  nf_posts :: "(string \<times> nkey \<times> pyval) list"

definition submit_notify ::
  "bool \<Rightarrow> nat \<Rightarrow> string \<Rightarrow> string \<Rightarrow> string \<Rightarrow> pyval \<Rightarrow> notifier \<Rightarrow> notifier" where
  "submit_notify coalesce max_pending api_url tenant_id event payload s =
     (let key = (tenant_id, event)
      in if \<not> coalesce then
           (if max_pending \<le> length (nf_tasks s) then s
            else s\<lparr>nf_tasks := nf_tasks s @ [Notify api_url key payload]\<rparr>)
         else if map_of (nf_pending s) key = None \<and> max_pending \<le> length (nf_pending s) then s
         else
           (case (case map_of (nf_pending s) key of
                    None \<Rightarrow> Inr payload
                  | Some (_, old) \<Rightarrow> merge_coalesced_data old payload) of
              Inl _ \<Rightarrow> s
            | Inr merged_data \<Rightarrow>
                let s = s\<lparr>nf_pending := AList.update key (api_url, merged_data) (nf_pending s)\<rparr>
                in if key \<in> set (nf_scheduled s) then s
                   else s\<lparr>nf_scheduled := nf_scheduled s @ [key], nf_tasks := nf_tasks s @ [Drain key]\<rparr>))"

text \<open>A worker takes the first task of the queue; a drain task then looks for its key again and again
  until nothing is pending.\<close>

definition start_task :: "notifier \<Rightarrow> notifier" where
  "start_task s =
     (case nf_tasks s of
        [] \<Rightarrow> s
      | Drain key # ts \<Rightarrow> s\<lparr>nf_tasks := ts, nf_workers := nf_workers s @ [Looking key]\<rparr>
      | Notify api_url key payload # ts \<Rightarrow> s\<lparr>nf_tasks := ts, nf_posts := nf_posts s @ [(api_url, key, payload)]\<rparr>)"

definition drain_look :: "nkey \<Rightarrow> notifier \<Rightarrow> notifier" where
  "drain_look key s =
     (case map_of (nf_pending s) key of
        None \<Rightarrow> s\<lparr>nf_scheduled := removeAll key (nf_scheduled s),
                  nf_workers := remove1 (Looking key) (nf_workers s)\<rparr>
      | Some (api_url, payload) \<Rightarrow>
          s\<lparr>nf_pending := AList.delete key (nf_pending s),
            nf_workers := remove1 (Looking key) (nf_workers s) @ [Posting key api_url payload]\<rparr>)"

definition drain_post :: "nkey \<Rightarrow> string \<Rightarrow> pyval \<Rightarrow> notifier \<Rightarrow> notifier" where
  "drain_post key api_url payload s =
     s\<lparr>nf_posts := nf_posts s @ [(api_url, key, payload)],
       nf_workers := remove1 (Posting key api_url payload) (nf_workers s) @ [Looking key]\<rparr>"

section \<open>Deduplication\<close>

text \<open>The identities of a list in the order of their first occurrence.\<close>

definition first_seen :: "'a list \<Rightarrow> 'a list" where
  "first_seen xs = rev (remdups (rev xs))"

lemma first_seen_Cons: "first_seen (x # xs) = x # filter (\<lambda>y. y \<noteq> x) (first_seen xs)"
proof -
  have "remdups (ys @ [x]) = filter (\<lambda>y. y \<noteq> x) (remdups ys) @ [x]" for ys
    by (induction ys) auto
  then show ?thesis by (simp add: first_seen_def rev_filter)
qed

lemma first_seen_Nil [simp]: "first_seen [] = []"
  by (simp add: first_seen_def)

lemma set_first_seen [simp]: "set (first_seen xs) = set xs"
  by (simp add: first_seen_def)

lemma dedup_loop_eq:
  "set order = fst ` set latest \<Longrightarrow>
     fst (dedup_loop ps order latest) = order @ filter (\<lambda>i. i \<notin> set order) (first_seen (map fst ps))
     \<and> map_of (snd (dedup_loop ps order latest)) = map_of latest ++ map_of (rev ps)"
proof (induction ps order latest rule: dedup_loop.induct)
  case (1 order latest)
  then show ?case by simp
next
  case (2 i x ps order latest)
  let ?o = "if map_of latest i = None then order @ [i] else order"
  let ?l = "AList.update i x latest"
  have n: "map_of latest i = None \<longleftrightarrow> i \<notin> set order" using 2(2) by (simp add: map_of_eq_None_iff)
  have "fst ` set ?l = insert i (fst ` set latest)"
    using dom_update [of i x latest] by (simp add: dom_map_of_conv_image_fst [symmetric])
  then have o: "set ?o = fst ` set ?l" using 2(2) n by auto
  note IH = 2(1) [OF o]
  have "fst (dedup_loop ((i, x) # ps) order latest)
      = order @ filter (\<lambda>j. j \<notin> set order) (first_seen (map fst ((i, x) # ps)))"
  proof (cases "i \<in> set order")
    case True
    then have "filter (\<lambda>j. j \<notin> set order) (filter (\<lambda>j. j \<noteq> i) ys) = filter (\<lambda>j. j \<notin> set order) ys" for ys
      by (induction ys) auto
    moreover have "map_of latest i \<noteq> None" using n True by simp
    ultimately show ?thesis using IH True by (simp only: dedup_loop.simps if_False) (simp add: first_seen_Cons)
  next
    case False
    have "filter (\<lambda>j. j \<notin> set (order @ [i])) ys = filter (\<lambda>j. j \<notin> set order) (filter (\<lambda>j. j \<noteq> i) ys)" for ys
      by (induction ys) auto
    moreover have "map_of latest i = None" using n False by simp
    ultimately show ?thesis using IH False by (simp only: dedup_loop.simps if_True) (simp add: first_seen_Cons)
  qed
  moreover have "map_of (snd (dedup_loop ((i, x) # ps) order latest)) = map_of latest ++ map_of (rev ((i, x) # ps))"
    using IH by (simp add: update_conv' map_add_def fun_eq_iff split: option.splits)
  ultimately show ?case ..
qed

lemma number_from_nth:
  "length (number_from m xs) = length xs \<and> (\<forall>j < length xs. number_from m xs ! j = (m + j, xs ! j))"
  by (induction xs arbitrary: m) (auto simp: nth_Cons')

lemma item_idents_length: "item_idents items = Inr ids \<Longrightarrow> length ids = length items"
  using rmap_Inr_length number_from_nth by (metis item_idents_def)

lemma dedup_list_eq:
  assumes "item_idents items = Inr ids"
  shows "dedup_list items = Inr (map (\<lambda>i. the (map_of (rev (zip ids items)) i)) (first_seen ids))"
proof -
  have "length ids = length items"
    using assms by (rule item_idents_length)
  then have "map fst (zip ids items) = ids" by simp
  with dedup_loop_eq [of "[]" "[]" "zip ids items"]
  obtain latest where "dedup_loop (zip ids items) [] [] = (first_seen ids, latest)"
    "map_of latest = map_of (rev (zip ids items))"
    by (cases "dedup_loop (zip ids items) [] []") simp
  with assms show ?thesis by (simp add: dedup_list_def)
qed

lemma item_idents_nth:
  assumes "item_idents items = Inr ids" "k < length items"
  shows "item_ident k (items ! k) = Inr (ids ! k)"
proof -
  have "list_all2 (\<lambda>(n, x) y. item_ident n x = Inr y) (number_from 0 items) ids"
    using assms(1) by (simp add: item_idents_def rmap_Inr_all2 case_prod_unfold)
  from list_all2_nthD [OF this, of k] number_from_nth [of 0 items] assms(2) show ?thesis by simp
qed

lemma item_ident_fingerprint: "item_ident n x = Inr (ByFingerprint fp) \<Longrightarrow> item_ident m x = Inr (ByFingerprint fp)"
  by (auto simp: item_ident_def Let_def split: pyval.splits if_splits)

definition has_fingerprint :: "pyval \<Rightarrow> pyval list \<Rightarrow> bool" where
  "has_fingerprint fp l \<longleftrightarrow> (\<exists>x \<in> set l. item_ident 0 x = Inr (ByFingerprint fp))"

lemma dedup_keeps_fingerprints:
  assumes "dedup_list items = Inr l" "has_fingerprint fp items"
  shows "has_fingerprint fp l"
proof -
  obtain ids where ids: "item_idents items = Inr ids"
    using assms(1) by (cases "item_idents items") (simp_all add: dedup_list_def)
  obtain k where k: "k < length items" "item_ident 0 (items ! k) = Inr (ByFingerprint fp)"
    using assms(2) by (auto simp: has_fingerprint_def in_set_conv_nth)
  have len: "length ids = length items"
    using ids by (rule item_idents_length)
  have "ids ! k = ByFingerprint fp"
    using item_idents_nth [OF ids k(1)] item_ident_fingerprint [OF k(2), of k] by simp
  then have i: "ByFingerprint fp \<in> set ids" using k(1) len by (metis nth_mem)
  then have "ByFingerprint fp \<in> dom (map_of (rev (zip ids items)))"
    using len by (simp add: dom_map_of_conv_image_fst map_fst_zip [symmetric] del: map_fst_zip set_map)
      (metis map_fst_zip set_map)
  then obtain x where x: "map_of (rev (zip ids items)) (ByFingerprint fp) = Some x" by blast
  then have "(ByFingerprint fp, x) \<in> set (zip ids items)" by (metis map_of_SomeD set_rev)
  then obtain j where "j < length items" "ids ! j = ByFingerprint fp" "items ! j = x"
    using len by (auto simp: in_set_zip)
  with item_idents_nth [OF ids] item_ident_fingerprint have "item_ident 0 x = Inr (ByFingerprint fp)" by metis
  moreover have "x \<in> set l"
    using assms(1) dedup_list_eq [OF ids] i x by (auto intro!: image_eqI [where x = "ByFingerprint fp"])
  ultimately show ?thesis by (auto simp: has_fingerprint_def)
qed

section \<open>Merging keeps fingerprints\<close>

text \<open>A payload whose field \<open>f\<close>, if there is one, is a list; and the alerts that list holds.\<close>

definition list_field :: "string \<Rightarrow> pyval \<Rightarrow> bool" where
  "list_field f data \<longleftrightarrow> (\<exists>d. data = PDict d \<and> (\<forall>v. (f, v) \<in> set d \<longrightarrow> (\<exists>l. v = PList l)))"

definition carries :: "string \<Rightarrow> pyval \<Rightarrow> pyval \<Rightarrow> bool" where
  "carries f fp data \<longleftrightarrow> (\<exists>d l. data = PDict d \<and> dget d f = Some (PList l) \<and> has_fingerprint fp l)"

lemma set_dset: "(k, v) \<in> set (dset f x d) \<Longrightarrow> (k = f \<and> v = x) \<or> (k, v) \<in> set d"
  unfolding dset_def by (induction d) (auto split: if_splits)

lemma merge_fields_step:
  assumes "merge_fields m ((g, v) # fs) = Inr m'"
  obtains (merge) old new l where "dget m g = Some (PList old)" "v = PList new" "dedup_list (old @ new) = Inr l"
      "merge_fields (dset g (PList l) m) fs = Inr m'"
    | (replace) "\<not> (\<exists>old new. dget m g = Some (PList old) \<and> v = PList new)" "merge_fields (dset g v m) fs = Inr m'"
proof (cases "\<exists>old new. dget m g = Some (PList old) \<and> v = PList new")
  case True
  then obtain old new where o: "dget m g = Some (PList old)" "v = PList new" by blast
  with assms have "rbind (dedup_list (old @ new)) (\<lambda>l. merge_fields (dset g (PList l) m) fs) = Inr m'"
    by (simp add: dict_get_def)
  then obtain l where "dedup_list (old @ new) = Inr l" "merge_fields (dset g (PList l) m) fs = Inr m'"
    by (auto simp: rbind_Inr_iff)
  with o show ?thesis by (rule merge)
next
  case False
  then have "\<not> (\<exists>old new. dict_get m g PNone = PList old \<and> v = PList new)"
    by (auto simp: dict_get_def split: option.splits)
  then have "merge_fields m ((g, v) # fs) = merge_fields (dset g v m) fs"
    by (cases "dict_get m g PNone"; cases v) simp_all
  with False assms show ?thesis by (intro replace) simp_all
qed

lemma merge_fields_list:
  "merge_fields m fs = Inr m' \<Longrightarrow> \<forall>v. (f, v) \<in> set m \<longrightarrow> (\<exists>l. v = PList l) \<Longrightarrow>
     \<forall>v. (f, v) \<in> set fs \<longrightarrow> (\<exists>l. v = PList l) \<Longrightarrow> (f, v) \<in> set m' \<Longrightarrow> \<exists>l. v = PList l"
proof (induction fs arbitrary: m)
  case (Cons p fs)
  obtain g x where p: "p = (g, x)" by (cases p)
  from Cons.prems(1) [unfolded p] show ?case
  proof (cases rule: merge_fields_step)
    case (merge old new l)
    show ?thesis
      by (rule Cons.IH [OF merge(4) _ _ Cons.prems(4)])
        (use Cons.prems(2,3) in \<open>auto dest: set_dset\<close>)
  next
    case replace
    show ?thesis
      by (rule Cons.IH [OF replace(2) _ _ Cons.prems(4)])
        (use Cons.prems(2,3) p in \<open>auto dest!: set_dset\<close>)
  qed
qed simp

lemma has_fingerprint_append [simp]:
  "has_fingerprint fp (xs @ ys) \<longleftrightarrow> has_fingerprint fp xs \<or> has_fingerprint fp ys"
  by (auto simp: has_fingerprint_def)

lemma merge_fields_carries:
  "merge_fields m fs = Inr m' \<Longrightarrow> \<forall>v. (f, v) \<in> set m \<longrightarrow> (\<exists>l. v = PList l) \<Longrightarrow>
     \<forall>v. (f, v) \<in> set fs \<longrightarrow> (\<exists>l. v = PList l) \<Longrightarrow>
     carries f fp (PDict m) \<or> (\<exists>l. (f, PList l) \<in> set fs \<and> has_fingerprint fp l) \<Longrightarrow> carries f fp (PDict m')"
proof (induction fs arbitrary: m)
  case (Cons p fs)
  obtain g x where p: "p = (g, x)" by (cases p)
  from Cons.prems(1) [unfolded p] show ?case
  proof (cases rule: merge_fields_step)
    case (merge old new l)
    have c: "carries f fp (PDict (dset g (PList l) m)) \<or> (\<exists>l. (f, PList l) \<in> set fs \<and> has_fingerprint fp l)"
      using Cons.prems(4) p merge(1,2) dedup_keeps_fingerprints [OF merge(3), of fp]
      by (auto simp: carries_def)
    show ?thesis
      by (rule Cons.IH [OF merge(4) _ _ c]) (use Cons.prems(2,3) in \<open>auto dest: set_dset\<close>)
  next
    case replace
    have l: "\<exists>l. x = PList l" if "g = f" using Cons.prems(3) p that by auto
    have c: "carries f fp (PDict (dset g x m)) \<or> (\<exists>l. (f, PList l) \<in> set fs \<and> has_fingerprint fp l)"
      using Cons.prems(4)
    proof
      assume "carries f fp (PDict m)"
      then obtain l' where "dget m f = Some (PList l')" "has_fingerprint fp l'" by (auto simp: carries_def)
      with replace(1) l show ?thesis by (auto simp: carries_def)
    next
      assume "\<exists>l. (f, PList l) \<in> set (p # fs) \<and> has_fingerprint fp l"
      then show ?thesis using p by (auto simp: carries_def)
    qed
    show ?thesis
      by (rule Cons.IH [OF replace(2) _ _ c]) (use Cons.prems(2,3) p in \<open>auto dest!: set_dset\<close>)
  qed
qed simp

lemma merge_keeps:
  assumes "merge_coalesced_data a b = Inr c" "list_field f a" "list_field f b"
  shows "list_field f c" "carries f fp a \<or> carries f fp b \<Longrightarrow> carries f fp c"
proof -
  obtain m fs where ab: "a = PDict m" "b = PDict fs" "\<forall>v. (f, v) \<in> set m \<longrightarrow> (\<exists>l. v = PList l)"
    "\<forall>v. (f, v) \<in> set fs \<longrightarrow> (\<exists>l. v = PList l)"
    using assms(2,3) by (auto simp: list_field_def)
  then obtain m' where m: "merge_fields m fs = Inr m'" "c = PDict m'"
    using assms(1) by (auto simp: merge_coalesced_data_def rbind_Inr_iff)
  show "list_field f c" using merge_fields_list [OF m(1) ab(3,4)] m(2) by (auto simp: list_field_def)
  have "carries f fp b \<Longrightarrow> \<exists>l. (f, PList l) \<in> set fs \<and> has_fingerprint fp l"
    using ab(2) by (auto simp: carries_def dest: dget_in_set)
  then show "carries f fp a \<or> carries f fp b \<Longrightarrow> carries f fp c"
    using merge_fields_carries [OF m(1) ab(3,4)] ab(1) m(2) by auto
qed

section \<open>Reachable states\<close>

definition accepted :: "nat \<Rightarrow> nkey \<Rightarrow> pyval \<Rightarrow> notifier \<Rightarrow> bool" where
  "accepted max_pending key payload s \<longleftrightarrow>
     (case map_of (nf_pending s) key of
        None \<Rightarrow> length (nf_pending s) < max_pending
      | Some (_, old) \<Rightarrow> \<exists>m. merge_coalesced_data old payload = Inr m)"

text \<open>The states of the coalescing pool, with the notifications it accepted so far.\<close>

inductive notify_reach :: "nat \<Rightarrow> (nkey \<times> pyval) list \<Rightarrow> notifier \<Rightarrow> bool" for max_pending where
  start: "notify_reach max_pending []
     \<lparr>nf_pending = [], nf_scheduled = [], nf_tasks = [], nf_workers = [], nf_posts = []\<rparr>"
| submit: "notify_reach max_pending acc s \<Longrightarrow>
     notify_reach max_pending
       (if accepted max_pending (tenant_id, event) payload s then acc @ [((tenant_id, event), payload)] else acc)
       (submit_notify True max_pending api_url tenant_id event payload s)"
| begin_task: "notify_reach max_pending acc s \<Longrightarrow> notify_reach max_pending acc (start_task s)"
| look: "notify_reach max_pending acc s \<Longrightarrow> Looking key \<in> set (nf_workers s) \<Longrightarrow>
     notify_reach max_pending acc (drain_look key s)"
| post: "notify_reach max_pending acc s \<Longrightarrow> Posting key api_url payload \<in> set (nf_workers s) \<Longrightarrow>
     notify_reach max_pending acc (drain_post key api_url payload s)"

fun task_key :: "task \<Rightarrow> nkey" where
  "task_key (Drain k) = k" | "task_key (Notify u k d) = k"

fun worker_key :: "worker \<Rightarrow> nkey" where
  "worker_key (Looking k) = k" | "worker_key (Posting k u d) = k"

text \<open>The entries that wait or are on their way out, and all a client has been or will be told.\<close>

definition in_flight :: "notifier \<Rightarrow> (nkey \<times> pyval) set" where
  "in_flight s = {(k, d). (\<exists>u. map_of (nf_pending s) k = Some (u, d)) \<or> (\<exists>u. Posting k u d \<in> set (nf_workers s))}"

definition told :: "notifier \<Rightarrow> (nkey \<times> pyval) set" where
  "told s = in_flight s \<union> {(k, d). \<exists>u. (u, k, d) \<in> set (nf_posts s)}"

definition pool_ok :: "nat \<Rightarrow> notifier \<Rightarrow> bool" where
  "pool_ok max_pending s \<longleftrightarrow>
     distinct (map fst (nf_pending s)) \<and> length (nf_pending s) \<le> max_pending
     \<and> fst ` set (nf_pending s) \<subseteq> set (nf_scheduled s) \<and> distinct (nf_scheduled s)
     \<and> mset (map task_key (nf_tasks s) @ map worker_key (nf_workers s)) = mset (nf_scheduled s)"

lemma pool_ok_submit:
  assumes "pool_ok n s"
  shows "pool_ok n (submit_notify True n u tn ev d s)"
proof -
  let ?key = "(tn, ev)"
  show ?thesis
  proof (cases "submit_notify True n u tn ev d s = s")
    case True
    with assms show ?thesis by simp
  next
    case False
    then obtain d' where s': "submit_notify True n u tn ev d s =
        (let s = s\<lparr>nf_pending := AList.update ?key (u, d') (nf_pending s)\<rparr>
         in if ?key \<in> set (nf_scheduled s) then s
            else s\<lparr>nf_scheduled := nf_scheduled s @ [?key], nf_tasks := nf_tasks s @ [Drain ?key]\<rparr>)"
      and room: "map_of (nf_pending s) ?key = None \<longrightarrow> length (nf_pending s) < n"
      by (auto simp: submit_notify_def Let_def split: if_splits sum.splits option.splits)
    have len: "length (AList.update ?key (u, d') (nf_pending s)) \<le> n"
    proof (cases "?key \<in> fst ` set (nf_pending s)")
      case True
      moreover have "k \<in> fst ` set xs \<Longrightarrow> length (AList.update k v xs) = length xs"
        for k v and xs :: "(nkey \<times> string \<times> pyval) list"
        by (induction xs) auto
      ultimately show ?thesis using assms by (simp add: pool_ok_def)
    next
      case False
      then have "map_of (nf_pending s) ?key = None" by (simp add: map_of_eq_None_iff)
      with room have "length (nf_pending s) < n" by simp
      moreover have "length (AList.update k v xs) \<le> Suc (length xs)" for k v and xs :: "(nkey \<times> string \<times> pyval) list"
        by (induction xs) auto
      ultimately show ?thesis by (meson Suc_leI le_trans)
    qed
    have dom: "fst ` set (AList.update ?key (u, d') (nf_pending s)) = insert ?key (fst ` set (nf_pending s))"
      using dom_update [of ?key "(u, d')" "nf_pending s"] by (simp add: dom_map_of_conv_image_fst [symmetric])
    have dist: "distinct (map fst (AList.update ?key (u, d') (nf_pending s)))"
      using assms by (intro distinct_update) (simp add: pool_ok_def)
    show ?thesis
      using assms len dom dist unfolding s' Let_def
      by (auto simp: pool_ok_def subset_iff)
  qed
qed

lemma pool_ok_start: "pool_ok n s \<Longrightarrow> \<forall>t \<in> set (nf_tasks s). \<exists>k. t = Drain k \<Longrightarrow> pool_ok n (start_task s)"
  by (auto simp: pool_ok_def start_task_def ac_simps split: list.splits task.splits)

lemma mset_map_remove1: "x \<in> set xs \<Longrightarrow> mset (map f (remove1 x xs)) = mset (map f xs) - {#f x#}"
  by (induction xs) (auto simp: image_mset_Diff)

lemma pool_ok_look:
  assumes ok: "pool_ok n s" and w: "Looking key \<in> set (nf_workers s)"
  shows "pool_ok n (drain_look key s)"
proof (cases "map_of (nf_pending s) key")
  case None
  have k: "key \<in># mset (map worker_key (nf_workers s))" using imageI [OF w, of worker_key] by simp
  have "mset (map task_key (nf_tasks s)) + (mset (map worker_key (nf_workers s)) - {#key#})
      = (mset (map task_key (nf_tasks s)) + mset (map worker_key (nf_workers s))) - {#key#}"
    using k by (rule diff_union_single_conv [symmetric])
  also have "\<dots> = mset (removeAll key (nf_scheduled s))"
    using ok by (simp add: pool_ok_def distinct_remove1_removeAll [symmetric])
  finally have "mset (map task_key (nf_tasks s) @ map worker_key (remove1 (Looking key) (nf_workers s)))
      = mset (removeAll key (nf_scheduled s))"
    using mset_map_remove1 [OF w, of worker_key] by simp
  moreover have "key \<notin> fst ` set (nf_pending s)" using None by (simp add: map_of_eq_None_iff)
  ultimately show ?thesis using ok None
    by (auto simp: pool_ok_def drain_look_def distinct_removeAll)
next
  case (Some e)
  obtain u d where e: "e = (u, d)" by (cases e)
  have k: "key \<in># mset (map worker_key (nf_workers s))" using imageI [OF w, of worker_key] by simp
  have "mset (map worker_key (remove1 (Looking key) (nf_workers s) @ [Posting key u d]))
      = mset (map worker_key (nf_workers s))"
    using mset_map_remove1 [OF w, of worker_key] k by simp
  moreover have "fst ` set (AList.delete key (nf_pending s)) = fst ` set (nf_pending s) - {key}"
    by (auto simp: AList.delete_eq image_iff)
  moreover have "length (AList.delete key (nf_pending s)) \<le> length (nf_pending s)"
    by (simp add: AList.delete_eq)
  ultimately show ?thesis using ok Some e
    by (auto simp: pool_ok_def drain_look_def distinct_delete)
qed

lemma pool_ok_post:
  assumes ok: "pool_ok n s" and w: "Posting key u d \<in> set (nf_workers s)"
  shows "pool_ok n (drain_post key u d s)"
proof -
  have k: "key \<in># mset (map worker_key (nf_workers s))" using imageI [OF w, of worker_key] by simp
  have "mset (map worker_key (remove1 (Posting key u d) (nf_workers s) @ [Looking key]))
      = mset (map worker_key (nf_workers s))"
    using mset_map_remove1 [OF w, of worker_key] k by simp
  with ok show ?thesis by (simp add: pool_ok_def drain_post_def)
qed

lemma notify_reach_ok:
  "notify_reach n acc s \<Longrightarrow> pool_ok n s \<and> (\<forall>t \<in> set (nf_tasks s). \<exists>k. t = Drain k)"
proof (induction rule: notify_reach.induct)
  case start
  then show ?case by (simp add: pool_ok_def)
next
  case (submit acc s tn ev d u)
  then have "\<forall>t \<in> set (nf_tasks (submit_notify True n u tn ev d s)). \<exists>k. t = Drain k"
    by (auto simp: submit_notify_def Let_def split: sum.splits option.splits)
  with submit pool_ok_submit show ?case by simp
next
  case (begin_task acc s)
  then have "\<forall>t \<in> set (nf_tasks (start_task s)). \<exists>k. t = Drain k"
    by (auto simp: start_task_def split: list.splits task.splits)
  with begin_task pool_ok_start show ?case by simp
next
  case (look acc s key)
  then have "nf_tasks (drain_look key s) = nf_tasks s" by (simp add: drain_look_def split: option.splits)
  with look pool_ok_look show ?case by simp
next
  case (post acc s key u d)
  then have "nf_tasks (drain_post key u d s) = nf_tasks s" by (simp add: drain_post_def)
  with post pool_ok_post show ?case by simp
qed

text \<open>Only a submission changes what clients have been or will be told.\<close>

lemma told_start: "\<forall>t \<in> set (nf_tasks s). \<exists>k. t = Drain k \<Longrightarrow> told (start_task s) = told s"
  by (auto simp: told_def in_flight_def start_task_def split: list.splits task.splits)

lemma in_set_remove1_other: "x \<noteq> y \<Longrightarrow> x \<in> set (remove1 y xs) \<longleftrightarrow> x \<in> set xs"
  by (induction xs) auto

lemma told_look: "told (drain_look key s) = told s"
proof (cases "map_of (nf_pending s) key")
  case None
  then show ?thesis by (simp add: told_def in_flight_def drain_look_def in_set_remove1_other)
next
  case (Some e)
  obtain u d where e: "e = (u, d)" by (cases e)
  have "in_flight (drain_look key s) = in_flight s"
    using Some e unfolding in_flight_def drain_look_def
    by (auto simp: in_set_remove1_other delete_conv' split: if_splits)
  then show ?thesis using Some e by (simp add: told_def drain_look_def)
qed

lemma told_post:
  assumes "Posting key u d \<in> set (nf_workers s)"
  shows "told (drain_post key u d s) = told s"
proof -
  have "Posting k v x \<in> set (remove1 (Posting key u d) ws) \<or> (k = key \<and> v = u \<and> x = d)
      \<longleftrightarrow> Posting k v x \<in> set ws \<or> (k = key \<and> v = u \<and> x = d)" for k v x ws
    by (cases "Posting k v x = Posting key u d") (auto simp: in_set_remove1_other)
  with assms show ?thesis by (auto simp: told_def in_flight_def drain_post_def)
qed

definition keeps_told :: "string \<Rightarrow> pyval \<Rightarrow> (nkey \<times> pyval) list \<Rightarrow> notifier \<Rightarrow> bool" where
  "keeps_told f fp acc s \<longleftrightarrow>
     (\<forall>x \<in> told s. list_field f (snd x))
     \<and> (\<forall>x \<in> set acc. carries f fp (snd x) \<longrightarrow> (\<exists>d. (fst x, d) \<in> told s \<and> carries f fp d))"

lemma told_submit:
  assumes acc: "accepted n (tn, ev) d s"
  shows "\<exists>m. told (submit_notify True n u tn ev d s)
       = told (s\<lparr>nf_pending := AList.update (tn, ev) (u, m) (nf_pending s)\<rparr>)
     \<and> (case map_of (nf_pending s) (tn, ev) of None \<Rightarrow> m = d | Some (_, old) \<Rightarrow> merge_coalesced_data old d = Inr m)"
proof -
  have frame: "told (if c then x else x\<lparr>nf_scheduled := sc, nf_tasks := ts\<rparr>) = told x" for c x sc ts
    by (simp add: told_def in_flight_def)
  show ?thesis
  proof (cases "map_of (nf_pending s) (tn, ev)")
    case None
    with acc have "length (nf_pending s) < n" by (simp add: accepted_def)
    with None show ?thesis by (intro exI [of _ d]) (simp add: submit_notify_def Let_def frame)
  next
    case (Some e)
    with acc obtain v old m where m: "e = (v, old)" "merge_coalesced_data old d = Inr m"
      by (cases e) (auto simp: accepted_def)
    with Some show ?thesis by (intro exI [of _ m]) (simp add: submit_notify_def Let_def frame)
  qed
qed

lemma told_refused: "\<not> accepted n (tn, ev) d s \<Longrightarrow> submit_notify True n u tn ev d s = s"
  by (auto simp: accepted_def submit_notify_def Let_def split: option.splits sum.splits)

lemma told_update_eq:
  "told (s\<lparr>nf_pending := AList.update key (u, m) (nf_pending s)\<rparr>)
     = {(k, d) \<in> told s. \<not> (k = key \<and> (\<exists>v. map_of (nf_pending s) key = Some (v, d)))
          \<or> (\<exists>v. Posting k v d \<in> set (nf_workers s)) \<or> (\<exists>v. (v, k, d) \<in> set (nf_posts s))} \<union> {(key, m)}"
  by (auto simp: told_def in_flight_def update_conv' split: if_splits)

lemma keeps_told_submit:
  assumes k: "keeps_told f fp acc s" and l: "list_field f d" and a: "accepted n (tn, ev) d s"
  shows "keeps_told f fp (acc @ [((tn, ev), d)]) (submit_notify True n u tn ev d s)"
proof -
  let ?key = "(tn, ev)"
  obtain m where t: "told (submit_notify True n u tn ev d s)
      = told (s\<lparr>nf_pending := AList.update ?key (u, m) (nf_pending s)\<rparr>)"
    and m: "case map_of (nf_pending s) ?key of None \<Rightarrow> m = d | Some (_, old) \<Rightarrow> merge_coalesced_data old d = Inr m"
    using told_submit [OF a] by blast
  have old: "list_field f o'" if "map_of (nf_pending s) ?key = Some (v, o')" for v o'
  proof -
    have "(?key, o') \<in> told s" using that by (auto simp: told_def in_flight_def)
    with k show ?thesis by (auto simp: keeps_told_def)
  qed
  have lm: "list_field f m" and cm: "carries f fp d \<Longrightarrow> carries f fp m"
    and co: "\<And>v o'. map_of (nf_pending s) ?key = Some (v, o') \<Longrightarrow> carries f fp o' \<Longrightarrow> carries f fp m"
    using m old l merge_keeps by (auto split: option.splits)
  have "list_field f (snd x)" if "x \<in> told (submit_notify True n u tn ev d s)" for x
    using that k lm unfolding t told_update_eq by (auto simp: keeps_told_def)
  moreover have "\<exists>e. (fst x, e) \<in> told (submit_notify True n u tn ev d s) \<and> carries f fp e"
    if x: "x \<in> set (acc @ [(?key, d)])" "carries f fp (snd x)" for x
  proof (cases "x = (?key, d)")
    case True
    with cm x(2) show ?thesis unfolding t told_update_eq by auto
  next
    case False
    with x k obtain e where e: "(fst x, e) \<in> told s" "carries f fp e" by (auto simp: keeps_told_def)
    show ?thesis
    proof (cases "fst x = ?key \<and> (\<exists>v. map_of (nf_pending s) ?key = Some (v, e))")
      case True
      with co e(2) show ?thesis unfolding t told_update_eq by auto
    next
      case False
      with e show ?thesis unfolding t told_update_eq by (intro exI [of _ e]) auto
    qed
  qed
  ultimately show ?thesis by (auto simp: keeps_told_def)
qed

lemma notify_reach_told:
  "notify_reach n acc s \<Longrightarrow> \<forall>x \<in> set acc. list_field f (snd x) \<Longrightarrow> keeps_told f fp acc s"
proof (induction rule: notify_reach.induct)
  case start
  then show ?case by (simp add: keeps_told_def told_def in_flight_def)
next
  case (submit acc s tn ev d u)
  show ?case
  proof (cases "accepted n (tn, ev) d s")
    case True
    with submit have "keeps_told f fp acc s" "list_field f d" by auto
    with True keeps_told_submit show ?thesis by simp
  next
    case False
    with submit told_refused [OF False] show ?thesis by simp
  qed
next
  case (begin_task acc s)
  then show ?case using told_start notify_reach_ok by (simp add: keeps_told_def)
next
  case (look acc s key)
  then show ?case by (simp add: keeps_told_def told_look)
next
  case (post acc s key u d)
  then show ?case by (simp add: keeps_told_def told_post)
qed

section \<open>Properties\<close>

text \<open>Deduplication against its specification.  Whenever the items' identities can be computed, the
  result holds one item per identity, in the order in which the identities first occur, and each is
  the last item of the list with that identity.\<close>

theorem dedup_list_spec:
  assumes "item_idents items = Inr ids"
  shows "\<exists>l. dedup_list items = Inr l \<and> length l = length (first_seen ids) \<and> distinct (first_seen ids)
    \<and> (\<forall>j < length l. \<exists>k < length items. items ! k = l ! j \<and> ids ! k = first_seen ids ! j
         \<and> (\<forall>k' < length items. k < k' \<longrightarrow> ids ! k' \<noteq> first_seen ids ! j))"
proof -
  let ?l = "map (\<lambda>i. the (map_of (rev (zip ids items)) i)) (first_seen ids)"
  have last_entry: "\<exists>k < length xs. map_of (rev (zip is xs)) i = Some (xs ! k) \<and> is ! k = i
      \<and> (\<forall>k' < length xs. k < k' \<longrightarrow> is ! k' \<noteq> i)"
    if "length is = length xs" "i \<in> set is" for i :: ident and "is" and xs :: "pyval list"
    using that
  proof (induction xs arbitrary: "is" rule: rev_induct)
    case (snoc x xs)
    then obtain js j where js: "is = js @ [j]" "length js = length xs"
      by (cases "is" rule: rev_cases) auto
    show ?case
    proof (cases "j = i")
      case True
      with js show ?thesis by (intro exI [of _ "length xs"]) (simp add: nth_append)
    next
      case False
      with snoc.prems js have "i \<in> set js" by simp
      from snoc.IH [OF js(2) this] obtain k where k: "k < length xs" "map_of (rev (zip js xs)) i = Some (xs ! k)"
        "js ! k = i" "\<forall>k' < length xs. k < k' \<longrightarrow> js ! k' \<noteq> i" by blast
      with js False show ?thesis
        by (intro exI [of _ k]) (auto simp: nth_append less_Suc_eq)
    qed
  qed simp
  have "\<exists>k < length items. items ! k = ?l ! j \<and> ids ! k = first_seen ids ! j
      \<and> (\<forall>k' < length items. k < k' \<longrightarrow> ids ! k' \<noteq> first_seen ids ! j)" if "j < length ?l" for j
  proof -
    have "first_seen ids ! j \<in> set ids" using that by (metis length_map nth_mem set_first_seen)
    from last_entry [OF item_idents_length [OF assms] this] obtain k where "k < length items"
      "map_of (rev (zip ids items)) (first_seen ids ! j) = Some (items ! k)" "ids ! k = first_seen ids ! j"
      "\<forall>k' < length items. k < k' \<longrightarrow> ids ! k' \<noteq> first_seen ids ! j" by blast
    with that show ?thesis by (intro exI [of _ k]) simp
  qed
  with dedup_list_eq [OF assms] show ?thesis
    by (intro exI [of _ ?l]) (simp add: first_seen_def)
qed

text \<open>C33: no accepted alert is lost.  However submissions and deliveries interleave, an alert in the
  list field \<open>f\<close> of an accepted notification has been posted, or is in an entry of its key that waits
  or is being posted; a waiting key has exactly one drain task or worker, and at most the configured
  number of keys wait.\<close>

theorem accepted_alerts_told:
  assumes "notify_reach max_pending acc s" and "\<forall>x \<in> set acc. list_field f (snd x)"
    and "(key, payload) \<in> set acc" and "carries f fp payload"
  shows "((\<exists>u d. (u, key, d) \<in> set (nf_posts s) \<and> carries f fp d)
       \<or> (\<exists>d. (key, d) \<in> in_flight s \<and> carries f fp d
            \<and> count (mset (map task_key (nf_tasks s) @ map worker_key (nf_workers s))) key = 1))
    \<and> length (nf_pending s) \<le> max_pending"
proof -
  note ok = notify_reach_ok [OF assms(1), THEN conjunct1]
  then have len: "length (nf_pending s) \<le> max_pending" by (simp add: pool_ok_def)
  have one: "count (mset (map task_key (nf_tasks s) @ map worker_key (nf_workers s))) key = 1"
    if "(key, d) \<in> in_flight s" for d
  proof -
    have m: "mset (map task_key (nf_tasks s) @ map worker_key (nf_workers s)) = mset (nf_scheduled s)"
      and dist: "distinct (nf_scheduled s)" and sub: "fst ` set (nf_pending s) \<subseteq> set (nf_scheduled s)"
      using ok by (simp_all add: pool_ok_def)
    consider u where "map_of (nf_pending s) key = Some (u, d)" | u where "Posting key u d \<in> set (nf_workers s)"
      using \<open>(key, d) \<in> in_flight s\<close> unfolding in_flight_def by blast
    then have "key \<in> set (nf_scheduled s)"
    proof cases
      case 1
      then show ?thesis using sub by (force dest: map_of_SomeD)
    next
      case 2
      then have "key \<in> set_mset (mset (map task_key (nf_tasks s) @ map worker_key (nf_workers s)))"
        using imageI [OF 2, of worker_key] by simp
      then show ?thesis unfolding m by simp
    qed
    with distinct_count_atmost_1 [THEN iffD1, OF dist, rule_format, of key] show ?thesis unfolding m by simp
  qed
  from notify_reach_told [OF assms(1,2), of fp] assms(3,4) obtain d where d: "(key, d) \<in> told s" "carries f fp d"
    by (force simp: keeps_told_def)
  then have "(\<exists>u d. (u, key, d) \<in> set (nf_posts s) \<and> carries f fp d)
       \<or> (\<exists>d. (key, d) \<in> in_flight s \<and> carries f fp d
            \<and> count (mset (map task_key (nf_tasks s) @ map worker_key (nf_workers s))) key = 1)"
    using one [of d] by (auto simp: told_def)
  with len show ?thesis by simp
qed

section \<open>Witnesses\<close>

definition demo_alert :: "string \<Rightarrow> string \<Rightarrow> pyval" where
  "demo_alert fp status = PDict [(''fingerprint'', PStr fp), (''status'', PStr status)]"

theorem dedup_list_spec_witness:
  "dedup_list [demo_alert ''a'' ''firing'', demo_alert ''b'' ''firing'', demo_alert ''a'' ''resolved'']
     = Inr [demo_alert ''a'' ''resolved'', demo_alert ''b'' ''firing'']
   \<and> (\<exists>l. dedup_list [demo_alert ''a'' ''firing'', demo_alert ''b'' ''firing'', demo_alert ''a'' ''resolved''] = Inr l
        \<and> length l = 2)"
proof
  let ?items = "[demo_alert ''a'' ''firing'', demo_alert ''b'' ''firing'', demo_alert ''a'' ''resolved'']"
  let ?ids = "[ByFingerprint (PStr ''a''), ByFingerprint (PStr ''b''), ByFingerprint (PStr ''a'')]"
  show "dedup_list ?items = Inr [demo_alert ''a'' ''resolved'', demo_alert ''b'' ''firing'']"
    by code_simp
  have "item_idents ?items = Inr ?ids" by code_simp
  from dedup_list_spec [OF this] show "\<exists>l. dedup_list ?items = Inr l \<and> length l = 2"
    by (auto simp: first_seen_def)
qed

definition demo_payload :: "string \<Rightarrow> pyval" where
  "demo_payload fp = PDict [(''alerts'', PList [demo_alert fp ''firing''])]"

definition demo_notifier :: notifier where
  "demo_notifier = submit_notify True 10 ''url'' ''t'' ''poll-alerts'' (demo_payload ''b'')
     (submit_notify True 10 ''url'' ''t'' ''poll-alerts'' (demo_payload ''a'')
       \<lparr>nf_pending = [], nf_scheduled = [], nf_tasks = [], nf_workers = [], nf_posts = []\<rparr>)"

lemma demo_notifier_reach:
  "notify_reach 10 [((''t'', ''poll-alerts''), demo_payload ''a''), ((''t'', ''poll-alerts''), demo_payload ''b'')]
     demo_notifier"
proof -
  let ?s0 = "\<lparr>nf_pending = [], nf_scheduled = [], nf_tasks = [], nf_workers = [], nf_posts = []\<rparr>"
  let ?s1 = "submit_notify True 10 ''url'' ''t'' ''poll-alerts'' (demo_payload ''a'') ?s0"
  have "notify_reach 10 [((''t'', ''poll-alerts''), demo_payload ''a'')] ?s1"
    using notify_reach.submit [OF notify_reach.start, of 10 "''t''" "''poll-alerts''" "demo_payload ''a''" "''url''"]
    by (simp add: accepted_def)
  moreover have "accepted 10 (''t'', ''poll-alerts'') (demo_payload ''b'') ?s1"
  proof -
    have "(case merge_coalesced_data (demo_payload ''a'') (demo_payload ''b'') of Inl x \<Rightarrow> False | Inr y \<Rightarrow> True)"
      by code_simp
    then have "\<exists>m. merge_coalesced_data (demo_payload ''a'') (demo_payload ''b'') = Inr m"
      by (auto split: sum.splits)
    then show ?thesis by (simp add: accepted_def submit_notify_def Let_def)
  qed
  ultimately show ?thesis
    using notify_reach.submit [of 10 "[((''t'', ''poll-alerts''), demo_payload ''a'')]" ?s1 "''t''"
        "''poll-alerts''" "demo_payload ''b''" "''url''"]
    by (simp add: demo_notifier_def)
qed

theorem accepted_alerts_told_witness:
  "length (nf_pending demo_notifier) \<le> 10
   \<and> (\<exists>d. ((''t'', ''poll-alerts''), d) \<in> in_flight demo_notifier \<and> carries ''alerts'' (PStr ''a'') d)"
proof -
  have l: "\<forall>x \<in> set [((''t'', ''poll-alerts''), demo_payload ''a''), ((''t'', ''poll-alerts''), demo_payload ''b'')].
      list_field ''alerts'' (snd x)"
    by (simp add: list_field_def demo_payload_def)
  have c: "carries ''alerts'' (PStr ''a'') (demo_payload ''a'')"
    by (simp add: carries_def demo_payload_def dget_Cons has_fingerprint_def demo_alert_def item_ident_def
        dict_get_def hashable_def hash_key_def)
  have m: "((''t'', ''poll-alerts''), demo_payload ''a'')
      \<in> set [((''t'', ''poll-alerts''), demo_payload ''a''), ((''t'', ''poll-alerts''), demo_payload ''b'')]" by simp
  have "nf_posts demo_notifier = []" by code_simp
  with accepted_alerts_told [OF demo_notifier_reach l m c] show ?thesis by auto
qed

end
