(* ===== verification/RuleMatching.thy ===== *)
theory RuleMatching
  imports CelFilters
begin

text \<open>
  How the rules engine (\<open>src/rulesengine/rulesengine.py\<close>) matches one event against one rule: the sub
  rules of an expression, the payload CEL evaluates, the fallback for type errors, the fingerprints an
  event is grouped by, the variables of a name template and the filtering of alerts.  Compilation and
  evaluation of CEL, \<open>str\<close> of CEL values and \<open>float\<close> are parameters.  An event is the dictionary of its
  \<open>AlertDto\<close>.
\<close>

section \<open>Rules\<close>

record rule =
  ru_id :: string
  ru_tenant_id :: string
  ru_name :: string
  ru_definition_cel :: string
  ru_timeframe :: int
  ru_grouping_criteria :: "string list"
  ru_require_approve :: bool
  ru_resolve_on :: string
  ru_create_on :: string
  ru_is_deleted :: bool
  ru_name_template :: "string option"
  ru_incident_prefix :: "string option"
  ru_multi_level :: bool
  ru_multi_level_property :: "string option"
  ru_threshold :: int
  ru_assignee :: "string option"

definition get_rules :: "string \<Rightarrow> string list option \<Rightarrow> rule list \<Rightarrow> rule list" where
  "get_rules tenant_id ids rules =
     filter (\<lambda>r. ru_tenant_id r = tenant_id \<and> \<not> ru_is_deleted r
       \<and> (case ids of Some is \<Rightarrow> ru_id r \<in> set is | None \<Rightarrow> True)) rules"

section \<open>Sub rules\<close>

definition rule_sep :: string where "rule_sep = '') || (''"

definition extract_subrules :: "string \<Rightarrow> string list" where
  "extract_subrules e =
     (let sub_rules = py_split rule_sep e
      in if length sub_rules = 1 then sub_rules
         else tl (hd sub_rules) # butlast (tl sub_rules) @ [butlast (last sub_rules)])"

section \<open>Payload\<close>

definition forbidden_starts :: "char set" where
  "forbidden_starts = set ''@-$# :./'' \<union> {CHR 0x5C} \<union> set ''*&^%!''"

text \<open>\<open>k[0]\<close> of an empty key raises; dictionaries that are elements of a list are cleaned, lists of lists
  are not.\<close>

fun sanitize_dict :: "pydict \<Rightarrow> pydict result" and sanitize_list :: "pyval list \<Rightarrow> pyval list result" where
  "sanitize_dict [] = Inr []"
| "sanitize_dict ((k, v) # d) =
     (case k of
        [] \<Rightarrow> Inl (Exn EIndexError ''string index out of range'')
      | c # _ \<Rightarrow>
          if c \<in> forbidden_starts then sanitize_dict d
          else rbind (case v of PDict e \<Rightarrow> rbind (sanitize_dict e) (\<lambda>e. Inr (PDict e))
                        | PList xs \<Rightarrow> rbind (sanitize_list xs) (\<lambda>xs. Inr (PList xs))
                        | _ \<Rightarrow> Inr v)
                 (\<lambda>v. rbind (sanitize_dict d) (\<lambda>d. Inr ((k, v) # d))))"
| "sanitize_list [] = Inr []"
| "sanitize_list (x # xs) =
     rbind (case x of PDict e \<Rightarrow> rbind (sanitize_dict e) (\<lambda>e. Inr (PDict e)) | _ \<Rightarrow> Inr x)
       (\<lambda>x. rbind (sanitize_list xs) (\<lambda>xs. Inr (x # xs)))"

definition sanitize_cel_payload :: "pydict \<Rightarrow> pydict result" where
  "sanitize_cel_payload payload = sanitize_dict payload"

text \<open>\<open>payload["source"][0]\<close>.\<close>

definition first_source :: "pydict \<Rightarrow> pyval result" where
  "first_source payload =
     (case dget payload ''source'' of
        None \<Rightarrow> Inl (Exn EKeyError ''source'')
      | Some (PList (x # _)) \<Rightarrow> Inr x
      | Some (PList []) \<Rightarrow> Inl (Exn EIndexError ''list index out of range'')
      | Some (PStr (c # _)) \<Rightarrow> Inr (PStr [c])
      | Some (PStr []) \<Rightarrow> Inl (Exn EIndexError ''string index out of range'')
      | Some _ \<Rightarrow> Inl (Exn ETypeError ''object is not subscriptable''))"

section \<open>Evaluation of a sub rule\<close>

record 'p cel_env =
  ce_compile :: "string \<Rightarrow> 'p result"
  ce_evaluate :: "'p \<Rightarrow> pydict \<Rightarrow> bool result"
  ce_str :: "pyval \<Rightarrow> string"
  ce_float_str :: "string \<Rightarrow> string option"

definition is_cel_error :: "exn \<Rightarrow> bool" where
  "is_cel_error e \<longleftrightarrow> exn_kind e = EOther ''CELEvalError''"

definition no_such_member :: "exn \<Rightarrow> bool" where
  "no_such_member e \<longleftrightarrow> contains_sub ''no such member'' (exn_msg e)"

definition no_overload :: "exn \<Rightarrow> bool" where
  "no_overload e \<longleftrightarrow> contains_sub ''no such overload'' (exn_msg e) \<or> contains_sub ''found no matching overload'' (exn_msg e)"

text \<open>The regular expression of the fallback: a path, \<open>==\<close> or \<open>!=\<close>, and the rest of the line.\<close>

definition is_path_char :: "char \<Rightarrow> bool" where
  "is_path_char c \<longleftrightarrow> is_alnum c \<or> c = CHR ''_'' \<or> c = CHR ''.''"

text \<open>\<open>\s*(.+)\<close>: when only white space is left, the group takes its last character that is no line break.\<close>

definition rest_of_line :: "string \<Rightarrow> string" where
  "rest_of_line r =
     (case dropWhile is_space r of
        [] \<Rightarrow> take 1 (dropWhile (\<lambda>c. c = CHR 10) (rev r))
      | s \<Rightarrow> takeWhile (\<lambda>c. c \<noteq> CHR 10) s)"

definition match_comparison :: "string \<Rightarrow> (string \<times> bool \<times> string) option" where
  "match_comparison cel =
     (let left = takeWhile is_path_char cel; r = dropWhile is_space (dropWhile is_path_char cel)
      in if left = [] then None
         else (case r of
                 c # d # r \<Rightarrow>
                   if (c = CHR ''='' \<or> c = CHR ''!'') \<and> d = CHR ''='' then
                     (case rest_of_line r of [] \<Rightarrow> None | right \<Rightarrow> Some (left, c = CHR ''='', right))
                   else None
               | _ \<Rightarrow> None))"

definition quoted :: "string \<Rightarrow> bool" where
  "quoted s \<longleftrightarrow> starts_with [CHR 34] s \<and> ends_with [CHR 34] s"

definition unquoted :: "string \<Rightarrow> string" where
  "unquoted right =
     (if quoted (py_strip right)
      then rstrip_by (\<lambda>c. c = CHR 34) (lstrip_by (\<lambda>c. c = CHR 34) (py_strip right)) else py_strip right)"

fun get_nested :: "pyval \<Rightarrow> string list \<Rightarrow> pyval" where
  "get_nested v [] = v"
| "get_nested (PDict d) (p # ps) = get_nested (dict_get d p PNone) ps"
| "get_nested _ (p # ps) = PNone"

definition right_str :: "'p cel_env \<Rightarrow> string \<Rightarrow> string" where
  "right_str ce r = (case py_int r of Some n \<Rightarrow> show_int n
     | None \<Rightarrow> (case ce_float_str ce r of Some s \<Rightarrow> s | None \<Rightarrow> r))"

text \<open>Both kinds of comparison the code distinguishes compare the texts.\<close>

definition coerce_eq_type_error :: "'p cel_env \<Rightarrow> string \<Rightarrow> pydict \<Rightarrow> bool" where
  "coerce_eq_type_error ce cel activation =
     (case match_comparison cel of
        None \<Rightarrow> False
      | Some (left, eq, right) \<Rightarrow>
          let same = (ce_str ce (get_nested (PDict activation) (py_split ''.'' left)) = right_str ce (unquoted right))
          in if eq then same else \<not> same)"

text \<open>The text that is evaluated, and reported as matched, has \<open>null\<close> replaced.\<close>

definition without_null :: "string \<Rightarrow> string" where
  "without_null s = py_replace ''null'' [CHR 34, CHR 34] s"

definition subrule_applies :: "'p cel_env \<Rightarrow> pydict \<Rightarrow> string \<Rightarrow> bool result" where
  "subrule_applies ce payload sub_rule =
     rbind (ce_compile ce sub_rule) (\<lambda>p.
       case ce_evaluate ce p payload of
         Inr r \<Rightarrow> Inr r
       | Inl e \<Rightarrow>
           if \<not> is_cel_error e then Inl e
           else if no_such_member e then Inr False
           else if no_overload e \<and> coerce_eq_type_error ce sub_rule payload then Inr True
           else Inl e)"

fun matching_subrules :: "'p cel_env \<Rightarrow> pydict \<Rightarrow> string list \<Rightarrow> string list result" where
  "matching_subrules ce payload [] = Inr []"
| "matching_subrules ce payload (s # ss) =
     rbind (subrule_applies ce payload (without_null s)) (\<lambda>r.
       rbind (matching_subrules ce payload ss) (\<lambda>ms. Inr (if r then without_null s # ms else ms)))"

definition check_if_rule_apply :: "'p cel_env \<Rightarrow> rule \<Rightarrow> pydict \<Rightarrow> string list result" where
  "check_if_rule_apply ce r event =
     rbind (first_source event) (\<lambda>source.
       rbind (sanitize_cel_payload (dset ''source'' source event)) (\<lambda>payload.
         matching_subrules ce payload (extract_subrules (ru_definition_cel r))))"

section \<open>Fingerprints\<close>

text \<open>\<open>value.get(part)\<close> on anything but a dictionary raises.\<close>

fun get_path :: "pyval \<Rightarrow> string list \<Rightarrow> pyval result" where
  "get_path v [] = Inr v"
| "get_path (PDict d) (p # ps) = get_path (dict_get d p PNone) ps"
| "get_path _ (p # ps) = Inl (Exn EAttributeError ''get'')"

definition str_item :: "pyval \<Rightarrow> string result" where
  "str_item v = (case v of PStr s \<Rightarrow> Inr s | _ \<Rightarrow> Inl (Exn ETypeError ''sequence item: expected str instance''))"

definition join_values :: "pyval list \<Rightarrow> string result" where
  "join_values vs = rbind (rmap str_item vs) (\<lambda>ss. Inr (py_join '','' ss))"

definition criteria_value :: "pydict \<Rightarrow> string \<Rightarrow> pyval result" where
  "criteria_value payload criteria =
     rbind (get_path (PDict payload) (py_split ''.'' criteria)) (\<lambda>v.
       case v of PList xs \<Rightarrow> rbind (join_values xs) (\<lambda>s. Inr (PStr s)) | _ \<Rightarrow> Inr v)"

definition hashable_value :: "pyval \<Rightarrow> bool" where
  "hashable_value v = (case v of PDict _ \<Rightarrow> False | PList _ \<Rightarrow> False | _ \<Rightarrow> True)"

definition level_value :: "string option \<Rightarrow> pyval \<Rightarrow> pyval result" where
  "level_value prop v =
     (case v of
        PDict d \<Rightarrow> let x = (case prop of Some p \<Rightarrow> dict_get d p PNone | None \<Rightarrow> PNone)
                  in if hashable_value x then Inr x else Inl (Exn ETypeError ''unhashable type'')
      | _ \<Rightarrow> Inl (Exn EAttributeError ''get''))"

text \<open>The set of values of a multi-level rule is a list without repetition.\<close>

definition calc_rule_fingerprint :: "pydict \<Rightarrow> rule \<Rightarrow> pyval list list result" where
  "calc_rule_fingerprint event r =
     (if \<not> ru_multi_level r then
        rbind (rmap (criteria_value event) (ru_grouping_criteria r)) (\<lambda>vs.
          Inr (if vs = [] \<or> PNone \<in> set vs then [[PStr ''none'']] else [vs]))
      else (case ru_grouping_criteria r of
              [] \<Rightarrow> Inr [[PStr ''none'']]
            | criteria # _ \<Rightarrow>
                rbind (get_path (PDict event) (py_split ''.'' criteria)) (\<lambda>v.
                  case v of
                    PDict d \<Rightarrow> rbind (rmap (\<lambda>kv. level_value (ru_multi_level_property r) (snd kv)) d)
                                 (\<lambda>vs. Inr (map (\<lambda>x. [x]) (remdups vs)))
                  | _ \<Rightarrow> Inr [[PStr ''none'']])))"

section \<open>Name templates\<close>

text \<open>\<open>re.findall\<close> of two braces, white space, characters other than a closing brace, white space, two braces.\<close>

definition variable_at :: "string \<Rightarrow> (string \<times> string) option" where
  "variable_at s =
     (if \<not> starts_with ''{{'' s then None
      else let r = drop 2 s; ws = takeWhile is_space r; body = dropWhile is_space r;
               group = takeWhile (\<lambda>c. c \<noteq> CHR ''}'') body; after = dropWhile (\<lambda>c. c \<noteq> CHR ''}'') body
           in if \<not> starts_with ''}}'' after then None
              else if group \<noteq> [] then Some (group, drop 2 after)
              else if ws \<noteq> [] then Some ([last ws], drop 2 after) else None)"

lemma variable_at_shorter: "variable_at s = Some (v, r) \<Longrightarrow> length r < length s"
  using length_dropWhile_le [of is_space "drop 2 s"]
    length_dropWhile_le [of "\<lambda>c. c \<noteq> CHR ''}''" "dropWhile is_space (drop 2 s)"]
  by (cases s) (auto simp: variable_at_def Let_def starts_with_def split: if_splits)

function get_variables :: "string \<Rightarrow> string list" where
  "get_variables s =
     (case s of [] \<Rightarrow> []
      | c # cs \<Rightarrow> (case variable_at s of Some (v, r) \<Rightarrow> v # get_variables r | None \<Rightarrow> get_variables cs))"
  by pat_completeness auto
termination
  by (relation "measure length") (auto dest: variable_at_shorter)

declare get_variables.simps [simp del]

text \<open>The pattern for one variable, at the start of a text: what is left after it.\<close>

definition placeholder_at :: "string \<Rightarrow> string \<Rightarrow> string option" where
  "placeholder_at var s =
     (if \<not> starts_with ''{{'' s then None
      else let r = drop 2 s; k = length (takeWhile is_space r)
           in (case List.find (\<lambda>n. starts_with var (drop n r)
                  \<and> starts_with ''}}'' (dropWhile is_space (drop (n + length var) r))) (rev [0..<Suc k]) of
                 Some n \<Rightarrow> Some (drop 2 (dropWhile is_space (drop (n + length var) r)))
               | None \<Rightarrow> None))"

lemma placeholder_at_shorter:
  assumes "placeholder_at var s = Some r" shows "length r < length s"
proof -
  obtain n where r: "starts_with ''{{'' s" "r = drop 2 (dropWhile is_space (drop (n + length var) (drop 2 s)))"
    using assms by (auto simp: placeholder_at_def Let_def split: if_splits option.splits)
  have "length (dropWhile is_space (drop (n + length var) (drop 2 s))) \<le> length s - 2"
    using length_dropWhile_le [of is_space "drop (n + length var) (drop 2 s)"] by simp
  moreover have "s \<noteq> []" using r(1) by (auto simp: starts_with_def)
  ultimately show ?thesis using r(2) by (cases s) auto
qed

function sub_placeholder :: "string \<Rightarrow> string \<Rightarrow> string \<Rightarrow> string" where
  "sub_placeholder var v s =
     (case s of [] \<Rightarrow> []
      | c # cs \<Rightarrow> (case placeholder_at var s of Some r \<Rightarrow> v @ sub_placeholder var v r | None \<Rightarrow> c # sub_placeholder var v cs))"
  by pat_completeness auto
termination
  by (relation "measure (\<lambda>(var, v, s). length s)") (auto dest: placeholder_at_shorter)

declare sub_placeholder.simps [simp del]

text \<open>The replacement of \<open>re.sub\<close> is a template: a backslash in it is an escape, which \<open>expand\<close> reads.\<close>

definition re_sub_placeholder :: "(string \<Rightarrow> string result) \<Rightarrow> string \<Rightarrow> string \<Rightarrow> string \<Rightarrow> string result" where
  "re_sub_placeholder expand var v s =
     (if CHR 0x5C \<in> set v then rbind (expand v) (\<lambda>v. Inr (sub_placeholder var v s)) else Inr (sub_placeholder var v s))"

fun walk :: "pyval \<Rightarrow> string list \<Rightarrow> pyval option" where
  "walk v [] = Some v"
| "walk (PDict d) (p # ps) = walk (dict_get d (py_strip p) PNone) ps"
| "walk _ (p # ps) = None"

definition get_value_from_event :: "pydict \<Rightarrow> string \<Rightarrow> string" where
  "get_value_from_event event var =
     (case walk (PDict event) (py_split ''.'' (py_replace ''alert.'' [] var)) of
        None \<Rightarrow> ''N/A'' | Some PNone \<Rightarrow> ''N/A'' | Some v \<Rightarrow> py_str v)"

text \<open>The name of a new incident: one pass per variable.\<close>

fun fill_name :: "(string \<Rightarrow> string result) \<Rightarrow> pydict \<Rightarrow> string list \<Rightarrow> string \<Rightarrow> string result" where
  "fill_name expand event [] name = Inr name"
| "fill_name expand event (v # vs) name =
     rbind (re_sub_placeholder expand v (get_value_from_event event v) name) (fill_name expand event vs)"

definition new_incident_name :: "(string \<Rightarrow> string result) \<Rightarrow> rule \<Rightarrow> string \<Rightarrow> pydict \<Rightarrow> string option result" where
  "new_incident_name expand r fingerprint event =
     rbind (case ru_name_template r of
              None \<Rightarrow> Inr None
            | Some [] \<Rightarrow> Inr None
            | Some t \<Rightarrow> if get_variables t = [] then Inr None
                else rbind (fill_name expand event (get_variables t) t) (\<lambda>n. Inr (Some n))) (\<lambda>name.
       Inr (if ru_multi_level r then
              Some (fingerprint @ '' - '' @ (case name of Some (c # cs) \<Rightarrow> c # cs | _ \<Rightarrow> ru_name r))
            else name))"

text \<open>The name of an incident that exists: every value once, over all variables.\<close>

fun add_values :: "string \<Rightarrow> pydict list \<Rightarrow> string list \<Rightarrow> string \<times> string list" where
  "add_values var [] seen = ([], seen)"
| "add_values var (a # as) seen =
     (let v = get_value_from_event a var
      in if v \<in> set seen then add_values var as seen
         else (case add_values var as (v # seen) of (t, seen) \<Rightarrow> (v @ '','' @ t, seen)))"

definition value_list :: "string \<Rightarrow> pydict list \<Rightarrow> pydict \<Rightarrow> string list \<Rightarrow> string \<times> string list" where
  "value_list var alerts event seen =
     (case add_values var alerts seen of
        (t, seen) \<Rightarrow>
          let v = get_value_from_event event var; t = (if v \<in> set seen then t else t @ v)
          in (if ends_with '','' t then butlast t else t, seen))"

fun merged_name :: "(string \<Rightarrow> string result) \<Rightarrow> pydict list \<Rightarrow> pydict \<Rightarrow> string list \<Rightarrow> string list \<Rightarrow> string \<Rightarrow> string result" where
  "merged_name expand alerts event [] seen name = Inr name"
| "merged_name expand alerts event (v # vs) seen name =
     (case value_list v alerts event seen of
        (t, seen) \<Rightarrow> rbind (re_sub_placeholder expand v t name) (merged_name expand alerts event vs seen))"

section \<open>Filtering alerts\<close>

definition join_source :: "pydict \<Rightarrow> pydict result" where
  "join_source payload =
     rbind (case dget payload ''source'' of
              None \<Rightarrow> Inl (Exn EKeyError ''source'')
            | Some (PList xs) \<Rightarrow> join_values xs
            | Some (PStr s) \<Rightarrow> Inr (py_join '','' (map (\<lambda>c. [c]) s))
            | Some _ \<Rightarrow> Inl (Exn ETypeError ''can only join an iterable''))
       (\<lambda>s. Inr (dset ''source'' (PStr s) payload))"

definition severity_as_order :: "pydict \<Rightarrow> pydict result" where
  "severity_as_order payload =
     (case dget payload ''severity'' of
        None \<Rightarrow> Inl (Exn EKeyError ''severity'')
      | Some (PStr s) \<Rightarrow>
          (case severity_order (py_lower s) of
             Some n \<Rightarrow> Inr (dset ''severity'' (PInt (int n)) payload)
           | None \<Rightarrow> Inl (Exn EValueError (repr_str (py_lower s) @ '' is not a valid AlertSeverity'')))
      | Some _ \<Rightarrow> Inr payload)"

definition alert_activation :: "pydict \<Rightarrow> pydict result" where
  "alert_activation payload = rbind (join_source payload) (\<lambda>p. rbind (severity_as_order p) sanitize_cel_payload)"

definition get_alerts_activation :: "pydict list \<Rightarrow> pydict list result" where
  "get_alerts_activation alerts = rmap alert_activation alerts"

text \<open>A \<open>ValueError\<close> other than an invalid name falls through to the test of the result variable, which
  still has the result of an earlier alert, or none.\<close>

definition filter_one :: "'p cel_env \<Rightarrow> string \<Rightarrow> 'p \<Rightarrow> pydict \<Rightarrow> bool option \<Rightarrow> (bool \<times> bool option) result" where
  "filter_one ce cel p activation r =
     (case ce_evaluate ce p activation of
        Inr b \<Rightarrow> Inr (b, Some b)
      | Inl e \<Rightarrow>
          if is_value_error (exn_kind e) then
            (if contains_sub ''Invalid name'' (exn_msg e) then Inr (False, r)
             else (case r of Some b \<Rightarrow> Inr (b, r) | None \<Rightarrow> Inl (Exn (EOther ''UnboundLocalError'') ''r'')))
          else if is_cel_error e \<and> \<not> no_such_member e \<and> no_overload e \<and> coerce_eq_type_error ce cel activation then
            Inr (True, r)
          else Inr (False, r))"

fun filter_loop ::
  "'p cel_env \<Rightarrow> string \<Rightarrow> 'p \<Rightarrow> pydict list option \<Rightarrow> bool option \<Rightarrow> pydict list \<Rightarrow> pydict list result" where
  "filter_loop ce cel p acts r [] = Inr []"
| "filter_loop ce cel p acts r (a # as) =
     rbind (case acts of
              None \<Rightarrow> alert_activation a
            | Some [] \<Rightarrow> Inl (Exn EIndexError ''list index out of range'')
            | Some (x # _) \<Rightarrow> Inr x) (\<lambda>activation.
       rbind (filter_one ce cel p activation r) (\<lambda>(keep, r).
         rbind (filter_loop ce cel p (map_option tl acts) r as) (\<lambda>kept. Inr (if keep then a # kept else kept))))"

definition filter_alerts :: "'p cel_env \<Rightarrow> pydict list \<Rightarrow> string \<Rightarrow> pydict list \<Rightarrow> pydict list result" where
  "filter_alerts ce alerts cel acts =
     (if cel = [] then Inr alerts
      else let cel = preprocess_cel_expression cel
           in rbind (ce_compile ce cel) (\<lambda>p.
                filter_loop ce cel p (if acts = [] then None else Some acts) None alerts))"

section \<open>Splitting into sub rules\<close>

definition occurs_free :: "string \<Rightarrow> bool" where
  "occurs_free r \<longleftrightarrow> \<not> contains_sub rule_sep r"

lemma contains_sub_iff: "p \<noteq> [] \<Longrightarrow> contains_sub p s \<longleftrightarrow> (\<exists>xs ys. s = xs @ p @ ys)"
proof
  show "p \<noteq> [] \<Longrightarrow> contains_sub p s \<Longrightarrow> \<exists>xs ys. s = xs @ p @ ys"
  proof (induction s)
    case (Cons c cs)
    then show ?case
      by (cases "starts_with p (c # cs)") (auto simp: contains_sub_def starts_with_append, metis append_Nil, metis append_Cons)
  qed (auto simp: contains_sub_def)
qed (auto simp: contains_sub_append)

text \<open>The separator does not overlap itself.\<close>

lemma rule_sep_overlap:
  assumes "u \<noteq> []" "v \<noteq> []" "u @ v = rule_sep" shows "\<not> starts_with v rule_sep"
proof
  assume "starts_with v rule_sep"
  then obtain w where w: "rule_sep = v @ w" by (auto simp: starts_with_append)
  have "last rule_sep = last v" using assms(2,3) by (metis last_append)
  then have "last v = CHR ''(''" by (simp add: rule_sep_def)
  then obtain v' where "v = v' @ ''(''" using assms(2) by (metis append_butlast_last_id)
  then have "rule_sep = v' @ ''('' @ w" using w by simp
  then have "v' = '') || ''" "w = []"
    unfolding rule_sep_def by (auto simp: append_eq_Cons_conv Cons_eq_append_conv)
  then show False using assms(1,3) w by (metis append_Nil2 append_self_conv2)
qed

lemma split_scan_skip: "k \<le> length s \<Longrightarrow> split_scan sep cur k s = split_scan sep cur 0 (drop k s)"
proof (induction k arbitrary: s)
  case (Suc k)
  then show ?case by (cases s) simp_all
qed simp

lemma split_scan_at_sep: "sep \<noteq> [] \<Longrightarrow> split_scan sep cur 0 (sep @ t) = rev cur # split_scan sep [] 0 t"
proof (cases sep)
  case (Cons c cs)
  then show ?thesis using split_scan_skip [of "length cs" "cs @ t" sep "[]"] by (simp add: starts_with_def)
qed simp

lemma split_scan_free:
  "(\<And>k. k < length r \<Longrightarrow> \<not> starts_with sep (drop k (r @ t))) \<Longrightarrow> split_scan sep cur 0 (r @ t) = split_scan sep (rev r @ cur) 0 t"
proof (induction r arbitrary: cur)
  case (Cons c r)
  have "\<not> starts_with sep (c # r @ t)" using Cons.prems [of 0] by simp
  moreover have "\<not> starts_with sep (drop k (r @ t))" if "k < length r" for k using Cons.prems [of "Suc k"] that by simp
  ultimately show ?case using Cons.IH by simp
qed simp

lemma free_before_sep:
  assumes "occurs_free r" "k < length r" shows "\<not> starts_with rule_sep (drop k (r @ rule_sep @ t))"
proof
  assume "starts_with rule_sep (drop k (r @ rule_sep @ t))"
  then obtain w where w: "drop k r @ rule_sep @ t = rule_sep @ w" using assms(2) by (auto simp: starts_with_append)
  have no: "drop k r \<noteq> rule_sep @ us" for us
  proof
    assume "drop k r = rule_sep @ us"
    then have "r = take k r @ rule_sep @ us" by (metis append_take_drop_id)
    then show False using assms(1) contains_sub_append [of rule_sep "take k r" us] by (simp add: occurs_free_def)
  qed
  from w obtain us where us: "drop k r @ us = rule_sep" "us @ w = rule_sep @ t"
    using no unfolding append_eq_append_conv2 by metis
  have "us \<noteq> []" using us(1) no [of "[]"] by auto
  have "length us \<le> length rule_sep" using us(1) by (metis le_add2 length_append)
  then have "starts_with us rule_sep" using us(2) by (auto simp: starts_with_append append_eq_append_conv2 intro: sym)
  then show False using rule_sep_overlap [OF _ \<open>us \<noteq> []\<close> us(1)] assms(2) by simp
qed

lemma free_at_end: "occurs_free r \<Longrightarrow> \<not> starts_with rule_sep (drop k r)"
  using contains_sub_append [of rule_sep "take k r"] by (auto simp: occurs_free_def starts_with_append) (metis append_take_drop_id)

lemma rule_sep_nonempty: "rule_sep \<noteq> []"
  by (simp add: rule_sep_def)

lemma split_join_free:
  "rs \<noteq> [] \<Longrightarrow> list_all occurs_free rs \<Longrightarrow> py_split rule_sep (py_join rule_sep rs) = rs"
proof -
  have "rs \<noteq> [] \<Longrightarrow> list_all occurs_free rs \<Longrightarrow> split_scan rule_sep [] 0 (py_join rule_sep rs) = rs" for rs
  proof (induction rs rule: induct_list012)
    case (2 r)
    then show ?case using split_scan_free [of r rule_sep "[]"] free_at_end [of r] by simp
  next
    case (3 r s rs)
    have "split_scan rule_sep [] 0 (r @ rule_sep @ py_join rule_sep (s # rs)) = r # split_scan rule_sep [] 0 (py_join rule_sep (s # rs))"
      using split_scan_free [of r rule_sep "rule_sep @ py_join rule_sep (s # rs)", OF free_before_sep [of r]] 3(4)
      by (simp add: split_scan_at_sep rule_sep_nonempty)
    then show ?case using 3 by simp
  qed simp
  then show "rs \<noteq> [] \<Longrightarrow> list_all occurs_free rs \<Longrightarrow> py_split rule_sep (py_join rule_sep rs) = rs"
    by (simp add: py_split_def)
qed

definition join_subrules :: "string list \<Rightarrow> string" where
  "join_subrules rs = (case rs of [r] \<Rightarrow> r | _ \<Rightarrow> ''('' @ py_join rule_sep rs @ '')'')"

lemma occurs_free_paren:
  assumes "occurs_free r"
  shows "occurs_free (CHR ''('' # r)" "occurs_free (r @ '')'')"
proof -
  have no: "\<not> starts_with rule_sep (drop k r)" for k using assms by (rule free_at_end)
  show "occurs_free (CHR ''('' # r)"
  proof (rule ccontr)
    assume "\<not> occurs_free (CHR ''('' # r)"
    then obtain xs ys where "CHR ''('' # r = xs @ rule_sep @ ys" by (auto simp: occurs_free_def contains_sub_iff rule_sep_nonempty)
    then obtain xs' where "r = xs' @ rule_sep @ ys" by (cases xs) (auto simp: rule_sep_def)
    then show False using assms contains_sub_append by (simp add: occurs_free_def)
  qed
  show "occurs_free (r @ '')'')"
  proof (rule ccontr)
    assume "\<not> occurs_free (r @ '')'')"
    then obtain xs ys where o: "r @ '')'' = xs @ rule_sep @ ys" by (auto simp: occurs_free_def contains_sub_iff rule_sep_nonempty)
    then have "ys \<noteq> []" by (auto simp: rule_sep_def)
    then obtain ys' where "r = xs @ rule_sep @ ys'" using o by (cases ys rule: rev_cases) auto
    then show False using assms contains_sub_append by (simp add: occurs_free_def)
  qed
qed

lemma join_wrapped:
  "py_join sep (r # s # rs) = r @ sep @ py_join sep (s # rs)"
  "rs \<noteq> [] \<Longrightarrow> py_join sep (butlast rs @ [last rs @ e]) = py_join sep rs @ e"
proof -
  show "rs \<noteq> [] \<Longrightarrow> py_join sep (butlast rs @ [last rs @ e]) = py_join sep rs @ e"
  proof (induction rs rule: induct_list012)
    case (3 x y zs)
    then show ?case by (simp add: py_join_Cons)
  qed simp_all
qed simp

text \<open>
  C15: joining at least two sub rules the way the comment of the code writes a rule, each in parentheses, and
  extracting them again yields the sub rules, provided none contains the separator itself.
\<close>

theorem subrules_roundtrip:
  assumes "list_all occurs_free rs" "rs \<noteq> []"
  shows "extract_subrules (join_subrules rs) = rs"
proof (cases "tl rs")
  case Nil
  with assms(2) obtain r where "rs = [r]" by (cases rs) auto
  then show ?thesis using assms split_join_free [of "[r]"] by (simp add: extract_subrules_def join_subrules_def)
next
  case (Cons y ys)
  with assms(2) obtain x where rs: "rs = x # y # ys" by (cases rs) auto
  let ?w = "(CHR ''('' # x) # butlast (y # ys) @ [last (y # ys) @ '')'']"
  have "list_all occurs_free ?w"
    using assms(1) rs occurs_free_paren [of x] occurs_free_paren [of "last (y # ys)"]
    by (auto simp: list_all_iff dest: in_set_butlastD)
  moreover have "join_subrules rs = py_join rule_sep ?w"
    using join_wrapped(2) [of "y # ys" rule_sep "'')''"] rs by (simp add: join_subrules_def py_join_Cons)
  ultimately have "py_split rule_sep (join_subrules rs) = ?w" using split_join_free [of ?w] by simp
  then show ?thesis using rs by (simp add: extract_subrules_def)
qed

theorem subrules_roundtrip_witness:
  "extract_subrules (join_subrules [''source == 1'', ''(a) || b'']) = [''source == 1'', ''(a) || b'']"
  by (rule subrules_roundtrip) code_simp+

section \<open>What a match means\<close>

text \<open>No key of the dictionary, of a dictionary in it or in a list in it, is empty or has a forbidden start.\<close>

fun clean_dict :: "pydict \<Rightarrow> bool" and clean_list :: "pyval list \<Rightarrow> bool" where
  "clean_dict [] \<longleftrightarrow> True"
| "clean_dict ((k, v) # d) \<longleftrightarrow>
     k \<noteq> [] \<and> hd k \<notin> forbidden_starts
     \<and> (case v of PDict e \<Rightarrow> clean_dict e | PList xs \<Rightarrow> clean_list xs | _ \<Rightarrow> True) \<and> clean_dict d"
| "clean_list [] \<longleftrightarrow> True"
| "clean_list (x # xs) \<longleftrightarrow> (case x of PDict e \<Rightarrow> clean_dict e | _ \<Rightarrow> True) \<and> clean_list xs"

lemma sanitize_clean:
  "sanitize_dict d = Inr d' \<Longrightarrow> clean_dict d'"
  "sanitize_list xs = Inr xs' \<Longrightarrow> clean_list xs'"
proof (induction d and xs arbitrary: d' and xs' rule: sanitize_dict_sanitize_list.induct)
  case (2 k v d)
  then show ?case
    by (cases k; cases v) (auto simp: rbind_Inr_iff split: if_splits)
next
  case (4 x xs)
  then show ?case by (cases x) (auto simp: rbind_Inr_iff)
qed auto

lemma sanitize_keys:
  "sanitize_dict d = Inr d' \<Longrightarrow> map fst d' = filter (\<lambda>k. hd k \<notin> forbidden_starts) (map fst d)"
proof (induction d arbitrary: d')
  case (Cons kv d)
  obtain k v where kv: "kv = (k, v)" by (cases kv)
  show ?case using Cons kv by (cases k) (auto simp: rbind_Inr_iff split: if_splits)
qed simp

text \<open>The value the code gives to one sub rule.\<close>

definition holds_for :: "'p cel_env \<Rightarrow> pydict \<Rightarrow> string \<Rightarrow> bool" where
  "holds_for ce payload s \<longleftrightarrow>
     (case ce_compile ce (without_null s) of
        Inl _ \<Rightarrow> False
      | Inr p \<Rightarrow>
          (case ce_evaluate ce p payload of
             Inr b \<Rightarrow> b
           | Inl e \<Rightarrow> is_cel_error e \<and> \<not> no_such_member e \<and> no_overload e
               \<and> coerce_eq_type_error ce (without_null s) payload))"

lemma subrule_applies_holds: "subrule_applies ce payload (without_null s) = Inr b \<Longrightarrow> b \<longleftrightarrow> holds_for ce payload s"
  by (cases "ce_compile ce (without_null s)")
    (auto simp: subrule_applies_def holds_for_def split: sum.splits if_splits)

lemma matching_subrules_holds:
  "matching_subrules ce payload ss = Inr ms \<Longrightarrow> ms = map without_null (filter (holds_for ce payload) ss)"
proof (induction ss arbitrary: ms)
  case (Cons s ss)
  then show ?case using subrule_applies_holds [of ce payload s] by (auto simp: rbind_Inr_iff)
qed simp


definition example_cel :: "string cel_env" where
  "example_cel = \<lparr>ce_compile = Inr, ce_evaluate = (\<lambda>p d. case dget d p of
       Some (PBool b) \<Rightarrow> Inr b
     | Some _ \<Rightarrow> Inl (Exn (EOther ''CELEvalError'') ''no such overload'')
     | None \<Rightarrow> Inl (Exn (EOther ''CELEvalError'') ''no such member'')),
     ce_str = py_str, ce_float_str = (\<lambda>_. None)\<rparr>"

definition example_rule :: rule where
  "example_rule = \<lparr>ru_id = ''r'', ru_tenant_id = ''t'', ru_name = ''rule'', ru_definition_cel = ''(up) || (down)'',
     ru_timeframe = 600, ru_grouping_criteria = [''labels.queue''], ru_require_approve = False, ru_resolve_on = ''never'',
     ru_create_on = ''any'', ru_is_deleted = False, ru_name_template = None, ru_incident_prefix = None,
     ru_multi_level = False, ru_multi_level_property = None, ru_threshold = 1, ru_assignee = None\<rparr>"

definition example_event :: pydict where
  "example_event = [(''fingerprint'', PStr ''f''), (''status'', PStr ''firing''), (''source'', PList [PStr ''p'']), (''up'', PBool True),
     (''@x'', PInt 1), (''labels'', PDict [(''queue'', PStr ''q'')])]"


end
