(* ===== verification/AlertStore.thy ===== *)
theory AlertStore
  imports PyStrings "HOL-Library.List_Lexorder" "HOL-Library.Char_ord"
begin

text \<open>
  The alert tables of \<open>src/common/core/db.py\<close> (\<open>src/common/models/db/alert.py\<close>): occurrences, the last
  alert of every fingerprint with its typed enrichment and tracking columns, the audit trail and the
  enrichments of incidents; the writers \<open>set_last_alert\<close>, \<open>enrich_entity\<close> and \<open>batch_enrich\<close>;
  the expiry of dismissals (\<open>src/common/bl/dismissal_expiry_bl.py\<close>); and the counters of
  \<open>src/common/utils/enrichment_helpers.py\<close>.

  A table is the list of its rows, a transaction a function from database to result and database.
  The value of a timestamp column is its instant, \<open>PInt\<close> of microseconds.  \<open>store c v\<close> is what the
  database makes of the non-null value \<open>v\<close> written to column \<open>c\<close>, an exception when it refuses it.
\<close>

section \<open>Tables\<close>

record alert =
  al_id :: string
  al_tenant_id :: string
  al_timestamp :: int
  al_fingerprint :: string
  al_name :: "string option"
  al_status :: "string option"
  al_alert_hash :: "string option"
  al_provider_type :: string
  al_provider_id :: "string option"
  al_fields :: pydict

record last_alert =
  la_tenant_id :: string
  la_fingerprint :: string
  la_alert_id :: string
  la_timestamp :: int
  la_first_timestamp :: int
  la_alert_hash :: "string option"
  la_cols :: pydict

record alert_audit =
  au_tenant_id :: string
  au_fingerprint :: string
  au_user_id :: string
  au_action :: string
  au_description :: string

record incident_enrichment =
  ie_tenant_id :: string
  ie_incident_id :: string
  ie_enrichments :: pydict

text \<open>\<open>adb_incident_ids\<close> are the keys of the incident table, which a foreign key refers to.\<close>

record alert_db =
  adb_alerts :: "alert list"
  adb_last_alerts :: "last_alert list"
  adb_audits :: "alert_audit list"
  adb_incident_enrichments :: "incident_enrichment list"
  adb_incident_ids :: "string list"

definition LASTALERT_ENRICHMENT_COLUMNS :: "string list" where
  "LASTALERT_ENRICHMENT_COLUMNS =
     [''status'', ''status_disposable'', ''dismiss_mode'', ''dismissed_until'', ''assignee'', ''note'', ''deleted'',
      ''ticket_type'', ''ticket_url'', ''ticket_provider_id'']"

definition LASTALERT_TRACKING_COLUMNS :: "string list" where
  "LASTALERT_TRACKING_COLUMNS =
     [''last_received'', ''firing_counter'', ''unresolved_counter'', ''started_at'', ''firing_start_time'',
      ''firing_start_time_since_last_resolved'']"

definition not_null_columns :: "string list" where
  "not_null_columns = [''status_disposable'', ''deleted'', ''firing_counter'', ''unresolved_counter'']"

definition default_columns :: pydict where
  "default_columns =
     [(''status'', PNone), (''status_disposable'', PBool False), (''dismiss_mode'', PNone),
      (''dismissed_until'', PNone), (''assignee'', PNone), (''note'', PNone), (''deleted'', PBool False),
      (''ticket_type'', PNone), (''ticket_url'', PNone), (''ticket_provider_id'', PNone),
      (''last_received'', PNone), (''firing_counter'', PInt 0), (''unresolved_counter'', PInt 0),
      (''started_at'', PNone), (''firing_start_time'', PNone),
      (''firing_start_time_since_last_resolved'', PNone)]"

definition la_key :: "last_alert \<Rightarrow> string \<times> string" where
  "la_key la = (la_tenant_id la, la_fingerprint la)"

definition la_col :: "last_alert \<Rightarrow> string \<Rightarrow> pyval" where
  "la_col la c = dict_get (la_cols la) c PNone"

definition put_last_alert :: "last_alert \<Rightarrow> last_alert list \<Rightarrow> last_alert list" where
  "put_last_alert la las =
     (if la_key la \<in> set (map la_key las) then map (\<lambda>l. if la_key l = la_key la then la else l) las
      else las @ [la])"

section \<open>Reads\<close>

text \<open>\<open>ORDER BY timestamp DESC\<close>; rows of the same time come in the order of the table.\<close>

definition newest_alerts :: "alert list \<Rightarrow> alert list" where
  "newest_alerts als = sort_key (\<lambda>a. - al_timestamp a) als"

definition take_limit :: "nat option \<Rightarrow> 'a list \<Rightarrow> 'a list" where
  "take_limit limit xs = (case limit of Some n \<Rightarrow> if n = 0 then xs else take n xs | None \<Rightarrow> xs)"

definition get_alerts_by_fingerprint ::
  "string \<Rightarrow> string \<Rightarrow> nat option \<Rightarrow> string option \<Rightarrow> alert_db \<Rightarrow> alert list" where
  "get_alerts_by_fingerprint tenant_id fingerprint limit status db =
     take_limit limit
       (newest_alerts
         (filter (\<lambda>a. al_tenant_id a = tenant_id \<and> al_fingerprint a = fingerprint
            \<and> (case status of Some s \<Rightarrow> s = [] \<or> al_status a = Some s | None \<Rightarrow> True)) (adb_alerts db)))"

definition get_all_alerts_by_fingerprints :: "string \<Rightarrow> string list \<Rightarrow> alert_db \<Rightarrow> alert list" where
  "get_all_alerts_by_fingerprints tenant_id fingerprints db =
     newest_alerts (filter (\<lambda>a. al_tenant_id a = tenant_id \<and> al_fingerprint a \<in> set fingerprints) (adb_alerts db))"

definition get_alert_by_event_id :: "string \<Rightarrow> string \<Rightarrow> alert_db \<Rightarrow> alert option result" where
  "get_alert_by_event_id tenant_id event_id db =
     (case uuid_hex event_id of
        None \<Rightarrow> Inl (Exn EValueError ''badly formed hexadecimal UUID string'')
      | Some h \<Rightarrow> Inr (find (\<lambda>a. al_tenant_id a = tenant_id \<and> uuid_hex (al_id a) = Some h) (adb_alerts db)))"

definition get_alerts_by_ids :: "string \<Rightarrow> string list \<Rightarrow> alert_db \<Rightarrow> alert list" where
  "get_alerts_by_ids tenant_id alert_ids db =
     filter (\<lambda>a. al_tenant_id a = tenant_id \<and> al_id a \<in> set alert_ids) (adb_alerts db)"

definition get_previous_alert_by_fingerprint :: "string \<Rightarrow> string \<Rightarrow> alert_db \<Rightarrow> alert option" where
  "get_previous_alert_by_fingerprint tenant_id fingerprint db =
     (case take 2 (newest_alerts (filter (\<lambda>a. al_tenant_id a = tenant_id \<and> al_fingerprint a = fingerprint)
        (adb_alerts db))) of
        [_, a] \<Rightarrow> Some a
      | _ \<Rightarrow> None)"

definition get_alerts_by_status :: "string \<Rightarrow> alert_db \<Rightarrow> alert list" where
  "get_alerts_by_status status db = filter (\<lambda>a. al_status a = Some status) (adb_alerts db)"

definition get_last_alerts_by_fingerprints :: "string \<Rightarrow> string list \<Rightarrow> alert_db \<Rightarrow> last_alert list" where
  "get_last_alerts_by_fingerprints tenant_id fingerprints db =
     filter (\<lambda>la. la_tenant_id la = tenant_id \<and> la_fingerprint la \<in> set fingerprints) (adb_last_alerts db)"

definition get_last_alert_by_fingerprint :: "string \<Rightarrow> string \<Rightarrow> alert_db \<Rightarrow> last_alert option" where
  "get_last_alert_by_fingerprint tenant_id fingerprint db =
     find (\<lambda>la. la_tenant_id la = tenant_id \<and> la_fingerprint la = fingerprint) (adb_last_alerts db)"

definition get_started_at_for_alerts :: "string \<Rightarrow> string list \<Rightarrow> alert_db \<Rightarrow> (string \<times> int) list" where
  "get_started_at_for_alerts tenant_id fingerprints db =
     dupdate [] (map (\<lambda>la. (la_fingerprint la, la_first_timestamp la))
       (get_last_alerts_by_fingerprints tenant_id fingerprints db))"

definition get_last_alert_hashes_by_fingerprints ::
  "string \<Rightarrow> string list \<Rightarrow> alert_db \<Rightarrow> (string \<times> string) list" where
  "get_last_alert_hashes_by_fingerprints tenant_id fingerprints db =
     dupdate [] (concat (map (\<lambda>la. case la_alert_hash la of None \<Rightarrow> [] | Some h \<Rightarrow> [(la_fingerprint la, h)])
       (get_last_alerts_by_fingerprints tenant_id fingerprints db)))"

definition build_enrichments :: "last_alert \<Rightarrow> pydict" where
  "build_enrichments la =
     concat (map (\<lambda>c.
       (if c = ''status_disposable'' then []
        else (case (c = ''dismissed_until'', la_col la c) of
                (_, PNone) \<Rightarrow> []
              | (True, PInt us) \<Rightarrow> [(c, PStr (iso_millis us))]
              | (_, v) \<Rightarrow> [(c, v)]))) LASTALERT_ENRICHMENT_COLUMNS)"

definition get_enrichment :: "string \<Rightarrow> string \<Rightarrow> alert_db \<Rightarrow> pydict option" where
  "get_enrichment tenant_id fingerprint db =
     map_option build_enrichments (get_last_alert_by_fingerprint tenant_id fingerprint db)"

definition get_enrichments :: "string \<Rightarrow> string list \<Rightarrow> alert_db \<Rightarrow> (string \<times> pydict) list" where
  "get_enrichments tenant_id fingerprints db =
     map (\<lambda>la. (la_fingerprint la, build_enrichments la))
       (get_last_alerts_by_fingerprints tenant_id fingerprints db)"

section \<open>Writing columns\<close>

type_synonym store = "string \<Rightarrow> pyval \<Rightarrow> pyval result"

definition column_value :: "store \<Rightarrow> string \<Rightarrow> pyval \<Rightarrow> pyval result" where
  "column_value store c v =
     (if v = PNone then
        (if c \<in> set not_null_columns then Inl (Exn EIntegrityError (''null value in column '' @ c)) else Inr PNone)
      else store c v)"

fun set_columns :: "store \<Rightarrow> pydict \<Rightarrow> pydict \<Rightarrow> pydict result" where
  "set_columns store [] cols = Inr cols"
| "set_columns store ((c, v) # kvs) cols =
     rbind (column_value store c v) (\<lambda>w. set_columns store kvs (dset c w cols))"

definition write_columns :: "store \<Rightarrow> pydict \<Rightarrow> last_alert \<Rightarrow> last_alert result" where
  "write_columns store kvs la = rbind (set_columns store kvs (la_cols la)) (\<lambda>cols. Inr (la\<lparr>la_cols := cols\<rparr>))"

definition add_audit ::
  "string \<Rightarrow> string \<Rightarrow> string \<Rightarrow> string \<Rightarrow> string \<Rightarrow> alert_db \<Rightarrow> alert_db" where
  "add_audit tenant_id fingerprint user_id action description db =
     db\<lparr>adb_audits := adb_audits db @ [\<lparr>au_tenant_id = tenant_id, au_fingerprint = fingerprint,
          au_user_id = user_id, au_action = action, au_description = description\<rparr>]\<rparr>"

section \<open>Normalising enrichments\<close>

definition setdefault :: "string \<Rightarrow> pyval \<Rightarrow> pydict \<Rightarrow> pydict" where
  "setdefault k v d = (if dget d k = None then dset k v d else d)"

definition translate_dismissed :: "pydict \<Rightarrow> pydict" where
  "translate_dismissed enrichments =
     (case dget enrichments ''dismissed'' of
        Some dismissed \<Rightarrow>
          (let d = dpop ''dismissed'' enrichments;
               ts = dict_get d ''dismissed_until'' PNone;
               (ts, d) = (if ts = PNone then (dict_get d ''dismiss_until'' PNone, dpop ''dismiss_until'' d) else (ts, d))
           in if truthy dismissed then
                (let d = setdefault ''status'' (PStr ''suppressed'') d
                 in if truthy ts then dset ''dismissed_until'' ts (dset ''dismiss_mode'' (PStr ''dismiss_until'') d)
                    else setdefault ''dismiss_mode'' (PStr ''permanent'') d)
              else dset ''dismissed_until'' PNone (dset ''dismiss_mode'' PNone (setdefault ''status'' PNone d)))
      | None \<Rightarrow>
          (case dget enrichments ''dismiss_until'' of
             Some dismiss_until \<Rightarrow>
               (let d = dpop ''dismiss_until'' enrichments
                in if truthy dismiss_until then
                     dset ''dismissed_until'' dismiss_until
                       (dset ''dismiss_mode'' (PStr ''dismiss_until'')
                         (setdefault ''status'' (PStr ''suppressed'') d))
                   else d)
           | None \<Rightarrow>
               (case dget enrichments ''dismiss_mode'' of
                  Some mode \<Rightarrow>
                    (if truthy mode then setdefault ''status'' (PStr ''suppressed'') enrichments
                     else setdefault ''dismissed_until'' PNone (setdefault ''status'' PNone enrichments))
                | None \<Rightarrow> enrichments)))"

definition unknown_keys :: "pydict \<Rightarrow> string list" where
  "unknown_keys d = sort (filter (\<lambda>k. k \<notin> set LASTALERT_ENRICHMENT_COLUMNS) (map fst d))"

definition normalize_alert_enrichments :: "pydict \<Rightarrow> bool \<Rightarrow> pydict result" where
  "normalize_alert_enrichments enrichments strict =
     (let translated = translate_dismissed enrichments; unknown = unknown_keys translated
      in if unknown \<noteq> [] \<and> strict then
           Inl (Exn EValueError (''Unknown enrichment key(s) not allowed in the strict schema: ''
             @ py_repr (PList (map PStr unknown))))
         else Inr (fold dpop unknown translated))"

definition note_is_empty :: "pyval \<Rightarrow> bool" where
  "note_is_empty note \<longleftrightarrow> \<not> truthy note \<or> (case note of PStr s \<Rightarrow> py_strip s = [] | _ \<Rightarrow> False)"

section \<open>Enriching incidents\<close>

definition read_incident_enrichment :: "string \<Rightarrow> string \<Rightarrow> alert_db \<Rightarrow> incident_enrichment option" where
  "read_incident_enrichment tenant_id h db =
     find (\<lambda>e. ie_tenant_id e = tenant_id \<and> ie_incident_id e = h) (adb_incident_enrichments db)"

fun drop_nones :: "pydict \<Rightarrow> pydict \<Rightarrow> pydict" where
  "drop_nones [] d = d"
| "drop_nones ((k, v) # kvs) d = drop_nones kvs (if v = PNone then dpop k d else d)"

definition merged_enrichments :: "bool \<Rightarrow> pydict \<Rightarrow> pydict \<Rightarrow> pydict" where
  "merged_enrichments force existing enrichments =
     (let d = (if force then enrichments else dupdate existing enrichments);
          d = (if \<not> force \<and> note_is_empty (dict_get enrichments ''note'' PNone)
                  \<and> truthy (dict_get existing ''note'' PNone)
               then dset ''note'' (dict_get existing ''note'' PNone) d else d)
      in drop_nones enrichments d)"

definition replace_incident_enrichment ::
  "string \<Rightarrow> pydict \<Rightarrow> incident_enrichment list \<Rightarrow> incident_enrichment list" where
  "replace_incident_enrichment h d es = map (\<lambda>e. if ie_incident_id e = h then e\<lparr>ie_enrichments := d\<rparr> else e) es"

text \<open>An insert is refused when the incident does not exist or has a row already.\<close>

definition can_insert_enrichment :: "string \<Rightarrow> alert_db \<Rightarrow> bool" where
  "can_insert_enrichment h db \<longleftrightarrow>
     h \<in> set (adb_incident_ids db) \<and> h \<notin> set (map ie_incident_id (adb_incident_enrichments db))"

definition enrich_incident ::
  "string \<Rightarrow> string \<Rightarrow> pydict \<Rightarrow> string \<Rightarrow> string \<Rightarrow> string \<Rightarrow> bool \<Rightarrow> bool \<Rightarrow> alert_db
     \<Rightarrow> pydict option result \<times> alert_db" where
  "enrich_incident tenant_id fingerprint enrichments action callee description force audit_enabled db =
     (case uuid_hex fingerprint of
        None \<Rightarrow> (Inl (Exn EValueError ''badly formed hexadecimal UUID string''), db)
      | Some h \<Rightarrow>
          let audit = (\<lambda>db. if audit_enabled then add_audit tenant_id (uuid_str h) callee action description db else db)
          in (case read_incident_enrichment tenant_id h db of
                Some e \<Rightarrow>
                  let d = merged_enrichments force (ie_enrichments e) enrichments
                  in (Inr (Some d), audit (db\<lparr>adb_incident_enrichments :=
                        replace_incident_enrichment h d (adb_incident_enrichments db)\<rparr>))
              | None \<Rightarrow>
                  if can_insert_enrichment h db then
                    (Inr (Some enrichments), audit (db\<lparr>adb_incident_enrichments := adb_incident_enrichments db
                       @ [\<lparr>ie_tenant_id = tenant_id, ie_incident_id = h, ie_enrichments = enrichments\<rparr>]\<rparr>))
                  else (Inr None, db)))"

definition incident_uuid :: "string \<Rightarrow> string result" where
  "incident_uuid s = (case uuid_hex s of None \<Rightarrow> Inl (Exn EValueError ''badly formed hexadecimal UUID string'')
     | Some h \<Rightarrow> Inr h)"

text \<open>The batch: updates first, then the inserts, and one commit; an insert that is refused rolls
  everything back.\<close>

fun insert_enrichments ::
  "string \<Rightarrow> pydict \<Rightarrow> string list \<Rightarrow> alert_db \<Rightarrow> alert_db result" where
  "insert_enrichments tenant_id enrichments [] db = Inr db"
| "insert_enrichments tenant_id enrichments (h # hs) db =
     (if can_insert_enrichment h db then
        insert_enrichments tenant_id enrichments hs (db\<lparr>adb_incident_enrichments := adb_incident_enrichments db
          @ [\<lparr>ie_tenant_id = tenant_id, ie_incident_id = h, ie_enrichments = enrichments\<rparr>]\<rparr>)
      else Inl (Exn EIntegrityError ''duplicate key or missing incident''))"

definition batch_enrich_incident ::
  "string \<Rightarrow> string list \<Rightarrow> pydict \<Rightarrow> string \<Rightarrow> string \<Rightarrow> string \<Rightarrow> bool \<Rightarrow> alert_db
     \<Rightarrow> incident_enrichment list result \<times> alert_db" where
  "batch_enrich_incident tenant_id fingerprints enrichments action callee description audit_enabled db =
     (case rmap incident_uuid fingerprints of
        Inl e \<Rightarrow> (Inl e, db)
      | Inr hs \<Rightarrow>
          let old = (\<lambda>h. read_incident_enrichment tenant_id h db);
              updated = db\<lparr>adb_incident_enrichments := map (\<lambda>e.
                if ie_tenant_id e = tenant_id \<and> ie_incident_id e \<in> set hs
                then e\<lparr>ie_enrichments := merged_enrichments False (ie_enrichments e) enrichments\<rparr> else e)
                (adb_incident_enrichments db)\<rparr>
          in (case insert_enrichments tenant_id enrichments (filter (\<lambda>h. old h = None) hs) updated of
                Inl e \<Rightarrow> (Inl e, db)
              | Inr db' \<Rightarrow>
                  (Inr (filter (\<lambda>e. ie_tenant_id e = tenant_id \<and> ie_incident_id e \<in> set hs)
                     (adb_incident_enrichments db')),
                   if audit_enabled then
                     fold (\<lambda>h. add_audit tenant_id (uuid_str h) callee action description) hs db'
                   else db')))"

section \<open>Enriching alerts\<close>

definition note_guard :: "bool \<Rightarrow> pydict \<Rightarrow> pydict" where
  "note_guard force translated =
     (if \<not> force \<and> dget translated ''note'' \<noteq> None \<and> note_is_empty (dict_get translated ''note'' PNone)
      then dpop ''note'' translated else translated)"

definition enrich_alert ::
  "store \<Rightarrow> string \<Rightarrow> string \<Rightarrow> pydict \<Rightarrow> string \<Rightarrow> string \<Rightarrow> string \<Rightarrow> bool \<Rightarrow> bool \<Rightarrow> bool \<Rightarrow> alert_db
     \<Rightarrow> pydict option result \<times> alert_db" where
  "enrich_alert store tenant_id fingerprint enrichments action callee description force audit_enabled strict db =
     (case normalize_alert_enrichments enrichments strict of
        Inl e \<Rightarrow> (Inl e, db)
      | Inr translated \<Rightarrow>
          let audit = (\<lambda>db. if audit_enabled then add_audit tenant_id fingerprint callee action description db else db)
          in (case get_last_alert_by_fingerprint tenant_id fingerprint db of
                None \<Rightarrow> (Inr None, audit db)
              | Some la \<Rightarrow>
                  (case write_columns store (note_guard force translated) la of
                     Inl e \<Rightarrow> (Inl e, db)
                   | Inr la' \<Rightarrow>
                       (Inr (Some (build_enrichments la')),
                        audit (db\<lparr>adb_last_alerts := put_last_alert la' (adb_last_alerts db)\<rparr>)))))"

definition enrich_entity ::
  "store \<Rightarrow> string \<Rightarrow> string \<Rightarrow> pydict \<Rightarrow> string \<Rightarrow> string \<Rightarrow> string \<Rightarrow> bool \<Rightarrow> bool \<Rightarrow> string \<Rightarrow> bool
     \<Rightarrow> alert_db \<Rightarrow> pydict option result \<times> alert_db" where
  "enrich_entity store tenant_id fingerprint enrichments action callee description force audit_enabled
     entity_type strict db =
     (if entity_type = ''incident'' then
        enrich_incident tenant_id fingerprint enrichments action callee description force audit_enabled db
      else enrich_alert store tenant_id fingerprint enrichments action callee description force audit_enabled
        strict db)"

text \<open>The rows are loaded once, written one after the other and committed together.\<close>

definition batch_one ::
  "store \<Rightarrow> string \<Rightarrow> pydict \<Rightarrow> string \<Rightarrow> alert_db \<Rightarrow> alert_db result" where
  "batch_one store tenant_id translated fingerprint db =
     (case get_last_alert_by_fingerprint tenant_id fingerprint db of
        None \<Rightarrow> Inr db
      | Some la \<Rightarrow>
          rbind (write_columns store translated la)
            (\<lambda>la'. Inr (db\<lparr>adb_last_alerts := put_last_alert la' (adb_last_alerts db)\<rparr>)))"

fun batch_loop :: "store \<Rightarrow> string \<Rightarrow> pydict \<Rightarrow> string list \<Rightarrow> alert_db \<Rightarrow> alert_db result" where
  "batch_loop store tenant_id translated [] db = Inr db"
| "batch_loop store tenant_id translated (fp # fps) db =
     rbind (batch_one store tenant_id translated fp db) (batch_loop store tenant_id translated fps)"

definition batch_enrich ::
  "store \<Rightarrow> string \<Rightarrow> string list \<Rightarrow> pydict \<Rightarrow> string \<Rightarrow> string \<Rightarrow> string \<Rightarrow> bool \<Rightarrow> bool \<Rightarrow> alert_db
     \<Rightarrow> (string \<times> pydict) list result \<times> alert_db" where
  "batch_enrich store tenant_id fingerprints enrichments action callee description audit_enabled strict db =
     (case normalize_alert_enrichments enrichments strict of
        Inl e \<Rightarrow> (Inl e, db)
      | Inr translated \<Rightarrow>
          (case batch_loop store tenant_id (note_guard False translated) fingerprints db of
             Inl e \<Rightarrow> (Inl e, db)
           | Inr db' \<Rightarrow>
               (Inr (concat (map (\<lambda>fp. case get_last_alert_by_fingerprint tenant_id fp db' of
                         None \<Rightarrow> [] | Some la \<Rightarrow> [(fp, build_enrichments la)]) fingerprints)),
                if audit_enabled then fold (\<lambda>fp. add_audit tenant_id fp callee action description) fingerprints db'
                else db')))"

section \<open>Recording an occurrence\<close>

definition tracked :: "pydict option \<Rightarrow> pydict" where
  "tracked tracking =
     (case tracking of None \<Rightarrow> [] | Some d \<Rightarrow> filter (\<lambda>(c, v). c \<in> set LASTALERT_TRACKING_COLUMNS) d)"

text \<open>What a new occurrence does to a status set by a user: a disposable one goes with the next
  firing, an undismissed one with the resolution.\<close>

definition clear_on_occurrence :: "bool \<Rightarrow> pydict \<Rightarrow> pydict" where
  "clear_on_occurrence resolved cols =
     (if \<not> resolved then
        (if truthy (dict_get cols ''status_disposable'' PNone)
         then dset ''status_disposable'' (PBool False) (dset ''status'' PNone cols) else cols)
      else if dict_get cols ''dismiss_mode'' PNone \<in> {PStr ''permanent'', PStr ''dismiss_until''} then cols
      else dset ''dismissed_until'' PNone (dset ''dismiss_mode'' PNone (dset ''status'' PNone cols)))"

definition set_last_alert_once ::
  "store \<Rightarrow> string \<Rightarrow> alert \<Rightarrow> pydict option \<Rightarrow> alert_db \<Rightarrow> alert_db result" where
  "set_last_alert_once store tenant_id a tracking db =
     (case get_last_alert_by_fingerprint tenant_id (al_fingerprint a) db of
        Some la \<Rightarrow>
          (if la_timestamp la < al_timestamp a then
             rbind (set_columns store (tracked tracking) (la_cols la)) (\<lambda>cols.
               Inr (db\<lparr>adb_last_alerts := put_last_alert
                 (la\<lparr>la_timestamp := al_timestamp a, la_alert_id := al_id a, la_alert_hash := al_alert_hash a,
                    la_cols := clear_on_occurrence (al_status a = Some ''resolved'') cols\<rparr>) (adb_last_alerts db)\<rparr>))
           else Inr db)
      | None \<Rightarrow>
          rbind (set_columns store (tracked tracking) default_columns) (\<lambda>cols.
            Inr (db\<lparr>adb_last_alerts := put_last_alert
              \<lparr>la_tenant_id = tenant_id, la_fingerprint = al_fingerprint a, la_alert_id = al_id a,
               la_timestamp = al_timestamp a, la_first_timestamp = al_timestamp a,
               la_alert_hash = al_alert_hash a, la_cols = cols\<rparr> (adb_last_alerts db)\<rparr>)))"

definition retryable :: "exn \<Rightarrow> bool" where
  "retryable e =
     (if exn_kind e = EOther ''OperationalError'' then
        contains_sub ''no such savepoint'' (exn_msg e) \<or> contains_sub ''Deadlock found'' (exn_msg e)
      else exn_kind e \<in> {EIntegrityError, EOther ''NoActiveSqlTransaction'', EOther ''InternalError''})"

text \<open>\<open>faults n\<close> is the exception the database raises in attempt \<open>n\<close>, if any; the first argument counts
  the attempts that are left.\<close>

fun set_last_alert_attempts ::
  "nat \<Rightarrow> nat \<Rightarrow> (nat \<Rightarrow> exn option) \<Rightarrow> (alert_db \<Rightarrow> alert_db result) \<Rightarrow> alert_db \<Rightarrow> unit result \<times> alert_db" where
  "set_last_alert_attempts 0 attempt faults transaction db =
     (Inl (Exn (EOther ''RuntimeError'') ''Failed to set last alert''), db)"
| "set_last_alert_attempts (Suc n) attempt faults transaction db =
     (case (case faults attempt of Some e \<Rightarrow> Inl e | None \<Rightarrow> transaction db) of
        Inr db' \<Rightarrow> (Inr (), db')
      | Inl e \<Rightarrow> if retryable e \<and> n \<noteq> 0 then set_last_alert_attempts n (Suc attempt) faults transaction db
          else (Inl e, db))"

definition set_last_alert ::
  "(nat \<Rightarrow> exn option) \<Rightarrow> store \<Rightarrow> string \<Rightarrow> alert \<Rightarrow> nat \<Rightarrow> pydict option \<Rightarrow> alert_db \<Rightarrow> unit result \<times> alert_db" where
  "set_last_alert faults store tenant_id a max_retries tracking db =
     set_last_alert_attempts max_retries 1 faults (set_last_alert_once store tenant_id a tracking) db"

section \<open>Expiry of dismissals\<close>

definition expired_dismissal :: "int \<Rightarrow> last_alert \<Rightarrow> bool" where
  "expired_dismissal now la \<longleftrightarrow> la_col la ''dismiss_mode'' = PStr ''dismiss_until''
     \<and> (case la_col la ''dismissed_until'' of PInt t \<Rightarrow> t < now | _ \<Rightarrow> False)"

definition get_alerts_with_expired_dismissals :: "int \<Rightarrow> alert_db \<Rightarrow> last_alert list" where
  "get_alerts_with_expired_dismissals now db = filter (expired_dismissal now) (adb_last_alerts db)"

definition restore_alert :: "last_alert \<Rightarrow> last_alert" where
  "restore_alert la =
     la\<lparr>la_cols := dset ''dismissed_until'' PNone (dset ''dismiss_mode'' PNone (dset ''status'' PNone (la_cols la)))\<rparr>"

text \<open>The result lists the tenants to notify.  \<open>show_ts\<close> is the text of a timestamp column's value.\<close>

definition check_dismissal_expiry :: "(pyval \<Rightarrow> string) \<Rightarrow> int \<Rightarrow> alert_db \<Rightarrow> string list \<times> alert_db" where
  "check_dismissal_expiry show_ts now db =
     (let expired = get_alerts_with_expired_dismissals now db
      in (remdups (map la_tenant_id expired),
          fold (\<lambda>la db. add_audit (la_tenant_id la) (la_fingerprint la) ''system'' ''Alert dismissal expired''
                  (''Dismissal expired at '' @ show_ts (la_col la ''dismissed_until'')
                   @ '', alert restored (status/dismiss_mode/dismissed_until cleared)'')
                  (db\<lparr>adb_last_alerts := put_last_alert (restore_alert la) (adb_last_alerts db)\<rparr>)) expired db))"

section \<open>Counters\<close>

text \<open>The fields of \<open>AlertDto\<close> the counters read and write.\<close>

record alert_dto =
  dto_status :: string
  dto_last_received :: string
  dto_firing_start_time :: "string option"
  dto_since_resolved :: "string option"
  dto_firing_counter :: int
  dto_unresolved_counter :: int

definition calculated_start_firing_time :: "alert_dto \<Rightarrow> alert_dto list \<Rightarrow> string option" where
  "calculated_start_firing_time a previous =
     (if dto_status a \<noteq> ''firing'' then None
      else (case previous of
              [] \<Rightarrow> Some (dto_last_received a)
            | p # _ \<Rightarrow> if dto_status p = ''firing'' then dto_firing_start_time p else Some (dto_last_received a)))"

definition calculate_firing_time_since_last_resolved :: "alert_dto \<Rightarrow> alert_dto list \<Rightarrow> string option" where
  "calculate_firing_time_since_last_resolved a previous =
     (if dto_status a = ''resolved'' then None
      else (case previous of
              p # _ \<Rightarrow>
                (if dto_status p = ''resolved'' \<and> dto_status a = ''firing'' then Some (dto_last_received a)
                 else (case dto_since_resolved p of Some t \<Rightarrow> if t = [] then None else Some t | None \<Rightarrow> None))
            | [] \<Rightarrow> if dto_status a = ''firing'' then Some (dto_last_received a) else None))"

definition calculated_firing_counter :: "alert_dto \<Rightarrow> alert_dto list \<Rightarrow> int" where
  "calculated_firing_counter a previous =
     (if dto_status a = ''acknowledged'' then 0
      else (case previous of
              [] \<Rightarrow> 1
            | p # _ \<Rightarrow> if dto_status p = ''acknowledged'' then 1 else dto_firing_counter p + 1))"

definition calculated_unresolved_counter :: "alert_dto \<Rightarrow> alert_dto list \<Rightarrow> int" where
  "calculated_unresolved_counter a previous =
     (if dto_status a = ''resolved'' then 0
      else (case previous of
              [] \<Rightarrow> 1
            | p # _ \<Rightarrow> if dto_status p = ''resolved'' then 1 else dto_unresolved_counter p + 1))"

text \<open>\<open>convert_db_alerts_to_dto_alerts\<close> for these fields: the columns of the last alert win over the
  occurrence, an unknown status becomes firing, and a row without a name is left out.\<close>

definition opt_str :: "pyval \<Rightarrow> string option" where
  "opt_str v = (case v of PStr s \<Rightarrow> Some s | _ \<Rightarrow> None)"

definition int_of :: "pyval \<Rightarrow> int" where
  "int_of v = (case v of PInt i \<Rightarrow> i | _ \<Rightarrow> 0)"

definition dto_status_of :: "last_alert option \<Rightarrow> alert \<Rightarrow> string" where
  "dto_status_of lao a =
     (let s = (case lao of Some la \<Rightarrow> (case la_col la ''status'' of PNone \<Rightarrow> al_status a | v \<Rightarrow> opt_str v)
               | None \<Rightarrow> al_status a)
      in (case s of
            Some s \<Rightarrow> if s \<in> set alert_statuses then s else ''firing''
          | None \<Rightarrow> ''firing''))"

definition dto_of_alert :: "string \<Rightarrow> last_alert option \<Rightarrow> alert \<Rightarrow> alert_dto option" where
  "dto_of_alert now_iso lao a =
     (case al_name a of
        None \<Rightarrow> None
      | Some _ \<Rightarrow>
          let status = dto_status_of lao a; col = (\<lambda>c. case lao of Some la \<Rightarrow> la_col la c | None \<Rightarrow> PNone)
          in Some \<lparr>dto_status = status,
                dto_last_received = (case col ''last_received'' of PInt us \<Rightarrow> iso_millis us | _ \<Rightarrow> now_iso),
                dto_firing_start_time = opt_str (col ''firing_start_time''),
                dto_since_resolved = opt_str (col ''firing_start_time_since_last_resolved''),
                dto_firing_counter = (if status = ''acknowledged'' then 0 else int_of (col ''firing_counter'')),
                dto_unresolved_counter = (if status = ''resolved'' then 0 else int_of (col ''unresolved_counter''))\<rparr>)"

definition convert_db_alerts_to_dto_alerts :: "string \<Rightarrow> alert_db \<Rightarrow> alert list \<Rightarrow> alert_dto list" where
  "convert_db_alerts_to_dto_alerts now_iso db als =
     List.map_filter (\<lambda>a.
       dto_of_alert now_iso
         (if al_fingerprint a = [] then None
          else get_last_alert_by_fingerprint (al_tenant_id a) (al_fingerprint a) db) a) als"

text \<open>The part of \<open>__save_to_db\<close> that derives the tracking columns of an event and records its
  occurrence, for a tenant without extraction rules.  \<open>isoparse\<close> is \<open>dateutil\<close>'s parser, \<open>started\<close> the
  result of \<open>get_started_at_for_alerts\<close>, \<open>row\<close> the \<open>Alert\<close> built from the event.\<close>

definition datetime_str :: "int \<Rightarrow> string" where
  "datetime_str us =
     (let secs = us div 1000000; day = secs mod 86400; frac = us mod 1000000
      in (case civil_date (secs div 86400) of
            (y, m, d) \<Rightarrow> pad 4 y @ ''-'' @ pad 2 m @ ''-'' @ pad 2 d @ '' '' @ pad 2 (day div 3600)
              @ '':'' @ pad 2 (day div 60 mod 60) @ '':'' @ pad 2 (day mod 60)
              @ (if frac = 0 then [] else ''.'' @ pad 6 frac)))"

definition with_counters :: "string \<Rightarrow> string \<Rightarrow> string \<Rightarrow> alert_db \<Rightarrow> alert_dto \<Rightarrow> alert_dto" where
  "with_counters now_iso tenant_id fingerprint db e =
     (let previous = convert_db_alerts_to_dto_alerts now_iso db
            (get_alerts_by_fingerprint tenant_id fingerprint (Some 1) None db)
      in e\<lparr>dto_firing_start_time := calculated_start_firing_time e previous,
           dto_since_resolved := calculate_firing_time_since_last_resolved e previous,
           dto_firing_counter := calculated_firing_counter e previous,
           dto_unresolved_counter := calculated_unresolved_counter e previous\<rparr>)"

definition validate_last_received :: "(string \<Rightarrow> int option) \<Rightarrow> string \<Rightarrow> alert_dto \<Rightarrow> alert_dto" where
  "validate_last_received isoparse now_iso e =
     (if dto_last_received e = [] \<or> isoparse (dto_last_received e) = None
      then e\<lparr>dto_last_received := now_iso\<rparr> else e)"

definition opt_pstr :: "string option \<Rightarrow> pyval" where
  "opt_pstr v = (case v of Some s \<Rightarrow> PStr s | None \<Rightarrow> PNone)"

definition tracking_of :: "(string \<Rightarrow> int option) \<Rightarrow> string option \<Rightarrow> alert_dto \<Rightarrow> pydict" where
  "tracking_of isoparse started_at e =
     [(''last_received'', case isoparse (dto_last_received e) of Some us \<Rightarrow> PInt us | None \<Rightarrow> PNone),
      (''firing_counter'', PInt (dto_firing_counter e)),
      (''unresolved_counter'', PInt (dto_unresolved_counter e)),
      (''started_at'', opt_pstr started_at),
      (''firing_start_time'', opt_pstr (dto_firing_start_time e)),
      (''firing_start_time_since_last_resolved'', opt_pstr (dto_since_resolved e))]"

definition save_event ::
  "(string \<Rightarrow> int option) \<Rightarrow> string \<Rightarrow> (nat \<Rightarrow> exn option) \<Rightarrow> store \<Rightarrow> string \<Rightarrow> (string \<times> int) list \<Rightarrow> bool \<Rightarrow>
     string option \<Rightarrow> alert_dto \<Rightarrow> alert \<Rightarrow> alert_db \<Rightarrow> unit result \<times> alert_db" where
  "save_event isoparse now_iso faults store tenant_id started audit_enabled own_started_at e row db =
     (let fingerprint = al_fingerprint row;
          started_at = (case dget started fingerprint of Some us \<Rightarrow> Some (datetime_str us) | None \<Rightarrow> own_started_at);
          e = validate_last_received isoparse now_iso (with_counters now_iso tenant_id fingerprint db e);
          db = db\<lparr>adb_alerts := adb_alerts db @ [row]\<rparr>;
          db = (if audit_enabled then
                  add_audit tenant_id fingerprint ''system''
                    (if dto_status e = ''resolved'' then ''alert automatically resolved'' else ''alert was triggered'')
                    (''Alert recieved from provider with status '' @ dto_status e) db
                else db)
      in set_last_alert faults store tenant_id row 3 (Some (tracking_of isoparse started_at e)) db)"

section \<open>Columns stay typed\<close>

abbreviation lastalert_columns :: "string list" where
  "lastalert_columns \<equiv> LASTALERT_ENRICHMENT_COLUMNS @ LASTALERT_TRACKING_COLUMNS"

text \<open>A value the database keeps is not null.\<close>

definition keeps_values :: "store \<Rightarrow> bool" where
  "keeps_values store \<longleftrightarrow> (\<forall>c v w. store c v = Inr w \<longrightarrow> w \<noteq> PNone)"

definition typed_columns :: "pydict \<Rightarrow> bool" where
  "typed_columns cols \<longleftrightarrow> map fst cols = lastalert_columns \<and> (\<forall>c \<in> set not_null_columns. dget cols c \<noteq> Some PNone)"

lemma map_fst_dset: "map fst (dset k v d) = (if k \<in> fst ` set d then map fst d else map fst d @ [k])"
  by (simp add: dset_def update_keys)

lemma typed_dset:
  assumes "typed_columns cols" "c \<in> set lastalert_columns" "c \<in> set not_null_columns \<Longrightarrow> v \<noteq> PNone"
  shows "typed_columns (dset c v cols)"
proof -
  have "fst ` set cols = set lastalert_columns"
    using assms(1) by (simp only: typed_columns_def set_map [symmetric])
  with assms show ?thesis by (auto simp: typed_columns_def map_fst_dset)
qed

lemma column_value_null:
  "keeps_values store \<Longrightarrow> column_value store c v = Inr w \<Longrightarrow> c \<in> set not_null_columns \<Longrightarrow> w \<noteq> PNone"
  by (auto simp: column_value_def keeps_values_def split: if_splits)

lemma set_columns_typed:
  "set_columns store kvs cols = Inr cols' \<Longrightarrow> keeps_values store \<Longrightarrow> typed_columns cols \<Longrightarrow>
     fst ` set kvs \<subseteq> set lastalert_columns \<Longrightarrow> typed_columns cols'"
proof (induction kvs arbitrary: cols)
  case (Cons kv kvs)
  obtain c v where kv: "kv = (c, v)" by fastforce
  with Cons.prems obtain w where w: "column_value store c v = Inr w" "set_columns store kvs (dset c w cols) = Inr cols'"
    by (auto simp: rbind_Inr_iff)
  have "typed_columns (dset c w cols)"
    using Cons.prems kv column_value_null [OF Cons.prems(2) w(1)] by (intro typed_dset) auto
  with Cons w show ?case by simp
qed simp

lemma set_columns_other:
  "set_columns store kvs cols = Inr cols' \<Longrightarrow> c \<notin> fst ` set kvs \<Longrightarrow> dget cols' c = dget cols c"
  by (induction kvs arbitrary: cols) (auto simp: rbind_Inr_iff)

lemma set_columns_at:
  "set_columns store kvs cols = Inr cols' \<Longrightarrow> wf_dict kvs \<Longrightarrow> dget kvs c = Some v \<Longrightarrow>
     \<exists>w. column_value store c v = Inr w \<and> dget cols' c = Some w"
proof (induction kvs arbitrary: cols)
  case (Cons kv kvs)
  obtain k x where kv: "kv = (k, x)" by fastforce
  with Cons.prems obtain w where w: "column_value store k x = Inr w" "set_columns store kvs (dset k w cols) = Inr cols'"
    by (auto simp: rbind_Inr_iff)
  show ?case
  proof (cases "c = k")
    case True
    then have "c \<notin> fst ` set kvs" using Cons.prems kv by (simp add: wf_dict_def)
    from set_columns_other [OF w(2) this] w True Cons.prems kv show ?thesis by (simp add: dget_Cons)
  next
    case False
    with Cons w kv show ?thesis by (simp add: wf_dict_def dget_Cons)
  qed
qed simp

lemma typed_default: "typed_columns default_columns"
  unfolding typed_columns_def by code_simp

lemma tracked_columns: "fst ` set (tracked tracking) \<subseteq> set lastalert_columns"
  by (auto simp: tracked_def split: option.splits)

lemma typed_user_columns [simp]:
  assumes "typed_columns cols"
  shows "typed_columns (dset ''status'' v cols)" "typed_columns (dset ''dismiss_mode'' v cols)"
    "typed_columns (dset ''dismissed_until'' v cols)" "typed_columns (dset ''status_disposable'' (PBool b) cols)"
  using assms
  by (auto intro!: typed_dset simp: LASTALERT_ENRICHMENT_COLUMNS_def not_null_columns_def)

lemma typed_clear: "typed_columns cols \<Longrightarrow> typed_columns (clear_on_occurrence resolved cols)"
  by (simp add: clear_on_occurrence_def)

lemma map_fst_dpops: "map fst (fold dpop ks d) = filter (\<lambda>k. k \<notin> set ks) (map fst d)"
  by (induction ks arbitrary: d) (auto simp: dpop_def delete_keys removeAll_filter_not_eq intro: filter_cong)

lemma normalized_columns:
  assumes "normalize_alert_enrichments enrichments strict = Inr d"
  shows "fst ` set d \<subseteq> set LASTALERT_ENRICHMENT_COLUMNS"
proof -
  have "d = fold dpop (unknown_keys (translate_dismissed enrichments)) (translate_dismissed enrichments)"
    using assms by (simp add: normalize_alert_enrichments_def Let_def split: if_splits)
  then have "set (map fst d) \<subseteq> set LASTALERT_ENRICHMENT_COLUMNS"
    by (auto simp only: map_fst_dpops unknown_keys_def set_sort set_filter)
  then show ?thesis by simp
qed

section \<open>The tables under all operations\<close>

text \<open>A last alert describes a saved occurrence of its key.\<close>

definition describes :: "last_alert \<Rightarrow> alert \<Rightarrow> bool" where
  "describes la a \<longleftrightarrow> al_id a = la_alert_id la \<and> al_tenant_id a = la_tenant_id la
     \<and> al_fingerprint a = la_fingerprint la \<and> al_timestamp a = la_timestamp la \<and> al_alert_hash a = la_alert_hash la"

definition last_alert_ok :: "alert list \<Rightarrow> last_alert \<Rightarrow> bool" where
  "last_alert_ok als la \<longleftrightarrow> typed_columns (la_cols la) \<and> la_first_timestamp la \<le> la_timestamp la
     \<and> (\<exists>a \<in> set als. describes la a)"

definition alert_tables_ok :: "alert_db \<Rightarrow> bool" where
  "alert_tables_ok db \<longleftrightarrow> distinct (map la_key (adb_last_alerts db))
     \<and> (\<forall>la \<in> set (adb_last_alerts db). last_alert_ok (adb_alerts db) la)
     \<and> distinct (map ie_incident_id (adb_incident_enrichments db))
     \<and> ie_incident_id ` set (adb_incident_enrichments db) \<subseteq> set (adb_incident_ids db)"

lemma keys_put_last_alert:
  "map la_key (put_last_alert la las) =
     (if la_key la \<in> set (map la_key las) then map la_key las else map la_key las @ [la_key la])"
  by (auto simp: put_last_alert_def)

lemma set_put_last_alert: "set (put_last_alert la las) \<subseteq> insert la (set las)"
  by (auto simp: put_last_alert_def)

lemma alert_tables_put:
  assumes "alert_tables_ok db" "last_alert_ok (adb_alerts db) la"
  shows "alert_tables_ok (db\<lparr>adb_last_alerts := put_last_alert la (adb_last_alerts db)\<rparr>)"
proof -
  have "distinct (map la_key (put_last_alert la (adb_last_alerts db)))"
    using assms(1) by (simp only: keys_put_last_alert) (auto simp: alert_tables_ok_def)
  with assms set_put_last_alert show ?thesis by (fastforce simp: alert_tables_ok_def)
qed

lemma add_audit_frame [simp]:
  "adb_alerts (add_audit t f u a d db) = adb_alerts db"
  "adb_last_alerts (add_audit t f u a d db) = adb_last_alerts db"
  "adb_incident_enrichments (add_audit t f u a d db) = adb_incident_enrichments db"
  "adb_incident_ids (add_audit t f u a d db) = adb_incident_ids db"
  by (simp_all add: add_audit_def)

lemma add_audits_frame [simp]:
  "adb_alerts (fold (\<lambda>x. add_audit t (f x) u a d) xs db) = adb_alerts db"
  "adb_last_alerts (fold (\<lambda>x. add_audit t (f x) u a d) xs db) = adb_last_alerts db"
  "adb_incident_enrichments (fold (\<lambda>x. add_audit t (f x) u a d) xs db) = adb_incident_enrichments db"
  "adb_incident_ids (fold (\<lambda>x. add_audit t (f x) u a d) xs db) = adb_incident_ids db"
  by (induction xs arbitrary: db) simp_all

lemma alert_tables_ok_cong:
  "adb_alerts db = adb_alerts db' \<Longrightarrow> adb_last_alerts db = adb_last_alerts db' \<Longrightarrow>
     adb_incident_enrichments db = adb_incident_enrichments db' \<Longrightarrow> adb_incident_ids db = adb_incident_ids db' \<Longrightarrow>
     alert_tables_ok db = alert_tables_ok db'"
  by (simp add: alert_tables_ok_def)

lemma alert_tables_audit [simp]: "alert_tables_ok (add_audit t f u a d db) = alert_tables_ok db"
  by (rule alert_tables_ok_cong) simp_all

lemma alert_tables_audits [simp]:
  "alert_tables_ok (fold (\<lambda>x. add_audit t (f x) u a d) xs db) = alert_tables_ok db"
  by (rule alert_tables_ok_cong) simp_all

lemma get_last_alert_Some:
  "get_last_alert_by_fingerprint tenant_id fp db = Some la \<Longrightarrow>
     la \<in> set (adb_last_alerts db) \<and> la_tenant_id la = tenant_id \<and> la_fingerprint la = fp"
  unfolding get_last_alert_by_fingerprint_def by (drule find_in_set) simp

lemma write_columns_ok:
  assumes "write_columns store kvs la = Inr la'" "keeps_values store" "last_alert_ok als la"
    "fst ` set kvs \<subseteq> set lastalert_columns"
  shows "last_alert_ok als la'"
proof -
  obtain cols where c: "set_columns store kvs (la_cols la) = Inr cols" "la' = la\<lparr>la_cols := cols\<rparr>"
    using assms(1) by (auto simp: write_columns_def rbind_Inr_iff)
  have "typed_columns cols"
    using set_columns_typed [OF c(1) assms(2) _ assms(4)] assms(3) by (simp add: last_alert_ok_def)
  with c assms(3) show ?thesis by (simp add: last_alert_ok_def describes_def)
qed

lemma dpop_columns: "fst ` set (dpop k d) \<subseteq> fst ` set d"
proof -
  have "set (map fst (dpop k d)) \<subseteq> set (map fst d)" by (auto simp only: dpop_def delete_keys set_removeAll)
  then show ?thesis by simp
qed

lemma note_guard_columns:
  assumes "normalize_alert_enrichments e strict = Inr d"
  shows "fst ` set (note_guard force d) \<subseteq> set lastalert_columns"
proof -
  have "fst ` set (note_guard force d) \<subseteq> fst ` set d"
    by (simp add: note_guard_def dpop_columns)
  also have "\<dots> \<subseteq> set lastalert_columns" using normalized_columns [OF assms] by auto
  finally show ?thesis .
qed

lemma enrich_alert_ok:
  assumes "alert_tables_ok db" "keeps_values store"
  shows "alert_tables_ok (snd (enrich_alert store t fp e a c d force audit strict db))"
proof (cases "normalize_alert_enrichments e strict")
  case (Inr translated)
  let ?t = "note_guard force translated"
  note cols = note_guard_columns [OF Inr, of force]
  show ?thesis
  proof (cases "get_last_alert_by_fingerprint t fp db")
    case None
    with Inr assms show ?thesis by (simp add: enrich_alert_def)
  next
    case (Some la)
    show ?thesis
    proof (cases "write_columns store ?t la")
      case (Inl x)
      with Inr Some assms show ?thesis by (simp add: enrich_alert_def Let_def)
    next
      case w: (Inr la')
      have "last_alert_ok (adb_alerts db) la"
        using get_last_alert_Some [OF Some] assms(1) by (simp add: alert_tables_ok_def)
      from write_columns_ok [OF w assms(2) this cols] have "last_alert_ok (adb_alerts db) la'" .
      from alert_tables_put [OF assms(1) this] Inr Some w show ?thesis by (simp add: enrich_alert_def Let_def)
    qed
  qed
qed (simp add: enrich_alert_def assms)

lemma batch_loop_ok:
  "batch_loop store t kvs fps db = Inr db' \<Longrightarrow> alert_tables_ok db \<Longrightarrow> keeps_values store \<Longrightarrow>
     fst ` set kvs \<subseteq> set lastalert_columns \<Longrightarrow> alert_tables_ok db'"
proof (induction fps arbitrary: db)
  case (Cons fp fps)
  then obtain db1 where b: "batch_one store t kvs fp db = Inr db1" "batch_loop store t kvs fps db1 = Inr db'"
    by (auto simp: rbind_Inr_iff)
  have "alert_tables_ok db1"
  proof (cases "get_last_alert_by_fingerprint t fp db")
    case None
    with b Cons.prems show ?thesis by (simp add: batch_one_def)
  next
    case (Some la)
    with b(1) obtain la' where w: "write_columns store kvs la = Inr la'"
      "db1 = db\<lparr>adb_last_alerts := put_last_alert la' (adb_last_alerts db)\<rparr>"
      by (auto simp: batch_one_def rbind_Inr_iff)
    have "last_alert_ok (adb_alerts db) la"
      using get_last_alert_Some [OF Some] Cons.prems(2) by (simp add: alert_tables_ok_def)
    from alert_tables_put [OF Cons.prems(2) write_columns_ok [OF w(1) Cons.prems(3) this Cons.prems(4)]] w(2)
    show ?thesis by simp
  qed
  with Cons b show ?case by simp
qed simp

lemma batch_enrich_ok:
  assumes "alert_tables_ok db" "keeps_values store"
  shows "alert_tables_ok (snd (batch_enrich store t fps e a c d audit strict db))"
proof (cases "normalize_alert_enrichments e strict")
  case (Inr translated)
  let ?t = "note_guard False translated"
  note cols = note_guard_columns [OF Inr, of False]
  show ?thesis
  proof (cases "batch_loop store t ?t fps db")
    case (Inl x)
    with Inr assms show ?thesis by (simp add: batch_enrich_def Let_def)
  next
    case b: (Inr db')
    from batch_loop_ok [OF b assms cols] b Inr show ?thesis by (simp add: batch_enrich_def Let_def)
  qed
qed (simp add: batch_enrich_def assms)

lemma set_last_alert_once_ok:
  assumes "set_last_alert_once store t a tracking db = Inr db'" "alert_tables_ok db" "keeps_values store"
    "a \<in> set (adb_alerts db)" "al_tenant_id a = t"
  shows "alert_tables_ok db'"
proof (cases "get_last_alert_by_fingerprint t (al_fingerprint a) db")
  case None
  let ?la = "\<lambda>cols. \<lparr>la_tenant_id = t, la_fingerprint = al_fingerprint a, la_alert_id = al_id a,
    la_timestamp = al_timestamp a, la_first_timestamp = al_timestamp a, la_alert_hash = al_alert_hash a, la_cols = cols\<rparr>"
  from None assms(1) obtain cols where c: "set_columns store (tracked tracking) default_columns = Inr cols"
    "db' = db\<lparr>adb_last_alerts := put_last_alert (?la cols) (adb_last_alerts db)\<rparr>"
    by (auto simp: set_last_alert_once_def rbind_Inr_iff)
  have "last_alert_ok (adb_alerts db) (?la cols)"
    using set_columns_typed [OF c(1) assms(3) typed_default tracked_columns] assms(4,5)
    by (auto simp: last_alert_ok_def describes_def)
  from alert_tables_put [OF assms(2) this] c(2) show ?thesis by simp
next
  case (Some la)
  have la: "last_alert_ok (adb_alerts db) la" "la_tenant_id la = t" "la_fingerprint la = al_fingerprint a"
    using get_last_alert_Some [OF Some] assms(2) by (simp_all add: alert_tables_ok_def)
  show ?thesis
  proof (cases "la_timestamp la < al_timestamp a")
    case True
    let ?la = "\<lambda>cols. la\<lparr>la_timestamp := al_timestamp a, la_alert_id := al_id a, la_alert_hash := al_alert_hash a,
      la_cols := clear_on_occurrence (al_status a = Some ''resolved'') cols\<rparr>"
    from True Some assms(1) obtain cols where c: "set_columns store (tracked tracking) (la_cols la) = Inr cols"
      "db' = db\<lparr>adb_last_alerts := put_last_alert (?la cols) (adb_last_alerts db)\<rparr>"
      by (auto simp: set_last_alert_once_def rbind_Inr_iff)
    have "typed_columns cols"
      using set_columns_typed [OF c(1) assms(3) _ tracked_columns] la(1) by (simp add: last_alert_ok_def)
    then have "last_alert_ok (adb_alerts db) (?la cols)"
      using la True assms(4,5) by (auto simp: last_alert_ok_def describes_def intro: typed_clear)
    from alert_tables_put [OF assms(2) this] c(2) show ?thesis by simp
  next
    case False
    with Some assms show ?thesis by (simp add: set_last_alert_once_def)
  qed
qed

lemma set_last_alert_attempts_cases:
  "snd (set_last_alert_attempts n k faults tr db) = db \<or> tr db = Inr (snd (set_last_alert_attempts n k faults tr db))"
proof (induction n arbitrary: k)
  case (Suc n)
  from Suc [of "Suc k"] show ?case by (auto split: option.splits sum.splits)
qed simp

lemma set_last_alert_ok:
  assumes "alert_tables_ok db" "keeps_values store" "a \<in> set (adb_alerts db)" "al_tenant_id a = t"
  shows "alert_tables_ok (snd (set_last_alert faults store t a n tracking db))"
  using set_last_alert_attempts_cases [of n 1 faults "set_last_alert_once store t a tracking" db]
    set_last_alert_once_ok [OF _ assms] assms(1) by (auto simp: set_last_alert_def)

lemma incident_rows_ok:
  assumes "alert_tables_ok db" "map ie_incident_id es = map ie_incident_id (adb_incident_enrichments db)"
  shows "alert_tables_ok (db\<lparr>adb_incident_enrichments := es\<rparr>)"
proof -
  have "ie_incident_id ` set es = ie_incident_id ` set (adb_incident_enrichments db)"
    using arg_cong [OF assms(2), of set] by simp
  with assms show ?thesis by (simp add: alert_tables_ok_def)
qed

lemma insert_enrichment_ok:
  "alert_tables_ok db \<Longrightarrow> can_insert_enrichment h db \<Longrightarrow>
     alert_tables_ok (db\<lparr>adb_incident_enrichments := adb_incident_enrichments db
       @ [\<lparr>ie_tenant_id = t, ie_incident_id = h, ie_enrichments = e\<rparr>]\<rparr>)"
  by (simp add: alert_tables_ok_def can_insert_enrichment_def)

lemma enrich_incident_ok:
  assumes "alert_tables_ok db"
  shows "alert_tables_ok (snd (enrich_incident t fp e a c d force audit db))"
proof (cases "uuid_hex fp")
  case (Some h)
  show ?thesis
  proof (cases "read_incident_enrichment t h db")
    case None
    with Some assms insert_enrichment_ok [OF assms] show ?thesis by (simp add: enrich_incident_def Let_def)
  next
    case r: (Some x)
    have "map ie_incident_id (replace_incident_enrichment h y es) = map ie_incident_id es" for y es
      by (simp add: replace_incident_enrichment_def comp_def if_distrib cong: if_cong)
    from incident_rows_ok [OF assms this] Some r show ?thesis by (simp add: enrich_incident_def Let_def)
  qed
qed (simp add: enrich_incident_def assms)

lemma insert_enrichments_ok:
  "insert_enrichments t e hs db = Inr db' \<Longrightarrow> alert_tables_ok db \<Longrightarrow> alert_tables_ok db'"
  by (induction hs arbitrary: db) (auto simp: insert_enrichment_ok split: if_splits)

lemma batch_enrich_incident_ok:
  assumes "alert_tables_ok db"
  shows "alert_tables_ok (snd (batch_enrich_incident t fps e a c d audit db))"
proof (cases "rmap incident_uuid fps")
  case (Inr hs)
  let ?f = "\<lambda>x. if ie_tenant_id x = t \<and> ie_incident_id x \<in> set hs
    then x\<lparr>ie_enrichments := merged_enrichments False (ie_enrichments x) e\<rparr> else x"
  let ?u = "db\<lparr>adb_incident_enrichments := map ?f (adb_incident_enrichments db)\<rparr>"
  have "map ie_incident_id (map ?f es) = map ie_incident_id es" for es
    by (simp add: comp_def if_distrib cong: if_cong)
  from incident_rows_ok [OF assms this] have u: "alert_tables_ok ?u" .
  show ?thesis
  proof (cases "insert_enrichments t e (filter (\<lambda>h. read_incident_enrichment t h db = None) hs) ?u")
    case (Inl x)
    with Inr assms show ?thesis by (simp add: batch_enrich_incident_def Let_def)
  next
    case i: (Inr db')
    from insert_enrichments_ok [OF i u] Inr i show ?thesis by (simp add: batch_enrich_incident_def Let_def)
  qed
qed (simp add: batch_enrich_incident_def assms)

lemma restore_ok: "last_alert_ok als la \<Longrightarrow> last_alert_ok als (restore_alert la)"
  by (simp add: last_alert_ok_def restore_alert_def describes_def)

lemma expiry_fold_ok:
  "alert_tables_ok db \<Longrightarrow> \<forall>la \<in> set las. last_alert_ok (adb_alerts db) la \<Longrightarrow>
     alert_tables_ok (fold (\<lambda>la db. add_audit (la_tenant_id la) (la_fingerprint la) u a (d la)
       (db\<lparr>adb_last_alerts := put_last_alert (restore_alert la) (adb_last_alerts db)\<rparr>)) las db)"
  by (induction las arbitrary: db) (simp_all add: alert_tables_put restore_ok)

lemma check_dismissal_expiry_ok:
  assumes "alert_tables_ok db"
  shows "alert_tables_ok (snd (check_dismissal_expiry show_ts now db))"
proof -
  have "\<forall>la \<in> set (get_alerts_with_expired_dismissals now db). last_alert_ok (adb_alerts db) la"
    using assms by (simp add: get_alerts_with_expired_dismissals_def alert_tables_ok_def)
  from expiry_fold_ok [OF assms this] show ?thesis by (simp add: check_dismissal_expiry_def Let_def)
qed

text \<open>The writers in any order, with whatever arguments; an occurrence is inserted before it is set
  as the last alert, and other writers may come in between.\<close>

inductive adb_reach :: "store \<Rightarrow> string list \<Rightarrow> alert_db \<Rightarrow> bool" for store incidents where
  start: "adb_reach store incidents \<lparr>adb_alerts = [], adb_last_alerts = [], adb_audits = [],
    adb_incident_enrichments = [], adb_incident_ids = incidents\<rparr>"
| insert_alert: "adb_reach store incidents db \<Longrightarrow> a \<notin> set (adb_alerts db) \<Longrightarrow>
    adb_reach store incidents (db\<lparr>adb_alerts := adb_alerts db @ [a]\<rparr>)"
| set_last: "adb_reach store incidents db \<Longrightarrow> a \<in> set (adb_alerts db) \<Longrightarrow> al_tenant_id a = t \<Longrightarrow>
    adb_reach store incidents (snd (set_last_alert faults store t a n tracking db))"
| enrich: "adb_reach store incidents db \<Longrightarrow>
    adb_reach store incidents (snd (enrich_entity store t fp e a c d force audit entity_type strict db))"
| batch: "adb_reach store incidents db \<Longrightarrow>
    adb_reach store incidents (snd (batch_enrich store t fps e a c d audit strict db))"
| batch_incident: "adb_reach store incidents db \<Longrightarrow>
    adb_reach store incidents (snd (batch_enrich_incident t fps e a c d audit db))"
| expire: "adb_reach store incidents db \<Longrightarrow>
    adb_reach store incidents (snd (check_dismissal_expiry show_ts now db))"

lemma insert_alert_ok: "alert_tables_ok db \<Longrightarrow> alert_tables_ok (db\<lparr>adb_alerts := adb_alerts db @ [a]\<rparr>)"
  by (auto simp: alert_tables_ok_def last_alert_ok_def)

lemma adb_reach_ok: "adb_reach store incidents db \<Longrightarrow> keeps_values store \<Longrightarrow> alert_tables_ok db"
proof (induction rule: adb_reach.induct)
  case start
  show ?case by (simp add: alert_tables_ok_def)
next
  case (enrich db t fp e a c d force audit entity_type strict)
  then show ?case by (simp add: enrich_entity_def enrich_incident_ok enrich_alert_ok)
qed (simp_all add: insert_alert_ok set_last_alert_ok batch_enrich_ok batch_enrich_incident_ok
  check_dismissal_expiry_ok)

section \<open>Dismissing and restoring\<close>

definition undismissed :: "last_alert \<Rightarrow> bool" where
  "undismissed la \<longleftrightarrow> la_col la ''status'' = PNone \<and> la_col la ''dismiss_mode'' = PNone
     \<and> la_col la ''dismissed_until'' = PNone"

lemma get_after_put:
  assumes "la_tenant_id la = t" "la_fingerprint la = fp"
  shows "get_last_alert_by_fingerprint t fp (db\<lparr>adb_last_alerts := put_last_alert la las\<rparr>) = Some la"
proof -
  have "find (\<lambda>l. la_key l = la_key la) (put_last_alert la las) = Some la"
    unfolding put_last_alert_def by (induction las) (auto simp: find_append)
  moreover have "(\<lambda>l. la_tenant_id l = t \<and> la_fingerprint l = fp) = (\<lambda>l. la_key l = la_key la)"
    using assms by (auto simp: la_key_def)
  ultimately show ?thesis by (simp add: get_last_alert_by_fingerprint_def)
qed

lemma put_put:
  assumes "la_key la' = la_key la"
  shows "put_last_alert la' (put_last_alert la las) = put_last_alert la' las"
proof (cases "la_key la \<in> set (map la_key las)")
  case True
  then have "la_key la \<in> set (map la_key (put_last_alert la las))" by (simp only: keys_put_last_alert if_True)
  with True assms show ?thesis by (simp add: put_last_alert_def)
next
  case False
  then have "map (\<lambda>l. if la_key l = la_key la then la' else l) las = las"
    by (intro map_idI) (metis (no_types, lifting) image_eqI set_map)
  with False assms show ?thesis by (simp add: put_last_alert_def)
qed

lemma put_same: "distinct (map la_key las) \<Longrightarrow> la \<in> set las \<Longrightarrow> put_last_alert la las = las"
  by (auto simp: put_last_alert_def distinct_map inj_on_def intro!: map_idI)

lemma normalize_dismiss:
  "normalize_alert_enrichments [(''dismissed'', PBool True)] strict
     = Inr [(''status'', PStr ''suppressed''), (''dismiss_mode'', PStr ''permanent'')]"
  by (cases strict) code_simp+

lemma normalize_undismiss:
  "normalize_alert_enrichments [(''dismissed'', PBool False)] strict
     = Inr [(''status'', PNone), (''dismiss_mode'', PNone), (''dismissed_until'', PNone)]"
  by (cases strict) code_simp+

lemma normalize_dismiss_until:
  "truthy ts \<Longrightarrow> normalize_alert_enrichments [(''dismissed'', PBool True), (''dismissed_until'', ts)] strict
     = Inr [(''dismissed_until'', ts), (''status'', PStr ''suppressed''), (''dismiss_mode'', PStr ''dismiss_until'')]"
  by (cases ts) (simp_all add: normalize_alert_enrichments_def translate_dismissed_def unknown_keys_def Let_def
      dget_Cons dpop_def dset_def setdefault_def dict_get_def LASTALERT_ENRICHMENT_COLUMNS_def)

lemma note_guard_none: "dget d ''note'' = None \<Longrightarrow> note_guard force d = d"
  by (simp add: note_guard_def)

lemma enrich_alert_row:
  assumes "normalize_alert_enrichments e strict = Inr d" "dget d ''note'' = None"
    "get_last_alert_by_fingerprint t fp db = Some la" "set_columns store d (la_cols la) = Inr cols"
  shows "fst (enrich_entity store t fp e a c desc force audit ''alert'' strict db)
           = Inr (Some (build_enrichments (la\<lparr>la_cols := cols\<rparr>)))"
    "adb_last_alerts (snd (enrich_entity store t fp e a c desc force audit ''alert'' strict db))
       = put_last_alert (la\<lparr>la_cols := cols\<rparr>) (adb_last_alerts db)"
  using assms by (simp_all add: enrich_entity_def enrich_alert_def note_guard_none write_columns_def Let_def)

definition cleared :: "pydict \<Rightarrow> pydict" where
  "cleared cols = dset ''dismissed_until'' PNone (dset ''dismiss_mode'' PNone (dset ''status'' PNone cols))"

lemma typed_dget:
  assumes "typed_columns cols" "c \<in> set lastalert_columns"
  shows "dget cols c \<noteq> None"
proof -
  have "c \<in> fst ` set cols"
    using assms by (simp only: typed_columns_def set_map [symmetric])
  then show ?thesis by (simp add: dget_None_iff)
qed

lemma typed_eqI:
  assumes "typed_columns a" "typed_columns b" "\<And>c. dget a c = dget b c"
  shows "a = b"
proof -
  have d: "distinct lastalert_columns" by code_simp
  have rebuild: "x = map (\<lambda>c. (c, the (dget x c))) lastalert_columns" if "typed_columns x" for x
  proof -
    have x: "map fst x = lastalert_columns" using that by (simp add: typed_columns_def)
    have "distinct (map fst x)" using d by (simp only: x)
    then have "map (\<lambda>c. (c, the (dget x c))) (map fst x) = x"
      by (auto simp: dget_def intro!: map_idI)
    then show ?thesis by (simp only: x)
  qed
  from rebuild [OF assms(1)] rebuild [OF assms(2)] assms(3) show ?thesis by simp
qed

lemma cleared_typed: "typed_columns cols \<Longrightarrow> typed_columns (cleared cols)"
  by (simp add: cleared_def)

text \<open>Clearing the three columns undoes any writes to them on a row that was not dismissed.\<close>

lemma cleared_undoes:
  assumes "typed_columns (la_cols la)" "undismissed la" "typed_columns cols"
    and "\<And>c. c \<notin> {''status'', ''dismiss_mode'', ''dismissed_until''} \<Longrightarrow> dget cols c = dget (la_cols la) c"
  shows "la\<lparr>la_cols := cleared cols\<rparr> = la"
proof -
  have n: "dget (la_cols la) c = Some PNone" if "c \<in> {''status'', ''dismiss_mode'', ''dismissed_until''}" for c
  proof -
    have "c \<in> set lastalert_columns" using that by (auto simp: LASTALERT_ENRICHMENT_COLUMNS_def)
    from typed_dget [OF assms(1) this] assms(2) that show ?thesis
      by (auto simp: undismissed_def la_col_def dict_get_def)
  qed
  have "dget (cleared cols) c = dget (la_cols la) c" for c
    using n [of c] assms(4) [of c] by (auto simp: cleared_def)
  from typed_eqI [OF cleared_typed [OF assms(3)] assms(1) this] show ?thesis by simp
qed

lemma undismiss_row:
  assumes "get_last_alert_by_fingerprint t fp db = Some la"
  shows "adb_last_alerts (snd (enrich_entity store t fp [(''dismissed'', PBool False)] a c desc force audit
           ''alert'' strict db))
       = put_last_alert (la\<lparr>la_cols := cleared (la_cols la)\<rparr>) (adb_last_alerts db)"
proof -
  have "set_columns store [(''status'', PNone), (''dismiss_mode'', PNone), (''dismissed_until'', PNone)] (la_cols la)
      = Inr (cleared (la_cols la))"
    by (simp add: column_value_def not_null_columns_def cleared_def)
  from enrich_alert_row(2) [OF normalize_undismiss _ assms this] show ?thesis by (simp add: dget_Cons)
qed

section \<open>Expiry is an undismissal of the expired rows\<close>

lemma fold_put_rows:
  assumes "distinct (map la_key las)" "\<forall>la \<in> set las. la_key la \<in> la_key ` set rows"
    and "\<And>la. la_key (f la) = la_key la"
  shows "fold (\<lambda>la. put_last_alert (f la)) las rows
       = map (\<lambda>l. case find (\<lambda>la. la_key la = la_key l) las of Some la \<Rightarrow> f la | None \<Rightarrow> l) rows"
  using assms(1,2)
proof (induction las arbitrary: rows)
  case (Cons la las)
  let ?rows = "map (\<lambda>l. if la_key l = la_key la then f la else l) rows"
  have p: "put_last_alert (f la) rows = ?rows"
    using Cons.prems(2) by (simp add: put_last_alert_def assms(3))
  have "map la_key ?rows = map la_key rows"
    by (simp add: assms(3))
  from arg_cong [OF this, of set] have keys: "la_key ` set ?rows = la_key ` set rows"
    by (simp only: set_map)
  have none: "find (\<lambda>x. la_key x = la_key la) las = None"
    using Cons.prems(1) by (simp add: find_None_iff) (metis imageI)
  have "fold (\<lambda>la. put_last_alert (f la)) las ?rows
      = map (\<lambda>l. case find (\<lambda>la. la_key la = la_key l) las of Some la \<Rightarrow> f la | None \<Rightarrow> l) ?rows"
    using Cons.prems keys by (intro Cons.IH) auto
  with p none show ?case by (auto simp: assms(3))
qed simp

lemma restore_key: "la_key (restore_alert la) = la_key la"
  by (simp add: la_key_def restore_alert_def)

lemma find_by_key:
  "distinct (map la_key rows) \<Longrightarrow> l \<in> set rows \<Longrightarrow>
     find (\<lambda>la. la_key la = la_key l) (filter P rows) = (if P l then Some l else None)"
  by (induction rows) (auto simp: find_None_iff rev_image_eqI)

lemma expiry_rows:
  assumes dist: "distinct (map la_key (adb_last_alerts db))"
  shows "adb_last_alerts (snd (check_dismissal_expiry show_ts now db))
       = map (\<lambda>la. if expired_dismissal now la then restore_alert la else la) (adb_last_alerts db)"
proof -
  let ?expired = "filter (expired_dismissal now) (adb_last_alerts db)"
  have rows: "adb_last_alerts (fold (\<lambda>la db. add_audit (la_tenant_id la) (la_fingerprint la) u a (d la)
       (db\<lparr>adb_last_alerts := put_last_alert (restore_alert la) (adb_last_alerts db)\<rparr>)) las db)
     = fold (\<lambda>la. put_last_alert (restore_alert la)) las (adb_last_alerts db)" for u a d las and db :: alert_db
    by (induction las arbitrary: db) simp_all
  have "fold (\<lambda>la. put_last_alert (restore_alert la)) ?expired (adb_last_alerts db)
      = map (\<lambda>l. case find (\<lambda>la. la_key la = la_key l) ?expired of Some la \<Rightarrow> restore_alert la | None \<Rightarrow> l)
          (adb_last_alerts db)"
    using dist by (intro fold_put_rows) (auto simp: distinct_map inj_on_def restore_key)
  also have "\<dots> = map (\<lambda>la. if expired_dismissal now la then restore_alert la else la) (adb_last_alerts db)"
    using find_by_key [OF dist] by (intro map_cong) (simp_all split: if_splits)
  finally show ?thesis
    by (simp add: check_dismissal_expiry_def get_alerts_with_expired_dismissals_def Let_def rows)
qed

lemma get_last_after_expiry:
  assumes "distinct (map la_key (adb_last_alerts db))" "get_last_alert_by_fingerprint t fp db = Some la"
    "expired_dismissal now la"
  shows "get_last_alert_by_fingerprint t fp (snd (check_dismissal_expiry show_ts now db)) = Some (restore_alert la)"
proof -
  let ?f = "\<lambda>la. if expired_dismissal now la then restore_alert la else la"
  have "find (\<lambda>la. la_tenant_id la = t \<and> la_fingerprint la = fp) (map ?f rows)
      = map_option ?f (find (\<lambda>la. la_tenant_id la = t \<and> la_fingerprint la = fp) rows)" for rows
    by (induction rows) (auto simp: restore_alert_def)
  with assms(2,3) expiry_rows [OF assms(1)] show ?thesis by (simp add: get_last_alert_by_fingerprint_def)
qed

lemma dismiss_then_undismiss:
  assumes "alert_tables_ok db" "get_last_alert_by_fingerprint t fp db = Some la" "undismissed la"
    and "normalize_alert_enrichments e strict = Inr d" "dget d ''note'' = None"
    and "set_columns store d (la_cols la) = Inr cols" "typed_columns cols"
    and "fst ` set d \<subseteq> {''status'', ''dismiss_mode'', ''dismissed_until''}"
    and "db1 = snd (enrich_entity store t fp e a c desc force audit ''alert'' strict db)"
  shows "get_last_alert_by_fingerprint t fp db1 = Some (la\<lparr>la_cols := cols\<rparr>)"
    "distinct (map la_key (adb_last_alerts db1))" "la\<lparr>la_cols := cleared cols\<rparr> = la"
    "adb_last_alerts (snd (enrich_entity store t fp [(''dismissed'', PBool False)] a' c' desc' force' audit'
       ''alert'' strict' db1)) = adb_last_alerts db"
proof -
  have la: "la \<in> set (adb_last_alerts db)" "la_tenant_id la = t" "la_fingerprint la = fp"
    using get_last_alert_Some [OF assms(2)] by simp_all
  have rows: "adb_last_alerts db1 = put_last_alert (la\<lparr>la_cols := cols\<rparr>) (adb_last_alerts db)"
    using enrich_alert_row(2) [OF assms(4,5,2,6)] assms(9) by simp
  then have g: "get_last_alert_by_fingerprint t fp db1 = Some (la\<lparr>la_cols := cols\<rparr>)"
    using get_after_put [of "la\<lparr>la_cols := cols\<rparr>" t fp] la by (simp add: get_last_alert_by_fingerprint_def)
  have dist: "distinct (map la_key (adb_last_alerts db))" using assms(1) by (simp add: alert_tables_ok_def)
  then show "distinct (map la_key (adb_last_alerts db1))"
    unfolding rows keys_put_last_alert by simp
  show c: "la\<lparr>la_cols := cleared cols\<rparr> = la"
  proof (rule cleared_undoes [OF _ assms(3,7)])
    show "typed_columns (la_cols la)" using assms(1) la(1) by (simp add: alert_tables_ok_def last_alert_ok_def)
    show "dget cols c = dget (la_cols la) c" if "c \<notin> {''status'', ''dismiss_mode'', ''dismissed_until''}" for c
      using that assms(8) by (intro set_columns_other [OF assms(6)]) blast
  qed
  have "put_last_alert la (put_last_alert (la\<lparr>la_cols := cols\<rparr>) (adb_last_alerts db)) = put_last_alert la (adb_last_alerts db)"
    by (rule put_put) (simp add: la_key_def)
  then show "adb_last_alerts (snd (enrich_entity store t fp [(''dismissed'', PBool False)] a' c' desc' force' audit'
      ''alert'' strict' db1)) = adb_last_alerts db"
    using undismiss_row [OF g] c put_same [OF dist la(1)] by (simp add: rows)
  show "get_last_alert_by_fingerprint t fp db1 = Some (la\<lparr>la_cols := cols\<rparr>)" by (rule g)
qed

section \<open>Counting occurrences\<close>

text \<open>What the database does with the tracking columns: counters of 32 bits, instants, and texts of at
  most 255 characters are stored as they are.\<close>

definition stores_tracking :: "store \<Rightarrow> bool" where
  "stores_tracking store \<longleftrightarrow>
     (\<forall>c \<in> {''firing_counter'', ''unresolved_counter''}. \<forall>i. 0 \<le> i \<and> i < 2 ^ 31 \<longrightarrow> store c (PInt i) = Inr (PInt i))
     \<and> (\<forall>us. store ''last_received'' (PInt us) = Inr (PInt us))
     \<and> (\<forall>c \<in> {''started_at'', ''firing_start_time'', ''firing_start_time_since_last_resolved''}. \<forall>s.
          length s \<le> 255 \<longrightarrow> store c (PStr s) = Inr (PStr s))"

text \<open>The number of occurrences since the last one with status \<open>s\<close>.\<close>

definition since :: "string \<Rightarrow> string list \<Rightarrow> nat" where
  "since s statuses = length (takeWhile (\<lambda>x. x \<noteq> s) (rev statuses))"

lemma since_Nil [simp]: "since s [] = 0"
  by (simp add: since_def)

lemma since_snoc [simp]: "since s (xs @ [x]) = (if x = s then 0 else Suc (since s xs))"
  by (simp add: since_def)

lemma since_le: "since s xs \<le> length xs"
  unfolding since_def by (metis length_rev length_takeWhile_le)

fun save_events ::
  "(string \<Rightarrow> int option) \<Rightarrow> store \<Rightarrow> string \<Rightarrow> bool \<Rightarrow> (string \<times> alert_dto \<times> alert) list \<Rightarrow> alert_db \<Rightarrow> alert_db result" where
  "save_events isoparse store tenant_id audit_enabled [] db = Inr db"
| "save_events isoparse store tenant_id audit_enabled ((now_iso, e, row) # occs) db =
     (case save_event isoparse now_iso (\<lambda>_. None) store tenant_id
             (get_started_at_for_alerts tenant_id [al_fingerprint row] db) audit_enabled None e row db of
        (Inl x, _) \<Rightarrow> Inl x
      | (Inr _, db) \<Rightarrow> save_events isoparse store tenant_id audit_enabled occs db)"

text \<open>An occurrence of a fingerprint whose row carries what the event says.\<close>

definition occurrence_of :: "string \<Rightarrow> string \<Rightarrow> string \<times> alert_dto \<times> alert \<Rightarrow> bool" where
  "occurrence_of tenant_id fp occ =
     (case occ of (now_iso, e, row) \<Rightarrow>
        al_tenant_id row = tenant_id \<and> al_fingerprint row = fp \<and> al_name row \<noteq> None
        \<and> al_status row = Some (dto_status e) \<and> dto_status e \<in> set alert_statuses
        \<and> length (dto_last_received e) \<le> 255 \<and> length (datetime_str (al_timestamp row)) \<le> 255)"

definition of_key :: "string \<Rightarrow> string \<Rightarrow> alert_db \<Rightarrow> alert list" where
  "of_key tenant_id fp db = filter (\<lambda>a. al_tenant_id a = tenant_id \<and> al_fingerprint a = fp) (adb_alerts db)"

definition short_text :: "pyval \<Rightarrow> bool" where
  "short_text v \<longleftrightarrow> v = PNone \<or> (\<exists>s. v = PStr s \<and> length s \<le> 255)"

text \<open>The row of a key after occurrences with these statuses, the newest at time \<open>T\<close>.\<close>

definition row_counts :: "string list \<Rightarrow> last_alert \<Rightarrow> bool" where
  "row_counts statuses la \<longleftrightarrow> la_col la ''status'' = PNone \<and> \<not> truthy (la_col la ''status_disposable'')
     \<and> la_col la ''firing_counter'' = PInt (int (since ''acknowledged'' statuses))
     \<and> la_col la ''unresolved_counter'' = PInt (int (since ''resolved'' statuses))
     \<and> short_text (la_col la ''firing_start_time'')
     \<and> short_text (la_col la ''firing_start_time_since_last_resolved'')"

definition counted :: "string \<Rightarrow> string \<Rightarrow> string list \<Rightarrow> int \<Rightarrow> alert_db \<Rightarrow> bool" where
  "counted tenant_id fp statuses T db \<longleftrightarrow>
     (\<exists>la row rows. get_last_alert_by_fingerprint tenant_id fp db = Some la \<and> la_timestamp la = T
        \<and> row_counts statuses la
        \<and> newest_alerts (of_key tenant_id fp db) = row # rows \<and> al_name row \<noteq> None
        \<and> al_tenant_id row = tenant_id \<and> al_fingerprint row = fp
        \<and> statuses \<noteq> [] \<and> al_status row = Some (List.last statuses) \<and> List.last statuses \<in> set alert_statuses
        \<and> (\<forall>a \<in> set (of_key tenant_id fp db). al_timestamp a \<le> T)
        \<and> (\<forall>l \<in> set (get_last_alerts_by_fingerprints tenant_id [fp] db).
              length (datetime_str (la_first_timestamp l)) \<le> 255))"

lemma newest_one: "get_alerts_by_fingerprint t fp (Some 1) None db = take 1 (newest_alerts (of_key t fp db))"
  by (simp add: get_alerts_by_fingerprint_def of_key_def take_limit_def)

lemma previous_of_counted:
  assumes "counted t fp statuses T db" "fp \<noteq> []"
  obtains p where "convert_db_alerts_to_dto_alerts now_iso db (get_alerts_by_fingerprint t fp (Some 1) None db) = [p]"
    "dto_status p = List.last statuses" "dto_firing_counter p = int (since ''acknowledged'' statuses)"
    "dto_unresolved_counter p = int (since ''resolved'' statuses)"
    "short_text (opt_pstr (dto_firing_start_time p))" "short_text (opt_pstr (dto_since_resolved p))"
proof -
  from assms(1) obtain la row rows where la: "get_last_alert_by_fingerprint t fp db = Some la" "row_counts statuses la"
    and row: "newest_alerts (of_key t fp db) = row # rows" "al_name row \<noteq> None" "al_tenant_id row = t"
      "al_fingerprint row = fp" "statuses \<noteq> []" "al_status row = Some (List.last statuses)" "List.last statuses \<in> set alert_statuses"
    unfolding counted_def by blast
  obtain xs x where st: "statuses = xs @ [x]" using row(5) by (metis rev_exhaust)
  have s: "dto_status_of (Some la) row = List.last statuses"
    using la(2) row(6,7) by (simp add: dto_status_of_def row_counts_def)
  obtain p where p: "dto_of_alert now_iso (Some la) row = Some p" using row(2) by (auto simp: dto_of_alert_def Let_def)
  have conv: "convert_db_alerts_to_dto_alerts now_iso db (get_alerts_by_fingerprint t fp (Some 1) None db) = [p]"
    unfolding newest_one using p la(1) row(1,3,4) assms(2) by (simp add: convert_db_alerts_to_dto_alerts_def map_filter_simps)
  have "dto_status p = List.last statuses" using p s row(2) by (auto simp: dto_of_alert_def Let_def)
  moreover have "dto_firing_counter p = int (since ''acknowledged'' statuses)"
    "dto_unresolved_counter p = int (since ''resolved'' statuses)"
    using p s row(2) la(2) st by (auto simp: dto_of_alert_def Let_def row_counts_def int_of_def)
  moreover have "short_text (opt_pstr (dto_firing_start_time p))" "short_text (opt_pstr (dto_since_resolved p))"
    using p row(2) la(2)
    by (auto simp: dto_of_alert_def Let_def row_counts_def short_text_def opt_str_def opt_pstr_def split: pyval.splits)
  ultimately show ?thesis using that conv by blast
qed

lemma set_columns_total:
  "\<forall>(c, v) \<in> set kvs. \<exists>w. column_value store c v = Inr w \<Longrightarrow> \<exists>cols'. set_columns store kvs cols = Inr cols'"
  by (induction kvs arbitrary: cols) fastforce+

lemma tracked_tracking: "tracked (Some (tracking_of isoparse started_at e)) = tracking_of isoparse started_at e"
  by (simp add: tracked_def tracking_of_def LASTALERT_TRACKING_COLUMNS_def)

text \<open>Writing the tracking columns of an event whose counters and texts are in range.\<close>

definition tracks :: "alert_dto \<Rightarrow> pydict \<Rightarrow> pydict \<Rightarrow> bool" where
  "tracks e cols cols' \<longleftrightarrow>
     dget cols' ''firing_counter'' = Some (PInt (dto_firing_counter e))
     \<and> dget cols' ''unresolved_counter'' = Some (PInt (dto_unresolved_counter e))
     \<and> dget cols' ''firing_start_time'' = Some (opt_pstr (dto_firing_start_time e))
     \<and> dget cols' ''firing_start_time_since_last_resolved'' = Some (opt_pstr (dto_since_resolved e))
     \<and> (\<forall>c. c \<notin> set LASTALERT_TRACKING_COLUMNS \<longrightarrow> dget cols' c = dget cols c)"

lemma set_tracking:
  assumes "stores_tracking store" "0 \<le> dto_firing_counter e" "dto_firing_counter e < 2 ^ 31"
    "0 \<le> dto_unresolved_counter e" "dto_unresolved_counter e < 2 ^ 31" "short_text (opt_pstr started_at)"
    "short_text (opt_pstr (dto_firing_start_time e))" "short_text (opt_pstr (dto_since_resolved e))"
  shows "\<exists>cols'. set_columns store (tracked (Some (tracking_of isoparse started_at e))) cols = Inr cols'
    \<and> tracks e cols cols'"
proof -
  let ?t = "tracking_of isoparse started_at e"
  have words: "column_value store c v = Inr v"
    if "short_text v" "c \<in> {''started_at'', ''firing_start_time'', ''firing_start_time_since_last_resolved''}" for c v
  proof -
    have "store c (PStr s) = Inr (PStr s)" if "length s \<le> 255" for s
      using assms(1) that \<open>c \<in> _\<close> unfolding stores_tracking_def by blast
    moreover have "c \<notin> set not_null_columns" using that(2) by (auto simp: not_null_columns_def)
    ultimately show ?thesis using that(1) unfolding short_text_def column_value_def by auto
  qed
  have num: "column_value store c (PInt i) = Inr (PInt i)"
    if "c \<in> {''firing_counter'', ''unresolved_counter''}" "0 \<le> i" "i < 2 ^ 31" for c i
  proof -
    have "store c (PInt i) = Inr (PInt i)" using assms(1) that unfolding stores_tracking_def by blast
    then show ?thesis by (simp add: column_value_def)
  qed
  have time: "\<exists>w. column_value store ''last_received'' (case x of Some us \<Rightarrow> PInt us | None \<Rightarrow> PNone) = Inr w" for x
    using assms(1) unfolding column_value_def stores_tracking_def
    by (cases x) (simp_all add: not_null_columns_def)
  have "\<forall>(c, v) \<in> set ?t. \<exists>w. column_value store c v = Inr w"
    using assms words num time by (simp add: tracking_of_def)
  from set_columns_total [OF this] obtain cols' where c: "set_columns store ?t cols = Inr cols'" by blast
  have w: "wf_dict ?t" by (simp add: wf_dict_def tracking_of_def)
  note at = set_columns_at [OF c w]
  have "dget cols' ''firing_counter'' = Some (PInt (dto_firing_counter e))"
    using at [of "''firing_counter''"] num [of "''firing_counter''" "dto_firing_counter e"] assms(2,3)
    by (simp add: tracking_of_def dget_Cons)
  moreover have "dget cols' ''unresolved_counter'' = Some (PInt (dto_unresolved_counter e))"
    using at [of "''unresolved_counter''"] num [of "''unresolved_counter''" "dto_unresolved_counter e"] assms(4,5)
    by (simp add: tracking_of_def dget_Cons)
  moreover have "dget cols' ''firing_start_time'' = Some (opt_pstr (dto_firing_start_time e))"
    using at [of "''firing_start_time''"] words [of _ "''firing_start_time''"] assms(7)
    by (simp add: tracking_of_def dget_Cons)
  moreover have "dget cols' ''firing_start_time_since_last_resolved'' = Some (opt_pstr (dto_since_resolved e))"
    using at [of "''firing_start_time_since_last_resolved''"] words [of _ "''firing_start_time_since_last_resolved''"] assms(8)
    by (simp add: tracking_of_def dget_Cons)
  moreover have "dget cols' x = dget cols x" if "x \<notin> set LASTALERT_TRACKING_COLUMNS" for x
    using that by (intro set_columns_other [OF c]) (simp add: tracking_of_def LASTALERT_TRACKING_COLUMNS_def)
  ultimately show ?thesis using c by (simp add: tracked_tracking tracks_def)
qed

lemma counters_since:
  assumes "previous = [] \<and> statuses = []
      \<or> (\<exists>p. previous = [p] \<and> statuses \<noteq> [] \<and> dto_status p = List.last statuses
           \<and> dto_firing_counter p = int (since ''acknowledged'' statuses)
           \<and> dto_unresolved_counter p = int (since ''resolved'' statuses))"
  shows "calculated_firing_counter e previous = int (since ''acknowledged'' (statuses @ [dto_status e]))"
    "calculated_unresolved_counter e previous = int (since ''resolved'' (statuses @ [dto_status e]))"
proof -
  have "since s statuses = 0" if "statuses \<noteq> []" "List.last statuses = s" for s
    using that by (cases statuses rule: rev_cases) simp_all
  with assms show "calculated_firing_counter e previous = int (since ''acknowledged'' (statuses @ [dto_status e]))"
    "calculated_unresolved_counter e previous = int (since ''resolved'' (statuses @ [dto_status e]))"
    by (auto simp: calculated_firing_counter_def calculated_unresolved_counter_def)
qed

lemma start_times_short:
  assumes "\<forall>p \<in> set previous. short_text (opt_pstr (dto_firing_start_time p)) \<and> short_text (opt_pstr (dto_since_resolved p))"
    "length (dto_last_received e) \<le> 255"
  shows "short_text (opt_pstr (calculated_start_firing_time e previous))"
    "short_text (opt_pstr (calculate_firing_time_since_last_resolved e previous))"
  using assms
  by (auto simp: calculated_start_firing_time_def calculate_firing_time_since_last_resolved_def short_text_def opt_pstr_def
      split: list.splits option.splits)

lemma clear_undismissed:
  assumes "dict_get cols ''status'' PNone = PNone" "\<not> truthy (dict_get cols ''status_disposable'' PNone)"
    "c \<notin> {''dismiss_mode'', ''dismissed_until''}"
  shows "dict_get (clear_on_occurrence resolved cols) c PNone = dict_get cols c PNone"
  using assms by (auto simp: clear_on_occurrence_def dict_get_def)

lemma row_counts_new:
  assumes "tracks e base cols" "dict_get base ''status'' PNone = PNone"
    "\<not> truthy (dict_get base ''status_disposable'' PNone)"
    "dto_firing_counter e = int (since ''acknowledged'' sts)" "dto_unresolved_counter e = int (since ''resolved'' sts)"
    "short_text (opt_pstr (dto_firing_start_time e))" "short_text (opt_pstr (dto_since_resolved e))"
    "la_cols la = cols \<or> la_cols la = clear_on_occurrence resolved cols"
  shows "row_counts sts la"
proof -
  have base: "dict_get cols ''status'' PNone = PNone" "\<not> truthy (dict_get cols ''status_disposable'' PNone)"
    using assms(1-3) by (simp_all add: tracks_def dict_get_def LASTALERT_TRACKING_COLUMNS_def)
  note cu = clear_undismissed [OF base, of _ resolved]
  have "dict_get (la_cols la) c PNone = dict_get cols c PNone" if "c \<notin> {''dismiss_mode'', ''dismissed_until''}" for c
    using assms(8) cu [OF that] by auto
  with base assms(1,4-7) show ?thesis
    by (simp add: row_counts_def la_col_def tracks_def) (simp add: dict_get_def)
qed

lemma newest_snoc:
  assumes "\<forall>a \<in> set xs. al_timestamp a < al_timestamp row"
  shows "\<exists>rows. newest_alerts (xs @ [row]) = row # rows"
  unfolding newest_alerts_def using assms by (intro sort_key_head) simp

lemma put_unique: "l \<in> set (put_last_alert la las) \<Longrightarrow> la_key l = la_key la \<Longrightarrow> l = la"
proof (cases "la_key la \<in> set (map la_key las)")
  case True
  assume "l \<in> set (put_last_alert la las)" "la_key l = la_key la"
  with True show ?thesis by (auto simp: put_last_alert_def split: if_splits)
next
  case False
  assume l: "l \<in> set (put_last_alert la las)" "la_key l = la_key la"
  with False have "l \<in> set las \<or> l = la" by (simp add: put_last_alert_def disj_commute)
  moreover have "l \<notin> set las" using False l(2) imageI [of l "set las" la_key] by auto
  ultimately show ?thesis by simp
qed

lemma counted_intro:
  assumes "occurrence_of t fp (now_iso, e, row)" "statuses \<noteq> []" "List.last statuses = dto_status e"
    and "adb_alerts db' = adb_alerts db @ [row]" "adb_last_alerts db' = put_last_alert la las"
    and "la_tenant_id la = t" "la_fingerprint la = fp" "la_timestamp la = al_timestamp row" "row_counts statuses la"
    and "length (datetime_str (la_first_timestamp la)) \<le> 255"
    and "\<forall>a \<in> set (of_key t fp db). al_timestamp a < al_timestamp row"
  shows "counted t fp statuses (al_timestamp row) db'"
proof -
  have row: "al_tenant_id row = t" "al_fingerprint row = fp" "al_name row \<noteq> None" "al_status row = Some (dto_status e)"
    "dto_status e \<in> set alert_statuses"
    using assms(1) by (auto simp: occurrence_of_def)
  have k: "of_key t fp db' = of_key t fp db @ [row]" using assms(4) row by (simp add: of_key_def)
  from newest_snoc [OF assms(11)] obtain rows where n: "newest_alerts (of_key t fp db') = row # rows" unfolding k by blast
  have g: "get_last_alert_by_fingerprint t fp db' = Some la"
    using get_after_put [OF assms(6,7)] assms(5) by (simp add: get_last_alert_by_fingerprint_def)
  have f: "\<forall>l \<in> set (get_last_alerts_by_fingerprints t [fp] db'). length (datetime_str (la_first_timestamp l)) \<le> 255"
  proof
    fix l assume "l \<in> set (get_last_alerts_by_fingerprints t [fp] db')"
    then have "l \<in> set (put_last_alert la las)" "la_key l = la_key la"
      using assms(5-7) by (auto simp: get_last_alerts_by_fingerprints_def la_key_def)
    from put_unique [OF this] assms(10) show "length (datetime_str (la_first_timestamp l)) \<le> 255" by simp
  qed
  have t: "\<forall>a \<in> set (of_key t fp db'). al_timestamp a \<le> al_timestamp row"
    using assms(11) by (auto simp: k)
  show ?thesis
    unfolding counted_def using g assms(2,3,8,9) n row t f by auto
qed

lemma started_short:
  assumes "\<forall>l \<in> set (get_last_alerts_by_fingerprints t [fp] db). length (datetime_str (la_first_timestamp l)) \<le> 255"
  shows "short_text (opt_pstr (case dget (get_started_at_for_alerts t [fp] db) fp of
     Some us \<Rightarrow> Some (datetime_str us) | None \<Rightarrow> None))"
proof (cases "dget (get_started_at_for_alerts t [fp] db) fp")
  case None
  then show ?thesis by (simp add: short_text_def opt_pstr_def)
next
  case (Some us)
  then have "map_of (rev (map (\<lambda>la. (la_fingerprint la, la_first_timestamp la))
      (get_last_alerts_by_fingerprints t [fp] db))) fp = Some us"
    by (simp add: get_started_at_for_alerts_def dget_dupdate split: option.splits)
  then have "(fp, us) \<in> set (rev (map (\<lambda>la. (la_fingerprint la, la_first_timestamp la))
      (get_last_alerts_by_fingerprints t [fp] db)))" by (rule map_of_SomeD)
  then obtain l where "l \<in> set (get_last_alerts_by_fingerprints t [fp] db)" "us = la_first_timestamp l" by auto
  with assms Some show ?thesis by (simp add: short_text_def opt_pstr_def)
qed

lemma set_last_alert_no_fault:
  "set_last_alert_once store t a tracking db = Inr db' \<Longrightarrow> n \<noteq> 0 \<Longrightarrow>
     set_last_alert (\<lambda>_. None) store t a n tracking db = (Inr (), db')"
  by (cases n) (simp_all add: set_last_alert_def)

lemma default_values:
  "dict_get default_columns ''status'' PNone = PNone"
  "\<not> truthy (dict_get default_columns ''status_disposable'' PNone)"
  by code_simp+

definition audited :: "bool \<Rightarrow> string \<Rightarrow> string \<Rightarrow> string \<Rightarrow> string \<Rightarrow> string \<Rightarrow> alert_db \<Rightarrow> alert_db" where
  "audited enabled t fp u a d db = (if enabled then add_audit t fp u a d db else db)"

lemma audited_frame [simp]:
  "adb_alerts (audited en t fp u a d db) = adb_alerts db"
  "adb_last_alerts (audited en t fp u a d db) = adb_last_alerts db"
  by (simp_all add: audited_def)

lemma save_event_eq:
  assumes "al_fingerprint row = fp"
  shows "\<exists>a d. save_event isoparse now_iso faults store t started audit own e row db =
    set_last_alert faults store t row 3
      (Some (tracking_of isoparse
        (case dget started fp of Some us \<Rightarrow> Some (datetime_str us) | None \<Rightarrow> own)
        (validate_last_received isoparse now_iso (with_counters now_iso t fp db e))))
      (audited audit t fp ''system'' a d (db\<lparr>adb_alerts := adb_alerts db @ [row]\<rparr>))"
  unfolding save_event_def audited_def assms Let_def by (rule exI)+ (rule refl)

lemma validated_fields [simp]:
  "dto_firing_counter (validate_last_received p n e) = dto_firing_counter e"
  "dto_unresolved_counter (validate_last_received p n e) = dto_unresolved_counter e"
  "dto_firing_start_time (validate_last_received p n e) = dto_firing_start_time e"
  "dto_since_resolved (validate_last_received p n e) = dto_since_resolved e"
  by (simp_all add: validate_last_received_def)

text \<open>One event more.\<close>

lemma save_event_counted:
  assumes "stores_tracking store" "occurrence_of t fp (now_iso, e, row)" "fp \<noteq> []" "length statuses < 2 ^ 31 - 1"
    and "(statuses = [] \<and> of_key t fp db = [] \<and> get_last_alert_by_fingerprint t fp db = None)
       \<or> (\<exists>T. counted t fp statuses T db \<and> T < al_timestamp row)"
  shows "\<exists>db'. save_event isoparse now_iso (\<lambda>_. None) store t (get_started_at_for_alerts t [fp] db) audit None e row db
      = (Inr (), db') \<and> counted t fp (statuses @ [dto_status e]) (al_timestamp row) db'"
proof -
  let ?sts = "statuses @ [dto_status e]"
  let ?previous = "convert_db_alerts_to_dto_alerts now_iso db (get_alerts_by_fingerprint t fp (Some 1) None db)"
  let ?e = "validate_last_received isoparse now_iso (with_counters now_iso t fp db e)"
  let ?started = "case dget (get_started_at_for_alerts t [fp] db) fp of Some us \<Rightarrow> Some (datetime_str us) | None \<Rightarrow> None"
  have row: "al_fingerprint row = fp" "length (dto_last_received e) \<le> 255"
    "length (datetime_str (al_timestamp row)) \<le> 255" using assms(2) by (auto simp: occurrence_of_def)
  have prev: "(?previous = [] \<and> statuses = [] \<or> (\<exists>p. ?previous = [p] \<and> statuses \<noteq> []
      \<and> dto_status p = List.last statuses \<and> dto_firing_counter p = int (since ''acknowledged'' statuses)
      \<and> dto_unresolved_counter p = int (since ''resolved'' statuses)))
    \<and> (\<forall>p \<in> set ?previous. short_text (opt_pstr (dto_firing_start_time p)) \<and> short_text (opt_pstr (dto_since_resolved p)))"
  proof (cases "statuses = [] \<and> of_key t fp db = []")
    case True
    then show ?thesis
      unfolding newest_one by (simp add: convert_db_alerts_to_dto_alerts_def newest_alerts_def map_filter_simps)
  next
    case False
    with assms(5) obtain T where c: "counted t fp statuses T db" by blast
    then have "statuses \<noteq> []" by (auto simp: counted_def)
    from previous_of_counted [OF c assms(3), of now_iso] obtain p where p: "?previous = [p]"
      "dto_status p = List.last statuses" "dto_firing_counter p = int (since ''acknowledged'' statuses)"
      "dto_unresolved_counter p = int (since ''resolved'' statuses)"
      "short_text (opt_pstr (dto_firing_start_time p))" "short_text (opt_pstr (dto_since_resolved p))"
      by blast
    from p(5,6) have "\<forall>x \<in> set ?previous. short_text (opt_pstr (dto_firing_start_time x)) \<and> short_text (opt_pstr (dto_since_resolved x))"
      unfolding p(1) by simp
    with p(1-4) \<open>statuses \<noteq> []\<close> show ?thesis by blast
  qed
  note c = counters_since [OF conjunct1 [OF prev], of e]
  note starts = start_times_short [OF conjunct2 [OF prev] row(2)]
  have e: "dto_firing_counter ?e = int (since ''acknowledged'' ?sts)" "dto_unresolved_counter ?e = int (since ''resolved'' ?sts)"
    "short_text (opt_pstr (dto_firing_start_time ?e))" "short_text (opt_pstr (dto_since_resolved ?e))"
    using c starts by (simp_all add: with_counters_def Let_def)
  have small: "int (since x ?sts) < 2 ^ 31" for x
    using since_le [of x ?sts] assms(4) by simp
  obtain a d where save: "save_event isoparse now_iso (\<lambda>_. None) store t (get_started_at_for_alerts t [fp] db) audit None e row db
      = set_last_alert (\<lambda>_. None) store t row 3 (Some (tracking_of isoparse ?started ?e))
          (audited audit t fp ''system'' a d (db\<lparr>adb_alerts := adb_alerts db @ [row]\<rparr>))"
    using save_event_eq [OF row(1)] by blast
  let ?db = "audited audit t fp ''system'' a d (db\<lparr>adb_alerts := adb_alerts db @ [row]\<rparr>)"
  have g: "get_last_alert_by_fingerprint t (al_fingerprint row) ?db = get_last_alert_by_fingerprint t fp db"
    by (simp add: get_last_alert_by_fingerprint_def row(1))
  have "\<forall>l \<in> set (get_last_alerts_by_fingerprints t [fp] db). length (datetime_str (la_first_timestamp l)) \<le> 255"
    using assms(5)
  proof
    assume "statuses = [] \<and> of_key t fp db = [] \<and> get_last_alert_by_fingerprint t fp db = None"
    then show ?thesis by (auto simp: get_last_alert_by_fingerprint_def get_last_alerts_by_fingerprints_def find_None_iff)
  qed (auto simp: counted_def)
  note started = started_short [OF this]
  have done_by: "\<exists>db'. save_event isoparse now_iso (\<lambda>_. None) store t (get_started_at_for_alerts t [fp] db) audit None e row db
      = (Inr (), db') \<and> counted t fp ?sts (al_timestamp row) db'"
    if "set_last_alert_once store t row (Some (tracking_of isoparse ?started ?e)) ?db
          = Inr (?db\<lparr>adb_last_alerts := put_last_alert la (adb_last_alerts ?db)\<rparr>)"
      "la_tenant_id la = t" "la_fingerprint la = fp" "la_timestamp la = al_timestamp row" "row_counts ?sts la"
      "length (datetime_str (la_first_timestamp la)) \<le> 255"
      "\<forall>a \<in> set (of_key t fp db). al_timestamp a < al_timestamp row" for la
    using set_last_alert_no_fault [OF that(1), of 3] save
      counted_intro [OF assms(2), of ?sts "?db\<lparr>adb_last_alerts := put_last_alert la (adb_last_alerts ?db)\<rparr>" db la
        "adb_last_alerts db"] that
    by simp
  have tracking: "\<exists>cols. set_columns store (tracked (Some (tracking_of isoparse ?started ?e))) base = Inr cols
      \<and> tracks ?e base cols" for base
    using e small started by (intro set_tracking [OF assms(1)]) simp_all
  from assms(5) show ?thesis
  proof
    assume fresh: "statuses = [] \<and> of_key t fp db = [] \<and> get_last_alert_by_fingerprint t fp db = None"
    from tracking [of default_columns] obtain cols where cols:
      "set_columns store (tracked (Some (tracking_of isoparse ?started ?e))) default_columns = Inr cols"
      "tracks ?e default_columns cols" by blast
    let ?la = "\<lparr>la_tenant_id = t, la_fingerprint = fp, la_alert_id = al_id row, la_timestamp = al_timestamp row,
      la_first_timestamp = al_timestamp row, la_alert_hash = al_alert_hash row, la_cols = cols\<rparr>"
    have once: "set_last_alert_once store t row (Some (tracking_of isoparse ?started ?e)) ?db
        = Inr (?db\<lparr>adb_last_alerts := put_last_alert ?la (adb_last_alerts ?db)\<rparr>)"
      unfolding set_last_alert_once_def g using fresh cols(1) by (simp add: row(1))
    have "row_counts ?sts ?la"
      by (rule row_counts_new [OF cols(2) default_values e]) simp
    with row(3) fresh show ?thesis by (intro done_by [OF once]) simp_all
  next
    assume "\<exists>T. counted t fp statuses T db \<and> T < al_timestamp row"
    then obtain T la where T: "counted t fp statuses T db" "T < al_timestamp row"
      and la: "get_last_alert_by_fingerprint t fp db = Some la" "la_timestamp la = T" "row_counts statuses la"
      unfolding counted_def by blast
    from tracking [of "la_cols la"] obtain cols where cols:
      "set_columns store (tracked (Some (tracking_of isoparse ?started ?e))) (la_cols la) = Inr cols"
      "tracks ?e (la_cols la) cols" by blast
    let ?la = "la\<lparr>la_timestamp := al_timestamp row, la_alert_id := al_id row, la_alert_hash := al_alert_hash row,
      la_cols := clear_on_occurrence (al_status row = Some ''resolved'') cols\<rparr>"
    have once: "set_last_alert_once store t row (Some (tracking_of isoparse ?started ?e)) ?db
        = Inr (?db\<lparr>adb_last_alerts := put_last_alert ?la (adb_last_alerts ?db)\<rparr>)"
      unfolding set_last_alert_once_def g using la cols(1) T(2) by simp
    have b: "dict_get (la_cols la) ''status'' PNone = PNone" "\<not> truthy (dict_get (la_cols la) ''status_disposable'' PNone)"
      using la(3) by (simp_all add: row_counts_def la_col_def)
    have "row_counts ?sts ?la"
      by (rule row_counts_new [OF cols(2) b e, where resolved = "al_status row = Some ''resolved''"]) simp
    moreover have "la \<in> set (get_last_alerts_by_fingerprints t [fp] db)"
      using get_last_alert_Some [OF la(1)] by (simp add: get_last_alerts_by_fingerprints_def)
    with T(1) have "length (datetime_str (la_first_timestamp la)) \<le> 255" by (auto simp: counted_def)
    moreover have "\<forall>a \<in> set (of_key t fp db). al_timestamp a < al_timestamp row"
      using T by (auto simp: counted_def)
    ultimately show ?thesis using get_last_alert_Some [OF la(1)] by (intro done_by [OF once]) simp_all
  qed
qed

lemma save_events_counted:
  assumes "stores_tracking store" "fp \<noteq> []"
  shows "\<forall>occ \<in> set occs. occurrence_of t fp occ \<Longrightarrow> sorted_wrt (\<lambda>x y. al_timestamp (snd (snd x)) < al_timestamp (snd (snd y))) occs \<Longrightarrow>
     length statuses + length occs < 2 ^ 31 \<Longrightarrow>
     (statuses = [] \<and> of_key t fp db = [] \<and> get_last_alert_by_fingerprint t fp db = None)
       \<or> (\<exists>T. counted t fp statuses T db \<and> (\<forall>occ \<in> set occs. T < al_timestamp (snd (snd occ)))) \<Longrightarrow>
     \<exists>db'. save_events isoparse store t audit occs db = Inr db'
       \<and> (occs \<noteq> [] \<longrightarrow> (\<exists>T. counted t fp (statuses @ map (\<lambda>(_, e, _). dto_status e) occs) T db'))"
proof (induction occs arbitrary: statuses db)
  case (Cons occ occs)
  obtain now_iso e row where o: "occ = (now_iso, e, row)" by (cases occ)
  have oc: "occurrence_of t fp (now_iso, e, row)" using Cons.prems(1) o by simp
  then have fp: "al_fingerprint row = fp" by (simp add: occurrence_of_def)
  have len: "length statuses < 2 ^ 31 - 1" using Cons.prems(3) by simp
  have prior: "(statuses = [] \<and> of_key t fp db = [] \<and> get_last_alert_by_fingerprint t fp db = None)
       \<or> (\<exists>T. counted t fp statuses T db \<and> T < al_timestamp row)"
    using Cons.prems(4) o by auto
  from save_event_counted [OF assms(1) oc assms(2) len prior, of isoparse audit] obtain db1 where
    s: "save_event isoparse now_iso (\<lambda>_. None) store t (get_started_at_for_alerts t [fp] db) audit None e row db = (Inr (), db1)"
    and c: "counted t fp (statuses @ [dto_status e]) (al_timestamp row) db1" by blast
  have "\<exists>db'. save_events isoparse store t audit occs db1 = Inr db'
      \<and> (occs \<noteq> [] \<longrightarrow> (\<exists>T. counted t fp ((statuses @ [dto_status e]) @ map (\<lambda>(_, e, _). dto_status e) occs) T db'))"
  proof (rule Cons.IH)
    show "(statuses @ [dto_status e] = [] \<and> of_key t fp db1 = [] \<and> get_last_alert_by_fingerprint t fp db1 = None)
      \<or> (\<exists>T. counted t fp (statuses @ [dto_status e]) T db1 \<and> (\<forall>occ \<in> set occs. T < al_timestamp (snd (snd occ))))"
      using c Cons.prems(2) o by auto
  qed (use Cons.prems in auto)
  then obtain db' where "save_events isoparse store t audit occs db1 = Inr db'"
    "occs \<noteq> [] \<longrightarrow> (\<exists>T. counted t fp ((statuses @ [dto_status e]) @ map (\<lambda>(_, e, _). dto_status e) occs) T db')" by blast
  with o s c fp show ?case by (cases occs) auto
qed simp

section \<open>Notes of incidents\<close>

text \<open>The guard that keeps a note when the incoming one is empty restores it first, and the removal of
  null keys then deletes it again when the incoming note is null.\<close>

lemma incident_note_after:
  assumes "dget existing ''note'' = Some n" "truthy n"
  shows "dget (merged_enrichments False existing [(''note'', v)]) ''note'' =
    (if v = PNone then None else if note_is_empty v then Some n else Some v)"
  using assms by (simp add: merged_enrichments_def Let_def dict_get_def dget_Cons note_is_empty_def)

section \<open>Faults while the last alert is written\<close>

lemma set_last_alert_survives:
  assumes "set_last_alert_once store t a tracking db = Inr db'" "k < n"
    and "\<forall>i. 1 \<le> i \<and> i \<le> k \<longrightarrow> (\<exists>e. faults i = Some e \<and> retryable e)" "faults (Suc k) = None"
  shows "set_last_alert faults store t a n tracking db = (Inr (), db')"
proof -
  have "set_last_alert_attempts m (Suc j) faults (set_last_alert_once store t a tracking) db = (Inr (), db')"
    if "j \<le> k" "k - j < m" for m j
    using that
  proof (induction m arbitrary: j)
    case (Suc m)
    show ?case
    proof (cases "j = k")
      case True
      with assms show ?thesis by simp
    next
      case False
      with Suc.prems have "1 \<le> Suc j \<and> Suc j \<le> k" by simp
      with assms(3) obtain e where "faults (Suc j) = Some e" "retryable e" by blast
      with Suc False show ?thesis by simp
    qed
  qed simp
  from this [of 0 n] assms(2) show ?thesis by (simp add: set_last_alert_def)
qed

section \<open>Properties\<close>

text \<open>C34: the alert tables stay well typed.  Whatever the writers do and in whatever order, there is one
  last alert per tenant and fingerprint, it has exactly the columns of the schema with no null in a
  column that forbids it, it describes a saved occurrence of its key and starts no later than that
  occurrence, and every enriched incident exists and has one row.\<close>

theorem alert_tables_typed:
  assumes "adb_reach store incidents db" and "keeps_values store"
  shows "distinct (map la_key (adb_last_alerts db))
    \<and> (\<forall>la \<in> set (adb_last_alerts db).
         map fst (la_cols la) = LASTALERT_ENRICHMENT_COLUMNS @ LASTALERT_TRACKING_COLUMNS
         \<and> (\<forall>c \<in> set not_null_columns. la_col la c \<noteq> PNone)
         \<and> la_first_timestamp la \<le> la_timestamp la
         \<and> (\<exists>a \<in> set (adb_alerts db). al_id a = la_alert_id la \<and> al_tenant_id a = la_tenant_id la
              \<and> al_fingerprint a = la_fingerprint la \<and> al_timestamp a = la_timestamp la))
    \<and> distinct (map ie_incident_id (adb_incident_enrichments db))
    \<and> ie_incident_id ` set (adb_incident_enrichments db) \<subseteq> set (adb_incident_ids db)"
proof -
  note ok = adb_reach_ok [OF assms]
  have "la_col la c \<noteq> PNone" if "la \<in> set (adb_last_alerts db)" "c \<in> set not_null_columns" for la c
  proof -
    have t: "typed_columns (la_cols la)" using ok that(1) by (simp add: alert_tables_ok_def last_alert_ok_def)
    have "c \<in> set lastalert_columns"
      using that(2) by (auto simp: not_null_columns_def LASTALERT_ENRICHMENT_COLUMNS_def LASTALERT_TRACKING_COLUMNS_def)
    from typed_dget [OF t this] t that(2) show ?thesis
      by (auto simp: la_col_def dict_get_def typed_columns_def split: option.splits)
  qed
  with ok show ?thesis
    by (auto simp: alert_tables_ok_def last_alert_ok_def typed_columns_def describes_def)
qed



section \<open>Witnesses\<close>

definition demo_store :: store where
  "demo_store c v =
     (case v of
        PNone \<Rightarrow> Inl (Exn (EOther ''DataError'') ''null'')
      | PStr s \<Rightarrow>
          if c = ''dismissed_until'' then
            (case py_int s of Some i \<Rightarrow> Inr (PInt i) | None \<Rightarrow> Inl (Exn (EOther ''DataError'') ''no timestamp''))
          else if length s \<le> 255 then Inr v else Inl (Exn (EOther ''DataError'') ''too long'')
      | _ \<Rightarrow> Inr v)"

lemma demo_store_ok: "keeps_values demo_store" "stores_tracking demo_store"
  by (auto simp: keeps_values_def stores_tracking_def demo_store_def split: pyval.splits option.splits if_splits)

definition demo_row :: "string \<Rightarrow> int \<Rightarrow> string \<Rightarrow> alert" where
  "demo_row i at status = \<lparr>al_id = i, al_tenant_id = ''t'', al_timestamp = at, al_fingerprint = ''fp'',
     al_name = Some ''disk'', al_status = Some status, al_alert_hash = None, al_provider_type = ''grafana'',
     al_provider_id = None, al_fields = []\<rparr>"

definition demo_empty :: alert_db where
  "demo_empty = \<lparr>adb_alerts = [], adb_last_alerts = [], adb_audits = [], adb_incident_enrichments = [],
     adb_incident_ids = []\<rparr>"

definition demo_saved :: alert_db where
  "demo_saved = snd (set_last_alert (\<lambda>_. None) demo_store ''t'' (demo_row ''a1'' 5 ''firing'') 3 None
     (demo_empty\<lparr>adb_alerts := adb_alerts demo_empty @ [demo_row ''a1'' 5 ''firing'']\<rparr>))"

lemma demo_saved_reach: "adb_reach demo_store [] demo_saved"
proof -
  have "adb_reach demo_store [] demo_empty" using adb_reach.start [of demo_store "[]"] by (simp add: demo_empty_def)
  from adb_reach.insert_alert [OF this, of "demo_row ''a1'' 5 ''firing''"]
  have "adb_reach demo_store [] (demo_empty\<lparr>adb_alerts := adb_alerts demo_empty @ [demo_row ''a1'' 5 ''firing'']\<rparr>)"
    by (simp add: demo_empty_def)
  from adb_reach.set_last [OF this, of "demo_row ''a1'' 5 ''firing''" "''t''"] show ?thesis
    unfolding demo_saved_def by (simp add: demo_row_def)
qed

definition demo_enriched :: alert_db where
  "demo_enriched = snd (enrich_entity demo_store ''t'' ''fp'' [(''assignee'', PStr ''ann'')] ''alert enriched'' ''ann''
     ''by hand'' False True ''alert'' True demo_saved)"

theorem alert_tables_typed_witness:
  "distinct (map la_key (adb_last_alerts demo_enriched))
   \<and> map (\<lambda>la. la_col la ''assignee'') (adb_last_alerts demo_enriched) = [PStr ''ann'']"
proof
  have "adb_reach demo_store [] demo_enriched"
    unfolding demo_enriched_def by (rule adb_reach.enrich [OF demo_saved_reach])
  from alert_tables_typed [OF this demo_store_ok(1)] show "distinct (map la_key (adb_last_alerts demo_enriched))" by blast
  show "map (\<lambda>la. la_col la ''assignee'') (adb_last_alerts demo_enriched) = [PStr ''ann'']" by code_simp
qed


definition demo_event :: "string \<Rightarrow> alert_dto" where
  "demo_event status = \<lparr>dto_status = status, dto_last_received = ''now'', dto_firing_start_time = None,
     dto_since_resolved = None, dto_firing_counter = 0, dto_unresolved_counter = 0\<rparr>"

definition demo_occurrences :: "(string \<times> alert_dto \<times> alert) list" where
  "demo_occurrences = [(''now'', demo_event ''firing'', demo_row ''a1'' 5 ''firing''),
     (''now'', demo_event ''resolved'', demo_row ''a2'' 6 ''resolved''), (''now'', demo_event ''firing'', demo_row ''a3'' 7 ''firing'')]"


end
