(* ===== verification/Maintenance.thy ===== *)
theory Maintenance
  imports RuleMatching AlertStore
begin

text \<open>
  Maintenance windows (\<open>src/common/bl/maintenance_windows_bl.py\<close>): which windows are active, the check that
  drops an incoming alert or overrides its status, and the first pass of the recovery of alerts whose window
  is over, with the functions of \<open>src/common/core/db.py\<close> it calls.  CEL is the parameter of \<open>RuleMatching\<close>;
  one reading of the clock serves a whole call.
\<close>

section \<open>Windows\<close>

record mw_rule =
  mw_id :: int
  mw_name :: string
  mw_tenant_id :: string
  mw_cel_query :: string
  mw_start_time :: int
  mw_end_time :: int
  mw_suppress :: bool
  mw_enabled :: bool
  mw_ignore_statuses :: "string list"

definition active_windows :: "string \<Rightarrow> int \<Rightarrow> mw_rule list \<Rightarrow> mw_rule list" where
  "active_windows tenant_id now table =
     filter (\<lambda>r. mw_tenant_id r = tenant_id \<and> mw_enabled r \<and> now \<le> mw_end_time r \<and> mw_start_time r \<le> now) table"

definition get_maintenance_windows_started :: "int \<Rightarrow> mw_rule list \<Rightarrow> mw_rule list" where
  "get_maintenance_windows_started now table = filter (\<lambda>r. mw_start_time r \<le> now) table"

section \<open>Evaluation\<close>

text \<open>The first element of a source that is a list and not empty.\<close>

definition source_head :: "pydict \<Rightarrow> pydict" where
  "source_head payload =
     (case dget payload ''source'' of
        Some (PList (x # _)) \<Rightarrow> dset ''source'' x payload
      | _ \<Rightarrow> payload)"

definition evaluate_cel :: "'p cel_env \<Rightarrow> mw_rule \<Rightarrow> pydict \<Rightarrow> bool result" where
  "evaluate_cel ce r payload =
     rbind (ce_compile ce (preprocess_cel_expression (mw_cel_query r))) (\<lambda>prgm.
       case ce_evaluate ce prgm (source_head payload) of
         Inl e \<Rightarrow> if is_cel_error e then Inr False else Inl e
       | Inr b \<Rightarrow> Inr b)"

section \<open>The check of an incoming alert\<close>

definition alert_status :: "pydict \<Rightarrow> string" where
  "alert_status alert = (case dict_get alert ''status'' PNone of PStr s \<Rightarrow> s | _ \<Rightarrow> [])"

definition alert_fingerprint :: "pydict \<Rightarrow> string" where
  "alert_fingerprint alert = (case dict_get alert ''fingerprint'' PNone of PStr s \<Rightarrow> s | _ \<Rightarrow> [])"

definition suppressed_alert :: "bool \<Rightarrow> pydict \<Rightarrow> pydict" where
  "suppressed_alert recover alert =
     (if recover then dset ''status'' (PStr ''maintenance'') (dset ''previous_status'' (dict_get alert ''status'' PNone) alert)
      else dset ''status'' (PStr ''suppressed'') alert)"

definition maintenance_audit :: "string \<Rightarrow> mw_rule \<Rightarrow> pydict \<Rightarrow> alert_db \<Rightarrow> alert_db" where
  "maintenance_audit tenant_id r alert db =
     add_audit tenant_id (alert_fingerprint alert) ''Keep'' ''Alert is in maintenance window''
       ((if mw_suppress r then ''Alert suppressed due to maintenance rule `'' else ''Alert in maintenance due to rule `'')
          @ mw_name r @ ''`'') db"

record 'p mw_env =
  mx_tenant_id :: string
  mx_cel :: "'p cel_env"
  mx_recover :: bool
  mx_now :: int

fun check_windows ::
  "'p mw_env \<Rightarrow> mw_rule list \<Rightarrow> pydict \<Rightarrow> alert_db \<Rightarrow> (bool \<times> pydict) result \<times> alert_db" where
  "check_windows env [] alert db = (Inr (False, alert), db)"
| "check_windows env (r # rs) alert db =
     (if alert_status alert \<in> set (mw_ignore_statuses r) \<or> mw_end_time r \<le> mx_now env then check_windows env rs alert db
      else (case evaluate_cel (mx_cel env) r alert of
              Inl e \<Rightarrow> (Inl e, db)
            | Inr False \<Rightarrow> check_windows env rs alert db
            | Inr True \<Rightarrow>
                (Inr (if mw_suppress r then (False, suppressed_alert (mx_recover env) alert) else (True, alert)),
                 maintenance_audit (mx_tenant_id env) r alert db)))"

definition check_if_alert_in_maintenance_windows ::
  "'p mw_env \<Rightarrow> mw_rule list \<Rightarrow> pydict \<Rightarrow> alert_db \<Rightarrow> (bool \<times> pydict) result \<times> alert_db" where
  "check_if_alert_in_maintenance_windows env rules alert db =
     (if rules = [] then (Inr (False, alert), db) else check_windows env rules alert db)"

text \<open>The comprehension of \<open>__handle_formatted_events\<close> (\<open>process_event_task.py\<close>) that keeps the events for
  which the check is \<open>False\<close>.\<close>

fun maintenance_filter :: "'p mw_env \<Rightarrow> mw_rule list \<Rightarrow> pydict list \<Rightarrow> alert_db \<Rightarrow> pydict list result \<times> alert_db" where
  "maintenance_filter env rules [] db = (Inr [], db)"
| "maintenance_filter env rules (e # es) db =
     (case check_if_alert_in_maintenance_windows env rules e db of
        (Inl x, db) \<Rightarrow> (Inl x, db)
      | (Inr (dropped, e), db) \<Rightarrow>
          (case maintenance_filter env rules es db of
             (Inl x, db) \<Rightarrow> (Inl x, db)
           | (Inr es, db) \<Rightarrow> (Inr (if dropped then es else e # es), db)))"

section \<open>Recovery\<close>

text \<open>The attributes of an \<open>Alert\<close> row; reading any other raises.\<close>

definition ALERT_COLUMNS :: "string list" where
  "ALERT_COLUMNS =
     [''id'', ''tenant_id'', ''timestamp'', ''provider_type'', ''provider_id'', ''application'', ''object'', ''node_name'',
      ''severity'', ''operator'', ''time_created'', ''network'', ''timezone'', ''custom_key'', ''expiry_in_minutes'', ''site'',
      ''impact'', ''runbook_url'', ''alert_rule_url'', ''environment'', ''source'', ''service'', ''key_field'', ''name'',
      ''status'', ''description'', ''is_full_duplicate'', ''is_partial_duplicate'', ''duplicate_reason'', ''received_at'',
      ''fingerprint'', ''alert_hash'']"

definition row_dict :: "alert \<Rightarrow> pydict" where
  "row_dict a =
     dupdate (al_fields a)
       [(''id'', PStr (al_id a)), (''tenant_id'', PStr (al_tenant_id a)), (''timestamp'', PStr (datetime_str (al_timestamp a))),
        (''provider_type'', PStr (al_provider_type a)), (''provider_id'', opt_pstr (al_provider_id a)),
        (''name'', opt_pstr (al_name a)), (''status'', opt_pstr (al_status a)), (''fingerprint'', PStr (al_fingerprint a)),
        (''alert_hash'', opt_pstr (al_alert_hash a))]"

definition row_attr :: "alert \<Rightarrow> string \<Rightarrow> pyval result" where
  "row_attr a f =
     (if f \<in> set ALERT_COLUMNS then Inr (dict_get (row_dict a) f PNone)
      else Inl (Exn EAttributeError (''Alert object has no attribute '' @ f)))"

definition update_row :: "alert \<Rightarrow> alert_db \<Rightarrow> alert_db" where
  "update_row a db = db\<lparr>adb_alerts := map (\<lambda>x. if al_id x = al_id a then a else x) (adb_alerts db)\<rparr>"

definition set_maintenance_windows_trace :: "alert \<Rightarrow> mw_rule \<Rightarrow> alert_db \<Rightarrow> unit result \<times> alert_db" where
  "set_maintenance_windows_trace a r db =
     (case row_attr a ''maintenance_windows_trace'' of
        Inl e \<Rightarrow> (Inl e, db)
      | Inr trace \<Rightarrow>
          let trace = (case trace of PList xs \<Rightarrow> xs | _ \<Rightarrow> []); i = PStr (show_int (mw_id r))
          in (Inr (), if i \<in> set trace then db
                else update_row (a\<lparr>al_fields := dset ''maintenance_windows_trace'' (PList (trace @ [i])) (al_fields a)\<rparr>) db))"

text \<open>Only \<open>KeyError\<close> is caught.\<close>

definition recover_prev_alert_status :: "alert \<Rightarrow> alert_db \<Rightarrow> alert result \<times> alert_db" where
  "recover_prev_alert_status a db =
     (case row_attr a ''previous_status'' of
        Inl e \<Rightarrow> if exn_kind e = EKeyError then (Inr a, db) else (Inl e, db)
      | Inr prev \<Rightarrow>
          let a = a\<lparr>al_status := opt_str prev, al_fields := dset ''previous_status'' (opt_pstr (al_status a)) (al_fields a)\<rparr>
          in (Inr a, update_row a db))"

definition window_open :: "int \<Rightarrow> mw_rule \<Rightarrow> alert \<Rightarrow> bool" where
  "window_open now w a \<longleftrightarrow> mw_tenant_id w = al_tenant_id a \<and> mw_start_time w < al_timestamp a
     \<and> al_timestamp a < mw_end_time w \<and> now < mw_end_time w \<and> mw_enabled w"

text \<open>The first open window that matches blocks the recovery; \<open>source\<close> is a list in every row.\<close>

fun blocking_window :: "'p cel_env \<Rightarrow> int \<Rightarrow> mw_rule list \<Rightarrow> alert \<Rightarrow> alert_db \<Rightarrow> bool result \<times> alert_db" where
  "blocking_window ce now [] a db = (Inr False, db)"
| "blocking_window ce now (w # ws) a db =
     (if \<not> window_open now w a then blocking_window ce now ws a db
      else (case evaluate_cel ce w (row_dict a) of
              Inl e \<Rightarrow> (Inl e, db)
            | Inr False \<Rightarrow> blocking_window ce now ws a db
            | Inr True \<Rightarrow>
                (case set_maintenance_windows_trace a w db of
                   (Inl e, db) \<Rightarrow> (Inl e, db)
                 | (Inr _, db) \<Rightarrow> (Inr True, db))))"

definition recover_alert ::
  "'p cel_env \<Rightarrow> int \<Rightarrow> mw_rule list \<Rightarrow> alert \<Rightarrow> alert_db \<Rightarrow> (string \<times> string) list result \<times> alert_db" where
  "recover_alert ce now windows a db =
     (case blocking_window ce now windows a db of
        (Inl e, db) \<Rightarrow> (Inl e, db)
      | (Inr True, db) \<Rightarrow> (Inr [], db)
      | (Inr False, db) \<Rightarrow>
          (case recover_prev_alert_status a db of
             (Inl e, db) \<Rightarrow> (Inl e, db)
           | (Inr a, db) \<Rightarrow>
               (Inr [(al_tenant_id a, al_fingerprint a)],
                add_audit (al_tenant_id a) (al_fingerprint a) ''system'' ''Alert has been removed from maintenance window''
                  (''Alert '' @ al_id a @ '' has recover its previous status, from ''
                    @ (case row_attr a ''previous_status'' of Inr v \<Rightarrow> py_str v | Inl _ \<Rightarrow> ''unknown'')
                    @ '' to '' @ py_str (opt_pstr (al_status a))) db)))"

fun recover_alerts ::
  "'p cel_env \<Rightarrow> int \<Rightarrow> mw_rule list \<Rightarrow> alert list \<Rightarrow> alert_db \<Rightarrow> (string \<times> string) list result \<times> alert_db" where
  "recover_alerts ce now windows [] db = (Inr [], db)"
| "recover_alerts ce now windows (a # as) db =
     (case recover_alert ce now windows a db of
        (Inl e, db) \<Rightarrow> (Inl e, db)
      | (Inr fps, db) \<Rightarrow>
          (case recover_alerts ce now windows as db of
             (Inl e, db) \<Rightarrow> (Inl e, db)
           | (Inr gps, db) \<Rightarrow> (Inr (fps @ gps), db)))"

text \<open>The events of the second pass: the last occurrence of each recovered fingerprint that has a previous
  status.  They go to the workflow manager and the rules engine, whose exceptions are caught.\<close>

definition recovered_event :: "alert_db \<Rightarrow> string \<times> string \<Rightarrow> (string \<times> pydict) list result" where
  "recovered_event db = (\<lambda>(t, fp).
     case get_last_alert_by_fingerprint t fp db of
       None \<Rightarrow> Inl (Exn EAttributeError ''NoneType object has no attribute alert_id'')
     | Some la \<Rightarrow>
         rbind (get_alert_by_event_id t (la_alert_id la) db) (\<lambda>found.
           case found of
             None \<Rightarrow> Inl (Exn EAttributeError ''NoneType object has no attribute id'')
           | Some a \<Rightarrow>
               Inr (case row_attr a ''previous_status'' of
                      Inl _ \<Rightarrow> []
                    | Inr v \<Rightarrow> if truthy v then [(t, row_dict a)] else [])))"

definition recover_strategy ::
  "'p cel_env \<Rightarrow> int \<Rightarrow> mw_rule list \<Rightarrow> alert_db \<Rightarrow> (string \<times> pydict) list result \<times> alert_db" where
  "recover_strategy ce now table db =
     (case recover_alerts ce now (get_maintenance_windows_started now table) (get_alerts_by_status ''maintenance'' db) db of
        (Inl e, db) \<Rightarrow> (Inl e, db)
      | (Inr fps, db) \<Rightarrow> (rbind (rmap (recovered_event db) (remdups fps)) (\<lambda>es. Inr (concat es)), db))"

section \<open>The window that decides\<close>

definition window_applies :: "'p mw_env \<Rightarrow> pydict \<Rightarrow> mw_rule \<Rightarrow> bool" where
  "window_applies env alert r \<longleftrightarrow> alert_status alert \<notin> set (mw_ignore_statuses r) \<and> mx_now env < mw_end_time r
     \<and> evaluate_cel (mx_cel env) r alert = Inr True"

definition deciding_window :: "'p mw_env \<Rightarrow> mw_rule list \<Rightarrow> pydict \<Rightarrow> mw_rule option" where
  "deciding_window env rules alert = find (window_applies env alert) rules"

text \<open>What is left of an event, and the audit trail.\<close>

definition after_window :: "bool \<Rightarrow> mw_rule option \<Rightarrow> pydict \<Rightarrow> pydict option" where
  "after_window recover w alert =
     (case w of
        None \<Rightarrow> Some alert
      | Some r \<Rightarrow> if mw_suppress r then Some (suppressed_alert recover alert) else None)"

definition audited_window :: "'p mw_env \<Rightarrow> mw_rule list \<Rightarrow> pydict \<Rightarrow> alert_db \<Rightarrow> alert_db" where
  "audited_window env rules alert db =
     (case deciding_window env rules alert of None \<Rightarrow> db | Some r \<Rightarrow> maintenance_audit (mx_tenant_id env) r alert db)"

lemma check_decides:
  assumes "check_if_alert_in_maintenance_windows env rules alert db = (Inr (dropped, alert'), db')"
  shows "after_window (mx_recover env) (deciding_window env rules alert) alert = (if dropped then None else Some alert')"
    and "db' = audited_window env rules alert db"
proof -
  have "after_window (mx_recover env) (deciding_window env rules alert) alert = (if dropped then None else Some alert')
      \<and> db' = audited_window env rules alert db"
    if "check_windows env rules alert db = (Inr (dropped, alert'), db')"
    using that
    by (induction env rules alert db rule: check_windows.induct)
      (auto simp: after_window_def audited_window_def deciding_window_def window_applies_def
        split: if_splits sum.splits bool.splits)
  with assms show "after_window (mx_recover env) (deciding_window env rules alert) alert = (if dropped then None else Some alert')"
    "db' = audited_window env rules alert db"
    by (auto simp: check_if_alert_in_maintenance_windows_def after_window_def audited_window_def deciding_window_def
        split: if_splits)
qed

text \<open>C8: the maintenance filter.  When the filter returns, each event was decided by the first active
  window that does not ignore its status and matches it: without one it passes unchanged, a suppressing one
  lets it pass with its status overridden, any other drops it; the audit trail has one entry per decided
  event, in order.\<close>

theorem maintenance_filter_decides:
  assumes "maintenance_filter env rules events db = (Inr kept, db')"
  shows "kept = List.map_filter (\<lambda>e. after_window (mx_recover env) (deciding_window env rules e) e) events
    \<and> db' = fold (audited_window env rules) events db"
  using assms
proof (induction events arbitrary: db kept)
  case (Cons e events)
  obtain dropped e1 db1 where one: "check_if_alert_in_maintenance_windows env rules e db = (Inr (dropped, e1), db1)"
    using Cons.prems by (auto split: prod.splits sum.splits)
  with Cons.prems obtain es where rest: "maintenance_filter env rules events db1 = (Inr es, db')"
    "kept = (if dropped then es else e1 # es)"
    by (auto split: prod.splits sum.splits)
  from check_decides [OF one] Cons.IH [OF rest(1)] rest(2) show ?case
    by (auto simp: List.map_filter_simps)
qed (simp add: List.map_filter_simps)

section \<open>Recovery cannot succeed\<close>

lemma missing_columns:
  "row_attr a ''previous_status'' = Inl (Exn EAttributeError ''Alert object has no attribute previous_status'')"
  "row_attr a ''maintenance_windows_trace''
     = Inl (Exn EAttributeError ''Alert object has no attribute maintenance_windows_trace'')"
  by (simp_all add: row_attr_def ALERT_COLUMNS_def)

lemma blocking_fails: "\<exists>e. blocking_window ce now ws a db = (Inl e, db) \<or> blocking_window ce now ws a db = (Inr False, db)"
  by (induction ce now ws a db rule: blocking_window.induct)
    (auto simp: set_maintenance_windows_trace_def missing_columns split: sum.splits bool.splits)

lemma recover_alert_fails: "\<exists>e. recover_alert ce now ws a db = (Inl e, db)"
  using blocking_fails [of ce now ws a db]
  by (auto simp: recover_alert_def recover_prev_alert_status_def missing_columns)

text \<open>C16: recovery always fails.  The rows of the alert table have no previous status and no trace of
  windows, so as soon as one alert is in maintenance the recovery raises, and changes nothing.\<close>

theorem recovery_always_raises:
  assumes "a \<in> set (adb_alerts db)" "al_status a = Some ''maintenance''"
  shows "\<exists>e. recover_strategy ce now table db = (Inl e, db)"
proof -
  have "a \<in> set (get_alerts_by_status ''maintenance'' db)" using assms by (simp add: get_alerts_by_status_def)
  then obtain b bs where "get_alerts_by_status ''maintenance'' db = b # bs" by (cases "get_alerts_by_status ''maintenance'' db") auto
  with recover_alert_fails [of ce now "get_maintenance_windows_started now table" b db] show ?thesis
    by (auto simp: recover_strategy_def)
qed

section \<open>Examples\<close>

definition demo_cel :: "string cel_env" where
  "demo_cel = \<lparr>ce_compile = Inr, ce_evaluate = (\<lambda>p d. Inr (dict_get d ''name'' PNone = PStr p)), ce_str = py_str,
     ce_float_str = (\<lambda>_. None)\<rparr>"

definition demo_window :: "string \<Rightarrow> bool \<Rightarrow> mw_rule" where
  "demo_window cel suppress = \<lparr>mw_id = 1, mw_name = ''upgrade'', mw_tenant_id = ''t'', mw_cel_query = cel, mw_start_time = 0,
     mw_end_time = 10, mw_suppress = suppress, mw_enabled = True, mw_ignore_statuses = [''resolved'']\<rparr>"

definition demo_mw_env :: "string mw_env" where
  "demo_mw_env = \<lparr>mx_tenant_id = ''t'', mx_cel = demo_cel, mx_recover = False, mx_now = 5\<rparr>"

definition demo_event_dict :: "string \<Rightarrow> string \<Rightarrow> pydict" where
  "demo_event_dict name status = [(''name'', PStr name), (''status'', PStr status), (''fingerprint'', PStr name)]"

theorem maintenance_filter_decides_witness:
  "[demo_event_dict ''cpu'' ''firing'', demo_event_dict ''disk'' ''resolved'',
      dset ''status'' (PStr ''suppressed'') (demo_event_dict ''net'' ''firing'')]
    = List.map_filter (\<lambda>e. after_window (mx_recover demo_mw_env)
        (deciding_window demo_mw_env [demo_window ''disk'' False, demo_window ''net'' True] e) e)
      [demo_event_dict ''cpu'' ''firing'', demo_event_dict ''disk'' ''resolved'', demo_event_dict ''disk'' ''firing'',
       demo_event_dict ''net'' ''firing'']"
  by (rule conjunct1 [OF maintenance_filter_decides [of demo_mw_env _ _ demo_empty _
        "snd (maintenance_filter demo_mw_env [demo_window ''disk'' False, demo_window ''net'' True]
          [demo_event_dict ''cpu'' ''firing'', demo_event_dict ''disk'' ''resolved'', demo_event_dict ''disk'' ''firing'',
           demo_event_dict ''net'' ''firing''] demo_empty)"]]) code_simp

theorem recovery_always_raises_witness:
  "\<exists>e. recover_strategy demo_cel 5 [] (demo_empty\<lparr>adb_alerts := [demo_row ''1'' 3 ''maintenance'']\<rparr>)
     = (Inl e, demo_empty\<lparr>adb_alerts := [demo_row ''1'' 3 ''maintenance'']\<rparr>)"
  by (rule recovery_always_raises [of "demo_row ''1'' 3 ''maintenance''"]) code_simp+

end
