(* ===== verification/IncidentStore.thy ===== *)
theory IncidentStore
  imports AlertStore
begin

text \<open>
  Incidents and their links to alerts in \<open>src/common/core/db.py\<close> (\<open>src/common/models/db/incident.py\<close>,
  \<open>LastAlertToIncident\<close>): creation for a rule, linking and unlinking of alerts with the aggregates the
  incident row caches, merging, deletion, confirmation and changes of status.  Sets the code builds
  are lists without repetition.  Of the names of an incident only the one users see is kept; summaries are left out.
\<close>

section \<open>Tables\<close>

record incident =
  in_id :: string
  in_tenant_id :: string
  in_running_number :: int
  in_name :: "string option"
  in_status :: string
  in_visible :: bool
  in_candidate :: bool
  in_severity :: int
  in_forced_severity :: bool
  in_alerts_count :: int
  in_sources :: "string list"
  in_services :: "string list"
  in_creation_time :: int
  in_start_time :: "int option"
  in_last_seen_time :: "int option"
  in_end_time :: "int option"
  in_rule_id :: "string option"
  in_rule_fingerprint :: string
  in_type :: string
  in_resolve_on :: string
  in_past_id :: "string option"
  in_assignee :: "string option"
  in_merged_into :: "string option"

record link =
  lk_tenant_id :: string
  lk_fingerprint :: string
  lk_incident_id :: string
  lk_by_ai :: bool
  lk_deleted_at :: "int option"

record inc_db =
  idb_store :: alert_db
  idb_incidents :: "incident list"
  idb_links :: "link list"

definition ACTIVE_STATUSES :: "string list" where
  "ACTIVE_STATUSES = [''firing'', ''acknowledged'']"

definition CLOSED_STATUSES :: "string list" where
  "CLOSED_STATUSES = [''resolved'', ''merged'', ''deleted'']"

definition link_of :: "string \<Rightarrow> string \<Rightarrow> link \<Rightarrow> bool" where
  "link_of tenant_id iid l \<longleftrightarrow> lk_tenant_id l = tenant_id \<and> lk_incident_id l = iid"

definition active_links :: "string \<Rightarrow> string \<Rightarrow> inc_db \<Rightarrow> link list" where
  "active_links tenant_id iid db = filter (\<lambda>l. link_of tenant_id iid l \<and> lk_deleted_at l = None) (idb_links db)"

definition linked :: "string \<Rightarrow> string \<Rightarrow> inc_db \<Rightarrow> string list" where
  "linked tenant_id iid db = map lk_fingerprint (active_links tenant_id iid db)"

definition update_incident :: "(incident \<Rightarrow> incident) \<Rightarrow> string \<Rightarrow> string \<Rightarrow> inc_db \<Rightarrow> inc_db" where
  "update_incident f tenant_id iid db =
     db\<lparr>idb_incidents := map (\<lambda>i. if in_id i = iid \<and> in_tenant_id i = tenant_id then f i else i) (idb_incidents db)\<rparr>"

section \<open>Reads\<close>

definition get_incident_by_id :: "string \<Rightarrow> string \<Rightarrow> inc_db \<Rightarrow> incident option" where
  "get_incident_by_id tenant_id iid db = find (\<lambda>i. in_tenant_id i = tenant_id \<and> in_id i = iid) (idb_incidents db)"

definition alert_of :: "inc_db \<Rightarrow> last_alert \<Rightarrow> alert list" where
  "alert_of db la = filter (\<lambda>a. al_id a = la_alert_id la) (adb_alerts (idb_store db))"

text \<open>\<open>enrich_incidents_with_alerts\<close> for one incident: the last alert of every active link.\<close>

definition incident_alerts :: "string \<Rightarrow> string \<Rightarrow> inc_db \<Rightarrow> alert list" where
  "incident_alerts tenant_id iid db =
     concat (map (alert_of db) (filter (\<lambda>la. la_tenant_id la = tenant_id \<and> la_fingerprint la \<in> set (linked tenant_id iid db))
       (adb_last_alerts (idb_store db))))"

text \<open>\<open>enrich_alerts_with_incidents\<close> for one alert.\<close>

definition incidents_of_alert :: "string \<Rightarrow> string \<Rightarrow> inc_db \<Rightarrow> incident list" where
  "incidents_of_alert tenant_id fp db =
     (if get_last_alert_by_fingerprint tenant_id fp (idb_store db) = None then []
      else concat (map (\<lambda>l. filter (\<lambda>i. in_id i = lk_incident_id l) (idb_incidents db))
        (filter (\<lambda>l. lk_tenant_id l = tenant_id \<and> lk_fingerprint l = fp \<and> lk_deleted_at l = None) (idb_links db))))"

definition is_alert_assigned_to_incident :: "string \<Rightarrow> string \<Rightarrow> string \<Rightarrow> inc_db \<Rightarrow> bool" where
  "is_alert_assigned_to_incident fp iid tenant_id db \<longleftrightarrow>
     fp \<in> set (linked tenant_id iid db) \<and> (\<exists>i \<in> set (idb_incidents db). in_id i = iid \<and> in_status i \<noteq> ''deleted'')"

definition get_incident_unique_fingerprint_count :: "string \<Rightarrow> string \<Rightarrow> inc_db \<Rightarrow> nat" where
  "get_incident_unique_fingerprint_count tenant_id iid db = length (active_links tenant_id iid db)"

definition get_incidents_count :: "string \<Rightarrow> inc_db \<Rightarrow> nat" where
  "get_incidents_count tenant_id db = length (filter (\<lambda>i. in_tenant_id i = tenant_id) (idb_incidents db))"

text \<open>The join of last alerts, active links and occurrences on one incident, without a tenant.\<close>

definition joined_alerts :: "string \<Rightarrow> inc_db \<Rightarrow> alert list" where
  "joined_alerts iid db =
     concat (map (alert_of db) (filter (\<lambda>la. la_fingerprint la \<in> set (linked (la_tenant_id la) iid db))
       (adb_last_alerts (idb_store db))))"

text \<open>\<open>get_last_alerts_for_incidents\<close>, newest first.\<close>

definition get_last_alerts_for_incidents :: "string list \<Rightarrow> inc_db \<Rightarrow> (string \<times> alert list) list" where
  "get_last_alerts_for_incidents iids db =
     filter (\<lambda>p. snd p \<noteq> []) (map (\<lambda>iid. (iid, rev (sort_key al_timestamp (joined_alerts iid db)))) (remdups iids))"

section \<open>Aggregates\<close>

definition severity_order :: "string \<Rightarrow> int option" where
  "severity_order s = map_of [(''critical'', 5), (''high'', 4), (''warning'', 3), (''info'', 2), (''low'', 1)] s"

definition LOW :: int where "LOW = 1"
definition CRITICAL :: int where "CRITICAL = 5"

definition severity_of :: "pyval \<Rightarrow> int result" where
  "severity_of v =
     (case v of
        PStr s \<Rightarrow> (case severity_order s of Some n \<Rightarrow> Inr n
          | None \<Rightarrow> Inl (Exn EValueError (repr_str s @ '' is not a valid IncidentSeverity'')))
      | PInt n \<Rightarrow> if 1 \<le> n \<and> n \<le> 5 then Inr n else Inl (Exn EValueError ''No IncidentSeverity with order'')
      | _ \<Rightarrow> Inl (Exn EValueError ''not a valid IncidentSeverity''))"

definition get_int_severity :: "pyval \<Rightarrow> int result" where
  "get_int_severity v = (case v of PInt n \<Rightarrow> Inr n | PBool b \<Rightarrow> Inr (if b then 1 else 0) | _ \<Rightarrow> severity_of v)"

definition alert_field :: "string \<Rightarrow> alert \<Rightarrow> pyval" where
  "alert_field c a = dict_get (al_fields a) c PNone"

definition service_of :: "alert \<Rightarrow> string list" where
  "service_of a = (case alert_field ''service'' a of PStr s \<Rightarrow> if s = [] then [] else [s] | _ \<Rightarrow> [])"

definition source_of :: "alert \<Rightarrow> string list" where
  "source_of a = (if al_provider_type a = [] then [] else [al_provider_type a])"

definition list_max :: "int \<Rightarrow> int list \<Rightarrow> int" where
  "list_max d xs = (case xs of [] \<Rightarrow> d | y # ys \<Rightarrow> fold max ys y)"

text \<open>Sources, services and highest severity of the last alerts of some fingerprints.\<close>

definition get_alerts_data_for_incident ::
  "string \<Rightarrow> string list \<Rightarrow> inc_db \<Rightarrow> (string list \<times> string list \<times> int) result" where
  "get_alerts_data_for_incident tenant_id fps db =
     (let als = concat (map (\<lambda>la. filter (\<lambda>a. al_tenant_id a = tenant_id) (alert_of db la))
            (get_last_alerts_by_fingerprints tenant_id fps (idb_store db)))
      in rbind (rmap severity_of (filter truthy (map (alert_field ''severity'') als))) (\<lambda>severities.
           Inr (remdups (concat (map source_of als)), remdups (concat (map service_of als)), list_max LOW severities)))"

definition received :: "alert \<Rightarrow> int" where
  "received a = (case alert_field ''received_at'' a of PInt t \<Rightarrow> t | _ \<Rightarrow> al_timestamp a)"

definition span :: "int list \<Rightarrow> int option \<times> int option" where
  "span ts = (case ts of [] \<Rightarrow> (None, None) | x # xs \<Rightarrow> (Some (fold min xs x), Some (fold max xs x)))"

section \<open>Linking alerts\<close>

text \<open>\<open>session.refresh\<close>: the row with the primary key of the object.\<close>

definition refreshed :: "incident \<Rightarrow> inc_db \<Rightarrow> incident" where
  "refreshed incident db = (case find (\<lambda>i. in_id i = in_id incident) (idb_incidents db) of Some i \<Rightarrow> i | None \<Rightarrow> incident)"

definition has_last_alert :: "string \<Rightarrow> inc_db \<Rightarrow> string \<Rightarrow> bool" where
  "has_last_alert tenant_id db fp \<longleftrightarrow> get_last_alert_by_fingerprint tenant_id fp (idb_store db) \<noteq> None"

definition new_fingerprints :: "string \<Rightarrow> string \<Rightarrow> string list \<Rightarrow> bool \<Rightarrow> inc_db \<Rightarrow> string list" where
  "new_fingerprints tenant_id iid fps exclude_unlinked db =
     (let existing = filter (has_last_alert tenant_id db) (linked tenant_id iid db);
          unlinked = map lk_fingerprint (filter (\<lambda>l. link_of tenant_id iid l \<and> lk_deleted_at l \<noteq> None
            \<and> has_last_alert tenant_id db (lk_fingerprint l)) (idb_links db))
      in remdups (filter (\<lambda>fp. fp \<notin> set existing \<and> \<not> (exclude_unlinked \<and> fp \<in> set unlinked)) fps))"

definition insert_links :: "string \<Rightarrow> string \<Rightarrow> bool \<Rightarrow> string list \<Rightarrow> inc_db \<Rightarrow> inc_db" where
  "insert_links tenant_id iid by_ai fps db =
     db\<lparr>idb_links := idb_links db @ map (\<lambda>fp. \<lparr>lk_tenant_id = tenant_id, lk_fingerprint = fp,
        lk_incident_id = iid, lk_by_ai = by_ai, lk_deleted_at = None\<rparr>) fps\<rparr>"

text \<open>The links are refused when the incident or a last alert does not exist.  They are committed before
  the aggregates are computed, so an exception there leaves them behind.\<close>

definition add_alerts_to_incident ::
  "string \<Rightarrow> incident \<Rightarrow> string list \<Rightarrow> bool \<Rightarrow> bool \<Rightarrow> bool \<Rightarrow> inc_db \<Rightarrow> incident result \<times> inc_db" where
  "add_alerts_to_incident tenant_id incident fps by_ai override_count exclude_unlinked db =
     (let iid = in_id incident; new = new_fingerprints tenant_id iid fps exclude_unlinked db
      in if new = [] then (Inr incident, db)
         else if \<not> list_all (has_last_alert tenant_id db) new \<or> iid \<notin> set (map in_id (idb_incidents db)) then
           (Inl (Exn EIntegrityError ''foreign key''), db)
         else
           let db = insert_links tenant_id iid by_ai new db
           in (case get_alerts_data_for_incident tenant_id new db of
                 Inl e \<Rightarrow> (Inl e, db)
               | Inr (sources, services, severity) \<Rightarrow>
                   if override_count then (Inl (Exn EKeyError ''count''), db)
                   else
                     let new_severity = (if in_forced_severity incident then in_severity incident
                            else if in_alerts_count incident \<noteq> 0 then max (in_severity incident) severity else severity);
                         times = span (map received (filter (\<lambda>a. al_tenant_id a = tenant_id
                            \<and> al_fingerprint a \<in> set (linked tenant_id iid db)) (adb_alerts (idb_store db))));
                         f = (\<lambda>i. i\<lparr>in_alerts_count := int (length (active_links tenant_id iid db)),
                                in_start_time := fst times, in_last_seen_time := snd times,
                                in_services := remdups (in_services incident @ services),
                                in_severity := new_severity,
                                in_sources := remdups (in_sources incident @ sources)\<rparr>);
                         db = update_incident f tenant_id iid db
                     in (Inr (refreshed incident db), db)))"

definition assign_alert_to_incident :: "string \<Rightarrow> incident \<Rightarrow> string \<Rightarrow> inc_db \<Rightarrow> incident result \<times> inc_db" where
  "assign_alert_to_incident fp incident tenant_id db = add_alerts_to_incident tenant_id incident [fp] False False False db"

text \<open>Membership in the result of a query consumes the result up to the element found.\<close>

fun missing_from_result :: "'a list \<Rightarrow> 'a list \<Rightarrow> 'a list" where
  "missing_from_result [] rows = []"
| "missing_from_result (x # xs) rows =
     (if x \<in> set rows then missing_from_result xs (tl (dropWhile (\<lambda>y. y \<noteq> x) rows))
      else x # missing_from_result xs [])"

definition unlink :: "string \<Rightarrow> string \<Rightarrow> string list \<Rightarrow> int \<Rightarrow> inc_db \<Rightarrow> inc_db" where
  "unlink tenant_id iid fps now db =
     db\<lparr>idb_links := map (\<lambda>l. if link_of tenant_id iid l \<and> lk_deleted_at l = None \<and> lk_fingerprint l \<in> set fps
        then l\<lparr>lk_deleted_at := Some now\<rparr> else l) (idb_links db)\<rparr>"

text \<open>The values of the update after a removal.\<close>

definition remaining_row ::
  "incident \<Rightarrow> string list \<Rightarrow> string list \<Rightarrow> int list \<Rightarrow> int option \<times> int option \<Rightarrow> int \<Rightarrow> incident \<Rightarrow> incident" where
  "remaining_row incident gone_services gone_sources severities seen alerts_count i =
     i\<lparr>in_alerts_count := alerts_count,
       in_start_time := fst seen, in_last_seen_time := snd seen,
       in_services := filter (\<lambda>s. s \<notin> set gone_services) (in_services incident),
       in_severity := (if in_forced_severity incident then in_severity incident else list_max LOW severities),
       in_sources := filter (\<lambda>s. s \<notin> set gone_sources) (in_sources incident)\<rparr>"

definition remove_alerts_to_incident_by_incident_id ::
  "string \<Rightarrow> string \<Rightarrow> string list \<Rightarrow> int \<Rightarrow> inc_db \<Rightarrow> nat option result \<times> inc_db" where
  "remove_alerts_to_incident_by_incident_id tenant_id iid fps now db =
     (case get_incident_by_id tenant_id iid db of
        None \<Rightarrow> (Inr None, db)
      | Some incident \<Rightarrow>
          let deleted = length (filter (\<lambda>l. lk_fingerprint l \<in> set fps) (active_links tenant_id iid db));
              db = unlink tenant_id iid fps now db
          in (case get_alerts_data_for_incident tenant_id fps db of
                Inl e \<Rightarrow> (Inl e, db)
              | Inr (sources, services, _) \<Rightarrow>
                  let rest = joined_alerts iid db
                  in (case rmap (\<lambda>a. get_int_severity (alert_field ''severity'' a)) rest of
                        Inl e \<Rightarrow> (Inl e, db)
                      | Inr severities \<Rightarrow>
                          let gone_services = missing_from_result services
                                (remdups (filter (\<lambda>s. s \<in> set services) (concat (map service_of rest))));
                              gone_sources = missing_from_result sources
                                (remdups (filter (\<lambda>s. s \<in> set sources) (concat (map source_of rest))));
                              seen = span (map received (incident_alerts tenant_id iid db));
                              f = remaining_row incident gone_services gone_sources severities seen
                                (int (length (active_links tenant_id iid db)))
                          in (Inr (Some deleted), update_incident f tenant_id iid db))))"

section \<open>Status and life cycle\<close>

definition change_incident_status_by_id :: "string \<Rightarrow> string \<Rightarrow> string \<Rightarrow> int option \<Rightarrow> inc_db \<Rightarrow> inc_db" where
  "change_incident_status_by_id tenant_id iid status end_time db =
     update_incident (\<lambda>i. i\<lparr>in_status := status, in_end_time := end_time\<rparr>) tenant_id iid db"

definition delete_incident_by_id :: "string \<Rightarrow> string \<Rightarrow> inc_db \<Rightarrow> bool result \<times> inc_db" where
  "delete_incident_by_id tenant_id iid db =
     (case get_incident_by_id tenant_id iid db of
        None \<Rightarrow> (Inl (Exn EAttributeError ''id''), db)
      | Some _ \<Rightarrow> (Inr True, update_incident (\<lambda>i. i\<lparr>in_status := ''deleted''\<rparr>) tenant_id iid db))"

definition confirm_predicted_incident_by_id :: "string \<Rightarrow> string \<Rightarrow> inc_db \<Rightarrow> incident option \<times> inc_db" where
  "confirm_predicted_incident_by_id tenant_id iid db =
     (case find (\<lambda>i. in_tenant_id i = tenant_id \<and> in_id i = iid \<and> in_candidate i) (idb_incidents db) of
        None \<Rightarrow> (None, db)
      | Some i \<Rightarrow> (Some (i\<lparr>in_visible := True\<rparr>),
          update_incident (\<lambda>i. if in_candidate i then i\<lparr>in_visible := True, in_candidate := True\<rparr> else i) tenant_id iid db))"

definition update_incident_severity :: "string \<Rightarrow> string \<Rightarrow> int \<Rightarrow> inc_db \<Rightarrow> incident option \<times> inc_db" where
  "update_incident_severity tenant_id iid severity db =
     (let db' = update_incident (\<lambda>i. i\<lparr>in_severity := severity, in_forced_severity := True\<rparr>) tenant_id iid db
      in (get_incident_by_id tenant_id iid db', db'))"

text \<open>
  The mark of a merged source is pending in the session until the next commit, which is the one of
  \<open>add_alerts_to_incident\<close> when it links something, and the last one otherwise; an exception before the
  commit loses it.  The removal has a session, and a commit, of its own.
\<close>

definition mark_merged :: "string \<Rightarrow> string \<Rightarrow> string list \<Rightarrow> inc_db \<Rightarrow> inc_db" where
  "mark_merged tenant_id dest ids db =
     fold (update_incident (\<lambda>i. i\<lparr>in_merged_into := Some dest, in_status := ''merged''\<rparr>) tenant_id) ids db"

fun merge_sources ::
  "string \<Rightarrow> incident \<Rightarrow> int \<Rightarrow> string list \<Rightarrow> (incident \<times> string list) list \<Rightarrow> inc_db \<Rightarrow> string list result \<times> inc_db" where
  "merge_sources tenant_id dest now pending [] db = (Inr [], mark_merged tenant_id (in_id dest) pending db)"
| "merge_sources tenant_id dest now pending ((source, fps) # ss) db =
     (case remove_alerts_to_incident_by_incident_id tenant_id (in_id source) fps now db of
        (Inl e, db) \<Rightarrow> (Inl e, db)
      | (Inr _, db) \<Rightarrow>
          let pending = pending @ [in_id source];
              new = new_fingerprints tenant_id (in_id dest) fps False db
          in if new = [] then
               (case merge_sources tenant_id dest now pending ss db of
                  (r, db) \<Rightarrow> (rbind r (\<lambda>ids. Inr (in_id source # ids)), db))
             else
               (case add_alerts_to_incident tenant_id dest fps False False False (mark_merged tenant_id (in_id dest) pending db) of
                  (Inl e, db') \<Rightarrow> (Inl e, if e = Exn EIntegrityError ''foreign key'' then db else db')
                | (Inr dest', db') \<Rightarrow>
                    (case merge_sources tenant_id dest' now [] ss db' of
                       (r, db) \<Rightarrow> (rbind r (\<lambda>ids. Inr (in_id source # ids)), db))))"

definition merge_incidents_to_id ::
  "string \<Rightarrow> string list \<Rightarrow> string \<Rightarrow> int \<Rightarrow> inc_db \<Rightarrow> string list result \<times> inc_db" where
  "merge_incidents_to_id tenant_id source_ids dest now db =
     (case get_incident_by_id tenant_id dest db of
        None \<Rightarrow> (Inl (Exn (EOther ''DestinationIncidentNotFound'') (''Destination incident with id '' @ dest @ '' not found'')), db)
      | Some destination \<Rightarrow>
          merge_sources tenant_id destination now []
            (map (\<lambda>i. (i, map al_fingerprint (incident_alerts tenant_id (in_id i) db)))
              (filter (\<lambda>i. in_tenant_id i = tenant_id \<and> in_id i \<in> set source_ids) (idb_incidents db))) db)"

section \<open>All alerts in a status\<close>

text \<open>A null status of an occurrence is in no comparison, so it never counts as another status.\<close>

definition other_status :: "string \<Rightarrow> last_alert \<Rightarrow> alert \<Rightarrow> bool" where
  "other_status status la a \<longleftrightarrow>
     (case la_col la ''status'' of
        PNone \<Rightarrow> (case al_status a of Some s \<Rightarrow> s \<noteq> status | None \<Rightarrow> False)
      | v \<Rightarrow> v \<noteq> PStr status)"

definition is_all_alerts_in_status :: "string list \<Rightarrow> incident option \<Rightarrow> string \<Rightarrow> inc_db \<Rightarrow> bool" where
  "is_all_alerts_in_status fps incident status db =
     (if (case incident of Some i \<Rightarrow> in_alerts_count i = 0 | None \<Rightarrow> False) then False
      else list_all (\<lambda>la.
        (fps \<noteq> [] \<and> la_fingerprint la \<notin> set fps)
        \<or> (case incident of
             Some i \<Rightarrow> \<not> (\<exists>l \<in> set (idb_links db). lk_tenant_id l = la_tenant_id la \<and> lk_fingerprint l = la_fingerprint la
                \<and> lk_deleted_at l = None \<and> lk_incident_id l = in_id i)
           | None \<Rightarrow> False)
        \<or> list_all (\<lambda>a. \<not> other_status status la a) (alert_of db la)) (adb_last_alerts (idb_store db)))"

section \<open>Creation\<close>

text \<open>\<open>get_next_running_number\<close>: the highest number of the tenant, or zero, plus one.\<close>

definition get_next_running_number :: "string \<Rightarrow> inc_db \<Rightarrow> int" where
  "get_next_running_number tenant_id db =
     list_max 0 (map in_running_number (filter (\<lambda>i. in_tenant_id i = tenant_id) (idb_incidents db))) + 1"

text \<open>The row of an \<open>Incident\<close> constructed with the tenant and identifier only: every column has its default.\<close>

definition default_incident :: "string \<Rightarrow> string \<Rightarrow> int \<Rightarrow> incident" where
  "default_incident tenant_id iid now =
     \<lparr>in_id = iid, in_tenant_id = tenant_id, in_running_number = 0, in_name = None, in_status = ''firing'', in_visible = True,
      in_candidate = False, in_severity = CRITICAL, in_forced_severity = False, in_alerts_count = 0, in_sources = [],
      in_services = [], in_creation_time = now, in_start_time = None, in_last_seen_time = None, in_end_time = None,
      in_rule_id = None, in_rule_fingerprint = [], in_type = ''manual'', in_resolve_on = ''all_resolved'',
      in_past_id = None, in_assignee = None, in_merged_into = None\<rparr>"

text \<open>Insertion of a new row, with the listener that numbers it.\<close>

definition set_running_number :: "incident \<Rightarrow> inc_db \<Rightarrow> incident result \<times> inc_db" where
  "set_running_number incident db =
     (if in_id incident \<in> set (map in_id (idb_incidents db)) then (Inl (Exn EIntegrityError ''incident.id''), db)
      else let i = incident\<lparr>in_running_number := get_next_running_number (in_tenant_id incident) db\<rparr>
           in (Inr i, db\<lparr>idb_incidents := idb_incidents db @ [i]\<rparr>))"

section \<open>Operations as steps\<close>

datatype inc_op =
    CreateIncident string string int
  | AddAlerts string string "string list" bool bool bool
  | RemoveAlerts string string "string list" int
  | MergeIncidents string "string list" string int
  | ChangeStatus string string string "int option"
  | DeleteIncident string string
  | ConfirmIncident string string
  | SetSeverity string string int

definition no_value :: "'a result \<times> 's \<Rightarrow> unit result \<times> 's" where
  "no_value p = (rbind (fst p) (\<lambda>_. Inr ()), snd p)"

text \<open>The callers load the incident before they link alerts to it.\<close>

definition incident_step :: "inc_op \<Rightarrow> inc_db \<Rightarrow> unit result \<times> inc_db" where
  "incident_step op db =
     (case op of
        CreateIncident tenant_id iid now \<Rightarrow> no_value (set_running_number (default_incident tenant_id iid now) db)
      | AddAlerts tenant_id iid fps by_ai override_count exclude_unlinked \<Rightarrow>
          (case get_incident_by_id tenant_id iid db of
             None \<Rightarrow> (Inr (), db)
           | Some i \<Rightarrow> no_value (add_alerts_to_incident tenant_id i fps by_ai override_count exclude_unlinked db))
      | RemoveAlerts tenant_id iid fps now \<Rightarrow> no_value (remove_alerts_to_incident_by_incident_id tenant_id iid fps now db)
      | MergeIncidents tenant_id sources dest now \<Rightarrow> no_value (merge_incidents_to_id tenant_id sources dest now db)
      | ChangeStatus tenant_id iid status end_time \<Rightarrow> (Inr (), change_incident_status_by_id tenant_id iid status end_time db)
      | DeleteIncident tenant_id iid \<Rightarrow> no_value (delete_incident_by_id tenant_id iid db)
      | ConfirmIncident tenant_id iid \<Rightarrow> (Inr (), snd (confirm_predicted_incident_by_id tenant_id iid db))
      | SetSeverity tenant_id iid severity \<Rightarrow> (Inr (), snd (update_incident_severity tenant_id iid severity db)))"

section \<open>Invariants\<close>

definition link_key :: "link \<Rightarrow> string \<times> string \<times> string" where
  "link_key l = (lk_tenant_id l, lk_fingerprint l, lk_incident_id l)"

text \<open>At most one active link of an alert and an incident; no link dangles; identifiers and numbers are unique.\<close>

definition tables_ok :: "inc_db \<Rightarrow> bool" where
  "tables_ok db \<longleftrightarrow>
     distinct (map in_id (idb_incidents db))
     \<and> distinct (map (\<lambda>i. (in_tenant_id i, in_running_number i)) (idb_incidents db))
     \<and> distinct (map link_key (filter (\<lambda>l. lk_deleted_at l = None) (idb_links db)))
     \<and> list_all (\<lambda>l. lk_incident_id l \<in> set (map in_id (idb_incidents db))
          \<and> has_last_alert (lk_tenant_id l) db (lk_fingerprint l)) (idb_links db)"

text \<open>The cached count of every incident is the number of its active links.\<close>

definition counts_ok :: "inc_db \<Rightarrow> bool" where
  "counts_ok db \<longleftrightarrow>
     list_all (\<lambda>i. in_alerts_count i = int (length (active_links (in_tenant_id i) (in_id i) db))) (idb_incidents db)"

text \<open>The same for every incident but one.\<close>

definition counts_but :: "string \<Rightarrow> string \<Rightarrow> inc_db \<Rightarrow> bool" where
  "counts_but tenant_id iid db \<longleftrightarrow>
     list_all (\<lambda>i. in_id i = iid \<and> in_tenant_id i = tenant_id
       \<or> in_alerts_count i = int (length (active_links (in_tenant_id i) (in_id i) db))) (idb_incidents db)"

definition same_key :: "(incident \<Rightarrow> incident) \<Rightarrow> bool" where
  "same_key f \<longleftrightarrow>
     (\<forall>i. in_id (f i) = in_id i \<and> in_tenant_id (f i) = in_tenant_id i \<and> in_running_number (f i) = in_running_number i)"

lemma update_incident_sel [simp]:
  "idb_links (update_incident f t iid db) = idb_links db"
  "idb_store (update_incident f t iid db) = idb_store db"
  by (simp_all add: update_incident_def)

lemma active_links_update [simp]: "active_links t iid (update_incident f t' iid' db) = active_links t iid db"
  by (simp add: active_links_def)

lemma has_last_alert_update [simp]: "has_last_alert t (update_incident f t' iid' db) fp = has_last_alert t db fp"
  by (simp add: has_last_alert_def)

lemma map_if_id: "(\<And>i. g (f i) = g i) \<Longrightarrow> map (\<lambda>i. g (if P i then f i else i)) xs = map g xs"
  by (induction xs) simp_all

lemma update_incident_ids:
  assumes "same_key f"
  shows "map in_id (idb_incidents (update_incident f t iid db)) = map in_id (idb_incidents db)"
    and "map (\<lambda>i. (in_tenant_id i, in_running_number i)) (idb_incidents (update_incident f t iid db))
      = map (\<lambda>i. (in_tenant_id i, in_running_number i)) (idb_incidents db)"
  using assms map_if_id [of in_id f] map_if_id [of "\<lambda>i. (in_tenant_id i, in_running_number i)" f]
  by (simp_all add: update_incident_def same_key_def comp_def)

lemma tables_ok_update: "same_key f \<Longrightarrow> tables_ok db \<Longrightarrow> tables_ok (update_incident f t iid db)"
  unfolding tables_ok_def update_incident_ids update_incident_sel has_last_alert_update .

lemma counts_ok_update:
  assumes "same_key f" "\<And>i. in_alerts_count (f i) = in_alerts_count i" "counts_ok db"
  shows "counts_ok (update_incident f t iid db)"
  using assms
  by (simp add: counts_ok_def list_all_iff same_key_def) (auto simp: update_incident_def)

lemma counts_ok_recount:
  assumes "same_key f" "\<And>i. in_alerts_count (f i) = int (length (active_links t iid db))" "counts_but t iid db"
  shows "counts_ok (update_incident f t iid db)"
  using assms
  by (simp add: counts_ok_def counts_but_def list_all_iff same_key_def) (auto simp: update_incident_def)

definition active_keys :: "inc_db \<Rightarrow> (string \<times> string \<times> string) list" where
  "active_keys db = map link_key (filter (\<lambda>l. lk_deleted_at l = None) (idb_links db))"

lemma linked_iff: "fp \<in> set (linked t iid db) \<longleftrightarrow> (t, fp, iid) \<in> set (active_keys db)"
  by (auto simp: linked_def active_links_def active_keys_def link_of_def link_key_def image_iff)

lemma tables_ok_active: "tables_ok db \<Longrightarrow> distinct (active_keys db)"
  by (simp add: tables_ok_def active_keys_def)

lemma active_has_last:
  "list_all (\<lambda>l. Q l \<and> P (lk_tenant_id l) (lk_fingerprint l)) ls \<Longrightarrow> (t, fp, iid) \<in> set (map link_key (filter R ls)) \<Longrightarrow> P t fp"
  by (induction ls) (auto simp: link_key_def split: if_splits)

lemma linked_update [simp]: "linked t iid (update_incident f t' iid' db) = linked t iid db"
  by (simp add: linked_def)

lemma tables_ok_linked_has_last:
  "tables_ok db \<Longrightarrow> fp \<in> set (linked t iid db) \<Longrightarrow> has_last_alert t db fp"
  unfolding tables_ok_def linked_iff active_keys_def by (elim conjE) (rule active_has_last)

lemma new_fingerprints_distinct: "distinct (new_fingerprints t iid fps ex db)"
  by (simp add: new_fingerprints_def Let_def)

lemma new_fingerprints_unlinked:
  assumes "tables_ok db" "fp \<in> set (new_fingerprints t iid fps ex db)"
  shows "fp \<in> set fps \<and> fp \<notin> set (linked t iid db)"
  using assms tables_ok_linked_has_last [OF assms(1)] by (auto simp: new_fingerprints_def Let_def)

lemma set_new_fingerprints:
  "tables_ok db \<Longrightarrow> set (new_fingerprints t iid fps False db) = set fps - set (linked t iid db)"
  using tables_ok_linked_has_last by (auto simp: new_fingerprints_def Let_def)

lemma has_last_alert_insert [simp]: "has_last_alert t (insert_links t' iid ai fps db) = has_last_alert t db"
  by (simp add: has_last_alert_def insert_links_def fun_eq_iff)

lemma insert_links_sel [simp]:
  "idb_incidents (insert_links t iid ai fps db) = idb_incidents db"
  "idb_store (insert_links t iid ai fps db) = idb_store db"
  by (simp_all add: insert_links_def)

lemma linked_insert:
  "linked t iid (insert_links t' iid' ai fps db) = linked t iid db @ (if t = t' \<and> iid = iid' then fps else [])"
  by (auto simp: linked_def active_links_def link_of_def insert_links_def filter_map comp_def)

lemma length_active_links: "length (active_links t iid db) = length (linked t iid db)"
  by (simp add: linked_def)

lemma counts_but_insert: "counts_ok db \<Longrightarrow> counts_but t iid (insert_links t iid ai fps db)"
  by (auto simp: counts_ok_def counts_but_def list_all_iff length_active_links linked_insert)

lemma tables_ok_insert:
  assumes ok: "tables_ok db" and iid: "iid \<in> set (map in_id (idb_incidents db))"
    and last: "list_all (has_last_alert t db) fps" and d: "distinct fps" and new: "\<And>fp. fp \<in> set fps \<Longrightarrow> fp \<notin> set (linked t iid db)"
  shows "tables_ok (insert_links t iid ai fps db)"
proof -
  have k: "active_keys (insert_links t iid ai fps db) = active_keys db @ map (\<lambda>fp. (t, fp, iid)) fps"
    by (simp add: active_keys_def insert_links_def filter_map comp_def link_key_def)
  have "inj_on (\<lambda>fp. (t, fp, iid)) (set fps)" by (simp add: inj_on_def)
  then have "distinct (active_keys (insert_links t iid ai fps db))"
    unfolding k distinct_append using tables_ok_active [OF ok] d new by (auto simp: distinct_map linked_iff)
  moreover have "list_all (\<lambda>l. lk_incident_id l \<in> set (map in_id (idb_incidents db))
      \<and> has_last_alert (lk_tenant_id l) db (lk_fingerprint l)) (idb_links (insert_links t iid ai fps db))"
    using ok iid last by (simp add: tables_ok_def insert_links_def list.pred_map comp_def)
  ultimately show ?thesis
    using ok by (simp add: tables_ok_def active_keys_def)
qed

lemma unlink_sel [simp]:
  "idb_incidents (unlink t iid fps now db) = idb_incidents db"
  "idb_store (unlink t iid fps now db) = idb_store db"
  by (simp_all add: unlink_def)

definition unlink_row :: "string \<Rightarrow> string \<Rightarrow> string list \<Rightarrow> int \<Rightarrow> link \<Rightarrow> link" where
  "unlink_row t iid fps now l =
     (if link_of t iid l \<and> lk_deleted_at l = None \<and> lk_fingerprint l \<in> set fps then l\<lparr>lk_deleted_at := Some now\<rparr> else l)"

lemma unlink_rows: "idb_links (unlink t iid fps now db) = map (unlink_row t iid fps now) (idb_links db)"
  by (simp add: unlink_def unlink_row_def [abs_def])

lemma unlink_row_sel [simp]:
  "lk_tenant_id (unlink_row t iid fps now l) = lk_tenant_id l"
  "lk_incident_id (unlink_row t iid fps now l) = lk_incident_id l"
  "lk_fingerprint (unlink_row t iid fps now l) = lk_fingerprint l"
  "link_key (unlink_row t iid fps now l) = link_key l"
  "lk_deleted_at (unlink_row t iid fps now l) = None
     \<longleftrightarrow> lk_deleted_at l = None \<and> \<not> (link_of t iid l \<and> lk_fingerprint l \<in> set fps)"
  by (auto simp: unlink_row_def link_key_def)

lemma linked_unlink:
  "linked t iid (unlink t' iid' fps now db) =
     (if t = t' \<and> iid = iid' then filter (\<lambda>fp. fp \<notin> set fps) (linked t iid db) else linked t iid db)"
proof (cases "t = t' \<and> iid = iid'")
  case True
  then show ?thesis
    by (simp add: linked_def active_links_def unlink_rows filter_map comp_def link_of_def conj_ac cong: conj_cong)
next
  case False
  then have *: "link_of t iid l \<Longrightarrow> \<not> link_of t' iid' l" for l by (auto simp: link_of_def)
  have "link_of t iid (unlink_row t' iid' fps now l) = link_of t iid l" for l by (simp add: link_of_def)
  then have "(link_of t iid (unlink_row t' iid' fps now l) \<and> lk_deleted_at (unlink_row t' iid' fps now l) = None)
      = (link_of t iid l \<and> lk_deleted_at l = None)" for l
    using * [of l] by auto
  then show ?thesis
    unfolding if_not_P [OF False] by (simp del: unlink_row_sel(5) add: linked_def active_links_def unlink_rows filter_map comp_def)
qed

lemma counts_but_unlink: "counts_ok db \<Longrightarrow> counts_but t iid (unlink t iid fps now db)"
  by (auto simp: counts_ok_def counts_but_def list_all_iff length_active_links linked_unlink)

lemma tables_ok_unlink:
  assumes "tables_ok db"
  shows "tables_ok (unlink t iid fps now db)"
proof -
  have "distinct (map link_key (filter (\<lambda>l. lk_deleted_at l = None \<and> P l) ls))"
    if "distinct (map link_key (filter (\<lambda>l. lk_deleted_at l = None) ls))" for ls :: "link list" and P
    using distinct_map_filter [OF that, of P] by (simp add: conj_commute)
  then show ?thesis
    using assms by (simp add: tables_ok_def has_last_alert_def unlink_rows filter_map comp_def list.pred_map)
qed

lemma new_linkable:
  assumes "tables_ok db" "iid \<in> set (map in_id (idb_incidents db))"
    "list_all (has_last_alert t db) (new_fingerprints t iid fps ex db)"
  shows "tables_ok (insert_links t iid ai (new_fingerprints t iid fps ex db) db)"
  using assms new_fingerprints_unlinked [OF assms(1)] by (intro tables_ok_insert) (auto simp: new_fingerprints_distinct)

lemma add_alerts_tables:
  assumes "tables_ok db"
  shows "tables_ok (snd (add_alerts_to_incident t i fps ai oc ex db))"
  using assms new_linkable [OF assms]
  by (simp add: add_alerts_to_incident_def Let_def same_key_def tables_ok_update split: sum.split)

lemma add_alerts_counts:
  assumes "counts_ok db" "fst (add_alerts_to_incident t i fps ai oc ex db) = Inr i'"
  shows "counts_ok (snd (add_alerts_to_incident t i fps ai oc ex db))"
  using assms counts_but_insert [OF assms(1)]
  by (simp add: add_alerts_to_incident_def Let_def split: sum.splits if_splits prod.splits)
    (auto intro!: counts_ok_recount simp: same_key_def)

lemma add_alerts_linked:
  assumes "fst (add_alerts_to_incident t i fps ai oc ex db) = Inr i'"
  shows "linked t' iid (snd (add_alerts_to_incident t i fps ai oc ex db)) = linked t' iid db
    @ (if t' = t \<and> iid = in_id i then new_fingerprints t (in_id i) fps ex db else [])"
  using assms by (simp add: add_alerts_to_incident_def Let_def linked_insert split: sum.splits if_splits prod.splits)

lemma remove_alerts_tables:
  assumes "tables_ok db"
  shows "tables_ok (snd (remove_alerts_to_incident_by_incident_id t iid fps now db))"
  using assms tables_ok_unlink [OF assms]
  by (simp add: remove_alerts_to_incident_by_incident_id_def remaining_row_def Let_def same_key_def tables_ok_update split: sum.split option.split)

lemma remove_alerts_counts:
  assumes "counts_ok db" "fst (remove_alerts_to_incident_by_incident_id t iid fps now db) = Inr r"
  shows "counts_ok (snd (remove_alerts_to_incident_by_incident_id t iid fps now db))"
  using assms counts_but_unlink [OF assms(1)]
  by (simp add: remove_alerts_to_incident_by_incident_id_def remaining_row_def Let_def split: sum.splits option.splits prod.splits)
    (auto intro!: counts_ok_recount simp: same_key_def remaining_row_def)

lemma remove_alerts_linked:
  assumes "fst (remove_alerts_to_incident_by_incident_id t iid fps now db) = Inr r"
    "get_incident_by_id t iid db \<noteq> None"
  shows "linked t' iid' (snd (remove_alerts_to_incident_by_incident_id t iid fps now db)) =
     (if t' = t \<and> iid' = iid then filter (\<lambda>fp. fp \<notin> set fps) (linked t' iid' db) else linked t' iid' db)"
  using assms
  by (simp add: remove_alerts_to_incident_by_incident_id_def Let_def linked_unlink split: sum.splits option.splits prod.splits)

definition row_keys :: "inc_db \<Rightarrow> (string \<times> string) list" where
  "row_keys db = map (\<lambda>i. (in_tenant_id i, in_id i)) (idb_incidents db)"

lemma row_keys_update [simp]: "same_key f \<Longrightarrow> row_keys (update_incident f t iid db) = row_keys db"
  using map_if_id [of "\<lambda>i. (in_tenant_id i, in_id i)" f] by (simp add: row_keys_def update_incident_def same_key_def comp_def)

lemma row_keys_links [simp]:
  "row_keys (insert_links t iid ai fps db) = row_keys db"
  "row_keys (unlink t iid fps now db) = row_keys db"
  by (simp_all add: row_keys_def)

lemma get_incident_keys: "get_incident_by_id t iid db \<noteq> None \<longleftrightarrow> (t, iid) \<in> set (row_keys db)"
  by (auto simp: get_incident_by_id_def row_keys_def find_None_iff simp del: not_None_eq)

lemma row_keys_add [simp]: "row_keys (snd (add_alerts_to_incident t i fps ai oc ex db)) = row_keys db"
  by (simp add: add_alerts_to_incident_def Let_def same_key_def split: sum.split prod.split)

lemma row_keys_remove [simp]: "row_keys (snd (remove_alerts_to_incident_by_incident_id t iid fps now db)) = row_keys db"
  by (simp add: remove_alerts_to_incident_by_incident_id_def remaining_row_def Let_def same_key_def split: sum.split prod.split option.split)

lemma mark_merged_keeps:
  "tables_ok db \<Longrightarrow> tables_ok (mark_merged t dest ids db)"
  "counts_ok db \<Longrightarrow> counts_ok (mark_merged t dest ids db)"
  "linked t' iid (mark_merged t dest ids db) = linked t' iid db"
  "row_keys (mark_merged t dest ids db) = row_keys db"
  "idb_store (mark_merged t dest ids db) = idb_store db"
  by (induction ids arbitrary: db) (simp_all add: mark_merged_def tables_ok_update counts_ok_update same_key_def)

lemma refreshed_id: "in_id (refreshed i db) = in_id i"
  by (auto simp: refreshed_def find_Some_iff split: option.split)

lemma add_alerts_id: "fst (add_alerts_to_incident t i fps ai oc ex db) = Inr i' \<Longrightarrow> in_id i' = in_id i"
  by (auto simp: add_alerts_to_incident_def Let_def refreshed_id split: sum.splits prod.splits if_splits)

text \<open>The two ways a source is merged without an error, and the recursive call that follows.\<close>

lemma merge_sources_step:
  assumes "remove_alerts_to_incident_by_incident_id t (in_id source) fps now db = (Inr n, db1)"
  shows "new_fingerprints t (in_id dest) fps False db1 = [] \<Longrightarrow>
      merge_sources t dest now pending ((source, fps) # ss) db =
        (rbind (fst (merge_sources t dest now (pending @ [in_id source]) ss db1)) (\<lambda>ids. Inr (in_id source # ids)),
         snd (merge_sources t dest now (pending @ [in_id source]) ss db1))"
    and "new_fingerprints t (in_id dest) fps False db1 \<noteq> [] \<Longrightarrow>
      add_alerts_to_incident t dest fps False False False (mark_merged t (in_id dest) (pending @ [in_id source]) db1) = (Inr dest', db2) \<Longrightarrow>
      merge_sources t dest now pending ((source, fps) # ss) db =
        (rbind (fst (merge_sources t dest' now [] ss db2)) (\<lambda>ids. Inr (in_id source # ids)),
         snd (merge_sources t dest' now [] ss db2))"
  using assms by (simp_all add: Let_def split: prod.split)

lemma merge_sources_tables:
  "tables_ok db \<Longrightarrow> tables_ok (snd (merge_sources t dest now pending ss db))"
proof (induction ss arbitrary: dest pending db)
  case Nil
  then show ?case by (simp add: mark_merged_keeps)
next
  case (Cons s ss)
  obtain source fps where s: "s = (source, fps)" by (cases s)
  obtain x db1 where r: "remove_alerts_to_incident_by_incident_id t (in_id source) fps now db = (x, db1)" by fastforce
  have ok1: "tables_ok db1" using remove_alerts_tables [OF Cons.prems, of t "in_id source" fps now] r by simp
  let ?m = "mark_merged t (in_id dest) (pending @ [in_id source]) db1"
  obtain y db2 where a: "add_alerts_to_incident t dest fps False False False ?m = (y, db2)" by fastforce
  have ok2: "tables_ok db2" using add_alerts_tables [OF mark_merged_keeps(1) [OF ok1]] a by (metis snd_conv)
  consider e where "x = Inl e" | n where "x = Inr n" "new_fingerprints t (in_id dest) fps False db1 = []"
    | n e where "x = Inr n" "new_fingerprints t (in_id dest) fps False db1 \<noteq> []" "y = Inl e"
    | n d where "x = Inr n" "new_fingerprints t (in_id dest) fps False db1 \<noteq> []" "y = Inr d"
    by (cases x; cases y) blast+
  then show ?case
  proof cases
    case 1
    then show ?thesis using s r ok1 by simp
  next
    case 2
    then show ?thesis using s merge_sources_step(1) [OF r [unfolded 2(1)]] Cons.IH [OF ok1] by simp
  next
    case 3
    then show ?thesis using s r a ok1 ok2 by (simp add: Let_def)
  next
    case 4
    then show ?thesis using s merge_sources_step(2) [OF r [unfolded 4(1)] _ a [unfolded 4(3)]] Cons.IH [OF ok2] by simp
  qed
qed

text \<open>What a merge without an error went through, as an induction rule.\<close>

lemma merge_sources_induct [consumes 1, case_names Nil Skip Link]:
  assumes "fst (merge_sources t dest now pending ss db) = Inr ids"
    and "\<And>dest pending db. P dest pending [] db [] (mark_merged t (in_id dest) pending db)"
    and "\<And>dest pending source fps ss db n db1 ids db'.
      remove_alerts_to_incident_by_incident_id t (in_id source) fps now db = (Inr n, db1) \<Longrightarrow>
      new_fingerprints t (in_id dest) fps False db1 = [] \<Longrightarrow>
      P dest (pending @ [in_id source]) ss db1 ids db' \<Longrightarrow> P dest pending ((source, fps) # ss) db (in_id source # ids) db'"
    and "\<And>dest pending source fps ss db n db1 dest' db2 ids db'.
      remove_alerts_to_incident_by_incident_id t (in_id source) fps now db = (Inr n, db1) \<Longrightarrow>
      add_alerts_to_incident t dest fps False False False (mark_merged t (in_id dest) (pending @ [in_id source]) db1) = (Inr dest', db2) \<Longrightarrow>
      P dest' [] ss db2 ids db' \<Longrightarrow> P dest pending ((source, fps) # ss) db (in_id source # ids) db'"
  shows "P dest pending ss db ids (snd (merge_sources t dest now pending ss db))"
  using assms(1)
proof (induction ss arbitrary: dest pending db ids)
  case Nil
  then show ?case using assms(2) by simp
next
  case (Cons s ss)
  obtain source fps where s: "s = (source, fps)" by (cases s)
  obtain x db1 where r: "remove_alerts_to_incident_by_incident_id t (in_id source) fps now db = (x, db1)" by fastforce
  with Cons.prems s obtain n where x: "x = Inr n" by (cases x) auto
  note step = merge_sources_step [OF r [unfolded x]]
  show ?case
  proof (cases "new_fingerprints t (in_id dest) fps False db1 = []")
    case True
    from Cons.prems step(1) [OF True] s obtain ids' where
      i: "fst (merge_sources t dest now (pending @ [in_id source]) ss db1) = Inr ids'" "ids = in_id source # ids'"
      by (auto simp: rbind_Inr_iff)
    show ?thesis
      unfolding s step(1) [OF True] snd_conv i(2) by (rule assms(3) [OF r [unfolded x] True Cons.IH [OF i(1)]])
  next
    case False
    obtain y db2 where a: "add_alerts_to_incident t dest fps False False False
        (mark_merged t (in_id dest) (pending @ [in_id source]) db1) = (y, db2)" by fastforce
    with Cons.prems s r x False obtain d where y: "y = Inr d" by (cases y) (auto simp: Let_def)
    note a = a [unfolded y]
    from Cons.prems step(2) [OF False a] s obtain ids' where
      i: "fst (merge_sources t d now [] ss db2) = Inr ids'" "ids = in_id source # ids'"
      by (auto simp: rbind_Inr_iff)
    show ?thesis
      unfolding s step(2) [OF False a] snd_conv i(2) by (rule assms(4) [OF r [unfolded x] a Cons.IH [OF i(1)]])
  qed
qed

lemma merge_sources_counts:
  assumes "fst (merge_sources t dest now pending ss db) = Inr ids" "counts_ok db"
  shows "counts_ok (snd (merge_sources t dest now pending ss db))"
  using assms
proof (induction rule: merge_sources_induct)
  case (Nil dest pending db)
  then show ?case by (simp add: mark_merged_keeps)
next
  case (Skip dest pending source fps ss db n db1 ids db')
  then show ?case using remove_alerts_counts [of db t "in_id source" fps now n] by simp
next
  case (Link dest pending source fps ss db n db1 dest' db2 ids db')
  have "counts_ok db1" using Link remove_alerts_counts [of db t "in_id source" fps now n] by simp
  then have "counts_ok db2"
    using add_alerts_counts [OF mark_merged_keeps(2), of db1 t dest fps False False False t "in_id dest" "pending @ [in_id source]" dest']
      Link(2) by simp
  then show ?case using Link by simp
qed

definition moved :: "string \<Rightarrow> string \<Rightarrow> (incident \<times> string list) list \<Rightarrow> string set" where
  "moved dest iid ss = (\<Union>(s, fps) \<in> set ss. if iid = dest \<or> iid = in_id s then set fps else {})"

lemma moved_simps [simp]:
  "moved d iid [] = {}"
  "moved d iid ((s, fps) # ss) = (if iid = d \<or> iid = in_id s then set fps \<union> moved d iid ss else moved d iid ss)"
  by (auto simp: moved_def)

text \<open>What a merge does to the links of every incident.\<close>

lemma merge_sources_linked:
  assumes "fst (merge_sources t dest now pending ss db) = Inr ids" "tables_ok db"
    "list_all (\<lambda>(s, fps). in_id s \<noteq> in_id dest \<and> (t, in_id s) \<in> set (row_keys db)) ss"
  shows "ids = map (in_id \<circ> fst) ss \<and>
    (\<forall>t' iid. set (linked t' iid (snd (merge_sources t dest now pending ss db))) =
      (if t' \<noteq> t then set (linked t' iid db)
       else if iid = in_id dest then set (linked t iid db) \<union> moved (in_id dest) iid ss
       else set (linked t iid db) - moved (in_id dest) iid ss))"
  using assms
proof (induction rule: merge_sources_induct)
  case (Nil dest pending db)
  then show ?case by (simp add: mark_merged_keeps)
next
  case (Skip dest pending source fps ss db n db1 ids db')
  have k: "row_keys db1 = row_keys db" using Skip(1) row_keys_remove [of t "in_id source" fps now db] by simp
  have ok: "tables_ok db1" using Skip(1,4) remove_alerts_tables [of db t "in_id source" fps now] by simp
  have l: "linked t' iid db1 = (if t' = t \<and> iid = in_id source then filter (\<lambda>fp. fp \<notin> set fps) (linked t' iid db) else linked t' iid db)"
    for t' iid
    using Skip remove_alerts_linked [of t "in_id source" fps now db n t' iid] by (simp add: get_incident_keys del: not_None_eq)
  have n: "set fps \<subseteq> set (linked t (in_id dest) db1)"
    using set_new_fingerprints [OF ok, of t "in_id dest" fps] Skip(2) by simp
  show ?case using Skip(3,5) ok k l n by (auto simp: l)
next
  case (Link dest pending source fps ss db n db1 dest' db2 ids db')
  let ?m = "mark_merged t (in_id dest) (pending @ [in_id source]) db1"
  have ok: "tables_ok db1" using Link(1,4) remove_alerts_tables [of db t "in_id source" fps now] by simp
  have ok2: "tables_ok db2"
    using add_alerts_tables [OF mark_merged_keeps(1) [OF ok], of t dest fps False False False t "in_id dest" "pending @ [in_id source]"] Link(2)
    by simp
  have d: "in_id dest' = in_id dest" using add_alerts_id [of t dest fps False False False ?m dest'] Link(2) by simp
  have k: "row_keys db2 = row_keys db"
    using Link(1,2) row_keys_remove [of t "in_id source" fps now db] row_keys_add [of t dest fps False False False ?m]
    by (simp add: mark_merged_keeps)
  have l: "linked t' iid db1 = (if t' = t \<and> iid = in_id source then filter (\<lambda>fp. fp \<notin> set fps) (linked t' iid db) else linked t' iid db)"
    for t' iid
    using Link remove_alerts_linked [of t "in_id source" fps now db n t' iid] by (simp add: get_incident_keys del: not_None_eq)
  have l2: "set (linked t' iid db2) = set (linked t' iid db1) \<union> (if t' = t \<and> iid = in_id dest then set fps else {})" for t' iid
    using add_alerts_linked [of t dest fps False False False ?m dest' t' iid] Link(2)
      set_new_fingerprints [OF mark_merged_keeps(1) [OF ok], of t "in_id dest" fps t "in_id dest" "pending @ [in_id source]"]
    by (auto simp: mark_merged_keeps)
  show ?case using Link(3,5) ok2 k by (auto simp: l l2 d)
qed

section \<open>Steps\<close>

text \<open>Every last alert points at occurrences of its own fingerprint.\<close>

definition alerts_point :: "inc_db \<Rightarrow> bool" where
  "alerts_point db \<longleftrightarrow>
     list_all (\<lambda>la. alert_of db la \<noteq> [] \<and> list_all (\<lambda>a. al_fingerprint a = la_fingerprint la) (alert_of db la))
       (adb_last_alerts (idb_store db))"

lemma has_last_alert_iff:
  "has_last_alert t db fp \<longleftrightarrow> (\<exists>la \<in> set (adb_last_alerts (idb_store db)). la_tenant_id la = t \<and> la_fingerprint la = fp)"
  by (auto simp: has_last_alert_def get_last_alert_by_fingerprint_def find_None_iff simp del: not_None_eq)

lemma incident_alerts_fingerprints:
  assumes "tables_ok db" "alerts_point db"
  shows "set (map al_fingerprint (incident_alerts t iid db)) = set (linked t iid db)" (is "?l = ?r")
proof
  show "?l \<subseteq> ?r"
    using assms(2) by (auto simp: incident_alerts_def alerts_point_def list_all_iff)
  show "?r \<subseteq> ?l"
  proof
    fix fp assume fp: "fp \<in> ?r"
    then obtain la where la: "la \<in> set (adb_last_alerts (idb_store db))" "la_tenant_id la = t" "la_fingerprint la = fp"
      using tables_ok_linked_has_last [OF assms(1) fp] by (auto simp: has_last_alert_iff)
    with assms(2) have "hd (alert_of db la) \<in> set (alert_of db la)" "\<forall>a \<in> set (alert_of db la). al_fingerprint a = fp"
      by (auto simp: alerts_point_def list_all_iff)
    then obtain a where a: "a \<in> set (alert_of db la)" "al_fingerprint a = fp" by blast
    then show "fp \<in> ?l"
      using la fp by (auto simp: incident_alerts_def intro!: image_eqI [of _ _ a])
  qed
qed

lemma list_max_upper: "x \<in> set xs \<Longrightarrow> x \<le> list_max d xs"
proof -
  have "y \<le> fold max ys y \<and> (\<forall>x \<in> set ys. x \<le> fold max ys y)" for ys and y :: int
    by (induction ys arbitrary: y) (fastforce dest: spec [of _ "max _ _"])+
  then show "x \<in> set xs \<Longrightarrow> x \<le> list_max d xs"
    by (auto simp: list_max_def split: list.split)
qed

lemma set_running_number_tables:
  assumes "tables_ok db"
  shows "tables_ok (snd (set_running_number i db))"
proof -
  have "get_next_running_number t db > in_running_number j" if "j \<in> set (idb_incidents db)" "in_tenant_id j = t" for j t
    using list_max_upper [of "in_running_number j" "map in_running_number (filter (\<lambda>i. in_tenant_id i = t) (idb_incidents db))" 0] that
    by (force simp: get_next_running_number_def)
  then have "(in_tenant_id i, get_next_running_number (in_tenant_id i) db)
      \<notin> set (map (\<lambda>i. (in_tenant_id i, in_running_number i)) (idb_incidents db))"
    by fastforce
  then show ?thesis
    using assms by (simp add: set_running_number_def Let_def tables_ok_def has_last_alert_def) (auto simp: list_all_iff)
qed

lemma set_running_number_counts:
  assumes "tables_ok db" "counts_ok db" "in_alerts_count i = 0"
  shows "counts_ok (snd (set_running_number i db))"
proof -
  have "linked t (in_id i) db = []" if "in_id i \<notin> set (map in_id (idb_incidents db))" for t
  proof -
    have "lk_incident_id l \<in> set (map in_id (idb_incidents db))" if "l \<in> set (idb_links db)" for l
      using assms(1) that by (simp add: tables_ok_def list_all_iff)
    then have "lk_incident_id l \<noteq> in_id i" if "l \<in> set (idb_links db)" for l
      using \<open>in_id i \<notin> _\<close> that by metis
    then show ?thesis by (simp add: linked_def active_links_def link_of_def filter_empty_conv)
  qed
  moreover have "linked t iid (db\<lparr>idb_incidents := is\<rparr>) = linked t iid db" for t iid "is"
    by (simp add: linked_def active_links_def)
  ultimately show ?thesis
    using assms(2,3) by (auto simp: set_running_number_def Let_def counts_ok_def list_all_iff length_active_links)
qed

lemma no_value_sel [simp]:
  "snd (no_value p) = snd p"
  "fst (no_value p) = Inr u \<longleftrightarrow> (\<exists>x. fst p = Inr x)"
  by (simp_all add: no_value_def rbind_Inr_iff)

lemma merge_tables: "tables_ok db \<Longrightarrow> tables_ok (snd (merge_incidents_to_id t sources dest now db))"
  by (simp add: merge_incidents_to_id_def merge_sources_tables split: option.split)

lemma merge_counts:
  "counts_ok db \<Longrightarrow> fst (merge_incidents_to_id t sources dest now db) = Inr ids \<Longrightarrow>
   counts_ok (snd (merge_incidents_to_id t sources dest now db))"
  by (simp add: merge_incidents_to_id_def merge_sources_counts split: option.splits)

lemmas plain_updates = change_incident_status_by_id_def delete_incident_by_id_def confirm_predicted_incident_by_id_def
  update_incident_severity_def Let_def same_key_def

lemma incident_step_tables: "tables_ok db \<Longrightarrow> tables_ok (snd (incident_step op db))"
  by (cases op)
    (simp_all add: incident_step_def plain_updates set_running_number_tables add_alerts_tables remove_alerts_tables merge_tables
      tables_ok_update split: option.split)

lemma incident_step_counts:
  assumes "tables_ok db" "counts_ok db" "fst (incident_step op db) = Inr u"
  shows "counts_ok (snd (incident_step op db))"
  using assms
  by (cases op)
    (auto simp: incident_step_def plain_updates set_running_number_counts default_incident_def add_alerts_counts remove_alerts_counts
      merge_counts split: option.splits intro!: counts_ok_update)

text \<open>A history of operations; the results are collected, an exception does not stop the next request.\<close>

fun run_incidents :: "inc_op list \<Rightarrow> inc_db \<Rightarrow> unit result list \<times> inc_db" where
  "run_incidents [] db = ([], db)"
| "run_incidents (op # ops) db =
     (case incident_step op db of (r, db) \<Rightarrow> case run_incidents ops db of (rs, db) \<Rightarrow> (r # rs, db))"

lemma run_incidents_tables: "tables_ok db \<Longrightarrow> tables_ok (snd (run_incidents ops db))"
proof (induction ops arbitrary: db)
  case (Cons op ops)
  then show ?case using incident_step_tables [of db op] by (simp split: prod.split) (metis snd_conv)
qed simp

lemma run_incidents_counts:
  assumes "tables_ok db" "counts_ok db" "set (fst (run_incidents ops db)) \<subseteq> {Inr ()}"
  shows "counts_ok (snd (run_incidents ops db))"
  using assms
proof (induction ops arbitrary: db)
  case (Cons op ops)
  obtain r db1 where s: "incident_step op db = (r, db1)" by fastforce
  obtain rs db2 where t: "run_incidents ops db1 = (rs, db2)" by fastforce
  have "r = Inr ()" "set rs \<subseteq> {Inr ()}" using Cons.prems(3) s t by simp_all
  then show ?case
    using Cons.IH [of db1] Cons.prems incident_step_tables [of db op] incident_step_counts [of db op "()"] s t by simp
qed simp

section \<open>Properties\<close>

text \<open>
  C39: along every history of creations, links, unlinks, merges and changes of status that raise nothing,
  the count every incident row caches is the number of active links of the incident.
\<close>

theorem cached_counts_exact:
  assumes "tables_ok db" and "counts_ok db" and "set (fst (run_incidents ops db)) \<subseteq> {Inr ()}"
    and "i \<in> set (idb_incidents (snd (run_incidents ops db)))"
  shows "in_alerts_count i = int (get_incident_unique_fingerprint_count (in_tenant_id i) (in_id i) (snd (run_incidents ops db)))"
  using run_incidents_counts [OF assms(1-3)] assms(4)
  by (simp add: counts_ok_def list_all_iff get_incident_unique_fingerprint_count_def)

definition empty_inc_db :: "last_alert list \<Rightarrow> alert list \<Rightarrow> inc_db" where
  "empty_inc_db las als = \<lparr>idb_store = \<lparr>adb_alerts = als, adb_last_alerts = las, adb_audits = [],
     adb_incident_enrichments = [], adb_incident_ids = []\<rparr>, idb_incidents = [], idb_links = []\<rparr>"

lemma empty_inc_db_ok: "tables_ok (empty_inc_db las als)" "counts_ok (empty_inc_db las als)"
  by (simp_all add: empty_inc_db_def tables_ok_def counts_ok_def)

definition example_la :: "string \<Rightarrow> string \<Rightarrow> last_alert" where
  "example_la fp aid = \<lparr>la_tenant_id = ''t'', la_fingerprint = fp, la_alert_id = aid, la_timestamp = 0,
     la_first_timestamp = 0, la_alert_hash = None, la_cols = []\<rparr>"

definition example_alert :: "string \<Rightarrow> string \<Rightarrow> alert" where
  "example_alert fp aid = \<lparr>al_id = aid, al_tenant_id = ''t'', al_timestamp = 0, al_fingerprint = fp, al_name = None,
     al_status = Some ''firing'', al_alert_hash = None, al_provider_type = ''p'', al_provider_id = None,
     al_fields = [(''severity'', PStr ''high'')]\<rparr>"

definition example_inc_db :: inc_db where
  "example_inc_db = empty_inc_db [example_la ''f'' ''a'', example_la ''g'' ''b''] [example_alert ''f'' ''a'', example_alert ''g'' ''b'']"

definition example_ops :: "inc_op list" where
  "example_ops = [CreateIncident ''t'' ''i'' 1, CreateIncident ''t'' ''j'' 2, AddAlerts ''t'' ''i'' [''f'', ''g''] False False False,
     RemoveAlerts ''t'' ''i'' [''g''] 3, AddAlerts ''t'' ''j'' [''g''] False False False]"

definition example_run :: inc_db where
  "example_run = snd (run_incidents example_ops example_inc_db)"

lemma example_run_clean: "set (fst (run_incidents example_ops example_inc_db)) \<subseteq> {Inr ()}"
  by code_simp

lemma example_run_incidents: "map (\<lambda>i. (in_tenant_id i, in_id i, in_alerts_count i)) (idb_incidents example_run)
    = [(''t'', ''i'', 1), (''t'', ''j'', 1)]"
  unfolding example_run_def by code_simp

theorem cached_counts_exact_witness:
  "\<exists>i :: incident. in_id i = ''j'' \<and> 1 = int (get_incident_unique_fingerprint_count (in_tenant_id i) (in_id i) example_run)"
proof -
  have ok: "tables_ok example_inc_db" "counts_ok example_inc_db"
    unfolding example_inc_db_def by (rule empty_inc_db_ok)+
  have "\<exists>i \<in> set (idb_incidents example_run). in_id i = ''j'' \<and> in_alerts_count i = 1"
    unfolding example_run_def by code_simp
  then obtain i where i: "i \<in> set (idb_incidents example_run)" "in_id i = ''j''" "in_alerts_count i = 1"
    by blast
  have "in_alerts_count i = int (get_incident_unique_fingerprint_count (in_tenant_id i) (in_id i) example_run)"
    using cached_counts_exact [OF ok example_run_clean i(1) [unfolded example_run_def]] unfolding example_run_def .
  then show ?thesis using i(2,3) by (intro exI [of _ i]) simp
qed

lemma merge_incidents_links:
  assumes "tables_ok db" "alerts_point db" "dest \<notin> set sources"
    and "merge_incidents_to_id t sources dest now db = (Inr ids, db')"
  shows "set ids = {s \<in> set sources. (t, s) \<in> set (row_keys db)} \<and>
    set (linked t' iid db') =
      (if t' \<noteq> t then set (linked t' iid db)
       else if iid = dest then set (linked t dest db) \<union> (\<Union>s \<in> set ids. set (linked t s db))
       else if iid \<in> set ids then {} else set (linked t iid db))"
proof -
  let ?rows = "filter (\<lambda>i. in_tenant_id i = t \<and> in_id i \<in> set sources) (idb_incidents db)"
  let ?ss = "map (\<lambda>i. (i, map al_fingerprint (incident_alerts t (in_id i) db))) ?rows"
  from assms(4) obtain d where d: "get_incident_by_id t dest db = Some d"
    by (auto simp: merge_incidents_to_id_def split: option.splits)
  have did: "in_id d = dest" using d by (auto simp: get_incident_by_id_def find_Some_iff)
  have m: "merge_sources t d now [] ?ss db = (Inr ids, db')"
    using assms(4) d by (simp add: merge_incidents_to_id_def)
  have k: "list_all (\<lambda>(s, fps). in_id s \<noteq> in_id d \<and> (t, in_id s) \<in> set (row_keys db)) ?ss"
    using assms(3) did by (auto simp: list_all_iff row_keys_def)
  have f: "fst (merge_sources t d now [] ?ss db) = Inr ids" using m by simp
  have ids: "ids = map in_id ?rows"
    using merge_sources_linked [OF f assms(1) k] by (simp add: comp_def)
  have links: "set (linked t' iid db') =
      (if t' \<noteq> t then set (linked t' iid db)
       else if iid = in_id d then set (linked t iid db) \<union> moved (in_id d) iid ?ss
       else set (linked t iid db) - moved (in_id d) iid ?ss)"
    using merge_sources_linked [OF f assms(1) k] m by simp
  have mv: "moved dest iid ?ss = (\<Union>s \<in> set ids. if iid = dest \<or> iid = s then set (linked t s db) else {})" for iid
    unfolding moved_def ids set_map image_image SUP_image comp_def
    using incident_alerts_fingerprints [OF assms(1,2)] by simp
  have idset: "set ids = {s \<in> set sources. (t, s) \<in> set (row_keys db)}"
    unfolding ids row_keys_def set_map set_filter by blast
  have dn: "dest \<notin> set ids" using idset assms(3) by simp
  have other: "set (linked t iid db) - moved dest iid ?ss = (if iid \<in> set ids then {} else set (linked t iid db))" if "iid \<noteq> dest"
  proof (cases "iid \<in> set ids")
    case True
    then show ?thesis unfolding mv using that by auto
  next
    case False
    then have "moved dest iid ?ss = {}" unfolding mv using that by simp
    then show ?thesis using False by simp
  qed
  have at_dest: "moved dest dest ?ss = (\<Union>s \<in> set ids. set (linked t s db))" unfolding mv by simp
  show ?thesis
  proof (cases "iid = dest")
    case True
    then show ?thesis using idset links [unfolded did] at_dest by simp
  next
    case False
    then show ?thesis using idset links [unfolded did] other [OF False] by simp
  qed
qed



end
