(* ===== verification/Enrichments.thy ===== *)
theory Enrichments
  imports AlertStore IncidentStore
begin

text \<open>
  Enrichment (\<open>src/common/bl/enrichments_bl.py\<close>): extraction rules, which cut named groups out of an
  attribute of an event, mapping rules, which look the alert up in the rows of a table, the metadata of a
  manual enrichment, and the events and logs kept about every rule.  An alert is the dictionary of its
  \<open>AlertDto\<close>; attribute names are not names of Python methods, identifiers are strings.  chevron, html,
  the regular expressions, CEL, json5, the topology query and Elasticsearch are parameters.
\<close>

section \<open>Rules and state\<close>

record extraction_rule =
  er_id :: int
  er_tenant_id :: string
  er_name :: string
  er_priority :: int
  er_disabled :: bool
  er_pre :: bool
  er_condition :: "string option"
  er_attribute :: string
  er_regex :: string

record mapping_rule =
  mr_id :: int
  mr_tenant_id :: string
  mr_name :: string
  mr_priority :: int
  mr_disabled :: bool
  mr_type :: string
  mr_matchers :: "string list list"
  mr_rows :: "pydict list"
  mr_multi_level :: bool
  mr_new_property :: "string option"
  mr_prefix :: "string option"

record enrichment_event =
  ev_tenant_id :: string
  ev_status :: string
  ev_type :: string
  ev_rule_id :: int
  ev_alert_id :: string
  ev_enriched :: pydict

text \<open>The pending messages belong to the object; a tracked event takes them into the log table, where
  they name it by its position.\<close>

record enrich_world =
  ew_db :: alert_db
  ew_events :: "enrichment_event list"
  ew_logs :: "(nat \<times> string) list"
  ew_pending :: "string list"

record topology_match =
  tp_dict :: pydict
  tp_repository :: "string option"
  tp_applications :: "string option list"

record enrich_env =
  ee_tenant_id :: string
  ee_disabled :: bool
  ee_store :: store
  ee_render :: "string \<Rightarrow> pydict \<Rightarrow> string result"
  ee_unescape :: "string \<Rightarrow> string"
  ee_condition :: "string \<Rightarrow> pydict \<Rightarrow> bool result"
  ee_search :: "string \<Rightarrow> string \<Rightarrow> pydict option result"
  ee_json5 :: "string \<Rightarrow> pyval result"
  ee_topology :: "pydict \<Rightarrow> topology_match option result"
  ee_to_dto :: "pydict \<Rightarrow> pydict result"
  ee_elastic :: "string \<Rightarrow> pydict \<Rightarrow> exn option"

definition get_mapping_rule_by_id :: "string \<Rightarrow> int \<Rightarrow> mapping_rule list \<Rightarrow> mapping_rule option" where
  "get_mapping_rule_by_id tenant_id rule_id rules = find (\<lambda>r. mr_tenant_id r = tenant_id \<and> mr_id r = rule_id) rules"

definition get_extraction_rule_by_id :: "string \<Rightarrow> int \<Rightarrow> extraction_rule list \<Rightarrow> extraction_rule option" where
  "get_extraction_rule_by_id tenant_id rule_id rules = find (\<lambda>r. er_tenant_id r = tenant_id \<and> er_id r = rule_id) rules"

section \<open>Events and logs\<close>

definition add_enrichment_log :: "string \<Rightarrow> enrich_world \<Rightarrow> enrich_world" where
  "add_enrichment_log msg w = w\<lparr>ew_pending := ew_pending w @ [msg]\<rparr>"

definition is_valid_uuid :: "string \<Rightarrow> bool" where
  "is_valid_uuid s \<longleftrightarrow> uuid_hex s \<noteq> None"

definition track_enrichment_event ::
  "string \<Rightarrow> string option \<Rightarrow> string \<Rightarrow> string \<Rightarrow> int \<Rightarrow> pydict \<Rightarrow> enrich_world \<Rightarrow> enrich_world" where
  "track_enrichment_event tenant_id alert_id status ty rule_id enriched w =
     (case alert_id of
        None \<Rightarrow> w\<lparr>ew_pending := []\<rparr>
      | Some i \<Rightarrow>
          if \<not> is_valid_uuid i then w\<lparr>ew_pending := []\<rparr>
          else w\<lparr>ew_events := ew_events w @ [\<lparr>ev_tenant_id = tenant_id, ev_status = status, ev_type = ty,
                   ev_rule_id = rule_id, ev_alert_id = i, ev_enriched = enriched\<rparr>],
                 ew_logs := ew_logs w @ map (\<lambda>m. (length (ew_events w), m)) (ew_pending w), ew_pending := []\<rparr>)"

definition get_enrichment_events :: "string \<Rightarrow> int \<Rightarrow> string \<Rightarrow> nat \<Rightarrow> nat \<Rightarrow> enrich_world \<Rightarrow> enrichment_event list" where
  "get_enrichment_events tenant_id rule_id ty limit offset w =
     take limit (drop offset (rev (filter (\<lambda>e. ev_rule_id e = rule_id \<and> ev_tenant_id e = tenant_id \<and> ev_type e = ty)
       (ew_events w))))"

definition get_total_enrichment_events :: "string \<Rightarrow> int \<Rightarrow> string \<Rightarrow> enrich_world \<Rightarrow> nat" where
  "get_total_enrichment_events tenant_id rule_id ty w =
     length (filter (\<lambda>e. ev_rule_id e = rule_id \<and> ev_tenant_id e = tenant_id \<and> ev_type e = ty) (ew_events w))"

section \<open>Writing enrichments\<close>

definition disposable :: "string \<Rightarrow> bool \<Rightarrow> pydict \<Rightarrow> pydict" where
  "disposable entity_type dispose enrichments =
     (if entity_type \<noteq> ''incident'' \<and> dispose \<and> dget enrichments ''status'' \<noteq> None
      then dset ''status_disposable'' (PBool True) enrichments else enrichments)"

definition bl_batch_enrich ::
  "enrich_env \<Rightarrow> string list \<Rightarrow> pydict \<Rightarrow> string \<Rightarrow> string \<Rightarrow> string \<Rightarrow> bool \<Rightarrow> bool \<Rightarrow> string \<Rightarrow> bool \<Rightarrow> alert_db
     \<Rightarrow> unit result \<times> alert_db" where
  "bl_batch_enrich env fps enrichments action callee description dispose audit_enabled entity_type strict db =
     (let enrichments = disposable entity_type dispose enrichments
      in if entity_type = ''incident'' then
           (case batch_enrich_incident (ee_tenant_id env) fps enrichments action callee description audit_enabled db of
              (x, db) \<Rightarrow> (rbind x (\<lambda>_. Inr ()), db))
         else (case batch_enrich (ee_store env) (ee_tenant_id env) fps enrichments action callee description audit_enabled strict db of
                 (x, db) \<Rightarrow> (rbind x (\<lambda>_. Inr ()), db)))"

text \<open>An audit row without a fingerprint violates its constraint.  Elasticsearch is told when the alert should
  be there; only \<open>NotFoundError\<close> is caught.\<close>

definition bl_enrich_entity ::
  "enrich_env \<Rightarrow> string option \<Rightarrow> pydict \<Rightarrow> string \<Rightarrow> string \<Rightarrow> string \<Rightarrow> bool \<Rightarrow> bool \<Rightarrow> bool \<Rightarrow> bool \<Rightarrow> string \<Rightarrow> bool
     \<Rightarrow> alert_db \<Rightarrow> unit result \<times> alert_db" where
  "bl_enrich_entity env fingerprint enrichments action callee description should_exist dispose force audit_enabled
     entity_type strict db =
     (case (if entity_type \<noteq> ''incident'' then normalize_alert_enrichments (disposable entity_type dispose enrichments) strict
            else Inr enrichments) of
        Inl e \<Rightarrow> (Inl e, db)
      | Inr enrichments \<Rightarrow>
          (case fingerprint of
             None \<Rightarrow> if audit_enabled then (Inl (Exn EIntegrityError ''alertaudit.fingerprint''), db) else (Inr (), db)
           | Some fp \<Rightarrow>
               (case enrich_entity (ee_store env) (ee_tenant_id env) fp enrichments action callee description force
                       audit_enabled entity_type strict db of
                  (Inl e, db) \<Rightarrow> (Inl e, db)
                | (Inr _, db) \<Rightarrow>
                    (if should_exist \<and> entity_type = ''alert'' then
                       (case ee_elastic env fp enrichments of
                          Some e \<Rightarrow> if exn_kind e = EOther ''NotFoundError'' then Inr () else Inl e
                        | None \<Rightarrow> Inr ())
                     else Inr (), db))))"

text \<open>The write of a rule: system call, unknown keys dropped, the alert not yet indexed.\<close>

definition rule_enrich ::
  "enrich_env \<Rightarrow> string option \<Rightarrow> pydict \<Rightarrow> string \<Rightarrow> string \<Rightarrow> enrich_world \<Rightarrow> unit result \<times> enrich_world" where
  "rule_enrich env fingerprint enrichments action description w =
     (case bl_enrich_entity env fingerprint enrichments action ''system'' description False False False True ''alert'' False (ew_db w) of
        (x, db) \<Rightarrow> (x, w\<lparr>ew_db := db\<rparr>))"

section \<open>Extraction\<close>

definition wrap_attribute :: "string \<Rightarrow> string" where
  "wrap_attribute a = (if \<not> starts_with ''{{'' a \<and> \<not> ends_with ''}}'' a then ''{{ '' @ a @ '' }}'' else a)"

definition extraction_rules :: "string \<Rightarrow> bool \<Rightarrow> extraction_rule list \<Rightarrow> extraction_rule list" where
  "extraction_rules tenant_id pre table =
     sort_key (\<lambda>r. - er_priority r) (filter (\<lambda>r. er_tenant_id r = tenant_id \<and> \<not> er_disabled r \<and> er_pre r = pre) table)"

definition has_condition :: "extraction_rule \<Rightarrow> bool" where
  "has_condition r = (case er_condition r of None \<Rightarrow> False | Some c \<Rightarrow> c \<noteq> ''*'' \<and> c \<noteq> [])"

text \<open>A skipped rule: what it logs before it is tracked.\<close>

definition skip_rule :: "enrich_env \<Rightarrow> string option \<Rightarrow> int \<Rightarrow> string \<Rightarrow> enrich_world \<Rightarrow> enrich_world" where
  "skip_rule env event_id rule_id msg w =
     track_enrichment_event (ee_tenant_id env) event_id ''skipped'' ''extraction'' rule_id [] (add_enrichment_log msg w)"

definition extract_one ::
  "enrich_env \<Rightarrow> string option \<Rightarrow> string option \<Rightarrow> extraction_rule \<Rightarrow> string \<Rightarrow> pydict \<Rightarrow> enrich_world
     \<Rightarrow> unit result \<times> pydict \<times> enrich_world" where
  "extract_one env fp event_id r attribute event w =
     (case ee_search env (er_regex r) attribute of
        Inl e \<Rightarrow> (Inl e, event, w)
      | Inr None \<Rightarrow> (Inr (), event, skip_rule env event_id (er_id r) ''Regex did not match, skipping extraction'' w)
      | Inr (Some groups) \<Rightarrow>
          let groups = dpop ''source'' groups; event = dupdate event groups
          in (case rule_enrich env fp groups ''alert enriched by extraction rule''
                     (''Alert enriched with extraction from rule `'' @ er_name r @ ''`'') w of
                (Inl e, w) \<Rightarrow> (Inl e, event, w)
              | (Inr _, w) \<Rightarrow>
                  (Inr (), event, track_enrichment_event (ee_tenant_id env) event_id ''success'' ''extraction'' (er_id r) groups
                     (add_enrichment_log ''Event enriched with extraction rule'' w))))"

definition extraction_rule_step ::
  "enrich_env \<Rightarrow> string option \<Rightarrow> string option \<Rightarrow> extraction_rule \<Rightarrow> pydict \<Rightarrow> enrich_world
     \<Rightarrow> unit result \<times> pydict \<times> enrich_world" where
  "extraction_rule_step env fp event_id r event w =
     (case ee_render env (wrap_attribute (er_attribute r)) event of
        Inl e \<Rightarrow> (Inl e, event, w)
      | Inr attribute \<Rightarrow>
          let attribute = ee_unescape env attribute
          in if attribute = [] then
               (Inr (), event, skip_rule env event_id (er_id r)
                  (''Attribute ('' @ er_attribute r @ '') value is empty, skipping extraction'') w)
             else if \<not> has_condition r then
               extract_one env fp event_id r attribute event
                 (add_enrichment_log (''No condition specified for rule '' @ er_name r @ '', enriching...'') w)
             else (case ee_condition env (the (er_condition r)) event of
                     Inl e \<Rightarrow> (Inl e, event, w)
                   | Inr False \<Rightarrow>
                       (Inr (), event, skip_rule env event_id (er_id r)
                          (''Condition did not match, skipping extraction for rule '' @ er_name r @ '' with condition ''
                            @ the (er_condition r)) w)
                   | Inr True \<Rightarrow> extract_one env fp event_id r attribute event w))"

text \<open>The dictionary of the event is updated in place, so a caller that catches an exception sees the
  updates of the rules before it.\<close>

fun extraction_loop ::
  "enrich_env \<Rightarrow> string option \<Rightarrow> string option \<Rightarrow> extraction_rule list \<Rightarrow> pydict \<Rightarrow> enrich_world
     \<Rightarrow> unit result \<times> pydict \<times> enrich_world" where
  "extraction_loop env fp event_id [] event w = (Inr (), event, w)"
| "extraction_loop env fp event_id (r # rs) event w =
     (case extraction_rule_step env fp event_id r event w of
        (Inl e, event, w) \<Rightarrow> (Inl e, event, w)
      | (Inr _, event, w) \<Rightarrow> extraction_loop env fp event_id rs event w)"

text \<open>\<open>given\<close> are the rules the caller passes.  For an \<open>AlertDto\<close> the loop works on a copy, from which a
  new object is built.  The result is the event returned; the event the caller holds is the third
  component.\<close>

definition run_extraction_rules ::
  "enrich_env \<Rightarrow> extraction_rule list \<Rightarrow> extraction_rule list \<Rightarrow> bool \<Rightarrow> bool \<Rightarrow> pydict \<Rightarrow> enrich_world
     \<Rightarrow> pydict result \<times> pydict \<times> enrich_world" where
  "run_extraction_rules env table given pre is_dto event w =
     (if ee_disabled env then (Inr event, event, w)
      else
        let fp = opt_str (dict_get event ''fingerprint'' PNone);
            event_id = opt_str (dict_get event (if is_dto then ''id'' else ''event_id'') PNone);
            rules = (if given \<noteq> [] then given else extraction_rules (ee_tenant_id env) pre table);
            w = add_enrichment_log ''Running extraction rules for incoming event'' w
        in if rules = [] then
             (Inr event, event, skip_rule env event_id 0 (''No extraction rules found (pre: '' @ py_str (PBool pre) @ '')'') w)
           else (case extraction_loop env fp event_id rules event w of
                   (Inl e, event', w) \<Rightarrow> (Inl e, if is_dto then event else event', w)
                 | (Inr _, event', w) \<Rightarrow>
                     if is_dto then (ee_to_dto env event', event, w) else (Inr event', event', w)))"

definition run_extraction_rule_by_id ::
  "enrich_env \<Rightarrow> extraction_rule list \<Rightarrow> int \<Rightarrow> string \<Rightarrow> pydict \<Rightarrow> enrich_world \<Rightarrow> pydict result \<times> enrich_world" where
  "run_extraction_rule_by_id env table rule_id alert_id payload w =
     (case get_extraction_rule_by_id (ee_tenant_id env) rule_id table of
        None \<Rightarrow> (Inl (Exn (EHttp 404) ''Extraction rule not found''), w)
      | Some r \<Rightarrow>
          (case run_extraction_rules env table [r] False False (dset ''event_id'' (PStr alert_id) payload) w of
             (x, _, w) \<Rightarrow> (x, w)))"

section \<open>Attributes of an alert\<close>

definition py_attr :: "pyval \<Rightarrow> string \<Rightarrow> pyval" where
  "py_attr v a = (case v of PDict d \<Rightarrow> dict_get d a PNone | _ \<Rightarrow> PNone)"

fun nested_attr :: "pyval \<Rightarrow> string list \<Rightarrow> pyval" where
  "nested_attr v [] = v"
| "nested_attr v (a # as) =
     (case py_attr v (py_replace ''@@'' ''.'' a) of PNone \<Rightarrow> PNone | v \<Rightarrow> nested_attr v as)"

definition get_nested_attribute :: "pydict \<Rightarrow> string \<Rightarrow> pyval" where
  "get_nested_attribute alert path =
     (case (if path = ''source'' then dget alert ''source'' else None) of
        Some (PList (x # _)) \<Rightarrow> x
      | _ \<Rightarrow> nested_attr (PDict alert) (py_split ''.'' path))"

definition has_attributes :: "pydict \<Rightarrow> string list \<Rightarrow> bool" where
  "has_attributes alert matcher \<longleftrightarrow> list_all (\<lambda>a. get_nested_attribute alert a \<noteq> PNone) matcher"

section \<open>Matching a row\<close>

text \<open>\<open>re.search\<close> of the value of the row in the attribute; a value that is no text raises \<open>TypeError\<close>.\<close>

definition is_match :: "enrich_env \<Rightarrow> pyval \<Rightarrow> pyval \<Rightarrow> bool result" where
  "is_match env v pattern =
     (case (v, pattern) of
        (PNone, _) \<Rightarrow> Inr False
      | (_, PNone) \<Rightarrow> Inr False
      | (PStr s, PStr p) \<Rightarrow> rbind (ee_search env p s) (\<lambda>m. Inr (m \<noteq> None))
      | _ \<Rightarrow> Inl (Exn ETypeError ''expected string or bytes-like object''))"

definition check_attribute :: "enrich_env \<Rightarrow> pydict \<Rightarrow> pydict \<Rightarrow> string \<Rightarrow> bool result" where
  "check_attribute env alert row a =
     (let v = get_nested_attribute alert (py_strip a); p = dict_get row (py_strip a) PNone
      in rbind (is_match env v p) (\<lambda>b. Inr (b \<or> v = p \<or> p = PStr ''*'')))"

fun check_attributes :: "enrich_env \<Rightarrow> pydict \<Rightarrow> pydict \<Rightarrow> string list \<Rightarrow> bool result" where
  "check_attributes env alert row [] = Inr True"
| "check_attributes env alert row (a # as) =
     rbind (check_attribute env alert row a) (\<lambda>b. if b then check_attributes env alert row as else Inr False)"

definition check_matcher :: "enrich_env \<Rightarrow> pydict \<Rightarrow> pydict \<Rightarrow> string list \<Rightarrow> enrich_world \<Rightarrow> bool result \<times> enrich_world" where
  "check_matcher env alert row matcher w =
     (case check_attributes env alert row matcher of
        Inr b \<Rightarrow> (Inr b, w)
      | Inl e \<Rightarrow> if exn_kind e = ETypeError then (Inr False, add_enrichment_log ''Error while checking matcher'' w)
          else (Inl e, w))"

fun any_matcher :: "enrich_env \<Rightarrow> pydict \<Rightarrow> pydict \<Rightarrow> string list list \<Rightarrow> enrich_world \<Rightarrow> bool result \<times> enrich_world" where
  "any_matcher env alert row [] w = (Inr False, w)"
| "any_matcher env alert row (m # ms) w =
     (case check_matcher env alert row m w of
        (Inl e, w) \<Rightarrow> (Inl e, w)
      | (Inr True, w) \<Rightarrow> (Inr True, w)
      | (Inr False, w) \<Rightarrow> any_matcher env alert row ms w)"

definition strip_value :: "pyval \<Rightarrow> pyval" where
  "strip_value v = (case v of PStr s \<Rightarrow> PStr (py_strip s) | _ \<Rightarrow> v)"

definition row_enrichments :: "mapping_rule \<Rightarrow> pydict \<Rightarrow> pydict" where
  "row_enrichments r row =
     dupdate [] (map (\<lambda>(k, v). (py_strip k, strip_value v))
       (filter (\<lambda>(k, v). v \<noteq> PNone \<and> \<not> (\<exists>m \<in> set (mr_matchers r). k \<in> set m)) row))"

fun first_row :: "enrich_env \<Rightarrow> pydict \<Rightarrow> mapping_rule \<Rightarrow> pydict list \<Rightarrow> enrich_world \<Rightarrow> pydict result \<times> enrich_world" where
  "first_row env alert r [] w = (Inr [], w)"
| "first_row env alert r (row # rows) w =
     (case any_matcher env alert row (mr_matchers r) w of
        (Inl e, w) \<Rightarrow> (Inl e, w)
      | (Inr True, w) \<Rightarrow> (Inr (row_enrichments r row), w)
      | (Inr False, w) \<Rightarrow> first_row env alert r rows w)"

section \<open>Topology and multi-level mapping\<close>

definition topology_enrichments :: "enrich_env \<Rightarrow> pydict \<Rightarrow> mapping_rule \<Rightarrow> pydict option result" where
  "topology_enrichments env alert r =
     rbind (rmap (\<lambda>m. case m of [] \<Rightarrow> Inl (Exn EIndexError ''list index out of range'')
                              | a # _ \<Rightarrow> Inr (a, get_nested_attribute alert a)) (mr_matchers r)) (\<lambda>kvs.
       rbind (ee_topology env (dupdate [] kvs)) (\<lambda>found.
         case found of
           None \<Rightarrow> Inr None
         | Some t \<Rightarrow>
             let repos = concat (map (\<lambda>a. case a of Some (c # cs) \<Rightarrow> [(''repository'', PStr (c # cs))] | _ \<Rightarrow> [])
                   (if tp_repository t = None \<or> tp_repository t = Some [] then tp_applications t else []))
             in Inr (Some (dpop ''id'' (dpop ''tenant_id'' (dupdate (tp_dict t) repos))))))"

definition check_explicit_match :: "pydict \<Rightarrow> string \<Rightarrow> string \<Rightarrow> bool" where
  "check_explicit_match row key v \<longleftrightarrow> dict_get row (py_strip key) PNone = PStr (py_strip v)"

definition strip_required :: "pyval \<Rightarrow> pyval result" where
  "strip_required v = (case v of PStr s \<Rightarrow> Inr (PStr (py_strip s)) | _ \<Rightarrow> Inl (Exn EAttributeError ''strip''))"

definition level_row :: "pydict \<Rightarrow> pydict \<Rightarrow> pydict result" where
  "level_row existing row =
     rbind (rmap (\<lambda>(k, v). rbind (strip_required v) (\<lambda>v. Inr (py_strip k, v))) (filter (\<lambda>(k, v). v \<noteq> PNone) row))
       (\<lambda>kvs. Inr (dupdate existing kvs))"

definition iter_values :: "pyval \<Rightarrow> pyval list result" where
  "iter_values v =
     (case v of
        PList xs \<Rightarrow> Inr xs
      | PDict d \<Rightarrow> Inr (map (PStr \<circ> fst) d)
      | PStr s \<Rightarrow> Inr (map (\<lambda>c. PStr [c]) s)
      | _ \<Rightarrow> Inl (Exn ETypeError ''object is not iterable''))"

definition truthy_opt :: "string option \<Rightarrow> bool" where
  "truthy_opt v \<longleftrightarrow> v \<noteq> None \<and> v \<noteq> Some []"

definition level_step :: "mapping_rule \<Rightarrow> string \<Rightarrow> pyval \<Rightarrow> pydict \<Rightarrow> pydict result" where
  "level_step r key v levels =
     (case v of
        PStr s \<Rightarrow>
          let m = (if truthy_opt (mr_prefix r) then py_replace (the (mr_prefix r)) [] s else s)
          in (case find (\<lambda>row. check_explicit_match row key m) (mr_rows r) of
                None \<Rightarrow> Inr levels
              | Some row \<Rightarrow>
                  rbind (level_row (case dget levels m of Some (PDict d) \<Rightarrow> d | _ \<Rightarrow> []) row)
                    (\<lambda>d. Inr (dset m (PDict d) levels)))
      | _ \<Rightarrow> if truthy_opt (mr_prefix r) \<or> mr_rows r \<noteq> [] then Inl (Exn EAttributeError ''replace or strip'') else Inr levels)"

fun level_loop :: "mapping_rule \<Rightarrow> string \<Rightarrow> pyval list \<Rightarrow> pydict \<Rightarrow> pydict result" where
  "level_loop r key [] levels = Inr levels"
| "level_loop r key (v # vs) levels = rbind (level_step r key v levels) (level_loop r key vs)"

definition multi_level_enrichments ::
  "enrich_env \<Rightarrow> pydict \<Rightarrow> mapping_rule \<Rightarrow> enrich_world \<Rightarrow> pydict result \<times> enrich_world" where
  "multi_level_enrichments env alert r w =
     (case mr_matchers r of
        (key # _) # _ \<Rightarrow>
          let v = get_nested_attribute alert key
          in if \<not> truthy v then (Inr [], add_enrichment_log ''WTF, should not happen?'' w)
             else (rbind (case v of PStr s \<Rightarrow> ee_json5 env s | _ \<Rightarrow> Inr v) (\<lambda>v.
                     rbind (iter_values v) (\<lambda>vs.
                       rbind (level_loop r key vs []) (\<lambda>levels.
                         if levels = [] then Inr []
                         else case mr_new_property r of
                                None \<Rightarrow> Inl (Exn EAttributeError ''strip'')
                              | Some p \<Rightarrow> Inr [(p, PDict levels)]))), w)
      | _ \<Rightarrow> (Inl (Exn EIndexError ''list index out of range''), w))"

section \<open>Mapping\<close>

definition rule_enrichments :: "enrich_env \<Rightarrow> pydict \<Rightarrow> mapping_rule \<Rightarrow> enrich_world \<Rightarrow> pydict result \<times> enrich_world" where
  "rule_enrichments env alert r w =
     (if mr_type r = ''topology'' then
        (case topology_enrichments env alert r of
          Inl e \<Rightarrow> (Inl e, w)
        | Inr None \<Rightarrow> (Inr [], add_enrichment_log ''No topology service found to match on'' w)
        | Inr (Some es) \<Rightarrow> (Inr es, w))
      else if mr_type r = ''csv'' then
        (if mr_multi_level r then multi_level_enrichments env alert r w else first_row env alert r (mr_rows r) w)
      else (Inr [], w))"

text \<open>\<open>setattr\<close> of every value that is not null.\<close>

definition set_attributes :: "pydict \<Rightarrow> pydict \<Rightarrow> pydict" where
  "set_attributes enrichments alert =
     dupdate alert (map (\<lambda>(k, v). (py_strip k, strip_value v)) (filter (\<lambda>(k, v). v \<noteq> PNone) enrichments))"

definition enrich_matched ::
  "enrich_env \<Rightarrow> pydict \<Rightarrow> mapping_rule \<Rightarrow> enrich_world \<Rightarrow> bool result \<times> pydict \<times> enrich_world" where
  "enrich_matched env alert r w =
     (case rule_enrichments env alert r w of
        (Inl e, w) \<Rightarrow> (Inl e, alert, w)
      | (Inr [], w) \<Rightarrow>
          (Inr False, alert, track_enrichment_event (ee_tenant_id env) (opt_str (dict_get alert ''id'' PNone)) ''failure''
             ''mapping'' (mr_id r) [] (add_enrichment_log ''Alert was not enriched by mapping rule'' w))
      | (Inr enrichments, w) \<Rightarrow>
          let alert' = set_attributes enrichments alert
          in (case rule_enrich env (opt_str (dict_get alert' ''fingerprint'' PNone)) enrichments
                     ''alert enriched by mapping rule'' (''Alert enriched with mapping from rule `'' @ mr_name r @ ''`'') w of
                (Inl e, w) \<Rightarrow> (Inl e, alert', w)
              | (Inr _, w) \<Rightarrow>
                  (Inr True, alert', track_enrichment_event (ee_tenant_id env)
                     (opt_str (dict_get alert' ''id'' PNone)) ''success'' ''mapping'' (mr_id r) enrichments
                     (add_enrichment_log ''Alert enriched'' w))))"

definition check_if_match_and_enrich ::
  "enrich_env \<Rightarrow> pydict \<Rightarrow> mapping_rule \<Rightarrow> enrich_world \<Rightarrow> bool result \<times> pydict \<times> enrich_world" where
  "check_if_match_and_enrich env alert r w =
     (let w = add_enrichment_log ''Checking alert against mapping rule'' w
      in case find (\<lambda>m. m \<noteq> [] \<and> has_attributes alert m) (mr_matchers r) of
           None \<Rightarrow>
             (Inr False, alert, track_enrichment_event (ee_tenant_id env) (opt_str (dict_get alert ''id'' PNone))
                ''skipped'' ''mapping'' (mr_id r) []
                (add_enrichment_log ''Alert does not match any of the conditions for the rule'' w))
         | Some m \<Rightarrow>
             enrich_matched env alert r
               (add_enrichment_log ''Alert matched a mapping rule, enriching...''
                 (add_enrichment_log (''Alert matched a mapping rule for matcher: '' @ py_str (PList (map PStr m))) w)))"

definition mapping_rules :: "string \<Rightarrow> mapping_rule list \<Rightarrow> mapping_rule list" where
  "mapping_rules tenant_id table =
     sort_key (\<lambda>r. - mr_priority r) (filter (\<lambda>r. mr_tenant_id r = tenant_id \<and> \<not> mr_disabled r) table)"

text \<open>Every rule is applied, whatever the earlier ones did.\<close>

fun mapping_loop ::
  "enrich_env \<Rightarrow> mapping_rule list \<Rightarrow> pydict \<Rightarrow> enrich_world \<Rightarrow> unit result \<times> pydict \<times> enrich_world" where
  "mapping_loop env [] alert w = (Inr (), alert, w)"
| "mapping_loop env (r # rs) alert w =
     (case check_if_match_and_enrich env alert r w of
        (Inl e, alert, w) \<Rightarrow> (Inl e, alert, w)
      | (Inr _, alert, w) \<Rightarrow> mapping_loop env rs alert w)"

definition run_mapping_rules ::
  "enrich_env \<Rightarrow> mapping_rule list \<Rightarrow> pydict \<Rightarrow> enrich_world \<Rightarrow> unit result \<times> pydict \<times> enrich_world" where
  "run_mapping_rules env table alert w =
     (if ee_disabled env then (Inr (), alert, w)
      else
        let w = add_enrichment_log ''Running mapping rules for incoming alert'' w;
            rules = mapping_rules (ee_tenant_id env) table
        in if rules = [] then (Inr (), alert, add_enrichment_log ''No mapping rules found for tenant'' w)
           else mapping_loop env rules alert w)"

definition run_mapping_rule_by_id ::
  "enrich_env \<Rightarrow> (alert \<Rightarrow> pydict) \<Rightarrow> mapping_rule list \<Rightarrow> int \<Rightarrow> string \<Rightarrow> enrich_world \<Rightarrow> bool result \<times> enrich_world" where
  "run_mapping_rule_by_id env row_attrs table rule_id alert_id w =
     (case get_mapping_rule_by_id (ee_tenant_id env) rule_id table of
        None \<Rightarrow> (Inl (Exn (EHttp 404) ''Mapping rule not found''), w)
      | Some r \<Rightarrow>
          (case get_alert_by_event_id (ee_tenant_id env) alert_id (ew_db w) of
             Inl e \<Rightarrow> (Inl e, w)
           | Inr None \<Rightarrow> (Inl (Exn (EHttp 404) ''Alert not found''), w)
           | Inr (Some a) \<Rightarrow> (case check_if_match_and_enrich env (row_attrs a) r w of (x, _, w) \<Rightarrow> (x, w))))"

section \<open>Manual enrichment\<close>

definition status_metadata :: "pydict \<Rightarrow> string \<Rightarrow> string \<Rightarrow> string \<Rightarrow> string \<times> string \<times> bool \<times> bool" where
  "status_metadata enrichments resolved changed who =
     (let status = dict_get enrichments ''status'' PNone; r = (status = PStr ''resolved'')
      in (if r then resolved else changed, ''Alert status was changed to '' @ py_str status @ '' by '' @ who, True, r))"

definition get_enrichment_metadata ::
  "pydict \<Rightarrow> string \<Rightarrow> string option \<Rightarrow> string \<times> string \<times> bool \<times> bool" where
  "get_enrichment_metadata enrichments email api_key_name =
     (let has = (\<lambda>k. dget enrichments k \<noteq> None); note = dict_get enrichments ''note'' PNone;
          (action_type, description, run_workflow, check_incidents) =
            (if has ''status'' \<and> api_key_name = None then
               status_metadata enrichments ''alert manually resolved'' ''alert status manually changed'' email
             else if has ''status'' \<and> truthy_opt api_key_name then
               status_metadata enrichments ''alert automatically resolved by API'' ''alert status changed by API''
                 (''API `'' @ the api_key_name @ ''`'')
             else if has ''ticket_url'' then
               (''alert was assigned with ticket'',
                ''Ticket assigned by '' @ email @ '' - '' @ py_str (dict_get enrichments ''ticket_url'' PNone), False, False)
             else if truthy note then
               (''a comment was added to the alert'', ''Comment added by '' @ email @ '' - '' @ py_str note, False, False)
             else (''alert enriched'', ''Alert enriched by '' @ email @ '' - '' @ py_repr (PDict enrichments), False, False))
      in (action_type,
          (if truthy note \<and> (has ''status'' \<or> has ''ticket_url'') then description @ '' - With note: '' @ py_str note
           else description), run_workflow, check_incidents))"

text \<open>The incidents of an alert whose every alert is resolved are closed when their rule says so.\<close>

fun resolve_incidents :: "incident list \<Rightarrow> inc_db \<Rightarrow> inc_db" where
  "resolve_incidents [] db = db"
| "resolve_incidents (i # is) db =
     resolve_incidents is
       (if in_resolve_on i = ''all_resolved'' \<and> is_all_alerts_in_status [] (Some i) ''resolved'' db
        then update_incident (\<lambda>i. i\<lparr>in_status := ''resolved''\<rparr>) (in_tenant_id i) (in_id i) db else db)"

definition check_incident_resolution :: "string \<Rightarrow> string \<Rightarrow> inc_db \<Rightarrow> inc_db" where
  "check_incident_resolution tenant_id fingerprint db = resolve_incidents (incidents_of_alert tenant_id fingerprint db) db"

section \<open>What extraction changes\<close>

definition regex_groups :: "enrich_env \<Rightarrow> extraction_rule \<Rightarrow> pydict \<Rightarrow> bool" where
  "regex_groups env r g \<longleftrightarrow> (\<exists>t. ee_search env (er_regex r) t = Inr (Some g))"

lemma tracked_event:
  "is_valid_uuid i \<Longrightarrow> \<exists>e. ew_events (track_enrichment_event t (Some i) status ty rule_id enriched w) = ew_events w @ [e]
     \<and> ev_rule_id e = rule_id \<and> ev_alert_id e = i"
  by (simp add: track_enrichment_event_def)

lemma add_log_frame [simp]:
  "ew_events (add_enrichment_log m w) = ew_events w" "ew_db (add_enrichment_log m w) = ew_db w"
  by (simp_all add: add_enrichment_log_def)

lemma track_db [simp]: "ew_db (track_enrichment_event t i status ty rule_id enriched w) = ew_db w"
  by (simp add: track_enrichment_event_def split: option.splits)

lemma skip_rule_tracked:
  "is_valid_uuid i \<Longrightarrow> \<exists>e. ew_events (skip_rule env (Some i) rule_id msg w) = ew_events w @ [e]
     \<and> ev_rule_id e = rule_id \<and> ev_alert_id e = i"
  using tracked_event [of i "ee_tenant_id env" "''skipped''" "''extraction''" rule_id "[]" "add_enrichment_log msg w"]
  by (simp add: skip_rule_def)

lemma rule_enrich_events: "rule_enrich env fp es action d w = (x, w') \<Longrightarrow> ew_events w' = ew_events w"
  by (auto simp: rule_enrich_def split: prod.splits)

lemma extract_one_effect:
  assumes "extract_one env fp (Some i) r a event w = (Inr u, event', w')" "is_valid_uuid i"
  shows "(event' = event \<or> (\<exists>g. regex_groups env r g \<and> event' = dupdate event (dpop ''source'' g)))
    \<and> (\<exists>e. ew_events w' = ew_events w @ [e] \<and> ev_rule_id e = er_id r \<and> ev_alert_id e = i)"
proof (cases "ee_search env (er_regex r) a")
  case (Inl e)
  with assms show ?thesis by (simp add: extract_one_def)
next
  case (Inr found)
  show ?thesis
  proof (cases found)
    case None
    with Inr assms skip_rule_tracked [OF assms(2)] show ?thesis by (auto simp: extract_one_def)
  next
    case (Some g)
    with Inr have g: "regex_groups env r g" by (auto simp: regex_groups_def)
    obtain x w1 where x: "rule_enrich env fp (dpop ''source'' g) ''alert enriched by extraction rule''
        (''Alert enriched with extraction from rule `'' @ er_name r @ ''`'') w = (x, w1)" by fastforce
    with Inr Some assms(1) have "event' = dupdate event (dpop ''source'' g)"
      "w' = track_enrichment_event (ee_tenant_id env) (Some i) ''success'' ''extraction'' (er_id r) (dpop ''source'' g)
        (add_enrichment_log ''Event enriched with extraction rule'' w1)"
      by (auto simp: extract_one_def Let_def split: sum.splits)
    with g rule_enrich_events [OF x] tracked_event [OF assms(2), of "ee_tenant_id env" "''success''" "''extraction''" "er_id r"
        "dpop ''source'' g" "add_enrichment_log ''Event enriched with extraction rule'' w1"]
    show ?thesis by auto
  qed
qed

lemma extraction_step_effect:
  assumes "extraction_rule_step env fp (Some i) r event w = (Inr u, event', w')" "is_valid_uuid i"
  shows "(event' = event \<or> (\<exists>g. regex_groups env r g \<and> event' = dupdate event (dpop ''source'' g)))
    \<and> (\<exists>e. ew_events w' = ew_events w @ [e] \<and> ev_rule_id e = er_id r \<and> ev_alert_id e = i)"
  using assms(1) skip_rule_tracked [OF assms(2)] extract_one_effect [OF _ assms(2)]
  by (auto simp: extraction_rule_step_def Let_def split: sum.splits if_splits bool.splits) fastforce+

lemma extraction_loop_effect:
  assumes "extraction_loop env fp (Some i) rules event w = (Inr u, event', w')" "is_valid_uuid i"
    and "\<And>r g. regex_groups env r g \<Longrightarrow> wf_dict g"
  shows "(\<forall>k. dget event' k \<noteq> dget event k \<longrightarrow> k \<noteq> ''source''
      \<and> (\<exists>r \<in> set rules. \<exists>g. regex_groups env r g \<and> dget g k = dget event' k))
    \<and> (\<exists>es. ew_events w' = ew_events w @ es \<and> map ev_rule_id es = map er_id rules \<and> list_all (\<lambda>e. ev_alert_id e = i) es)"
  using assms(1)
proof (induction rules arbitrary: event w)
  case (Cons r rules)
  obtain x event1 w1 where step: "extraction_rule_step env fp (Some i) r event w = (x, event1, w1)"
    by (metis prod_cases3)
  with Cons.prems obtain v where x: "x = Inr v" and rest: "extraction_loop env fp (Some i) rules event1 w1 = (Inr u, event', w')"
    by (cases x) auto
  note eff = extraction_step_effect [OF step [unfolded x] assms(2)]
  have one: "k \<noteq> ''source'' \<and> (\<exists>g. regex_groups env r g \<and> dget g k = dget event1 k)" if "dget event1 k \<noteq> dget event k" for k
  proof -
    from eff that obtain g where g: "regex_groups env r g" "event1 = dupdate event (dpop ''source'' g)" by auto
    from assms(3) [OF g(1)] that have "k \<noteq> ''source'' \<and> dget g k = dget event1 k"
      by (auto simp: g(2) dget_dupdate_wf split: option.splits if_splits)
    with g(1) show ?thesis by blast
  qed
  note IH = Cons.IH [OF rest]
  have "k \<noteq> ''source'' \<and> (\<exists>r' \<in> set (r # rules). \<exists>g. regex_groups env r' g \<and> dget g k = dget event' k)"
    if "dget event' k \<noteq> dget event k" for k
  proof (cases "dget event' k = dget event1 k")
    case True
    with one [of k] that show ?thesis by auto
  next
    case False
    with IH show ?thesis by auto
  qed
  moreover from eff IH obtain e es where "ew_events w' = ew_events w @ e # es" "ev_rule_id e = er_id r" "ev_alert_id e = i"
    "map ev_rule_id es = map er_id rules" "list_all (\<lambda>e. ev_alert_id e = i) es" by auto
  ultimately show ?case by (intro conjI exI [of _ "e # es"]) auto
qed simp

text \<open>What extraction may do to an event.  When the rules have run over an event with an identifier,
  a key differs from before only if some rule's expression has a group of that name, the new value being
  the group's; the source is never changed; and every rule has left exactly one enrichment event, in the
  order of their priorities.\<close>

theorem extraction_changes_groups_only:
  assumes "run_extraction_rules env table given pre False event w = (Inr event', held, w')" "\<not> ee_disabled env"
    and "dict_get event ''event_id'' PNone = PStr i" "is_valid_uuid i"
    and "\<And>r g. regex_groups env r g \<Longrightarrow> wf_dict g"
    and "rules = (if given \<noteq> [] then given else extraction_rules (ee_tenant_id env) pre table)"
  shows "(\<forall>k. dget event' k \<noteq> dget event k \<longrightarrow> k \<noteq> ''source''
      \<and> (\<exists>r \<in> set rules. \<exists>g. regex_groups env r g \<and> dget g k = dget event' k))
    \<and> map ev_rule_id (drop (length (ew_events w)) (ew_events w')) = (if rules = [] then [0] else map er_id rules)"
proof (cases "rules = []")
  case True
  with assms(1-3,6) have "event' = event \<and> (\<exists>m. w' = skip_rule env (Some i) 0 m
      (add_enrichment_log ''Running extraction rules for incoming event'' w))"
    by (auto simp: run_extraction_rules_def Let_def opt_str_def split: if_splits)
  then obtain m where "event' = event"
    "w' = skip_rule env (Some i) 0 m (add_enrichment_log ''Running extraction rules for incoming event'' w)" by blast
  with True skip_rule_tracked [OF assms(4), of env 0 m "add_enrichment_log ''Running extraction rules for incoming event'' w"]
  show ?thesis by auto
next
  case False
  define w0 where "w0 = add_enrichment_log ''Running extraction rules for incoming event'' w"
  from False assms obtain u where "extraction_loop env (opt_str (dict_get event ''fingerprint'' PNone)) (Some i) rules event w0
      = (Inr u, event', w')"
    by (auto simp: run_extraction_rules_def Let_def opt_str_def w0_def split: sum.splits prod.splits)
  then have "(\<forall>k. dget event' k \<noteq> dget event k \<longrightarrow> k \<noteq> ''source''
      \<and> (\<exists>r \<in> set rules. \<exists>g. regex_groups env r g \<and> dget g k = dget event' k))
    \<and> (\<exists>es. ew_events w' = ew_events w0 @ es \<and> map ev_rule_id es = map er_id rules \<and> list_all (\<lambda>e. ev_alert_id e = i) es)"
    by (rule extraction_loop_effect) (use assms(4,5) in blast)+
  with False show ?thesis by (auto simp: w0_def)
qed

section \<open>What a table maps\<close>

definition row_hit :: "enrich_env \<Rightarrow> pydict \<Rightarrow> mapping_rule \<Rightarrow> pydict \<Rightarrow> bool" where
  "row_hit env alert r row \<longleftrightarrow> (\<exists>m \<in> set (mr_matchers r). check_attributes env alert row m = Inr True)"

definition table_enrichments :: "enrich_env \<Rightarrow> pydict \<Rightarrow> mapping_rule \<Rightarrow> pydict" where
  "table_enrichments env alert r =
     (if \<exists>m \<in> set (mr_matchers r). m \<noteq> [] \<and> has_attributes alert m then
        (case find (row_hit env alert r) (mr_rows r) of None \<Rightarrow> [] | Some row \<Rightarrow> row_enrichments r row)
      else [])"

lemma any_matcher_hit:
  "any_matcher env alert row ms w = (Inr b, w') \<Longrightarrow>
     b = (\<exists>m \<in> set ms. check_attributes env alert row m = Inr True) \<and> ew_db w' = ew_db w"
  by (induction ms arbitrary: w)
    (auto simp: check_matcher_def split: sum.splits bool.splits if_splits)

lemma first_row_hit:
  "first_row env alert r rows w = (Inr es, w') \<Longrightarrow>
     es = (case find (row_hit env alert r) rows of None \<Rightarrow> [] | Some row \<Rightarrow> row_enrichments r row) \<and> ew_db w' = ew_db w"
proof (induction rows arbitrary: w)
  case (Cons row rows)
  obtain x w1 where one: "any_matcher env alert row (mr_matchers r) w = (x, w1)" by fastforce
  with Cons.prems obtain b where x: "x = Inr b" by (cases x) auto
  from any_matcher_hit [OF one [unfolded x]] have b: "b = row_hit env alert r row" "ew_db w1 = ew_db w"
    by (auto simp: row_hit_def)
  show ?case using Cons one x b by (cases b) auto
qed simp

lemma rule_enrich_db:
  "rule_enrich env fp es action d w = (x, w') \<Longrightarrow> ew_db w' = snd (bl_enrich_entity env fp es action ''system'' d False False
     False True ''alert'' False (ew_db w))"
  by (auto simp: rule_enrich_def split: prod.splits)

text \<open>C21: what a mapping table does to an alert.  When a rule of type csv with one level returns, the alert
  has exactly the cells of the first row that some matcher accepts, under their trimmed names and without
  the columns the rule matches on, provided some matcher finds all its attributes in the alert; the result
  says whether there were any, and nothing is written to the database otherwise.\<close>

theorem mapping_uses_first_matching_row:
  assumes "check_if_match_and_enrich env alert r w = (Inr b, alert', w')" "mr_type r = ''csv''" "\<not> mr_multi_level r"
  shows "alert' = set_attributes (table_enrichments env alert r) alert \<and> (b \<longleftrightarrow> table_enrichments env alert r \<noteq> [])
    \<and> (\<not> b \<longrightarrow> ew_db w' = ew_db w)"
proof (cases "find (\<lambda>m. m \<noteq> [] \<and> has_attributes alert m) (mr_matchers r)")
  case None
  then have "table_enrichments env alert r = []" by (auto simp: table_enrichments_def find_None_iff)
  with None assms(1) show ?thesis by (auto simp: check_if_match_and_enrich_def Let_def set_attributes_def)
next
  case (Some m)
  define w1 where "w1 = add_enrichment_log ''Alert matched a mapping rule, enriching...''
    (add_enrichment_log (''Alert matched a mapping rule for matcher: '' @ py_str (PList (map PStr m)))
      (add_enrichment_log ''Checking alert against mapping rule'' w))"
  have run: "enrich_matched env alert r w1 = (Inr b, alert', w')" and w1: "ew_db w1 = ew_db w"
    using assms(1) Some unfolding check_if_match_and_enrich_def w1_def by (simp_all add: Let_def)
  obtain x w2 where x: "first_row env alert r (mr_rows r) w1 = (x, w2)" by fastforce
  have re: "rule_enrichments env alert r w1 = (x, w2)" using assms(2,3) x by (simp add: rule_enrichments_def)
  from run obtain es where es: "x = Inr es" by (cases x) (auto simp: enrich_matched_def re)
  have t: "es = table_enrichments env alert r" "ew_db w2 = ew_db w"
    using first_row_hit [OF x [unfolded es]] find_in_set [OF Some] w1 by (auto simp: table_enrichments_def)
  show ?thesis
  proof (cases es)
    case Nil
    with run t show ?thesis by (auto simp: enrich_matched_def re es set_attributes_def)
  next
    case (Cons k ks)
    with run show ?thesis unfolding t(1) [symmetric]
      by (auto simp: enrich_matched_def Let_def re es split: prod.splits sum.splits)
  qed
qed

section \<open>Examples\<close>

definition demo_search :: "string \<Rightarrow> string \<Rightarrow> pydict option result" where
  "demo_search p t = Inr (if contains_sub p t then Some [(''host'', PStr t), (''source'', PStr t)] else None)"

definition demo_enrich_env :: enrich_env where
  "demo_enrich_env =
     \<lparr>ee_tenant_id = ''t'', ee_disabled = False, ee_store = demo_store,
      ee_render = (\<lambda>t d. Inr (if contains_sub ''name'' t then py_str (dict_get d ''name'' PNone) else [])),
      ee_unescape = id, ee_condition = (\<lambda>_ _. Inr True), ee_search = demo_search, ee_json5 = (\<lambda>s. Inr (PStr s)),
      ee_topology = (\<lambda>_. Inr None), ee_to_dto = Inr, ee_elastic = (\<lambda>_ _. None)\<rparr>"

definition demo_world :: enrich_world where
  "demo_world = \<lparr>ew_db = demo_saved, ew_events = [], ew_logs = [], ew_pending = []\<rparr>"

definition demo_extraction :: "int \<Rightarrow> int \<Rightarrow> string \<Rightarrow> extraction_rule" where
  "demo_extraction i priority regex = \<lparr>er_id = i, er_tenant_id = ''t'', er_name = ''hosts'', er_priority = priority,
     er_disabled = False, er_pre = True, er_condition = None, er_attribute = ''name'', er_regex = regex\<rparr>"

definition demo_raw_event :: pydict where
  "demo_raw_event = [(''event_id'', PStr ''00000000-0000-0000-0000-000000000001''), (''name'', PStr ''db1 down''),
     (''source'', PList [PStr ''grafana'']), (''fingerprint'', PStr ''fp'')]"

definition demo_extracted :: "pydict result \<times> pydict \<times> enrich_world" where
  "demo_extracted = run_extraction_rules demo_enrich_env [demo_extraction 1 0 ''zzz'', demo_extraction 2 5 ''db''] [] True False
     demo_raw_event demo_world"

lemma demo_groups_wf: "regex_groups demo_enrich_env r g \<Longrightarrow> wf_dict g"
  by (auto simp: regex_groups_def demo_enrich_env_def demo_search_def wf_dict_def split: if_splits)

theorem extraction_changes_groups_only_witness:
  "(\<exists>r \<in> set [demo_extraction 2 5 ''db'', demo_extraction 1 0 ''zzz'']. \<exists>g. regex_groups demo_enrich_env r g
      \<and> dget g ''host'' = Some (PStr ''db1 down''))
    \<and> map ev_rule_id (ew_events (snd (snd demo_extracted))) = [2, 1]"
proof -
  let ?rules = "[demo_extraction 2 5 ''db'', demo_extraction 1 0 ''zzz'']"
  let ?event = "dset ''host'' (PStr ''db1 down'') demo_raw_event"
  have "(\<forall>k. dget ?event k \<noteq> dget demo_raw_event k \<longrightarrow> k \<noteq> ''source''
      \<and> (\<exists>r \<in> set ?rules. \<exists>g. regex_groups demo_enrich_env r g \<and> dget g k = dget ?event k))
    \<and> map ev_rule_id (drop (length (ew_events demo_world)) (ew_events (snd (snd demo_extracted)))) =
      (if ?rules = [] then [0] else map er_id ?rules)"
  proof (rule extraction_changes_groups_only)
    show "run_extraction_rules demo_enrich_env [demo_extraction 1 0 ''zzz'', demo_extraction 2 5 ''db''] [] True False
        demo_raw_event demo_world = (Inr ?event, fst (snd demo_extracted), snd (snd demo_extracted))"
      by code_simp
    show "is_valid_uuid ''00000000-0000-0000-0000-000000000001''" by code_simp
    show "?rules = (if [] \<noteq> [] then []
        else extraction_rules (ee_tenant_id demo_enrich_env) True [demo_extraction 1 0 ''zzz'', demo_extraction 2 5 ''db''])"
      by code_simp
  qed (simp_all add: demo_enrich_env_def demo_raw_event_def dict_get_def dget_def demo_groups_wf [unfolded demo_enrich_env_def])
  then have "dget ?event ''host'' \<noteq> dget demo_raw_event ''host'' \<longrightarrow>
      (\<exists>r \<in> set ?rules. \<exists>g. regex_groups demo_enrich_env r g \<and> dget g ''host'' = dget ?event ''host'')"
    "map ev_rule_id (drop (length (ew_events demo_world)) (ew_events (snd (snd demo_extracted)))) = [2, 1]"
    by (blast, simp add: demo_extraction_def)
  moreover have "dget demo_raw_event ''host'' = None" by code_simp
  ultimately show ?thesis by (simp add: demo_world_def)
qed

definition demo_mapping :: mapping_rule where
  "demo_mapping = \<lparr>mr_id = 7, mr_tenant_id = ''t'', mr_name = ''owners'', mr_priority = 0, mr_disabled = False, mr_type = ''csv'',
     mr_matchers = [[''service'']], mr_rows = [[(''service'', PStr ''web''), (''assignee'', PStr ''ann'')],
       [(''service'', PStr ''db''), (''assignee'', PStr '' bob ''), (''team'', PStr ''storage'')]],
     mr_multi_level = False, mr_new_property = None, mr_prefix = None\<rparr>"

definition demo_service_alert :: pydict where
  "demo_service_alert = [(''name'', PStr ''down''), (''service'', PStr ''db''), (''fingerprint'', PStr ''fp'')]"

theorem mapping_uses_first_matching_row_witness:
  "demo_service_alert @ [(''assignee'', PStr ''bob''), (''team'', PStr ''storage'')]
      = set_attributes (table_enrichments demo_enrich_env demo_service_alert demo_mapping) demo_service_alert"
  by (rule conjunct1 [OF mapping_uses_first_matching_row [of _ _ _ demo_world True _
        "snd (snd (check_if_match_and_enrich demo_enrich_env demo_service_alert demo_mapping demo_world))"]]) code_simp+

end
