(* ===== verification/RulesEngine.thy ===== *)
theory RulesEngine
  imports RuleMatching IncidentStore
begin

text \<open>
  The rules engine (\<open>src/rulesengine/rulesengine.py\<close>) on the incident tables: which incident an event of a
  rule belongs to, its creation and name, the conditions under which it becomes visible, its resolution
  (\<open>resolve_incident_if_require\<close> in \<open>src/common/bl/incidents_bl.py\<close>) and the messages to the workflow
  manager.  The alerts of an incident object are those of its last lookup.  Construction of DTOs, the query
  for the first or last alert, the time and identifiers are parameters.
\<close>

section \<open>Environment and state\<close>

record 'p engine_env =
  re_tenant_id :: string
  re_cel :: "'p cel_env"
  re_expand :: "string \<Rightarrow> string result"
  re_dtos :: "inc_db \<Rightarrow> alert list \<Rightarrow> pydict list"
  re_alert_dto :: "alert \<Rightarrow> pydict result"
  re_edge_resolved :: "bool \<Rightarrow> incident \<Rightarrow> inc_db \<Rightarrow> bool result"
  re_isoparse :: "string \<Rightarrow> int option"
  re_uuid :: "nat \<Rightarrow> string"
  re_utcnow :: int

text \<open>The database, the messages sent so far, \<open>matched_rules\<close> (unbound at first) and the incidents to return.\<close>

record engine =
  en_db :: inc_db
  en_sent :: "(string \<times> string) list"
  en_matched :: "string list option"
  en_dtos :: "(string \<times> incident) list"

section \<open>Lookup and creation\<close>

definition rule_incidents :: "string \<Rightarrow> rule \<Rightarrow> string \<Rightarrow> inc_db \<Rightarrow> incident list" where
  "rule_incidents tenant_id r fp db =
     filter (\<lambda>i. in_tenant_id i = tenant_id \<and> in_rule_id i = Some (ru_id r) \<and> in_rule_fingerprint i = fp) (idb_incidents db)"

text \<open>The newest incident, its alerts as far as they were loaded, and whether it is closed or too old.\<close>

definition get_incident_for_grouping_rule ::
  "string \<Rightarrow> rule \<Rightarrow> string \<Rightarrow> int \<Rightarrow> inc_db \<Rightarrow> (incident \<times> alert list \<times> bool) option result" where
  "get_incident_for_grouping_rule tenant_id r fp utcnow db =
     (case sort_key (\<lambda>i. - in_creation_time i) (rule_incidents tenant_id r fp db) of
        [] \<Rightarrow> Inr None
      | i # _ \<Rightarrow>
          if in_status i \<in> set CLOSED_STATUSES then Inr (Some (i, [], True))
          else if in_alerts_count i > 0 then
            (let alerts = incident_alerts tenant_id (in_id i) db
             in if alerts = [] then Inl (Exn EValueError ''max() arg is an empty sequence'')
                else Inr (Some (i, alerts, list_max 0 (map al_timestamp alerts) < utcnow - ru_timeframe r * 1000000)))
          else Inr (Some (i, [], False)))"

definition prefixed_name :: "rule \<Rightarrow> incident \<Rightarrow> string \<Rightarrow> string" where
  "prefixed_name r i name =
     (case ru_incident_prefix r of
        Some (c # cs) \<Rightarrow> (c # cs) @ ''-'' @ show_int (in_running_number i) @ '' - '' @ name
      | _ \<Rightarrow> name)"

definition create_incident_for_grouping_rule ::
  "string \<Rightarrow> rule \<Rightarrow> string \<Rightarrow> string option \<Rightarrow> incident option \<Rightarrow> string \<Rightarrow> int \<Rightarrow> inc_db \<Rightarrow> incident result \<times> inc_db" where
  "create_incident_for_grouping_rule tenant_id r fp name past uuid utcnow db =
     (let name = (case name of Some (c # cs) \<Rightarrow> c # cs | _ \<Rightarrow> ru_name r);
          i = (default_incident tenant_id uuid utcnow)\<lparr>in_name := Some name, in_rule_id := Some (ru_id r),
            in_rule_fingerprint := fp, in_candidate := ru_require_approve r, in_visible := False, in_type := ''rule'',
            in_past_id := map_option in_id past, in_resolve_on := ru_resolve_on r, in_assignee := ru_assignee r\<rparr>
      in (case set_running_number i db of
            (Inl e, db) \<Rightarrow> (Inl e, db)
          | (Inr i, db) \<Rightarrow>
              let name = prefixed_name r i name
              in (Inr (i\<lparr>in_name := Some name\<rparr>), update_incident (\<lambda>i. i\<lparr>in_name := Some name\<rparr>) tenant_id uuid db)))"

definition event_status :: "pydict \<Rightarrow> pyval" where
  "event_status event = dict_get event ''status'' PNone"

definition event_fingerprint :: "pydict \<Rightarrow> string" where
  "event_fingerprint event = (case dict_get event ''fingerprint'' PNone of PStr s \<Rightarrow> s | _ \<Rightarrow> [])"

text \<open>The prefix is added to the name of an existing incident that does not contain it.\<close>

definition with_prefix :: "rule \<Rightarrow> incident \<Rightarrow> incident result" where
  "with_prefix r i =
     (case ru_incident_prefix r of
        Some (c # cs) \<Rightarrow>
          (case in_name i of
             None \<Rightarrow> Inl (Exn ETypeError ''argument of type NoneType is not iterable'')
           | Some n \<Rightarrow> if contains_sub (c # cs) n then Inr i else Inr (i\<lparr>in_name := Some (prefixed_name r i n)\<rparr>))
      | _ \<Rightarrow> Inr i)"

definition existing_incident ::
  "'p engine_env \<Rightarrow> rule \<Rightarrow> incident \<Rightarrow> alert list \<Rightarrow> pydict \<Rightarrow> inc_db \<Rightarrow> incident result" where
  "existing_incident env r i alerts event db =
     rbind (with_prefix r i) (\<lambda>i.
       case ru_name_template r of
         Some (c # cs) \<Rightarrow>
           rbind (merged_name (re_expand env) (re_dtos env db alerts) event (get_variables (c # cs)) [] (c # cs))
             (\<lambda>n. Inr (i\<lparr>in_name := Some n\<rparr>))
       | _ \<Rightarrow> Inr i)"

text \<open>The incident object, whose name may differ from the row until the next commit, its loaded alerts, and
  whether it is new.\<close>

definition get_or_create_incident ::
  "'p engine_env \<Rightarrow> rule \<Rightarrow> string \<Rightarrow> pydict \<Rightarrow> bool \<Rightarrow> inc_db \<Rightarrow> ((incident \<times> alert list) option \<times> bool) result \<times> inc_db" where
  "get_or_create_incident env r fp event creation_allowed db =
     (case get_incident_for_grouping_rule (re_tenant_id env) r fp (re_utcnow env) db of
        Inl e \<Rightarrow> (Inl e, db)
      | Inr (Some (i, alerts, False)) \<Rightarrow>
          (rbind (existing_incident env r i alerts event db) (\<lambda>i. Inr (Some (i, alerts), False)), db)
      | Inr found \<Rightarrow>
          if creation_allowed \<and> event_status event = PStr ''firing'' then
            (case new_incident_name (re_expand env) r fp event of
               Inl e \<Rightarrow> (Inl e, db)
             | Inr name \<Rightarrow>
                 (case create_incident_for_grouping_rule (re_tenant_id env) r fp name (map_option fst found)
                         (re_uuid env (length (idb_incidents db))) (re_utcnow env) db of
                    (x, db) \<Rightarrow> (rbind x (\<lambda>i. Inr (Some (i, []), True)), db)))
          else (Inr (None, False), db))"

text \<open>An alert that leaves a maintenance window does not create an incident once it was resolved later.\<close>

definition creation_allowed_for :: "'p engine_env \<Rightarrow> pydict \<Rightarrow> inc_db \<Rightarrow> bool" where
  "creation_allowed_for env event db \<longleftrightarrow>
     \<not> (dget event ''previous_status'' = Some (PStr ''maintenance'')
        \<and> (case (case dict_get event ''last_received'' PNone of PStr s \<Rightarrow> re_isoparse env s | _ \<Rightarrow> None) of
             None \<Rightarrow> False
           | Some t \<Rightarrow> list_ex (\<lambda>a. t < al_timestamp a)
               (get_alerts_by_fingerprint (re_tenant_id env) (event_fingerprint event) (Some 1) (Some ''resolved'') (idb_store db))))"

section \<open>Visibility\<close>

text \<open>The loop over the alerts of an incident stops as soon as every sub rule was matched by one of them.\<close>

fun history_matches :: "'p engine_env \<Rightarrow> rule \<Rightarrow> string list \<Rightarrow> alert list \<Rightarrow> bool result" where
  "history_matches env r matched [] = Inr False"
| "history_matches env r matched (a # as) =
     rbind (re_alert_dto env a) (\<lambda>dto.
       rbind (check_if_rule_apply (re_cel env) r dto) (\<lambda>ms.
         let matched = matched @ ms
         in if set (extract_subrules (ru_definition_cel r)) = set matched then Inr True
            else history_matches env r matched as))"

definition process_event_for_history_based_rule :: "'p engine_env \<Rightarrow> incident \<Rightarrow> rule \<Rightarrow> inc_db \<Rightarrow> incident result" where
  "process_event_for_history_based_rule env i r db =
     (let alerts = incident_alerts (re_tenant_id env) (in_id i) db
      in rbind (history_matches env r [] alerts) (\<lambda>met.
           Inr (if met \<and> is_all_alerts_in_status (map al_fingerprint alerts) None ''firing'' db
                then i\<lparr>in_visible := True\<rparr> else i)))"

definition show_when_ready ::
  "'p engine_env \<Rightarrow> rule \<Rightarrow> string list \<Rightarrow> alert list \<Rightarrow> incident \<Rightarrow> inc_db \<Rightarrow> incident result" where
  "show_when_ready env r matched alerts i db =
     (if max (in_alerts_count i) (int (length alerts)) \<ge> ru_threshold r \<and> \<not> ru_require_approve r then
        (if ru_create_on r = ''any''
            \<or> ru_create_on r = ''all'' \<and> length (extract_subrules (ru_definition_cel r)) = length matched
         then Inr (i\<lparr>in_visible := True\<rparr>)
         else if ru_create_on r = ''all'' then process_event_for_history_based_rule env i r db
         else Inr i)
      else Inr i)"

section \<open>Resolution\<close>

definition should_resolve :: "'p engine_env \<Rightarrow> incident \<Rightarrow> inc_db \<Rightarrow> bool result" where
  "should_resolve env i db =
     (if in_resolve_on i = ''all_resolved'' then Inr (is_all_alerts_in_status [] (Some i) ''resolved'' db)
      else if in_resolve_on i = ''first_resolved'' \<or> in_resolve_on i = ''last_resolved'' then
        (if in_alerts_count i = 0 then Inr False else re_edge_resolved env (in_resolve_on i = ''first_resolved'') i db)
      else Inr False)"

definition resolve_incident_if_require :: "'p engine_env \<Rightarrow> incident \<Rightarrow> inc_db \<Rightarrow> incident result \<times> inc_db" where
  "resolve_incident_if_require env i db =
     (case should_resolve env i db of
        Inl e \<Rightarrow> (Inl e, db)
      | Inr False \<Rightarrow> (Inr i, db)
      | Inr True \<Rightarrow> (Inr (i\<lparr>in_status := ''resolved''\<rparr>),
          update_incident (\<lambda>i. i\<lparr>in_status := ''resolved''\<rparr>) (in_tenant_id i) (in_id i) db))"

section \<open>One event and one rule\<close>

text \<open>The pending name of the object is written by every commit of the session.\<close>

definition flush_name :: "incident \<Rightarrow> inc_db \<Rightarrow> inc_db" where
  "flush_name i db = update_incident (\<lambda>j. j\<lparr>in_name := in_name i\<rparr>) (in_tenant_id i) (in_id i) db"

definition flush_object :: "incident \<Rightarrow> inc_db \<Rightarrow> inc_db" where
  "flush_object i db =
     update_incident (\<lambda>j. j\<lparr>in_name := in_name i, in_visible := in_visible j \<or> in_visible i\<rparr>) (in_tenant_id i) (in_id i) db"

definition assign_event :: "'p engine_env \<Rightarrow> pydict \<Rightarrow> incident \<Rightarrow> inc_db \<Rightarrow> incident result \<times> inc_db" where
  "assign_event env event i db =
     (if new_fingerprints (re_tenant_id env) (in_id i) [event_fingerprint event] False db = [] then (Inr i, db)
      else (case assign_alert_to_incident (event_fingerprint event) i (re_tenant_id env) (flush_name i db) of
              (Inl e, db') \<Rightarrow> (Inl e, if e = Exn EIntegrityError ''foreign key'' then db else db')
            | (Inr i, db') \<Rightarrow> (Inr i, db')))"

definition send :: "string \<Rightarrow> string \<Rightarrow> engine \<Rightarrow> engine" where
  "send iid action st = st\<lparr>en_sent := en_sent st @ [(iid, action)]\<rparr>"

text \<open>\<open>IncidentDto.from_db_incident\<close> raises on a severity that is none of the five.\<close>

definition from_db_incident :: "incident \<Rightarrow> incident result" where
  "from_db_incident i =
     (if 1 \<le> in_severity i \<and> in_severity i \<le> 5 then Inr i else Inl (Exn EValueError ''No AlertSeverity with order''))"

definition announce :: "bool \<Rightarrow> incident \<Rightarrow> engine \<Rightarrow> engine" where
  "announce send_created_event i st =
     (let st = (if send_created_event then send (in_id i) ''created'' st
                else if in_visible i then send (in_id i) ''updated'' st else st)
      in st\<lparr>en_dtos := AList.update (in_id i) i (en_dtos st)\<rparr>)"

definition process_incident ::
  "'p engine_env \<Rightarrow> rule \<Rightarrow> pydict \<Rightarrow> string list \<Rightarrow> bool \<Rightarrow> alert list \<Rightarrow> incident \<Rightarrow> engine \<Rightarrow> unit result \<times> engine" where
  "process_incident env r event matched send_created_event alerts i st =
     (case assign_event env event i (en_db st) of
        (Inl e, db) \<Rightarrow> (Inl e, st\<lparr>en_db := db\<rparr>)
      | (Inr i, db) \<Rightarrow>
          (case (if in_visible i then Inr (i, send_created_event)
                 else rbind (show_when_ready env r matched alerts i db) (\<lambda>i. Inr (i, in_visible i))) of
             Inl e \<Rightarrow> (Inl e, st\<lparr>en_db := db\<rparr>)
           | Inr (i, send_created_event) \<Rightarrow>
               (case resolve_incident_if_require env i (flush_object i db) of
                  (Inl e, db) \<Rightarrow> (Inl e, st\<lparr>en_db := db\<rparr>)
                | (Inr i, db) \<Rightarrow>
                    (case from_db_incident i of
                       Inl e \<Rightarrow> (Inl e, st\<lparr>en_db := db\<rparr>)
                     | Inr dto \<Rightarrow> (Inr (), announce send_created_event dto (st\<lparr>en_db := db\<rparr>))))))"

definition process_fingerprint ::
  "'p engine_env \<Rightarrow> rule \<Rightarrow> pydict \<Rightarrow> string list \<Rightarrow> pyval list \<Rightarrow> engine \<Rightarrow> unit result \<times> engine" where
  "process_fingerprint env r event matched fp st =
     (case join_values fp of
        Inl e \<Rightarrow> (Inl e, st)
      | Inr fp \<Rightarrow>
          (case get_or_create_incident env r fp event (creation_allowed_for env event (en_db st)) (en_db st) of
             (Inl e, db) \<Rightarrow> (Inl e, st\<lparr>en_db := db\<rparr>)
           | (Inr (None, _), db) \<Rightarrow> (Inr (), st\<lparr>en_db := db\<rparr>)
           | (Inr (Some (i, alerts), created), db) \<Rightarrow>
               process_incident env r event matched created alerts i (st\<lparr>en_db := db\<rparr>)))"

fun process_fingerprints ::
  "'p engine_env \<Rightarrow> rule \<Rightarrow> pydict \<Rightarrow> string list \<Rightarrow> pyval list list \<Rightarrow> engine \<Rightarrow> unit result \<times> engine" where
  "process_fingerprints env r event matched [] st = (Inr (), st)"
| "process_fingerprints env r event matched (fp # fps) st =
     (case process_fingerprint env r event matched fp st of
        (Inl e, st) \<Rightarrow> (Inl e, st)
      | (Inr _, st) \<Rightarrow> process_fingerprints env r event matched fps st)"

definition process_matched :: "'p engine_env \<Rightarrow> rule \<Rightarrow> pydict \<Rightarrow> string list \<Rightarrow> engine \<Rightarrow> unit result \<times> engine" where
  "process_matched env r event matched st =
     (if matched = [] then (Inr (), st)
      else (case calc_rule_fingerprint event r of
              Inl e \<Rightarrow> (Inl e, st)
            | Inr fps \<Rightarrow> process_fingerprints env r event matched fps st))"

text \<open>A \<open>ValueError\<close> other than an invalid name is not followed by \<open>continue\<close>: the event is processed with
  the sub rules matched by the previous pair of rule and event.\<close>

definition process_event :: "'p engine_env \<Rightarrow> rule \<Rightarrow> pydict \<Rightarrow> engine \<Rightarrow> unit result \<times> engine" where
  "process_event env r event st =
     (case check_if_rule_apply (re_cel env) r event of
        Inr matched \<Rightarrow> process_matched env r event matched (st\<lparr>en_matched := Some matched\<rparr>)
      | Inl e \<Rightarrow>
          if is_value_error (exn_kind e) \<and> \<not> contains_sub ''Invalid name'' (exn_msg e) then
            (case en_matched st of
               None \<Rightarrow> (Inl (Exn (EOther ''UnboundLocalError'') ''matched_rules''), st)
             | Some matched \<Rightarrow> process_matched env r event matched st)
          else (Inr (), st))"

fun process_events :: "'p engine_env \<Rightarrow> (rule \<times> pydict) list \<Rightarrow> engine \<Rightarrow> unit result \<times> engine" where
  "process_events env [] st = (Inr (), st)"
| "process_events env ((r, event) # ps) st =
     (case process_event env r event st of
        (Inl e, st) \<Rightarrow> (Inl e, st)
      | (Inr _, st) \<Rightarrow> process_events env ps st)"

definition rule_event_pairs :: "string \<Rightarrow> rule list \<Rightarrow> pydict list \<Rightarrow> (rule \<times> pydict) list" where
  "rule_event_pairs tenant_id rules events = concat (map (\<lambda>r. map (\<lambda>e. (r, e)) events) (get_rules tenant_id None rules))"

definition run_cel_rules ::
  "'p engine_env \<Rightarrow> rule list \<Rightarrow> pydict list \<Rightarrow> inc_db \<times> (string \<times> string) list
     \<Rightarrow> incident list result \<times> inc_db \<times> (string \<times> string) list" where
  "run_cel_rules env rules events s =
     (case process_events env (rule_event_pairs (re_tenant_id env) rules events)
             \<lparr>en_db = fst s, en_sent = snd s, en_matched = None, en_dtos = []\<rparr> of
        (x, st) \<Rightarrow> (rbind x (\<lambda>_. Inr (map snd (en_dtos st))), en_db st, en_sent st))"

definition run_rules ::
  "'p engine_env \<Rightarrow> rule list \<Rightarrow> pydict list \<Rightarrow> inc_db \<times> (string \<times> string) list
     \<Rightarrow> incident list result \<times> inc_db \<times> (string \<times> string) list" where
  "run_rules env rules events s = run_cel_rules env rules events s"

section \<open>What no step takes back\<close>

definition row_grows :: "incident \<Rightarrow> incident \<Rightarrow> bool" where
  "row_grows i j \<longleftrightarrow> in_id j = in_id i \<and> in_tenant_id j = in_tenant_id i \<and> in_rule_id j = in_rule_id i
     \<and> in_rule_fingerprint j = in_rule_fingerprint i \<and> (in_visible i \<longrightarrow> in_visible j)"

text \<open>Incidents keep identity, rule and visibility, and links stay.\<close>

definition grows :: "inc_db \<Rightarrow> inc_db \<Rightarrow> bool" where
  "grows db db' \<longleftrightarrow>
     (\<forall>i \<in> set (idb_incidents db). \<exists>j \<in> set (idb_incidents db'). row_grows i j)
     \<and> (\<forall>t iid. set (linked t iid db) \<subseteq> set (linked t iid db'))"

lemma row_grows_refl [simp]: "row_grows i i"
  by (simp add: row_grows_def)

lemma grows_refl [simp]: "grows db db"
  unfolding grows_def using row_grows_refl by blast

lemma row_grows_trans: "row_grows i j \<Longrightarrow> row_grows j k \<Longrightarrow> row_grows i k"
  by (simp add: row_grows_def)

lemma grows_trans [trans]: "grows a b \<Longrightarrow> grows b c \<Longrightarrow> grows a c"
  unfolding grows_def by (meson row_grows_trans subset_trans)

lemma grows_rows:
  assumes "\<And>i. row_grows i (f i)"
  shows "grows db (update_incident f t iid db)"
proof -
  have "\<exists>j \<in> set (idb_incidents (update_incident f t iid db)). row_grows i j" if "i \<in> set (idb_incidents db)" for i
  proof -
    let ?g = "\<lambda>i. if in_id i = iid \<and> in_tenant_id i = t then f i else i"
    have "?g i \<in> set (idb_incidents (update_incident f t iid db))" using that by (auto simp: update_incident_def)
    moreover have "row_grows i (?g i)" using assms by simp
    ultimately show ?thesis by blast
  qed
  then show ?thesis by (simp add: grows_def)
qed

lemma grows_insert: "grows db (insert_links t iid ai fps db)"
  by (auto simp: grows_def linked_insert intro: row_grows_refl)

lemma grows_number: "grows db (snd (set_running_number i db))"
proof -
  have "linked t iid (db\<lparr>idb_incidents := is\<rparr>) = linked t iid db" for t iid "is"
    by (simp add: linked_def active_links_def)
  then show ?thesis
    by (auto simp: set_running_number_def Let_def grows_def intro: row_grows_refl)
qed

lemma grows_add: "grows db (snd (add_alerts_to_incident t i fps ai oc ex db))"
proof -
  have "grows db (update_incident f t (in_id i) (insert_links t (in_id i) ai (new_fingerprints t (in_id i) fps ex db) db))"
    if "\<And>i. row_grows i (f i)" for f
    using grows_trans [OF grows_insert grows_rows [OF that]] .
  then show ?thesis
    by (simp add: add_alerts_to_incident_def Let_def grows_insert row_grows_def split: sum.split prod.split)
qed

lemma grows_assign: "grows db (snd (assign_event env event i db))"
proof -
  have "grows db (flush_name i db)"
    unfolding flush_name_def by (rule grows_rows) (simp add: row_grows_def)
  from grows_trans [OF this grows_add [of "flush_name i db" "re_tenant_id env" i "[event_fingerprint event]" False False False]]
  show ?thesis
    by (auto simp: assign_event_def assign_alert_to_incident_def split: sum.split prod.split)
qed

lemma grows_resolve: "grows db (snd (resolve_incident_if_require env i db))"
  by (auto simp: resolve_incident_if_require_def row_grows_def split: sum.split bool.split intro: grows_rows)

lemma grows_flush: "grows db (flush_object i db)"
  unfolding flush_object_def by (rule grows_rows) (simp add: row_grows_def)

lemma grows_result:
  assumes "grows db (snd p)" "\<And>x db'. p = (x, db') \<Longrightarrow> grows db' (snd (f x db'))"
  shows "grows db (snd (case p of (x, db') \<Rightarrow> f x db'))"
proof -
  obtain x db' where p: "p = (x, db')" by (cases p)
  show ?thesis using grows_trans [OF assms(1) assms(2)] by (simp add: p)
qed

lemma grows_create: "grows db (snd (create_incident_for_grouping_rule t r fp name past uuid now db))"
  unfolding create_incident_for_grouping_rule_def Let_def
  by (rule grows_result [OF grows_number]) (simp add: row_grows_def grows_rows split: sum.split)

lemma grows_get_or_create: "grows db (snd (get_or_create_incident env r fp event allowed db))"
  unfolding get_or_create_incident_def
  by (auto simp: case_prod_beta grows_create split: sum.split option.split bool.split)

lemma flush_tables: "tables_ok db \<Longrightarrow> tables_ok (flush_object i db)" "tables_ok db \<Longrightarrow> tables_ok (flush_name i db)"
  by (simp_all add: flush_object_def flush_name_def tables_ok_update same_key_def)

lemma assign_tables: "tables_ok db \<Longrightarrow> tables_ok (snd (assign_event env event i db))"
  using add_alerts_tables [OF flush_tables(2)]
  by (simp add: assign_event_def assign_alert_to_incident_def split: sum.split prod.split) (metis snd_conv)

lemma resolve_tables: "tables_ok db \<Longrightarrow> tables_ok (snd (resolve_incident_if_require env i db))"
  by (simp add: resolve_incident_if_require_def tables_ok_update same_key_def split: sum.split bool.split)

lemma create_tables: "tables_ok db \<Longrightarrow> tables_ok (snd (create_incident_for_grouping_rule t r fp name past uuid now db))"
  by (simp add: create_incident_for_grouping_rule_def Let_def case_prod_beta set_running_number_tables tables_ok_update
      same_key_def split: sum.split)

lemma get_or_create_tables: "tables_ok db \<Longrightarrow> tables_ok (snd (get_or_create_incident env r fp event allowed db))"
  unfolding get_or_create_incident_def
  by (auto simp: case_prod_beta create_tables split: sum.split option.split bool.split)

text \<open>An incident object stands for a row: same identity, same visibility.\<close>

definition stands_for :: "incident \<Rightarrow> inc_db \<Rightarrow> bool" where
  "stands_for i db \<longleftrightarrow>
     (\<exists>j \<in> set (idb_incidents db). in_id j = in_id i \<and> in_tenant_id j = in_tenant_id i \<and> in_visible j = in_visible i)"

lemma create_stands:
  assumes "create_incident_for_grouping_rule t r fp name past uuid now db = (Inr i, db')"
  shows "stands_for i db' \<and> \<not> in_visible i \<and> in_tenant_id i = t \<and> in_rule_id i = Some (ru_id r) \<and> in_rule_fingerprint i = fp
    \<and> (\<exists>j \<in> set (idb_incidents db'). row_grows i j)"
  using assms
  by (auto simp: create_incident_for_grouping_rule_def set_running_number_def Let_def stands_for_def default_incident_def
      update_incident_def row_grows_def split: sum.splits if_splits)

lemma lookup_row:
  assumes "get_incident_for_grouping_rule t r fp now db = Inr (Some (i, alerts, expired))"
  shows "i \<in> set (rule_incidents t r fp db)"
proof -
  obtain ys where "sort_key (\<lambda>i. - in_creation_time i) (rule_incidents t r fp db) = i # ys"
    using assms by (auto simp: get_incident_for_grouping_rule_def Let_def split: list.splits if_splits)
  then have "i \<in> set (sort_key (\<lambda>i. - in_creation_time i) (rule_incidents t r fp db))" by (simp del: set_sort)
  then show ?thesis by simp
qed

definition renamed :: "incident \<Rightarrow> incident \<Rightarrow> bool" where
  "renamed i j \<longleftrightarrow> j = i\<lparr>in_name := in_name j\<rparr>"

lemma renamed_refl: "renamed i i" "renamed i j \<Longrightarrow> renamed i (j\<lparr>in_name := n\<rparr>)"
  by (simp_all add: renamed_def) (metis incident.surjective incident.update_convs(4))

lemma renamed_sel:
  assumes "renamed i j"
  shows "in_id j = in_id i" "in_tenant_id j = in_tenant_id i" "in_visible j = in_visible i" "in_rule_id j = in_rule_id i"
    "in_rule_fingerprint j = in_rule_fingerprint i"
  using assms by (subst assms [unfolded renamed_def], simp)+

lemma with_prefix_renamed: "with_prefix r i = Inr j \<Longrightarrow> renamed i j"
  using renamed_refl(1) [of i] renamed_refl(2) [OF renamed_refl(1), of i]
  by (auto simp: with_prefix_def split: option.splits list.splits if_splits)

lemma existing_renamed:
  assumes "existing_incident env r i alerts event db = Inr j"
  shows "renamed i j"
proof -
  obtain k where k: "with_prefix r i = Inr k" using assms by (auto simp: existing_incident_def rbind_Inr_iff)
  note k' = with_prefix_renamed [OF k]
  show ?thesis
  proof (cases "ru_name_template r")
    case None
    then show ?thesis using assms k k' by (simp add: existing_incident_def)
  next
    case (Some t)
    then show ?thesis
      using assms k k' renamed_refl(2) [OF k'] by (cases t) (auto simp: existing_incident_def rbind_Inr_iff)
  qed
qed

lemma lookup_cases:
  fixes l :: "('a \<times> 'b \<times> bool) option result"
  obtains e where "l = Inl e" | "l = Inr None" | j as where "l = Inr (Some (j, as, True))" | j as where "l = Inr (Some (j, as, False))"
proof (cases l)
  case (Inr found)
  show ?thesis
  proof (cases found)
    case (Some p)
    obtain j as b where "p = (j, as, b)" by (cases p)
    with Inr Some that show ?thesis by (cases b) simp_all
  qed (use Inr that in simp)
qed (use that in simp)

lemma get_or_create_cases:
  assumes "get_or_create_incident env r fp event allowed db = (Inr (Some (i, alerts), created), db')"
  shows "(\<exists>j as. get_incident_for_grouping_rule (re_tenant_id env) r fp (re_utcnow env) db = Inr (Some (j, as, False))
      \<and> renamed j i \<and> \<not> created \<and> db' = db)
    \<or> (\<exists>name past uuid. create_incident_for_grouping_rule (re_tenant_id env) r fp name past uuid (re_utcnow env) db = (Inr i, db'))"
proof -
  let ?l = "get_incident_for_grouping_rule (re_tenant_id env) r fp (re_utcnow env) db"
  consider e where "?l = Inl e" | "?l = Inr None" | j as where "?l = Inr (Some (j, as, True))"
    | j as where "?l = Inr (Some (j, as, False))"
    by (rule lookup_cases [of ?l])
  then show ?thesis
  proof cases
    case 1
    then show ?thesis using assms by (simp add: get_or_create_incident_def)
  next
    case 2
    then show ?thesis
      using assms by (auto simp: get_or_create_incident_def rbind_Inr_iff split: if_splits sum.splits prod.splits)
  next
    case 3
    then show ?thesis
      using assms by (auto simp: get_or_create_incident_def rbind_Inr_iff split: if_splits sum.splits prod.splits)
  next
    case (4 j as)
    then show ?thesis
      using assms existing_renamed [of env r j as event db i] by (auto simp: get_or_create_incident_def rbind_Inr_iff)
  qed
qed

lemma get_or_create_stands:
  assumes "get_or_create_incident env r fp event allowed db = (Inr (Some (i, alerts), created), db')"
  shows "stands_for i db' \<and> (created \<longrightarrow> \<not> in_visible i) \<and> in_tenant_id i = re_tenant_id env
    \<and> (\<exists>j \<in> set (idb_incidents db'). row_grows i j) \<and> in_rule_id i = Some (ru_id r) \<and> in_rule_fingerprint i = fp"
  using get_or_create_cases [OF assms]
proof (elim disjE exE conjE)
  fix j as
  assume l: "get_incident_for_grouping_rule (re_tenant_id env) r fp (re_utcnow env) db = Inr (Some (j, as, False))"
    and r: "renamed j i" and c: "\<not> created" "db' = db"
  have "j \<in> set (rule_incidents (re_tenant_id env) r fp db)" by (rule lookup_row [OF l])
  then show ?thesis
    using renamed_sel [OF r] c by (auto simp: rule_incidents_def stands_for_def row_grows_def)
next
  fix name past uuid
  assume "create_incident_for_grouping_rule (re_tenant_id env) r fp name past uuid (re_utcnow env) db = (Inr i, db')"
  from create_stands [OF this] show ?thesis by blast
qed

definition row_sig :: "incident \<Rightarrow> string \<times> string \<times> bool" where
  "row_sig i = (in_id i, in_tenant_id i, in_visible i)"

lemma stands_for_sig: "stands_for i db \<longleftrightarrow> row_sig i \<in> set (map row_sig (idb_incidents db))"
  unfolding stands_for_def row_sig_def set_map image_iff prod.inject by metis

lemma sigs_update: "(\<And>i. row_sig (f i) = row_sig i) \<Longrightarrow>
    map row_sig (idb_incidents (update_incident f t iid db)) = map row_sig (idb_incidents db)"
  using map_if_id [of row_sig f] by (simp add: update_incident_def comp_def)

lemma sigs_add: "map row_sig (idb_incidents (snd (add_alerts_to_incident t i fps ai oc ex db))) = map row_sig (idb_incidents db)"
  by (simp add: add_alerts_to_incident_def Let_def sigs_update row_sig_def split: sum.split prod.split)

lemma sigs_assign: "map row_sig (idb_incidents (snd (assign_event env event i db))) = map row_sig (idb_incidents db)"
proof -
  have f: "map row_sig (idb_incidents (flush_name i db)) = map row_sig (idb_incidents db)"
    unfolding flush_name_def by (rule sigs_update) (simp add: row_sig_def)
  show ?thesis
    using sigs_add [of "re_tenant_id env" i "[event_fingerprint event]" False False False "flush_name i db"] f
    by (auto simp: assign_event_def assign_alert_to_incident_def split: sum.split prod.split)
qed

lemma sig_unique:
  assumes "distinct (map in_id is)" "row_sig i \<in> set (map row_sig is)" "row_sig j \<in> set (map row_sig is)" "in_id i = in_id j"
  shows "row_sig i = row_sig j"
  using assms by (auto simp: row_sig_def distinct_map inj_on_def)

lemma assign_sig:
  assumes "assign_event env event i db = (Inr i', db')" "tables_ok db" "stands_for i db"
  shows "row_sig i' = row_sig i \<and> stands_for i' db'"
proof -
  have db': "db' = snd (assign_event env event i db)" using assms(1) by simp
  have d: "distinct (map in_id (idb_incidents db'))" using assign_tables [OF assms(2)] unfolding db' tables_ok_def by blast
  have i: "row_sig i \<in> set (map row_sig (idb_incidents db'))"
    using assms(3) unfolding stands_for_sig db' sigs_assign .
  have "i' = i \<or> i' = refreshed i db'"
    using assms(1) by (auto simp: assign_event_def assign_alert_to_incident_def add_alerts_to_incident_def Let_def
        split: if_splits sum.splits prod.splits)
  moreover have "refreshed i db' \<in> set (idb_incidents db') \<and> in_id (refreshed i db') = in_id i"
  proof -
    have "in_id i \<in> set (map in_id (idb_incidents db'))" using i by (auto simp: row_sig_def)
    then obtain k where "find (\<lambda>j. in_id j = in_id i) (idb_incidents db') = Some k"
      by (cases "find (\<lambda>j. in_id j = in_id i) (idb_incidents db')") (auto simp: find_None_iff)
    then show ?thesis using find_in_set by (fastforce simp: refreshed_def)
  qed
  ultimately have "row_sig i' \<in> set (map row_sig (idb_incidents db')) \<and> in_id i' = in_id i" using i by auto
  then show ?thesis using sig_unique [OF d _ i] unfolding stands_for_sig by blast
qed

lemma show_when_ready_sig:
  "show_when_ready env r matched alerts i db = Inr j \<Longrightarrow> in_id j = in_id i \<and> in_tenant_id j = in_tenant_id i \<and> (in_visible i \<longrightarrow> in_visible j)"
  by (auto simp: show_when_ready_def process_event_for_history_based_rule_def Let_def rbind_Inr_iff split: if_splits)

lemma resolve_sig:
  "resolve_incident_if_require env i db = (Inr j, db') \<Longrightarrow> row_sig j = row_sig i \<and> in_severity j = in_severity i"
  by (auto simp: resolve_incident_if_require_def row_sig_def split: sum.splits bool.splits)

text \<open>Flushing an object makes its row visible when the object is.\<close>

lemma flush_visible:
  assumes "\<exists>j \<in> set (idb_incidents db). in_id j = in_id i \<and> in_tenant_id j = in_tenant_id i" "in_visible i"
  shows "\<exists>j \<in> set (idb_incidents (flush_object i db)). in_id j = in_id i \<and> in_visible j"
proof -
  obtain j where j: "j \<in> set (idb_incidents db)" "in_id j = in_id i \<and> in_tenant_id j = in_tenant_id i" using assms(1) by blast
  then have "j\<lparr>in_name := in_name i, in_visible := True\<rparr> \<in> set (idb_incidents (flush_object i db))"
    using assms(2) by (auto simp: flush_object_def update_incident_def image_iff intro!: bexI [of _ j])
  then show ?thesis using j by (intro bexI) simp_all
qed

section \<open>Messages\<close>

definition created_ids :: "engine \<Rightarrow> string list" where
  "created_ids st = map fst (filter (\<lambda>m. snd m = ''created'') (en_sent st))"

definition visible_row :: "string \<Rightarrow> inc_db \<Rightarrow> bool" where
  "visible_row iid db \<longleftrightarrow> (\<exists>j \<in> set (idb_incidents db). in_id j = iid \<and> in_visible j)"

text \<open>At most one creation is told per incident, and only visible incidents are told of.\<close>

definition told_ok :: "engine \<Rightarrow> bool" where
  "told_ok st \<longleftrightarrow> tables_ok (en_db st) \<and> distinct (created_ids st) \<and> (\<forall>m \<in> set (en_sent st). visible_row (fst m) (en_db st))"

lemma visible_row_grows: "visible_row iid db \<Longrightarrow> grows db db' \<Longrightarrow> visible_row iid db'"
  by (fastforce simp: visible_row_def grows_def row_grows_def)

lemma told_ok_grows:
  "told_ok st \<Longrightarrow> tables_ok db' \<Longrightarrow> grows (en_db st) db' \<Longrightarrow> told_ok (st\<lparr>en_db := db'\<rparr>)"
  using visible_row_grows by (simp add: told_ok_def created_ids_def) blast

lemma stands_not_visible:
  assumes "tables_ok db" "stands_for i db" "\<not> in_visible i" shows "\<not> visible_row (in_id i) db"
proof
  assume "visible_row (in_id i) db"
  then obtain j where j: "j \<in> set (idb_incidents db)" "in_id j = in_id i" "in_visible j" by (auto simp: visible_row_def)
  have "row_sig j = row_sig i"
    using sig_unique [of "idb_incidents db" j i] assms(1,2) j(1,2) by (simp add: tables_ok_def stands_for_sig)
  then show False using j(3) assms(3) by (simp add: row_sig_def)
qed

lemma told_ok_announce:
  assumes "told_ok st" "visible_row (in_id i) (en_db st) \<or> \<not> (c \<or> in_visible i)" "c \<Longrightarrow> in_id i \<notin> set (created_ids st)"
  shows "told_ok (announce c i st)"
  using assms by (auto simp: told_ok_def announce_def send_def created_ids_def Let_def)

lemma created_visible: "told_ok st \<Longrightarrow> iid \<in> set (created_ids st) \<Longrightarrow> visible_row iid (en_db st)"
  by (auto simp: told_ok_def created_ids_def)

lemma process_incident_told:
  assumes ok: "told_ok st" and i: "stands_for i (en_db st)" and c: "c \<Longrightarrow> \<not> in_visible i"
  shows "told_ok (snd (process_incident env r event matched c alerts i st)) \<and>
    grows (en_db st) (en_db (snd (process_incident env r event matched c alerts i st)))"
proof (cases "assign_event env event i (en_db st)")
  case (Pair x db1)
  have t: "tables_ok (en_db st)" using ok by (simp add: told_ok_def)
  have t1: "tables_ok db1" and g1: "grows (en_db st) db1"
    using assign_tables [OF t, of env event i] grows_assign [of "en_db st" env event i] Pair by simp_all
  note ok1 = told_ok_grows [OF ok t1 g1]
  show ?thesis
  proof (cases x)
    case (Inl e)
    then show ?thesis using Pair ok1 g1 by (simp add: process_incident_def)
  next
    case (Inr i1)
    have s1: "row_sig i1 = row_sig i" "stands_for i1 db1" using assign_sig [OF Pair [unfolded Inr] t i] by simp_all
    let ?v = "if in_visible i1 then Inr (i1, c) else rbind (show_when_ready env r matched alerts i1 db1) (\<lambda>i. Inr (i, in_visible i))"
    show ?thesis
    proof (cases ?v)
      case (Inl e)
      then show ?thesis using Pair \<open>x = Inr i1\<close> ok1 g1 by (simp add: process_incident_def)
    next
      case (Inr v)
      obtain i2 c2 where v: "v = (i2, c2)" by (cases v)
      have i2: "in_id i2 = in_id i1" "in_tenant_id i2 = in_tenant_id i1" "in_visible i1 \<longrightarrow> i2 = i1"
        "c2 \<longrightarrow> in_visible i2 \<and> \<not> in_visible i1"
        using Inr v show_when_ready_sig [of env r matched alerts i1 db1] c s1(1)
        by (auto simp: rbind_Inr_iff row_sig_def split: if_splits)
      obtain y db3 where res: "resolve_incident_if_require env i2 (flush_object i2 db1) = (y, db3)" by fastforce
      have t3: "tables_ok db3" using resolve_tables [OF flush_tables(1) [OF t1, of i2], of env i2] res by simp
      have g13: "grows db1 db3"
        using grows_trans [OF grows_flush [of db1 i2] grows_resolve [of "flush_object i2 db1" env i2]] res by simp
      have g: "grows (en_db st) db3" by (rule grows_trans [OF g1 g13])
      have ok3: "told_ok (st\<lparr>en_db := db3\<rparr>)" by (rule told_ok_grows [OF ok t3 g])
      have red: "process_incident env r event matched c alerts i st =
          (case y of Inl e \<Rightarrow> (Inl e, st\<lparr>en_db := db3\<rparr>)
           | Inr i \<Rightarrow> (case from_db_incident i of Inl e \<Rightarrow> (Inl e, st\<lparr>en_db := db3\<rparr>)
               | Inr dto \<Rightarrow> (Inr (), announce c2 dto (st\<lparr>en_db := db3\<rparr>))))"
        using Pair \<open>x = Inr i1\<close> Inr v res by (simp add: process_incident_def split: sum.split)
      have vis: "visible_row (in_id i2) db3" if "in_visible i2"
      proof -
        have "\<exists>j \<in> set (idb_incidents db1). in_id j = in_id i2 \<and> in_tenant_id j = in_tenant_id i2"
          using s1(2) i2(1,2) by (auto simp: stands_for_def)
        from flush_visible [OF this that] have "visible_row (in_id i2) (flush_object i2 db1)" by (simp add: visible_row_def)
        then show ?thesis
          using visible_row_grows [OF _ grows_resolve [of "flush_object i2 db1" env i2]] res by simp
      qed
      have fresh: "in_id i2 \<notin> set (created_ids (st\<lparr>en_db := db3\<rparr>))" if c2
      proof
        assume "in_id i2 \<in> set (created_ids (st\<lparr>en_db := db3\<rparr>))"
        then have "in_id i \<in> set (created_ids st)" using i2(1) s1(1) by (simp add: created_ids_def row_sig_def)
        from created_visible [OF ok this] show False
          using stands_not_visible [OF t i] i2(4) s1(1) that by (simp add: row_sig_def)
      qed
      show ?thesis
      proof (cases y)
        case (Inl e)
        then show ?thesis using red ok3 g by simp
      next
        case (Inr i3)
        have i3: "in_id i3 = in_id i2" "in_visible i3 = in_visible i2"
          using resolve_sig [OF res [unfolded Inr]] by (simp_all add: row_sig_def)
        have "told_ok (announce c2 i3 (st\<lparr>en_db := db3\<rparr>))"
          by (rule told_ok_announce [OF ok3]) (use vis fresh i2(4) i3 in auto)
        moreover have "en_db (announce c2 i3 (st\<lparr>en_db := db3\<rparr>)) = db3" by (simp add: announce_def send_def Let_def)
        ultimately show ?thesis using red Inr ok3 g by (auto simp: from_db_incident_def)
      qed
    qed
  qed
qed

definition keeps :: "engine \<Rightarrow> engine \<Rightarrow> bool" where
  "keeps st st' \<longleftrightarrow> told_ok st' \<and> grows (en_db st) (en_db st')"

lemma keeps_refl: "told_ok st \<Longrightarrow> keeps st st"
  by (simp add: keeps_def)

lemma keeps_trans: "keeps a b \<Longrightarrow> keeps b c \<Longrightarrow> keeps a c"
  using grows_trans by (simp add: keeps_def) blast

lemma keeps_matched: "keeps (st\<lparr>en_matched := m\<rparr>) st' \<Longrightarrow> keeps st st'"
  by (simp add: keeps_def)

lemma told_ok_matched [simp]: "told_ok (st\<lparr>en_matched := m\<rparr>) = told_ok st"
  by (simp add: told_ok_def created_ids_def)

lemma process_fingerprint_keeps:
  assumes ok: "told_ok st"
  shows "keeps st (snd (process_fingerprint env r event matched fp st))"
proof (cases "join_values fp")
  case (Inl e)
  then show ?thesis using ok by (simp add: process_fingerprint_def keeps_refl)
next
  case (Inr key)
  let ?g = "get_or_create_incident env r key event (creation_allowed_for env event (en_db st)) (en_db st)"
  obtain x db1 where g: "?g = (x, db1)" by fastforce
  have t: "tables_ok (en_db st)" using ok by (simp add: told_ok_def)
  have t1: "tables_ok db1" and g1: "grows (en_db st) db1"
    using get_or_create_tables [OF t] grows_get_or_create g by (metis snd_conv)+
  let ?st = "st\<lparr>en_db := db1\<rparr>"
  have ok1: "told_ok ?st" by (rule told_ok_grows [OF ok t1 g1])
  consider e where "x = Inl e" | c where "x = Inr (None, c)" | i alerts c where "x = Inr (Some (i, alerts), c)"
    by (cases x) (auto, metis option.exhaust prod.exhaust)
  then show ?thesis
  proof cases
    case 1
    then show ?thesis using Inr g ok1 g1 by (simp add: process_fingerprint_def keeps_def)
  next
    case 2
    then show ?thesis using Inr g ok1 g1 by (simp add: process_fingerprint_def keeps_def)
  next
    case (3 i alerts c)
    have s: "stands_for i (en_db ?st)" "c \<Longrightarrow> \<not> in_visible i"
      using get_or_create_stands [of env r key event "creation_allowed_for env event (en_db st)" "en_db st" i alerts c db1] g 3 by simp_all
    have "keeps ?st (snd (process_incident env r event matched c alerts i ?st))"
      using process_incident_told [OF ok1 s] by (simp add: keeps_def)
    then have "keeps st (snd (process_incident env r event matched c alerts i ?st))"
      using grows_trans [OF g1] by (simp add: keeps_def)
    then show ?thesis using Inr g 3 by (simp add: process_fingerprint_def)
  qed
qed

lemma process_fingerprints_keeps:
  "told_ok st \<Longrightarrow> keeps st (snd (process_fingerprints env r event matched fps st))"
proof (induction fps arbitrary: st)
  case Nil
  then show ?case by (simp add: keeps_refl)
next
  case (Cons fp fps)
  obtain x st1 where p: "process_fingerprint env r event matched fp st = (x, st1)" by fastforce
  have k: "keeps st st1" using process_fingerprint_keeps [OF Cons.prems, of env r event matched fp] p by simp
  then have "told_ok st1" by (simp add: keeps_def)
  from keeps_trans [OF k Cons.IH [OF this]] k show ?case using p by (cases x) simp_all
qed

lemma process_matched_keeps: "told_ok st \<Longrightarrow> keeps st (snd (process_matched env r event matched st))"
  by (simp add: process_matched_def keeps_refl process_fingerprints_keeps split: sum.split)

lemma process_event_keeps:
  assumes "told_ok st"
  shows "keeps st (snd (process_event env r event st))"
proof -
  have "keeps st (snd (process_matched env r event m (st\<lparr>en_matched := Some m\<rparr>)))" for m
    by (rule keeps_matched [OF process_matched_keeps]) (simp add: assms)
  then show ?thesis
    using assms by (simp add: process_event_def keeps_refl process_matched_keeps split: sum.split option.split)
qed

lemma process_events_keeps: "told_ok st \<Longrightarrow> keeps st (snd (process_events env ps st))"
proof (induction ps arbitrary: st)
  case Nil
  then show ?case by (simp add: keeps_refl)
next
  case (Cons p ps)
  obtain r event where p: "p = (r, event)" by (cases p)
  obtain x st1 where e: "process_event env r event st = (x, st1)" by fastforce
  have k: "keeps st st1" using process_event_keeps [OF Cons.prems, of env r event] e by simp
  then have "told_ok st1" by (simp add: keeps_def)
  from keeps_trans [OF k Cons.IH [OF this]] k show ?case using p e by (cases x) simp_all
qed

text \<open>Many runs, each with its rules, events and environment; an exception ends its run only.\<close>

fun run_history ::
  "('p engine_env \<times> rule list \<times> pydict list) list \<Rightarrow> inc_db \<times> (string \<times> string) list \<Rightarrow> inc_db \<times> (string \<times> string) list" where
  "run_history [] s = s"
| "run_history ((env, rules, events) # runs) s = run_history runs (snd (run_cel_rules env rules events s))"

definition state_ok :: "inc_db \<times> (string \<times> string) list \<Rightarrow> bool" where
  "state_ok s \<longleftrightarrow> told_ok \<lparr>en_db = fst s, en_sent = snd s, en_matched = None, en_dtos = []\<rparr>"

lemma run_state_ok:
  assumes "state_ok s"
  shows "state_ok (snd (run_cel_rules env rules events s))"
proof -
  let ?st = "\<lparr>en_db = fst s, en_sent = snd s, en_matched = None, en_dtos = []\<rparr>"
  have "told_ok (snd (process_events env (rule_event_pairs (re_tenant_id env) rules events) ?st))"
    using process_events_keeps [OF assms [unfolded state_ok_def], of env "rule_event_pairs (re_tenant_id env) rules events"]
    by (simp add: keeps_def)
  then show ?thesis
    by (simp add: run_cel_rules_def state_ok_def told_ok_def created_ids_def case_prod_beta)
qed

lemma history_state_ok: "state_ok s \<Longrightarrow> state_ok (run_history runs s)"
proof (induction runs arbitrary: s)
  case (Cons run runs)
  obtain env rules events where "run = (env, rules, events)" by (cases run)
  then show ?case using Cons.IH [OF run_state_ok [OF Cons.prems, of env rules events]] by simp
qed simp

text \<open>
  C23: over every history of runs on consistent tables, exceptions included, the workflow manager is told of the
  creation of an incident at most once, and every message names an incident that is visible.
\<close>

theorem created_told_once:
  assumes "tables_ok db"
  shows "distinct (map fst (filter (\<lambda>m. snd m = ''created'') (snd (run_history runs (db, [])))))
    \<and> (\<forall>m \<in> set (snd (run_history runs (db, []))). visible_row (fst m) (fst (run_history runs (db, []))))"
proof -
  have "state_ok (db, [])" using assms by (simp add: state_ok_def told_ok_def created_ids_def)
  from history_state_ok [OF this, of runs] show ?thesis
    by (simp add: state_ok_def told_ok_def created_ids_def)
qed

definition example_env :: "string engine_env" where
  "example_env = \<lparr>re_tenant_id = ''t'', re_cel = example_cel, re_expand = Inr, re_dtos = (\<lambda>db as. map (\<lambda>_. []) as),
     re_alert_dto = (\<lambda>a. Inr (al_fields a)), re_edge_resolved = (\<lambda>b i db. Inr False), re_isoparse = (\<lambda>_. None),
     re_uuid = (\<lambda>n. ''i'' @ show_nat n), re_utcnow = 7\<rparr>"

definition example_history where
  "example_history = run_history [(example_env, [example_rule], [example_event]), (example_env, [example_rule], [example_event])]
     (example_inc_db, [])"

theorem created_told_once_witness:
  "snd example_history = [(''i0'', ''created''), (''i0'', ''updated'')]
    \<and> distinct (map fst (filter (\<lambda>m. snd m = ''created'') (snd example_history)))"
proof
  show "snd example_history = [(''i0'', ''created''), (''i0'', ''updated'')]" by code_simp
  have "tables_ok example_inc_db" unfolding example_inc_db_def by (rule empty_inc_db_ok)
  from created_told_once [OF this] show "distinct (map fst (filter (\<lambda>m. snd m = ''created'') (snd example_history)))"
    unfolding example_history_def by blast
qed

section \<open>Links\<close>

lemma flush_name_same:
  "has_last_alert t (flush_name i db) = has_last_alert t db"
  "linked t iid (flush_name i db) = linked t iid db"
  "idb_links (flush_name i db) = idb_links db"
  by (simp_all add: flush_name_def fun_eq_iff)

lemma assign_linked:
  assumes "assign_event env event i db = (Inr i', db')"
  shows "event_fingerprint event \<in> set (linked (re_tenant_id env) (in_id i) db')"
proof (cases "new_fingerprints (re_tenant_id env) (in_id i) [event_fingerprint event] False db = []")
  case True
  then show ?thesis using assms by (auto simp: assign_event_def new_fingerprints_def Let_def split: if_splits)
next
  case False
  let ?db = "flush_name i db"
  have n: "new_fingerprints (re_tenant_id env) (in_id i) [event_fingerprint event] False ?db
      = new_fingerprints (re_tenant_id env) (in_id i) [event_fingerprint event] False db"
    by (simp add: new_fingerprints_def flush_name_same)
  then have "event_fingerprint event \<in> set (new_fingerprints (re_tenant_id env) (in_id i) [event_fingerprint event] False ?db)"
    using False by (auto simp: new_fingerprints_def Let_def split: if_splits)
  moreover have "add_alerts_to_incident (re_tenant_id env) i [event_fingerprint event] False False False ?db = (Inr i', db')"
    using assms False by (simp add: assign_event_def assign_alert_to_incident_def split: sum.splits prod.splits)
  ultimately show ?thesis
    using add_alerts_linked [of "re_tenant_id env" i "[event_fingerprint event]" False False False ?db i' "re_tenant_id env" "in_id i"]
    by simp
qed

lemma announce_db [simp]: "en_db (announce c i st) = en_db st"
  by (simp add: announce_def send_def Let_def)

lemma process_incident_linked:
  assumes "process_incident env r event matched c alerts i st = (Inr (), st')"
  shows "event_fingerprint event \<in> set (linked (re_tenant_id env) (in_id i) (en_db st')) \<and> grows (en_db st) (en_db st')"
proof -
  obtain i1 db1 where a: "assign_event env event i (en_db st) = (Inr i1, db1)"
    using assms by (auto simp: process_incident_def split: sum.splits prod.splits)
  have "\<exists>i2. en_db st' = snd (resolve_incident_if_require env i2 (flush_object i2 db1))"
    using assms a by (auto simp: process_incident_def split: sum.splits prod.splits) (metis snd_conv)+
  then obtain i2 where e: "en_db st' = snd (resolve_incident_if_require env i2 (flush_object i2 db1))" ..
  have g: "grows db1 (en_db st')" unfolding e by (rule grows_trans [OF grows_flush grows_resolve])
  moreover have "grows (en_db st) db1" using grows_assign [of "en_db st" env event i] a by simp
  ultimately show ?thesis
    using assign_linked [OF a] grows_trans [OF _ g] by (simp add: grows_def [of db1] subset_iff)
qed

text \<open>An incident of the rule and fingerprint to which the alert is linked.\<close>

definition linked_for :: "string \<Rightarrow> rule \<Rightarrow> string \<Rightarrow> string \<Rightarrow> inc_db \<Rightarrow> bool" where
  "linked_for tenant_id r key fp db \<longleftrightarrow>
     (\<exists>i \<in> set (rule_incidents tenant_id r key db). fp \<in> set (linked tenant_id (in_id i) db))"

lemma linked_for_grows: "linked_for t r key fp db \<Longrightarrow> grows db db' \<Longrightarrow> linked_for t r key fp db'"
  unfolding linked_for_def grows_def rule_incidents_def row_grows_def by (fastforce simp: subset_iff)

definition fires :: "pydict \<Rightarrow> bool" where
  "fires event \<longleftrightarrow> event_status event = PStr ''firing'' \<and> dget event ''previous_status'' = None"

lemma get_or_create_some:
  assumes "fires event"
    "get_or_create_incident env r fp event (creation_allowed_for env event db) db = (Inr (x, c), db')"
  shows "x \<noteq> None"
proof -
  have allowed: "creation_allowed_for env event db" "event_status event = PStr ''firing''"
    using assms(1) by (simp_all add: creation_allowed_for_def fires_def)
  show ?thesis
    by (rule lookup_cases [of "get_incident_for_grouping_rule (re_tenant_id env) r fp (re_utcnow env) db"])
      (use assms(2) allowed in \<open>auto simp: get_or_create_incident_def rbind_Inr_iff split: sum.splits prod.splits\<close>)
qed

lemma process_fingerprint_linked:
  assumes "fires event" "join_values fp = Inr key" "process_fingerprint env r event matched fp st = (Inr (), st')"
  shows "linked_for (re_tenant_id env) r key (event_fingerprint event) (en_db st')"
proof -
  let ?g = "get_or_create_incident env r key event (creation_allowed_for env event (en_db st)) (en_db st)"
  obtain x c db1 where g: "?g = (Inr (x, c), db1)"
    using assms(2,3) by (cases ?g) (auto simp: process_fingerprint_def split: sum.splits)
  then obtain i alerts where x: "x = Some (i, alerts)" using get_or_create_some [OF assms(1) g] by auto
  let ?st = "st\<lparr>en_db := db1\<rparr>"
  have p: "process_incident env r event matched c alerts i ?st = (Inr (), st')"
    using assms(2,3) g x by (simp add: process_fingerprint_def)
  have s: "in_tenant_id i = re_tenant_id env" "in_rule_id i = Some (ru_id r)" "in_rule_fingerprint i = key"
    "\<exists>j \<in> set (idb_incidents db1). row_grows i j"
    using get_or_create_stands [OF g [unfolded x]] by simp_all
  obtain j where j: "j \<in> set (idb_incidents db1)" "row_grows i j" using s(4) by blast
  from process_incident_linked [OF p] obtain k where k: "k \<in> set (idb_incidents (en_db st'))" "row_grows j k"
    using j(1) unfolding grows_def by auto
  have "row_grows i k" using j(2) k(2) row_grows_trans by blast
  then have "k \<in> set (rule_incidents (re_tenant_id env) r key (en_db st'))" "in_id k = in_id i"
    using s k(1) by (simp_all add: rule_incidents_def row_grows_def)
  moreover have "event_fingerprint event \<in> set (linked (re_tenant_id env) (in_id i) (en_db st'))"
    using process_incident_linked [OF p] by blast
  ultimately show ?thesis unfolding linked_for_def by metis
qed

lemma process_fingerprints_linked:
  assumes "told_ok st" "fires event" "process_fingerprints env r event matched fps st = (Inr (), st')"
    "fp \<in> set fps" "join_values fp = Inr key"
  shows "linked_for (re_tenant_id env) r key (event_fingerprint event) (en_db st')"
  using assms
proof (induction fps arbitrary: st)
  case (Cons f fps)
  obtain x st1 where p: "process_fingerprint env r event matched f st = (x, st1)" by fastforce
  with Cons.prems(3) have x: "x = Inr ()" and rest: "process_fingerprints env r event matched fps st1 = (Inr (), st')"
    by (auto split: sum.splits)
  have ok1: "told_ok st1" using process_fingerprint_keeps [OF Cons.prems(1), of env r event matched f] p by (simp add: keeps_def)
  show ?case
  proof (cases "f = fp")
    case True
    have "linked_for (re_tenant_id env) r key (event_fingerprint event) (en_db st1)"
      using process_fingerprint_linked [OF Cons.prems(2)] Cons.prems(5) p x True by blast
    moreover have "grows (en_db st1) (en_db st')"
      using process_fingerprints_keeps [OF ok1, of env r event matched fps] rest by (simp add: keeps_def)
    ultimately show ?thesis by (rule linked_for_grows)
  next
    case False
    then show ?thesis using Cons.IH [OF ok1 Cons.prems(2) rest] Cons.prems(4,5) by simp
  qed
qed simp

definition selects :: "'p engine_env \<Rightarrow> rule \<Rightarrow> pydict \<Rightarrow> pyval list \<Rightarrow> bool" where
  "selects env r event fp \<longleftrightarrow>
     (case check_if_rule_apply (re_cel env) r event of Inr ms \<Rightarrow> ms \<noteq> [] | Inl _ \<Rightarrow> False)
     \<and> (case calc_rule_fingerprint event r of Inr fps \<Rightarrow> fp \<in> set fps | Inl _ \<Rightarrow> False)"

lemma process_event_linked:
  assumes "told_ok st" "fires event" "process_event env r event st = (Inr (), st')" "selects env r event fp" "join_values fp = Inr key"
  shows "linked_for (re_tenant_id env) r key (event_fingerprint event) (en_db st')"
proof -
  obtain ms fps where c: "check_if_rule_apply (re_cel env) r event = Inr ms" "ms \<noteq> []"
    "calc_rule_fingerprint event r = Inr fps" "fp \<in> set fps"
    using assms(4) by (auto simp: selects_def split: sum.splits)
  then have "process_fingerprints env r event ms fps (st\<lparr>en_matched := Some ms\<rparr>) = (Inr (), st')"
    using assms(3) by (simp add: process_event_def process_matched_def)
  then show ?thesis by (rule process_fingerprints_linked [OF _ assms(2) _ c(4) assms(5), rotated]) (simp add: assms(1))
qed

lemma process_events_linked:
  assumes "told_ok st" "fires event" "process_events env ps st = (Inr (), st')" "(r, event) \<in> set ps" "selects env r event fp"
    "join_values fp = Inr key"
  shows "linked_for (re_tenant_id env) r key (event_fingerprint event) (en_db st')"
  using assms
proof (induction ps arbitrary: st)
  case (Cons p ps)
  obtain r1 event1 where p: "p = (r1, event1)" by (cases p)
  obtain x st1 where e: "process_event env r1 event1 st = (x, st1)" by fastforce
  with Cons.prems(3) p have x: "x = Inr ()" and rest: "process_events env ps st1 = (Inr (), st')" by (auto split: sum.splits)
  have ok1: "told_ok st1" using process_event_keeps [OF Cons.prems(1), of env r1 event1] e by (simp add: keeps_def)
  show ?case
  proof (cases "p = (r, event)")
    case True
    have "linked_for (re_tenant_id env) r key (event_fingerprint event) (en_db st1)"
      using process_event_linked [OF Cons.prems(1,2)] Cons.prems(5,6) e x True p by blast
    moreover have "grows (en_db st1) (en_db st')"
      using process_events_keeps [OF ok1, of env ps] rest by (simp add: keeps_def)
    ultimately show ?thesis by (rule linked_for_grows)
  next
    case False
    then show ?thesis using Cons.IH [OF ok1 Cons.prems(2) rest] Cons.prems(4-6) by auto
  qed
qed simp



end
