(* ===== verification/SaveEvents.thy ===== *)
theory SaveEvents
  imports Maintenance Enrichments RulesEngine
begin

text \<open>
  Saving a batch of events (\<open>__save_to_db\<close> in \<open>src/common/event_management/process_event_task.py\<close>): the row
  built from an event, its occurrence and last alert, extraction before and mapping after it, the stored
  enrichments put back on the event, and the incidents a resolved alert closes.  An event is the dictionary
  of its \<open>AlertDto\<close>, without a time stamp of its own.  A row added to the session counts as written: the commits
  between the steps are not separated.
\<close>

section \<open>Environment and state\<close>

record alert_raw =
  rw_tenant_id :: string
  rw_provider_type :: "string option"
  rw_error :: bool
  rw_message :: "string option"
  rw_alert :: pyval

record 'p save_env =
  sv_tenant_id :: string
  sv_store_raw :: bool
  sv_audit :: bool
  sv_calculate :: bool
  sv_isoparse :: "string \<Rightarrow> int option"
  sv_now :: int
  sv_now_iso :: string
  sv_faults :: "nat \<Rightarrow> exn option"
  sv_row_id :: "nat \<Rightarrow> string"
  sv_enrich :: enrich_env
  sv_extraction :: "extraction_rule list"
  sv_mapping :: "mapping_rule list"
  sv_engine :: "'p engine_env"

record save_world =
  sw_inc :: inc_db
  sw_events :: "enrichment_event list"
  sw_logs :: "(nat \<times> string) list"
  sw_pending :: "string list"
  sw_raw :: "alert_raw list"

abbreviation alerts_of :: "'a save_world_scheme \<Rightarrow> alert_db" where
  "alerts_of w \<equiv> idb_store (sw_inc w)"

definition set_alerts :: "alert_db \<Rightarrow> 'a save_world_scheme \<Rightarrow> 'a save_world_scheme" where
  "set_alerts db w = w\<lparr>sw_inc := (sw_inc w)\<lparr>idb_store := db\<rparr>\<rparr>"

definition enrich_world_of :: "'a save_world_scheme \<Rightarrow> enrich_world" where
  "enrich_world_of w = \<lparr>ew_db = alerts_of w, ew_events = sw_events w, ew_logs = sw_logs w, ew_pending = sw_pending w\<rparr>"

definition set_enrich_world :: "enrich_world \<Rightarrow> 'a save_world_scheme \<Rightarrow> 'a save_world_scheme" where
  "set_enrich_world ew w =
     (set_alerts (ew_db ew) w)\<lparr>sw_events := ew_events ew, sw_logs := ew_logs ew, sw_pending := ew_pending ew\<rparr>"

section \<open>Raw and deduplicated events\<close>

definition store_raw :: "'p save_env \<Rightarrow> string option \<Rightarrow> pyval list \<Rightarrow> 'a save_world_scheme \<Rightarrow> 'a save_world_scheme" where
  "store_raw env provider_type raw w =
     (if \<not> sv_store_raw env then w
      else w\<lparr>sw_raw := sw_raw w @ map (\<lambda>v. \<lparr>rw_tenant_id = sv_tenant_id env, rw_provider_type = provider_type,
             rw_error = False, rw_message = None, rw_alert = v\<rparr>) raw\<rparr>)"

text \<open>The function imports \<open>get_last_alert_by_fingerprint\<close> in its loop over the events, which makes the name
  local to the whole body: its use for a deduplicated event, before the loop, is an \<open>UnboundLocalError\<close>,
  caught and logged, so the last alert of the event is never touched.\<close>

definition touch_last_alert :: "pydict \<Rightarrow> alert_db \<Rightarrow> unit result \<times> alert_db" where
  "touch_last_alert event db =
     (Inl (Exn (EOther ''UnboundLocalError'') ''get_last_alert_by_fingerprint referenced before assignment''), db)"

definition save_duplicate :: "'p save_env \<Rightarrow> pydict \<Rightarrow> alert_db \<Rightarrow> alert_db" where
  "save_duplicate env event db =
     snd (touch_last_alert event
       (add_audit (sv_tenant_id env) (alert_fingerprint event) ''system'' ''alert was deduplicated'' ''Alert was deduplicated'' db))"

definition save_duplicates :: "'p save_env \<Rightarrow> pydict list \<Rightarrow> 'a save_world_scheme \<Rightarrow> 'a save_world_scheme" where
  "save_duplicates env events w =
     (if sv_audit env then set_alerts (fold (save_duplicate env) events (alerts_of w)) w else w)"

section \<open>Tracking fields of an event\<close>

definition text_of :: "pyval \<Rightarrow> string" where
  "text_of v = (case v of PStr s \<Rightarrow> s | _ \<Rightarrow> [])"

definition dto_of_event :: "pydict \<Rightarrow> alert_dto" where
  "dto_of_event e =
     \<lparr>dto_status = alert_status e, dto_last_received = text_of (dict_get e ''last_received'' PNone),
      dto_firing_start_time = opt_str (dict_get e ''firing_start_time'' PNone),
      dto_since_resolved = opt_str (dict_get e ''firing_start_time_since_last_resolved'' PNone),
      dto_firing_counter = int_of (dict_get e ''firing_counter'' PNone),
      dto_unresolved_counter = int_of (dict_get e ''unresolved_counter'' PNone)\<rparr>"

definition put_dto :: "alert_dto \<Rightarrow> pydict \<Rightarrow> pydict" where
  "put_dto d e =
     dupdate e [(''firing_start_time'', opt_pstr (dto_firing_start_time d)),
       (''firing_start_time_since_last_resolved'', opt_pstr (dto_since_resolved d)),
       (''firing_counter'', PInt (dto_firing_counter d)), (''unresolved_counter'', PInt (dto_unresolved_counter d))]"

definition start_event :: "'p save_env \<Rightarrow> (string \<times> int) list \<Rightarrow> alert_db \<Rightarrow> pydict \<Rightarrow> pydict" where
  "start_event env started db e =
     (let fp = alert_fingerprint e; e = dset ''pushed'' (PBool True) e;
          e = (case dget started fp of Some us \<Rightarrow> dset ''started_at'' (PStr (datetime_str us)) e | None \<Rightarrow> e)
      in if sv_calculate env then put_dto (with_counters (sv_now_iso env) (sv_tenant_id env) fp db (dto_of_event e)) e else e)"

definition valid_received :: "'p save_env \<Rightarrow> pydict \<Rightarrow> pydict" where
  "valid_received env e =
     dset ''last_received''
       (PStr (dto_last_received (validate_last_received (sv_isoparse env) (sv_now_iso env) (dto_of_event e)))) e"

text \<open>Extraction works on a copy and returns a new object; an exception leaves the event as it was.\<close>

definition extract_event :: "'p save_env \<Rightarrow> pydict \<Rightarrow> 'a save_world_scheme \<Rightarrow> pydict \<times> 'a save_world_scheme" where
  "extract_event env e w =
     (case run_extraction_rules (sv_enrich env) (sv_extraction env) [] False True e (enrich_world_of w) of
        (Inl _, held, ew) \<Rightarrow> (held, set_enrich_world ew w)
      | (Inr e', _, ew) \<Rightarrow> (e', set_enrich_world ew w))"

section \<open>The row of an event\<close>

definition FIELDS_TO_IGNORE :: "string list" where
  "FIELDS_TO_IGNORE =
     [''event_id'', ''firstTimestamp'', ''id'', ''providerId'', ''service'', ''imageUrl'', ''url'', ''description_format'',
      ''apiKeyRef'', ''grafana'', ''incident_dto'', ''environment'', ''labels'', ''pushed'', ''deleted'', ''isNoisy'',
      ''maintenance_windows_trace'', ''ticket_url'', ''action_type'', ''action_callee'', ''action_description'',
      ''audit_enabled'', ''force'']"

definition own_fields :: "string list" where
  "own_fields = [''tenant_id'', ''provider_type'', ''provider_id'', ''fingerprint'', ''alert_hash'']"

definition event_sources :: "pydict \<Rightarrow> pyval list" where
  "event_sources e = (case dict_get e ''source'' PNone of PList xs \<Rightarrow> xs | _ \<Rightarrow> [])"

definition provider_type_of :: "string option \<Rightarrow> pydict \<Rightarrow> pyval result" where
  "provider_type_of provider_type e =
     (if truthy (opt_pstr provider_type) then Inr (opt_pstr provider_type)
      else if truthy (dict_get e ''provider_type'' PNone) then Inr (dict_get e ''provider_type'' PNone)
      else (case event_sources e of x # _ \<Rightarrow> Inr x | [] \<Rightarrow> Inl (Exn EIndexError ''list index out of range'')))"

definition is_keep_event :: "string option \<Rightarrow> pydict \<Rightarrow> bool" where
  "is_keep_event provider_type e \<longleftrightarrow> provider_type = Some ''keep''
     \<or> (case event_sources e of x # _ \<Rightarrow> x = PStr ''keep'' | [] \<Rightarrow> False)"

text \<open>An event of the platform itself inherits every column of the previous occurrence that is not null,
  the hash included.\<close>

definition inherited_args :: "string \<Rightarrow> pydict \<Rightarrow> alert_db \<Rightarrow> pydict" where
  "inherited_args tenant_id e db =
     (case get_last_alert_by_fingerprint tenant_id (alert_fingerprint e) db of
        None \<Rightarrow> []
      | Some la \<Rightarrow>
          (case find (\<lambda>a. al_id a = la_alert_id la) (adb_alerts db) of
             None \<Rightarrow> []
           | Some a \<Rightarrow>
               filter (\<lambda>(f, v). f \<notin> {''id'', ''timestamp'', ''tenant_id'', ''fingerprint''} \<and> v \<noteq> PNone)
                 (map (\<lambda>f. (f, dict_get (row_dict a) f PNone)) ALERT_COLUMNS)))"

definition column_text :: "pyval \<Rightarrow> pyval" where
  "column_text v =
     (case v of
        PList xs \<Rightarrow> (case json_dumps v of Some s \<Rightarrow> PStr s | None \<Rightarrow> v)
      | PDict d \<Rightarrow> (case json_dumps v of Some s \<Rightarrow> PStr s | None \<Rightarrow> v)
      | _ \<Rightarrow> v)"

definition event_arg :: "string \<times> pyval \<Rightarrow> pydict \<Rightarrow> pydict" where
  "event_arg = (\<lambda>(k, v) args.
     if k \<in> set own_fields \<or> k \<in> set FIELDS_TO_IGNORE \<or> k \<notin> set ALERT_COLUMNS then args
     else if k = ''name'' \<and> v = PStr ''unknown alert name'' \<and> truthy (dict_get args ''name'' PNone) then args
     else if column_text v = PNone then args else dset k (column_text v) args)"

fun sanitize_value :: "pyval \<Rightarrow> pyval" and sanitize_items :: "pydict \<Rightarrow> pydict" where
  "sanitize_value (PStr s) = PStr (filter (\<lambda>c. c \<noteq> CHR 0x00) s)"
| "sanitize_value (PDict d) = PDict (sanitize_items d)"
| "sanitize_value (PList xs) = PList (map sanitize_value xs)"
| "sanitize_value v = v"
| "sanitize_items [] = []"
| "sanitize_items ((k, v) # d) = (k, sanitize_value v) # sanitize_items d"

definition sanitize_alert :: "pydict \<Rightarrow> pydict" where
  "sanitize_alert args = sanitize_items args"

definition alert_args :: "'p save_env \<Rightarrow> string option \<Rightarrow> string option \<Rightarrow> pydict \<Rightarrow> alert_db \<Rightarrow> pydict result" where
  "alert_args env provider_type provider_id e db =
     rbind (provider_type_of provider_type e) (\<lambda>pt.
       let args = [(''tenant_id'', PStr (sv_tenant_id env)), (''provider_type'', pt), (''provider_id'', opt_pstr provider_id),
             (''fingerprint'', PStr (alert_fingerprint e)), (''alert_hash'', dict_get e ''alert_hash'' PNone)];
           args = (if is_keep_event provider_type e then dupdate args (inherited_args (sv_tenant_id env) e db) else args)
       in Inr (sanitize_alert (fold event_arg e args)))"

definition row_of_args :: "'p save_env \<Rightarrow> int option \<Rightarrow> pydict \<Rightarrow> string \<Rightarrow> pydict \<Rightarrow> alert" where
  "row_of_args env forced e i args =
     \<lparr>al_id = i, al_tenant_id = text_of (dict_get args ''tenant_id'' PNone),
      al_timestamp = (case forced of Some t \<Rightarrow> t | None \<Rightarrow> sv_now env),
      al_fingerprint = text_of (dict_get args ''fingerprint'' PNone), al_name = opt_str (dict_get args ''name'' PNone),
      al_status = opt_str (dict_get args ''status'' PNone), al_alert_hash = opt_str (dict_get args ''alert_hash'' PNone),
      al_provider_type = text_of (dict_get args ''provider_type'' PNone),
      al_provider_id = opt_str (dict_get args ''provider_id'' PNone),
      al_fields = dset ''received_at''
        (case sv_isoparse env (text_of (dict_get e ''last_received'' PNone)) of Some us \<Rightarrow> PInt us | None \<Rightarrow> PNone)
        (filter (\<lambda>(k, v). k \<notin> set own_fields \<and> k \<notin> {''name'', ''status''}) args)\<rparr>"

section \<open>One event\<close>

definition audit_occurrence :: "'p save_env \<Rightarrow> pydict \<Rightarrow> alert_db \<Rightarrow> alert_db" where
  "audit_occurrence env e db =
     (if sv_audit env then
        add_audit (sv_tenant_id env) (alert_fingerprint e) ''system''
          (if alert_status e = ''resolved'' then ''alert automatically resolved'' else ''alert was triggered'')
          (''Alert recieved from provider with status '' @ alert_status e) db
      else db)"

definition store_occurrence ::
  "'p save_env \<Rightarrow> pydict \<Rightarrow> alert \<Rightarrow> alert_db \<Rightarrow> unit result \<times> alert_db" where
  "store_occurrence env e row db =
     set_last_alert (sv_faults env) (ee_store (sv_enrich env)) (sv_tenant_id env) row 3
       (Some (tracking_of (sv_isoparse env) (opt_str (dict_get e ''started_at'' PNone)) (dto_of_event e)))
       (audit_occurrence env e (db\<lparr>adb_alerts := adb_alerts db @ [row]\<rparr>))"

text \<open>Mapping changes the event in place; its exceptions are caught.\<close>

definition map_event :: "'p save_env \<Rightarrow> pydict \<Rightarrow> 'a save_world_scheme \<Rightarrow> pydict \<times> 'a save_world_scheme" where
  "map_event env e w =
     (case run_mapping_rules (sv_enrich env) (sv_mapping env) e (enrich_world_of w) of
        (_, e, ew) \<Rightarrow> (e, set_enrich_world ew w))"

definition apply_stored :: "string \<Rightarrow> alert_db \<Rightarrow> pydict \<Rightarrow> pydict" where
  "apply_stored tenant_id db e =
     (case get_enrichment tenant_id (alert_fingerprint e) db of
        None \<Rightarrow> e
      | Some d \<Rightarrow> dupdate e (map (\<lambda>(k, v). (k, strip_value v)) d))"

definition save_one ::
  "'p save_env \<Rightarrow> string option \<Rightarrow> string option \<Rightarrow> int option \<Rightarrow> (string \<times> int) list \<Rightarrow> pydict \<Rightarrow> 'a save_world_scheme
     \<Rightarrow> (pydict \<times> alert) result \<times> 'a save_world_scheme" where
  "save_one env provider_type provider_id forced started e w =
     (case extract_event env (start_event env started (alerts_of w) e) w of
        (e, w) \<Rightarrow>
          let e = valid_received env e
          in (case alert_args env provider_type provider_id e (alerts_of w) of
                Inl x \<Rightarrow> (Inl x, w)
              | Inr args \<Rightarrow>
                  let row = row_of_args env forced e (sv_row_id env (length (adb_alerts (alerts_of w)))) args;
                      e = dset ''id'' (PStr (al_id row)) e
                  in (case store_occurrence env e row (alerts_of w) of
                        (Inl x, db) \<Rightarrow> (Inl x, set_alerts db w)
                      | (Inr _, db) \<Rightarrow>
                          (case map_event env e (set_alerts db w) of
                             (e, w) \<Rightarrow> (Inr (apply_stored (sv_tenant_id env) (alerts_of w) e, row), w)))))"

fun save_loop ::
  "'p save_env \<Rightarrow> string option \<Rightarrow> string option \<Rightarrow> int option \<Rightarrow> (string \<times> int) list \<Rightarrow> pydict list \<Rightarrow> 'a save_world_scheme
     \<Rightarrow> (pydict \<times> alert) list result \<times> 'a save_world_scheme" where
  "save_loop env pt pid forced started [] w = (Inr [], w)"
| "save_loop env pt pid forced started (e # es) w =
     (case save_one env pt pid forced started e w of
        (Inl x, w) \<Rightarrow> (Inl x, w)
      | (Inr s, w) \<Rightarrow>
          (case save_loop env pt pid forced started es w of
             (Inl x, w) \<Rightarrow> (Inl x, w)
           | (Inr ss, w) \<Rightarrow> (Inr (s # ss), w)))"

section \<open>Incidents of resolved alerts\<close>

text \<open>The incidents are those loaded before the loop; their status is read again, because the session keeps
  one object per row.  The first exception ends the loop and is caught.\<close>

fun resolve_each :: "'p engine_env \<Rightarrow> incident list \<Rightarrow> inc_db \<Rightarrow> unit result \<times> inc_db" where
  "resolve_each env [] db = (Inr (), db)"
| "resolve_each env (i # is) db =
     (case get_incident_by_id (in_tenant_id i) (in_id i) db of
        None \<Rightarrow> resolve_each env is db
      | Some j \<Rightarrow>
          if in_status j \<notin> set ACTIVE_STATUSES then resolve_each env is db
          else (case resolve_incident_if_require env j db of
                  (Inl x, db) \<Rightarrow> (Inl x, db)
                | (Inr _, db) \<Rightarrow> resolve_each env is db))"

definition resolve_saved :: "'p save_env \<Rightarrow> alert list \<Rightarrow> inc_db \<Rightarrow> inc_db" where
  "resolve_saved env rows db =
     snd (resolve_each (sv_engine env)
       (concat (map (\<lambda>a. if al_status a = Some ''resolved''
           then incidents_of_alert (sv_tenant_id env) (al_fingerprint a) db else []) rows)) db)"

section \<open>The batch\<close>

definition save_to_db ::
  "'p save_env \<Rightarrow> string option \<Rightarrow> string option \<Rightarrow> int option \<Rightarrow> pyval list \<Rightarrow> pydict list \<Rightarrow> pydict list
     \<Rightarrow> 'a save_world_scheme \<Rightarrow> pydict list result \<times> 'a save_world_scheme" where
  "save_to_db env provider_type provider_id forced raw events duplicates w =
     (let w = save_duplicates env duplicates (store_raw env provider_type raw w);
          started = get_started_at_for_alerts (sv_tenant_id env) (map alert_fingerprint events) (alerts_of w)
      in (case save_loop env provider_type provider_id forced started events w of
            (Inl x, w) \<Rightarrow> (Inl x, w)
          | (Inr saved, w) \<Rightarrow> (Inr (map fst saved), w\<lparr>sw_inc := resolve_saved env (map snd saved) (sw_inc w)\<rparr>)))"

section \<open>Rows stay, last alerts get newer\<close>

definition newer_last :: "alert_db \<Rightarrow> alert_db \<Rightarrow> bool" where
  "newer_last db db' \<longleftrightarrow> (\<forall>t fp la. get_last_alert_by_fingerprint t fp db = Some la \<longrightarrow>
     (\<exists>la'. get_last_alert_by_fingerprint t fp db' = Some la' \<and> la_timestamp la \<le> la_timestamp la'))"

definition keeps_rows :: "alert_db \<Rightarrow> alert_db \<Rightarrow> bool" where
  "keeps_rows db db' \<longleftrightarrow> adb_alerts db' = adb_alerts db \<and> newer_last db db'"

lemma newer_last_refl [simp]: "newer_last db db"
  by (simp add: newer_last_def)

lemma newer_last_trans: "newer_last a b \<Longrightarrow> newer_last b c \<Longrightarrow> newer_last a c"
  unfolding newer_last_def by (metis (no_types, lifting) order_trans)

lemma newer_lastD:
  "newer_last db db' \<Longrightarrow> get_last_alert_by_fingerprint t fp db = Some la \<Longrightarrow>
     \<exists>la'. get_last_alert_by_fingerprint t fp db' = Some la' \<and> la_timestamp la \<le> la_timestamp la'"
  by (simp add: newer_last_def)

lemma newer_last_cong: "adb_last_alerts db' = adb_last_alerts db \<Longrightarrow> newer_last db db'"
  by (simp add: newer_last_def get_last_alert_by_fingerprint_def)

lemma keeps_rows_refl [simp]: "keeps_rows db db"
  by (simp add: keeps_rows_def)

lemma keeps_rows_trans: "keeps_rows a b \<Longrightarrow> keeps_rows b c \<Longrightarrow> keeps_rows a c"
  by (simp add: keeps_rows_def) (blast intro: newer_last_trans)

lemma get_after_put_other:
  assumes k: "la_key la \<noteq> (t, fp)"
  shows "get_last_alert_by_fingerprint t fp (db\<lparr>adb_last_alerts := put_last_alert la (adb_last_alerts db)\<rparr>)
     = get_last_alert_by_fingerprint t fp db"
proof -
  have m: "find (\<lambda>l. la_tenant_id l = t \<and> la_fingerprint l = fp) (map (\<lambda>l. if la_key l = la_key la then la else l) las)
      = find (\<lambda>l. la_tenant_id l = t \<and> la_fingerprint l = fp) las" for las
    using k by (induction las) (auto simp: la_key_def)
  have "\<not> (la_tenant_id la = t \<and> la_fingerprint la = fp)" using k by (auto simp: la_key_def)
  then have "find (\<lambda>l. la_tenant_id l = t \<and> la_fingerprint l = fp) (las @ [la])
      = find (\<lambda>l. la_tenant_id l = t \<and> la_fingerprint l = fp) las" for las
    by (induction las) auto
  with m show ?thesis by (simp add: get_last_alert_by_fingerprint_def put_last_alert_def)
qed

lemma keeps_rows_put:
  assumes "\<And>la. get_last_alert_by_fingerprint t fp db = Some la \<Longrightarrow> la_timestamp la \<le> la_timestamp la'" "la_key la' = (t, fp)"
  shows "keeps_rows db (db\<lparr>adb_last_alerts := put_last_alert la' (adb_last_alerts db)\<rparr>)"
proof -
  let ?db = "db\<lparr>adb_last_alerts := put_last_alert la' (adb_last_alerts db)\<rparr>"
  have "\<exists>l'. get_last_alert_by_fingerprint t' fp' ?db = Some l' \<and> la_timestamp l \<le> la_timestamp l'"
    if "get_last_alert_by_fingerprint t' fp' db = Some l" for t' fp' l
  proof (cases "(t', fp') = (t, fp)")
    case True
    then have "get_last_alert_by_fingerprint t' fp' ?db = Some la'"
      using assms(2) get_after_put [of la' t fp] by (simp add: la_key_def)
    with True assms(1) that show ?thesis by auto
  next
    case False
    then have "la_key la' \<noteq> (t', fp')" using assms(2) by auto
    from get_after_put_other [OF this] that show ?thesis by auto
  qed
  then show ?thesis by (simp add: keeps_rows_def newer_last_def)
qed

lemma keeps_rows_cong: "adb_alerts db' = adb_alerts db \<Longrightarrow> adb_last_alerts db' = adb_last_alerts db \<Longrightarrow> keeps_rows db db'"
  by (simp add: keeps_rows_def newer_last_cong)

lemma keeps_rows_audit [simp]: "keeps_rows db (add_audit t f u a d db)"
  by (rule keeps_rows_cong) simp_all

lemma enrich_alert_keeps_rows:
  "keeps_rows db (snd (enrich_alert store t fp es action callee d force audit strict db))"
proof (cases "normalize_alert_enrichments es strict")
  case (Inr translated)
  show ?thesis
  proof (cases "get_last_alert_by_fingerprint t fp db")
    case (Some la)
    show ?thesis
    proof (cases "write_columns store (note_guard force translated) la")
      case (Inr la')
      then have "la_key la' = la_key la" "la_timestamp la' = la_timestamp la"
        by (auto simp: write_columns_def rbind_Inr_iff la_key_def)
      with get_last_alert_Some [OF Some] have k: "la_key la' = (t, fp)" "la_timestamp la' = la_timestamp la"
        by (auto simp: la_key_def)
      have "keeps_rows db (db\<lparr>adb_last_alerts := put_last_alert la' (adb_last_alerts db)\<rparr>)"
        using Some k by (intro keeps_rows_put) auto
      with \<open>normalize_alert_enrichments es strict = Inr translated\<close> Some Inr show ?thesis
        by (auto simp: enrich_alert_def Let_def intro: keeps_rows_trans)
    qed (use \<open>normalize_alert_enrichments es strict = Inr translated\<close> Some in \<open>simp add: enrich_alert_def Let_def\<close>)
  qed (use Inr in \<open>simp add: enrich_alert_def Let_def\<close>)
qed (simp add: enrich_alert_def)

lemma rule_enrich_keeps_rows:
  assumes "rule_enrich env fp es action d w = (x, w')"
  shows "keeps_rows (ew_db w) (ew_db w')"
proof -
  have "keeps_rows db (snd (bl_enrich_entity env fp es action callee d False False False True ''alert'' False db))" for callee db
    using enrich_alert_keeps_rows [of db "ee_store env" "ee_tenant_id env"]
    by (auto simp: bl_enrich_entity_def enrich_entity_def split: sum.splits option.splits prod.splits)
      (metis snd_conv)+
  with rule_enrich_db [OF assms] show ?thesis by simp
qed

lemma skip_rule_db [simp]: "ew_db (skip_rule env i rule_id msg w) = ew_db w"
  by (simp add: skip_rule_def)

lemma extract_one_keeps_rows:
  assumes "extract_one env fp i r a event w = (x, event', w')"
  shows "keeps_rows (ew_db w) (ew_db w')"
proof (cases "ee_search env (er_regex r) a")
  case (Inr found)
  show ?thesis
  proof (cases found)
    case (Some g)
    obtain y w1 where y: "rule_enrich env fp (dpop ''source'' g) ''alert enriched by extraction rule''
        (''Alert enriched with extraction from rule `'' @ er_name r @ ''`'') w = (y, w1)" by fastforce
    with Inr Some assms rule_enrich_keeps_rows [OF y] show ?thesis
      by (cases y) (auto simp: extract_one_def Let_def)
  qed (use Inr assms in \<open>auto simp: extract_one_def\<close>)
qed (use assms in \<open>auto simp: extract_one_def\<close>)

lemma extraction_step_keeps_rows:
  "extraction_rule_step env fp i r event w = (x, event', w') \<Longrightarrow> keeps_rows (ew_db w) (ew_db w')"
  by (auto simp: extraction_rule_step_def Let_def split: sum.splits if_splits bool.splits
      dest: extract_one_keeps_rows)

lemma extraction_loop_keeps_rows:
  "extraction_loop env fp i rules event w = (x, event', w') \<Longrightarrow> keeps_rows (ew_db w) (ew_db w')"
proof (induction rules arbitrary: event w)
  case (Cons r rules)
  obtain y e1 w1 where s: "extraction_rule_step env fp i r event w = (y, e1, w1)" by (metis prod_cases3)
  from Cons s extraction_step_keeps_rows [OF s] show ?case by (cases y) (auto intro: keeps_rows_trans)
qed simp

lemma run_extraction_keeps_rows:
  assumes "run_extraction_rules env table given pre is_dto event w = (x, held, w')"
  shows "keeps_rows (ew_db w) (ew_db w')"
proof -
  define w0 where "w0 = add_enrichment_log ''Running extraction rules for incoming event'' w"
  define fp where "fp = opt_str (dict_get event ''fingerprint'' PNone)"
  define i where "i = opt_str (dict_get event (if is_dto then ''id'' else ''event_id'') PNone)"
  define rules where "rules = (if given \<noteq> [] then given else extraction_rules (ee_tenant_id env) pre table)"
  obtain y e1 w1 where l: "extraction_loop env fp i rules event w0 = (y, e1, w1)" by (metis prod_cases3)
  have "ew_db w0 = ew_db w" by (simp add: w0_def)
  then show ?thesis
    using assms extraction_loop_keeps_rows [OF l] l unfolding run_extraction_rules_def Let_def
    by (cases y) (auto simp: w0_def [symmetric] fp_def [symmetric] i_def [symmetric] rules_def [symmetric] split: if_splits)
qed

lemma rule_enrichments_db:
  "rule_enrichments env alert r w = (x, w') \<Longrightarrow> ew_db w' = ew_db w"
proof -
  have any: "any_matcher env alert row ms w = (y, w1) \<Longrightarrow> ew_db w1 = ew_db w" for row ms y w w1
    by (induction ms arbitrary: w) (auto simp: check_matcher_def split: sum.splits bool.splits if_splits)
  have first: "first_row env alert r rows w = (y, w1) \<Longrightarrow> ew_db w1 = ew_db w" for rows y w w1
    by (induction rows arbitrary: w) (auto split: prod.splits sum.splits bool.splits dest: any)
  show "rule_enrichments env alert r w = (x, w') \<Longrightarrow> ew_db w' = ew_db w"
    by (auto simp: rule_enrichments_def multi_level_enrichments_def Let_def split: if_splits sum.splits option.splits list.splits
        dest: first)
qed

lemma enrich_matched_keeps_rows:
  assumes "enrich_matched env alert r w = (x, alert', w')"
  shows "keeps_rows (ew_db w) (ew_db w')"
proof -
  obtain y w1 where y: "rule_enrichments env alert r w = (y, w1)" by fastforce
  note db = rule_enrichments_db [OF y]
  show ?thesis
  proof (cases "\<exists>k ks. y = Inr (k # ks)")
    case True
    then obtain k ks where ks: "y = Inr (k # ks)" by blast
    define a2 where "a2 = set_attributes (k # ks) alert"
    obtain z w2 where z: "rule_enrich env (opt_str (dict_get a2 ''fingerprint'' PNone)) (k # ks)
        ''alert enriched by mapping rule'' (''Alert enriched with mapping from rule `'' @ mr_name r @ ''`'') w1 = (z, w2)" by fastforce
    from assms y ks z rule_enrich_keeps_rows [OF z] db show ?thesis
      by (cases z) (auto simp: enrich_matched_def Let_def a2_def)
  next
    case False
    with assms y db show ?thesis
      by (auto simp: enrich_matched_def split: sum.splits list.splits)
  qed
qed

lemma check_match_keeps_rows:
  "check_if_match_and_enrich env alert r w = (x, alert', w') \<Longrightarrow> keeps_rows (ew_db w) (ew_db w')"
  by (auto simp: check_if_match_and_enrich_def Let_def split: option.splits dest: enrich_matched_keeps_rows)

lemma mapping_keeps_rows:
  "run_mapping_rules env table alert w = (x, alert', w') \<Longrightarrow> keeps_rows (ew_db w) (ew_db w')"
proof -
  have loop: "mapping_loop env rules alert w = (x, alert', w') \<Longrightarrow> keeps_rows (ew_db w) (ew_db w')" for rules alert w
  proof (induction rules arbitrary: alert w)
    case (Cons r rules)
    obtain y a1 w1 where s: "check_if_match_and_enrich env alert r w = (y, a1, w1)" by (metis prod_cases3)
    from Cons s check_match_keeps_rows [OF s] show ?case by (cases y) (auto intro: keeps_rows_trans)
  qed simp
  show "run_mapping_rules env table alert w = (x, alert', w') \<Longrightarrow> keeps_rows (ew_db w) (ew_db w')"
    by (auto simp: run_mapping_rules_def Let_def split: if_splits dest!: loop)
qed

section \<open>The row of one event\<close>

lemma set_last_alert_done:
  "set_last_alert faults store t a n tracking db = (Inr (), db') \<Longrightarrow> set_last_alert_once store t a tracking db = Inr db'"
proof -
  have "set_last_alert_attempts n k faults tr db = (Inr (), db') \<Longrightarrow> tr db = Inr db'" for k tr
    by (induction n arbitrary: k) (auto split: option.splits sum.splits if_splits)
  then show "set_last_alert faults store t a n tracking db = (Inr (), db') \<Longrightarrow> ?thesis"
    by (simp add: set_last_alert_def)
qed

definition covered :: "string \<Rightarrow> alert_db \<Rightarrow> alert \<Rightarrow> bool" where
  "covered t db a \<longleftrightarrow>
     (case get_last_alert_by_fingerprint t (al_fingerprint a) db of
        Some la \<Rightarrow> al_timestamp a \<le> la_timestamp la | None \<Rightarrow> False)"

lemma covered_mono: "covered t db a \<Longrightarrow> newer_last db db' \<Longrightarrow> covered t db' a"
  unfolding covered_def by (auto split: option.splits dest: newer_lastD)

lemma set_last_alert_once_covers:
  assumes "set_last_alert_once store t a tracking db = Inr db'"
  shows "keeps_rows db db' \<and> covered t db' a"
proof (cases "get_last_alert_by_fingerprint t (al_fingerprint a) db")
  case None
  with assms obtain la where la: "db' = db\<lparr>adb_last_alerts := put_last_alert la (adb_last_alerts db)\<rparr>"
      "la_tenant_id la = t" "la_fingerprint la = al_fingerprint a" "la_timestamp la = al_timestamp a"
    by (auto simp: set_last_alert_once_def rbind_Inr_iff)
  have "keeps_rows db db'"
    unfolding la(1) by (rule keeps_rows_put [of t "al_fingerprint a"]) (use None la in \<open>auto simp: la_key_def\<close>)
  then show ?thesis using get_after_put [OF la(2,3)] la by (simp add: covered_def)
next
  case (Some la)
  show ?thesis
  proof (cases "la_timestamp la < al_timestamp a")
    case True
    with Some assms obtain la' where la: "db' = db\<lparr>adb_last_alerts := put_last_alert la' (adb_last_alerts db)\<rparr>"
        "la_tenant_id la' = t" "la_fingerprint la' = al_fingerprint a" "la_timestamp la' = al_timestamp a"
      using get_last_alert_Some [OF Some] by (auto simp: set_last_alert_once_def rbind_Inr_iff)
    have "keeps_rows db db'"
      unfolding la(1) by (rule keeps_rows_put [of t "al_fingerprint a"]) (use Some True la in \<open>auto simp: la_key_def\<close>)
    then show ?thesis using get_after_put [OF la(2,3)] la by (simp add: covered_def)
  qed (use Some assms in \<open>auto simp: set_last_alert_once_def covered_def\<close>)
qed

lemma store_occurrence_ok:
  assumes "store_occurrence env e row db = (Inr (), db')"
  shows "adb_alerts db' = adb_alerts db @ [row] \<and> newer_last db db' \<and> covered (sv_tenant_id env) db' row"
proof -
  let ?db = "audit_occurrence env e (db\<lparr>adb_alerts := adb_alerts db @ [row]\<rparr>)"
  have "adb_alerts ?db = adb_alerts db @ [row]" "newer_last db ?db"
    by (simp_all add: audit_occurrence_def newer_last_cong)
  moreover have "keeps_rows ?db db' \<and> covered (sv_tenant_id env) db' row"
    using assms unfolding store_occurrence_def by (rule set_last_alert_once_covers [OF set_last_alert_done])
  ultimately show ?thesis unfolding keeps_rows_def by (auto intro: newer_last_trans)
qed

lemma alerts_of_set [simp]:
  "alerts_of (set_alerts db w) = db" "alerts_of (set_enrich_world ew w) = ew_db ew" "ew_db (enrich_world_of w) = alerts_of w"
  by (simp_all add: set_alerts_def set_enrich_world_def enrich_world_of_def)

lemma extract_event_keeps_rows:
  assumes "extract_event env e w = (e', w')"
  shows "keeps_rows (alerts_of w) (alerts_of w')"
proof -
  obtain x held ew where r: "run_extraction_rules (sv_enrich env) (sv_extraction env) [] False True e (enrich_world_of w)
      = (x, held, ew)" by (metis prod_cases3)
  from run_extraction_keeps_rows [OF r] r assms show ?thesis by (cases x) (auto simp: extract_event_def)
qed

lemma map_event_keeps_rows:
  assumes "map_event env e w = (e', w')"
  shows "keeps_rows (alerts_of w) (alerts_of w')"
proof -
  obtain x a ew where r: "run_mapping_rules (sv_enrich env) (sv_mapping env) e (enrich_world_of w) = (x, a, ew)"
    by (metis prod_cases3)
  from mapping_keeps_rows [OF r] r assms show ?thesis by (auto simp: map_event_def)
qed

section \<open>Fingerprints of the rows\<close>

definition strip_nul :: "string \<Rightarrow> string" where
  "strip_nul s = filter (\<lambda>c. c \<noteq> CHR 0x00) s"

lemma dget_sanitize: "dget (sanitize_items d) k = map_option sanitize_value (dget d k)"
  by (induction d) (auto simp: dget_def)

lemma event_arg_own: "k \<in> set own_fields \<Longrightarrow> dget (event_arg kv args) k = dget args k"
  by (cases kv) (auto simp: event_arg_def)

lemma event_args_own: "k \<in> set own_fields \<Longrightarrow> dget (fold event_arg e args) k = dget args k"
  by (induction e arbitrary: args) (simp_all add: event_arg_own)

lemma inherited_not_own:
  assumes "k \<in> {''tenant_id'', ''fingerprint''}"
  shows "k \<notin> fst ` set (inherited_args t e db)"
  using assms unfolding inherited_args_def by (auto split: option.splits)

lemma inherited_own:
  assumes "k \<in> {''tenant_id'', ''fingerprint''}"
  shows "dget (dupdate args (inherited_args t e db)) k = dget args k"
proof -
  have "map_of (rev (inherited_args t e db)) k = None"
    using inherited_not_own [OF assms] by (simp add: map_of_eq_None_iff)
  then show ?thesis by (simp add: dget_dupdate)
qed

lemma alert_args_fingerprint:
  assumes "alert_args env pt pid e db = Inr args"
  shows "dict_get args ''fingerprint'' PNone = PStr (strip_nul (alert_fingerprint e))"
proof -
  obtain v where v: "args = sanitize_alert (fold event_arg e
      (let base = [(''tenant_id'', PStr (sv_tenant_id env)), (''provider_type'', v), (''provider_id'', opt_pstr pid),
             (''fingerprint'', PStr (alert_fingerprint e)), (''alert_hash'', dict_get e ''alert_hash'' PNone)]
       in if is_keep_event pt e then dupdate base (inherited_args (sv_tenant_id env) e db) else base))"
    using assms by (auto simp: alert_args_def rbind_Inr_iff Let_def)
  have own: "''fingerprint'' \<in> set own_fields" by (simp add: own_fields_def)
  have "dget args ''fingerprint'' = Some (PStr (strip_nul (alert_fingerprint e)))"
    unfolding v sanitize_alert_def Let_def
    by (simp add: dget_sanitize event_args_own [OF own] inherited_own strip_nul_def) (simp add: dget_def)
  then show ?thesis by (simp add: dict_get_def)
qed

lemma alert_fingerprint_dset: "k \<noteq> ''fingerprint'' \<Longrightarrow> alert_fingerprint (dset k v e) = alert_fingerprint e"
  by (simp add: alert_fingerprint_def dict_get_def)

lemma alert_fingerprint_start: "alert_fingerprint (start_event env started db e) = alert_fingerprint e"
proof -
  have "alert_fingerprint (put_dto d e) = alert_fingerprint e" for d e
    by (simp add: put_dto_def alert_fingerprint_dset)
  then show ?thesis by (simp add: start_event_def Let_def alert_fingerprint_dset split: option.split)
qed

lemma alert_fingerprint_valid: "alert_fingerprint (valid_received env e) = alert_fingerprint e"
  by (simp add: valid_received_def alert_fingerprint_dset)

lemma extract_event_none: "sv_extraction env = [] \<Longrightarrow> fst (extract_event env e w) = e"
  by (simp add: extract_event_def run_extraction_rules_def extraction_rules_def Let_def)

section \<open>One event and the batch\<close>

definition saved_one :: "'p save_env \<Rightarrow> pydict \<Rightarrow> alert_db \<Rightarrow> alert \<Rightarrow> alert_db \<Rightarrow> bool" where
  "saved_one env e db row db' \<longleftrightarrow>
     adb_alerts db' = adb_alerts db @ [row] \<and> newer_last db db' \<and> covered (sv_tenant_id env) db' row
     \<and> al_id row = sv_row_id env (length (adb_alerts db))
     \<and> (sv_extraction env = [] \<longrightarrow> al_fingerprint row = strip_nul (alert_fingerprint e))"

lemma save_one_saved:
  assumes "save_one env pt pid forced started e w = (Inr (out, row), w')"
  shows "saved_one env e (alerts_of w) row (alerts_of w')"
proof -
  obtain e1 w1 where x: "extract_event env (start_event env started (alerts_of w) e) w = (e1, w1)" by fastforce
  define e2 where "e2 = valid_received env e1"
  obtain args where a: "alert_args env pt pid e2 (alerts_of w1) = Inr args"
    using assms x by (cases "alert_args env pt pid e2 (alerts_of w1)") (simp_all add: save_one_def e2_def)
  define r where "r = row_of_args env forced e2 (sv_row_id env (length (adb_alerts (alerts_of w1)))) args"
  define e3 where "e3 = dset ''id'' (PStr (al_id r)) e2"
  obtain z db where s: "store_occurrence env e3 r (alerts_of w1) = (z, db)" by fastforce
  obtain e4 w2 where m: "map_event env e3 (set_alerts db w1) = (e4, w2)" by fastforce
  note run = assms [unfolded save_one_def x prod.case Let_def e2_def [symmetric] a sum.case
      r_def [symmetric] e3_def [symmetric] s m]
  from run have z: "z = Inr ()" and r: "r = row" and w2: "w2 = w'" by (cases z; simp)+
  have k1: "keeps_rows (alerts_of w) (alerts_of w1)" by (rule extract_event_keeps_rows [OF x])
  have k2: "keeps_rows db (alerts_of w')" using map_event_keeps_rows [OF m] w2 by simp
  from store_occurrence_ok [OF s [unfolded z]] k1 k2 r
  have "adb_alerts (alerts_of w') = adb_alerts (alerts_of w) @ [row]" "newer_last (alerts_of w) (alerts_of w')"
      "covered (sv_tenant_id env) (alerts_of w') row"
    unfolding keeps_rows_def by (auto intro: newer_last_trans covered_mono)
  moreover have "al_id row = sv_row_id env (length (adb_alerts (alerts_of w)))"
    using k1 r by (auto simp: r_def row_of_args_def keeps_rows_def)
  moreover have "al_fingerprint row = strip_nul (alert_fingerprint e)" if "sv_extraction env = []"
  proof -
    have "e1 = start_event env started (alerts_of w) e"
      using extract_event_none [OF that, of "start_event env started (alerts_of w) e" w] x by simp
    then have "alert_fingerprint e2 = alert_fingerprint e"
      by (simp add: e2_def alert_fingerprint_valid alert_fingerprint_start)
    with alert_args_fingerprint [OF a] r show ?thesis by (auto simp: r_def row_of_args_def text_of_def)
  qed
  ultimately show ?thesis by (simp add: saved_one_def)
qed

definition saved_all :: "'p save_env \<Rightarrow> pydict list \<Rightarrow> alert_db \<Rightarrow> alert list \<Rightarrow> alert_db \<Rightarrow> bool" where
  "saved_all env es db rows db' \<longleftrightarrow>
     adb_alerts db' = adb_alerts db @ rows \<and> newer_last db db' \<and> list_all (covered (sv_tenant_id env) db') rows
     \<and> map al_id rows = map (sv_row_id env) [length (adb_alerts db)..<length (adb_alerts db) + length es]
     \<and> (sv_extraction env = [] \<longrightarrow> map al_fingerprint rows = map (\<lambda>e. strip_nul (alert_fingerprint e)) es)"

lemma saved_all_Cons:
  assumes "saved_one env e db row db1" "saved_all env es db1 rows db'"
  shows "saved_all env (e # es) db (row # rows) db'"
proof -
  have "[length (adb_alerts db)..<length (adb_alerts db) + length (e # es)]
      = length (adb_alerts db) # [Suc (length (adb_alerts db))..<Suc (length (adb_alerts db)) + length es]"
    by (simp add: upt_conv_Cons del: upt_Suc)
  then show ?thesis
    using assms unfolding saved_one_def saved_all_def by (auto intro: newer_last_trans covered_mono)
qed

lemma save_loop_saved:
  "save_loop env pt pid forced started es w = (Inr saved, w') \<Longrightarrow>
     saved_all env es (alerts_of w) (map snd saved) (alerts_of w') \<and> length saved = length es"
proof (induction es arbitrary: w saved)
  case Nil
  then show ?case by (simp add: saved_all_def)
next
  case (Cons e es)
  obtain x w1 where o: "save_one env pt pid forced started e w = (x, w1)" by fastforce
  obtain y w2 where l: "save_loop env pt pid forced started es w1 = (y, w2)" by fastforce
  from Cons.prems o l obtain s ss where r: "x = Inr s" "y = Inr ss" "saved = s # ss" "w2 = w'"
    by (cases x; cases y) auto
  obtain out row where s: "s = (out, row)" by fastforce
  from saved_all_Cons [OF save_one_saved [OF o [unfolded r(1) s]]] Cons.IH [OF l [unfolded r(2,4)]] r s
  show ?case by simp
qed

lemma resolve_each_store: "idb_store (snd (resolve_each env is db)) = idb_store db"
proof (induction "is" arbitrary: db)
  case (Cons i js)
  show ?case
  proof (cases "get_incident_by_id (in_tenant_id i) (in_id i) db")
    case (Some j)
    obtain x db1 where r: "resolve_incident_if_require env j db = (x, db1)" by fastforce
    then have "idb_store db1 = idb_store db"
      by (auto simp: resolve_incident_if_require_def split: sum.splits bool.splits)
    with Some r Cons show ?thesis by (cases x) simp_all
  qed (simp add: Cons)
qed simp

lemma resolve_saved_store [simp]: "idb_store (resolve_saved env rows db) = idb_store db"
  by (simp add: resolve_saved_def resolve_each_store)

lemma save_duplicates_rows: "keeps_rows (alerts_of w) (alerts_of (save_duplicates env es w))"
proof -
  have "keeps_rows db (fold (save_duplicate env) es db)" for db
  proof (induction es arbitrary: db)
    case (Cons e es)
    have "keeps_rows db (save_duplicate env e db)" by (simp add: save_duplicate_def touch_last_alert_def)
    from keeps_rows_trans [OF this Cons] show ?case by simp
  qed simp
  then show ?thesis by (simp add: save_duplicates_def)
qed

lemma store_raw_alerts [simp]: "alerts_of (store_raw env pt raw w) = alerts_of w"
  by (simp add: store_raw_def)

lemma save_to_db_saved:
  assumes "save_to_db env pt pid forced raw events duplicates w = (Inr out, w')"
  shows "\<exists>rows. saved_all env events (alerts_of w) rows (alerts_of w') \<and> length rows = length out \<and> length out = length events"
proof -
  define w0 where "w0 = save_duplicates env duplicates (store_raw env pt raw w)"
  define started where "started = get_started_at_for_alerts (sv_tenant_id env) (map alert_fingerprint events) (alerts_of w0)"
  obtain x w1 where l: "save_loop env pt pid forced started events w0 = (x, w1)" by fastforce
  note run = assms [unfolded save_to_db_def Let_def w0_def [symmetric] started_def [symmetric] l prod.case]
  then obtain saved where saved: "x = Inr saved" "out = map fst saved"
      "w' = w1\<lparr>sw_inc := resolve_saved env (map snd saved) (sw_inc w1)\<rparr>"
    by (cases x) auto
  have "keeps_rows (alerts_of w) (alerts_of w0)"
    using save_duplicates_rows [of "store_raw env pt raw w" env duplicates] by (simp add: w0_def)
  with save_loop_saved [OF l [unfolded saved(1)]] saved have
    "saved_all env events (alerts_of w) (map snd saved) (alerts_of w')" "length saved = length events"
    unfolding saved_all_def keeps_rows_def by (auto intro: newer_last_trans)
  with saved(2) show ?thesis by (intro exI [of _ "map snd saved"]) simp
qed

section \<open>Demonstration\<close>

definition demo_engine_env :: "string engine_env" where
  "demo_engine_env = \<lparr>re_tenant_id = ''t'', re_cel = demo_cel, re_expand = Inr, re_dtos = (\<lambda>_ _. []), re_alert_dto = (\<lambda>_. Inr []),
     re_edge_resolved = (\<lambda>_ _ _. Inr False), re_isoparse = (\<lambda>_. Some 1), re_uuid = (\<lambda>_. ''i''), re_utcnow = 1\<rparr>"

definition demo_save_env :: "string save_env" where
  "demo_save_env = \<lparr>sv_tenant_id = ''t'', sv_store_raw = True, sv_audit = True, sv_calculate = True, sv_isoparse = (\<lambda>_. Some 1),
     sv_now = 9, sv_now_iso = ''now'', sv_faults = (\<lambda>_. None),
     sv_row_id = (\<lambda>n. if n = 0 then ''a0'' else ''a1''),
     sv_enrich = demo_enrich_env, sv_extraction = [], sv_mapping = [], sv_engine = demo_engine_env\<rparr>"

definition demo_incoming :: "string \<Rightarrow> string \<Rightarrow> pydict" where
  "demo_incoming fp status = [(''id'', PStr ''x''), (''name'', PStr ''disk''), (''status'', PStr status), (''fingerprint'', PStr fp),
     (''source'', PList [PStr ''grafana'']), (''last_received'', PStr ''now'')]"

definition demo_save_world :: save_world where
  "demo_save_world = \<lparr>sw_inc = empty_inc_db [] [], sw_events = [], sw_logs = [], sw_pending = [], sw_raw = []\<rparr>"

text \<open>C29: when a batch is saved, every event has become exactly one new row, in the order of the events and
  under the ids drawn, the rows there were are kept, every new row's fingerprint has a last alert of the tenant that
  is not older than the row, no last alert has got older, and without extraction rules the rows bear the events'
  fingerprints without NUL characters.\<close>

theorem batch_saved_row_by_row:
  assumes "save_to_db env provider_type provider_id forced raw events duplicates w = (Inr out, w')"
  shows "\<exists>rows. adb_alerts (alerts_of w') = adb_alerts (alerts_of w) @ rows
     \<and> length rows = length events \<and> length out = length events
     \<and> map al_id rows = map (sv_row_id env)
          [length (adb_alerts (alerts_of w))..<length (adb_alerts (alerts_of w)) + length events]
     \<and> list_all (covered (sv_tenant_id env) (alerts_of w')) rows \<and> newer_last (alerts_of w) (alerts_of w')
     \<and> (sv_extraction env = [] \<longrightarrow> map al_fingerprint rows = map (\<lambda>e. strip_nul (alert_fingerprint e)) events)"
  using save_to_db_saved [OF assms] unfolding saved_all_def by auto

definition demo_batch :: "pydict list result \<times> save_world" where
  "demo_batch = save_to_db demo_save_env None None None [PNone] [demo_incoming ''f'' ''firing'', demo_incoming ''g'' ''resolved'']
     [demo_incoming ''f'' ''firing''] demo_save_world"

theorem batch_saved_row_by_row_witness:
  "\<exists>rows. adb_alerts (alerts_of (snd demo_batch)) = adb_alerts (alerts_of demo_save_world) @ rows \<and> map al_id rows = [''a0'', ''a1'']
     \<and> map al_fingerprint rows = [''f'', ''g'']"
proof -
  have ok: "\<not> isl (fst demo_batch)" by code_simp
  obtain r w' where d: "demo_batch = (r, w')" by fastforce
  have "\<not> isl r" using ok unfolding d by simp
  then obtain out where "r = Inr out" by (cases r) auto
  with d have "demo_batch = (Inr out, w')" by simp
  note run = batch_saved_row_by_row [OF this [unfolded demo_batch_def]]
  have "adb_alerts (alerts_of demo_save_world) = []" "sv_extraction demo_save_env = []"
      "map (\<lambda>e. strip_nul (alert_fingerprint e)) [demo_incoming ''f'' ''firing'', demo_incoming ''g'' ''resolved''] = [''f'', ''g'']"
      "sv_row_id demo_save_env 0 = ''a0''" "sv_row_id demo_save_env (Suc 0) = ''a1''"
    by code_simp+
  with run show ?thesis unfolding d by (auto simp del: append.simps)
qed

end
