(* ===== verification/Frames.thy ===== *)
theory Frames
  imports SaveEvents
begin

text \<open>
  What a run of the rules engine and the save of a batch keep, however they end: the engine leaves the alert
  tables alone and only adds incidents, links and messages; the save only appends rows, and last alerts only get
  newer.
\<close>

definition ext_engine :: "engine \<Rightarrow> engine \<Rightarrow> bool" where
  "ext_engine st st' \<longleftrightarrow> grows (en_db st) (en_db st') \<and> idb_store (en_db st') = idb_store (en_db st)
     \<and> (\<exists>m. en_sent st' = en_sent st @ m)"

lemma ext_engine_refl [simp]: "ext_engine st st"
  by (simp add: ext_engine_def)

lemma ext_engine_trans: "ext_engine a b \<Longrightarrow> ext_engine b c \<Longrightarrow> ext_engine a c"
  unfolding ext_engine_def using grows_trans by auto

lemma ext_engine_matched [simp]: "ext_engine st (st\<lparr>en_matched := m\<rparr>)"
  by (simp add: ext_engine_def)

lemma ext_engine_db: "grows (en_db st) db \<Longrightarrow> idb_store db = idb_store (en_db st) \<Longrightarrow> ext_engine st (st\<lparr>en_db := db\<rparr>)"
  by (simp add: ext_engine_def)

lemma store_number [simp]: "idb_store (snd (set_running_number i db)) = idb_store db"
  by (simp add: set_running_number_def Let_def)

lemma store_add: "idb_store (snd (add_alerts_to_incident t i fps ai oc ex db)) = idb_store db"
  by (simp add: add_alerts_to_incident_def Let_def split: sum.split prod.split)

lemma store_assign: "idb_store (snd (assign_event env event i db)) = idb_store db"
  using store_add [of "re_tenant_id env" i "[event_fingerprint event]" False False False "flush_name i db"]
  by (auto simp: assign_event_def assign_alert_to_incident_def flush_name_def split: sum.split prod.split)

lemma store_resolve: "idb_store (snd (resolve_incident_if_require env i db)) = idb_store db"
  by (simp add: resolve_incident_if_require_def split: sum.split bool.split)

lemma store_create: "idb_store (snd (create_incident_for_grouping_rule t r fp name past uuid now db)) = idb_store db"
  unfolding create_incident_for_grouping_rule_def Let_def
  by (auto split: prod.split sum.split) (metis store_number snd_conv)+

lemma store_get_or_create: "idb_store (snd (get_or_create_incident env r fp event allowed db)) = idb_store db"
  unfolding get_or_create_incident_def
  by (auto simp: case_prod_beta store_create split: sum.split option.split bool.split)

lemma process_incident_ext: "ext_engine st (snd (process_incident env r event matched c alerts i st))"
proof -
  obtain x db1 where a: "assign_event env event i (en_db st) = (x, db1)" by fastforce
  have e1: "grows (en_db st) db1" "idb_store db1 = idb_store (en_db st)"
    using grows_assign [of "en_db st" env event i] store_assign [of env event i "en_db st"] a by simp_all
  have step: "ext_engine st (st\<lparr>en_db := db2\<rparr>)"
    if "resolve_incident_if_require env j (flush_object j db1) = (y, db2)" for j y db2
  proof (rule ext_engine_db)
    have "grows db1 db2"
      using grows_trans [OF grows_flush [of db1 j] grows_resolve [of "flush_object j db1" env j]] that by simp
    with e1(1) show "grows (en_db st) db2" by (rule grows_trans)
    show "idb_store db2 = idb_store (en_db st)"
      using store_resolve [of env j "flush_object j db1"] that e1(2) by (simp add: flush_object_def)
  qed
  have announced: "ext_engine st (announce c i (st\<lparr>en_db := db\<rparr>))" if "ext_engine st (st\<lparr>en_db := db\<rparr>)" for c i db
    using that by (auto simp: ext_engine_def announce_def send_def Let_def)
  show ?thesis
    using ext_engine_db [OF e1] step announced
    by (auto simp: process_incident_def a split: sum.split prod.split)
qed

lemma process_fingerprint_ext: "ext_engine st (snd (process_fingerprint env r event matched fp st))"
proof (cases "join_values fp")
  case (Inr key)
  obtain x db1 where g: "get_or_create_incident env r key event (creation_allowed_for env event (en_db st)) (en_db st) = (x, db1)"
    by fastforce
  have e1: "ext_engine st (st\<lparr>en_db := db1\<rparr>)"
    using grows_get_or_create [of "en_db st" env r key event "creation_allowed_for env event (en_db st)"]
      store_get_or_create [of env r key event "creation_allowed_for env event (en_db st)" "en_db st"] g
    by (intro ext_engine_db) simp_all
  with Inr g ext_engine_trans [OF e1 process_incident_ext] show ?thesis
    by (auto simp: process_fingerprint_def split: sum.split prod.split option.split)
qed (simp add: process_fingerprint_def)

lemma process_matched_ext: "ext_engine st (snd (process_matched env r event matched st))"
proof -
  have "ext_engine st (snd (process_fingerprints env r event matched fps st))" for fps st
  proof (induction fps arbitrary: st)
    case (Cons fp fps)
    obtain x st1 where p: "process_fingerprint env r event matched fp st = (x, st1)" by fastforce
    with process_fingerprint_ext [of st env r event matched fp] have "ext_engine st st1" by simp
    with p ext_engine_trans [OF this Cons.IH] show ?case by (cases x) simp_all
  qed simp
  then show ?thesis by (auto simp: process_matched_def split: sum.split)
qed

lemma process_events_ext: "ext_engine st (snd (process_events env ps st))"
proof (induction ps arbitrary: st)
  case (Cons p ps)
  obtain r event where p: "p = (r, event)" by fastforce
  obtain x st1 where s: "process_event env r event st = (x, st1)" by fastforce
  have "ext_engine st (snd (process_event env r event st))"
    using ext_engine_trans [OF ext_engine_matched process_matched_ext]
    by (auto simp: process_event_def process_matched_ext split: sum.split option.split)
  with s have "ext_engine st st1" by simp
  with p s ext_engine_trans [OF this Cons.IH] show ?case by (cases x) simp_all
qed simp

lemma run_rules_ext:
  assumes "run_rules env rules events (db, sent) = (x, db', sent')"
  shows "grows db db' \<and> idb_store db' = idb_store db \<and> (\<exists>m. sent' = sent @ m)"
  using assms process_events_ext [of "\<lparr>en_db = db, en_sent = sent, en_matched = None, en_dtos = []\<rparr>" env]
  by (auto simp: run_rules_def run_cel_rules_def ext_engine_def split: prod.splits) (metis snd_conv engine.select_convs)+

section \<open>The save of a batch\<close>

definition ext_save :: "'a save_world_scheme \<Rightarrow> 'a save_world_scheme \<Rightarrow> bool" where
  "ext_save w w' \<longleftrightarrow> (\<exists>rows. adb_alerts (alerts_of w') = adb_alerts (alerts_of w) @ rows)
     \<and> newer_last (alerts_of w) (alerts_of w') \<and> grows (sw_inc w) (sw_inc w')
     \<and> (\<exists>r. sw_raw w' = sw_raw w @ r) \<and> save_world.more w' = save_world.more w"

lemma ext_save_refl [simp]: "ext_save w w"
  by (simp add: ext_save_def)

lemma ext_save_trans: "ext_save a b \<Longrightarrow> ext_save b c \<Longrightarrow> ext_save a c"
  unfolding ext_save_def using newer_last_trans grows_trans by (metis (no_types, lifting) append.assoc)

lemma grows_store: "grows db (db\<lparr>idb_store := a\<rparr>)"
proof -
  have "linked t iid (db\<lparr>idb_store := a\<rparr>) = linked t iid db" for t iid
    by (simp add: linked_def active_links_def)
  then show ?thesis unfolding grows_def by (auto intro: row_grows_refl)
qed

lemma ext_save_alerts:
  "adb_alerts db = adb_alerts (alerts_of w) @ rows \<Longrightarrow> newer_last (alerts_of w) db \<Longrightarrow> ext_save w (set_alerts db w)"
  by (simp add: ext_save_def set_alerts_def grows_store)

lemma ext_save_enrich:
  "keeps_rows (alerts_of w) (ew_db ew) \<Longrightarrow> ext_save w (set_enrich_world ew w)"
  by (simp add: ext_save_def set_enrich_world_def set_alerts_def grows_store keeps_rows_def)

lemma ext_save_keeps: "keeps_rows (alerts_of w) db \<Longrightarrow> ext_save w (set_alerts db w)"
  by (rule ext_save_alerts [of _ _ "[]"]) (simp_all add: keeps_rows_def)

lemma extract_event_ext:
  assumes "extract_event env e w = (e', w')"
  shows "ext_save w w'"
proof -
  obtain x held ew where r: "run_extraction_rules (sv_enrich env) (sv_extraction env) [] False True e (enrich_world_of w)
      = (x, held, ew)" by (metis prod_cases3)
  from ext_save_enrich [of w ew] run_extraction_keeps_rows [OF r] r assms show ?thesis
    by (cases x) (auto simp: extract_event_def)
qed

lemma map_event_ext:
  assumes "map_event env e w = (e', w')"
  shows "ext_save w w'"
proof -
  obtain x a ew where r: "run_mapping_rules (sv_enrich env) (sv_mapping env) e (enrich_world_of w) = (x, a, ew)"
    by (metis prod_cases3)
  from ext_save_enrich [of w ew] mapping_keeps_rows [OF r] r assms show ?thesis by (auto simp: map_event_def)
qed

lemma store_occurrence_ext:
  assumes "store_occurrence env e row (alerts_of w) = (x, db)"
  shows "ext_save w (set_alerts db w)"
proof -
  let ?db = "audit_occurrence env e ((alerts_of w)\<lparr>adb_alerts := adb_alerts (alerts_of w) @ [row]\<rparr>)"
  have a: "adb_alerts ?db = adb_alerts (alerts_of w) @ [row]" "newer_last (alerts_of w) ?db"
    by (simp_all add: audit_occurrence_def newer_last_cong)
  have "db = ?db \<or> keeps_rows ?db db"
    using assms set_last_alert_attempts_cases [of 3 1 "sv_faults env" _ ?db] set_last_alert_once_covers
    unfolding store_occurrence_def set_last_alert_def by (metis snd_conv)
  then show ?thesis
    using a by (intro ext_save_alerts [of _ _ "[row]"]) (auto simp: keeps_rows_def intro: newer_last_trans)
qed

lemma save_one_ext: "ext_save w (snd (save_one env pt pid forced started e w))"
proof -
  obtain e1 w1 where x: "extract_event env (start_event env started (alerts_of w) e) w = (e1, w1)" by fastforce
  define e2 where "e2 = valid_received env e1"
  note w1 = extract_event_ext [OF x]
  show ?thesis
  proof (cases "alert_args env pt pid e2 (alerts_of w1)")
    case (Inl err)
    with w1 show ?thesis by (simp add: save_one_def x Let_def e2_def)
  next
    case (Inr args)
    define r where "r = row_of_args env forced e2 (sv_row_id env (length (adb_alerts (alerts_of w1)))) args"
    define e3 where "e3 = dset ''id'' (PStr (al_id r)) e2"
    obtain z db where s: "store_occurrence env e3 r (alerts_of w1) = (z, db)" by fastforce
    obtain e4 w2 where m: "map_event env e3 (set_alerts db w1) = (e4, w2)" by fastforce
    have w2: "ext_save w (set_alerts db w1)" by (rule ext_save_trans [OF w1 store_occurrence_ext [OF s]])
    have "snd (save_one env pt pid forced started e w) = (case z of Inl x \<Rightarrow> set_alerts db w1 | Inr _ \<Rightarrow> w2)"
      unfolding save_one_def x prod.case Let_def e2_def [symmetric] Inr sum.case r_def [symmetric] e3_def [symmetric] s m
      by (simp split: sum.split)
    with w2 ext_save_trans [OF w2 map_event_ext [OF m]] show ?thesis by (simp split: sum.split)
  qed
qed

lemma save_loop_ext: "ext_save w (snd (save_loop env pt pid forced started es w))"
proof (induction es arbitrary: w)
  case (Cons e es)
  obtain x w1 where o: "save_one env pt pid forced started e w = (x, w1)" by fastforce
  obtain y w2 where l: "save_loop env pt pid forced started es w1 = (y, w2)" by fastforce
  have w1: "ext_save w w1" using save_one_ext [of w env pt pid forced started e] o by simp
  have "ext_save w1 w2" using Cons.IH [of w1] l by simp
  with w1 ext_save_trans [OF w1 this] o l show ?case by (cases x; cases y) simp_all
qed simp

lemma resolve_saved_grows: "grows db (resolve_saved env rows db)"
proof -
  have "grows db (snd (resolve_each env is db))" for env :: "'a engine_env" and "is" db
  proof (induction "is" arbitrary: db)
    case (Cons i js)
    show ?case
    proof (cases "get_incident_by_id (in_tenant_id i) (in_id i) db")
      case (Some j)
      obtain x db1 where r: "resolve_incident_if_require env j db = (x, db1)" by fastforce
      then have g: "grows db db1" using grows_resolve [of db env j] by simp
      from Some r g grows_trans [OF g Cons.IH] Cons show ?thesis by (cases x) simp_all
    qed (simp add: Cons)
  qed simp
  then show ?thesis by (simp add: resolve_saved_def)
qed

lemma save_to_db_ext: "ext_save w (snd (save_to_db env pt pid forced raw events duplicates w))"
proof -
  define w0 where "w0 = save_duplicates env duplicates (store_raw env pt raw w)"
  define started where "started = get_started_at_for_alerts (sv_tenant_id env) (map alert_fingerprint events) (alerts_of w0)"
  obtain x w1 where l: "save_loop env pt pid forced started events w0 = (x, w1)" by fastforce
  have "ext_save w (store_raw env pt raw w)" by (auto simp: ext_save_def store_raw_def)
  moreover have "ext_save (store_raw env pt raw w) w0"
    using ext_save_keeps [OF save_duplicates_rows [of "store_raw env pt raw w" env duplicates]]
    unfolding w0_def save_duplicates_def by (cases "sv_audit env") simp_all
  moreover have "ext_save w0 w1" using save_loop_ext [of w0 env pt pid forced started events] l by simp
  ultimately have w1: "ext_save w w1" using ext_save_trans by blast
  have "ext_save w1 (w1\<lparr>sw_inc := resolve_saved (env) rows (sw_inc w1)\<rparr>)" for rows
    by (simp add: ext_save_def resolve_saved_grows)
  with w1 ext_save_trans [OF w1] show ?thesis
    unfolding save_to_db_def Let_def w0_def [symmetric] started_def [symmetric] l prod.case
    by (simp split: sum.split)
qed

end
