(* ===== verification/Deduplicator.thy ===== *)
theory Deduplicator
  imports Complex_Main AlertStore
begin

text \<open>
  Deduplication of alerts (\<open>src/common/alert_deduplicator/\<close>) with its tables in \<open>src/common/core/db.py\<close>:
  the rules that apply to a provider, the classification of an alert as full or partial duplicate, the
  events recorded for statistics, the management of rules and their provisioning.  An alert is the
  dictionary of its \<open>AlertDto\<close>.  The hash of a dictionary (\<open>sha256\<close> of its sorted JSON) and \<open>uuid5\<close> are
  parameters, and so are the lists of installed and linked providers.
\<close>

section \<open>Tables\<close>

record dedup_rule =
  dr_id :: string
  dr_tenant_id :: string
  dr_name :: string
  dr_description :: string
  dr_provider_id :: "string option"
  dr_provider_type :: string
  dr_last_updated :: "int option"
  dr_last_updated_by :: "string option"
  dr_created_at :: "int option"
  dr_created_by :: "string option"
  dr_enabled :: bool
  dr_fingerprint_fields :: "string list"
  dr_full_deduplication :: bool
  dr_ignore_fields :: "string list"
  dr_priority :: int
  dr_is_provisioned :: bool

record dedup_event =
  de_tenant_id :: string
  de_rule_id :: string
  de_type :: string
  de_provider_id :: "string option"
  de_provider_type :: "string option"
  de_hour :: int

record dedup_db =
  dd_rules :: "dedup_rule list"
  dd_events :: "dedup_event list"

definition get_all_deduplication_rules :: "string \<Rightarrow> dedup_db \<Rightarrow> dedup_rule list" where
  "get_all_deduplication_rules tenant_id db = filter (\<lambda>r. dr_tenant_id r = tenant_id) (dd_rules db)"

definition get_deduplication_rule_by_id :: "string \<Rightarrow> string \<Rightarrow> dedup_db \<Rightarrow> dedup_rule option" where
  "get_deduplication_rule_by_id tenant_id rule_id db =
     (case uuid_hex rule_id of
        None \<Rightarrow> None
      | Some h \<Rightarrow> find (\<lambda>r. dr_tenant_id r = tenant_id \<and> dr_id r = uuid_str h) (dd_rules db))"

text \<open>A comparison with a null provider id is never true in SQL, but the query builder writes \<open>IS NULL\<close>.
  \<open>one_or_none\<close> raises when there are several rows.\<close>

definition get_custom_deduplication_rule ::
  "string \<Rightarrow> string option \<Rightarrow> string \<Rightarrow> dedup_db \<Rightarrow> dedup_rule option result" where
  "get_custom_deduplication_rule tenant_id provider_id provider_type db =
     (case filter (\<lambda>r. dr_tenant_id r = tenant_id \<and> dr_provider_id r = provider_id \<and> dr_provider_type r = provider_type)
             (dd_rules db) of
        [] \<Rightarrow> Inr None
      | [r] \<Rightarrow> Inr (Some r)
      | _ \<Rightarrow> Inl (Exn (EOther ''MultipleResultsFound'') ''Multiple rows were found when one or none was required''))"

text \<open>What a caller sets of a rule; a null description breaks the column's constraint, on creation as on update.\<close>

record dedup_settings =
  ds_name :: string
  ds_description :: "string option"
  ds_provider_id :: "string option"
  ds_provider_type :: string
  ds_fingerprint_fields :: "string list"
  ds_full_deduplication :: bool
  ds_ignore_fields :: "string list"

definition null_description :: "'a result" where
  "null_description = Inl (Exn EIntegrityError ''alertdeduplicationrule.description'')"

definition create_rule ::
  "string \<Rightarrow> string \<Rightarrow> string \<Rightarrow> bool \<Rightarrow> int \<Rightarrow> dedup_settings \<Rightarrow> dedup_db \<Rightarrow> dedup_rule result \<times> dedup_db" where
  "create_rule new_id tenant_id created_by is_provisioned now new db =
     (case ds_description new of
        None \<Rightarrow> (null_description, db)
      | Some description \<Rightarrow>
          if new_id \<in> set (map dr_id (dd_rules db)) then (Inl (Exn EIntegrityError ''alertdeduplicationrule.id''), db)
          else let r = \<lparr>dr_id = new_id, dr_tenant_id = tenant_id, dr_name = ds_name new, dr_description = description,
                 dr_provider_id = ds_provider_id new, dr_provider_type = ds_provider_type new,
                 dr_last_updated = Some now, dr_last_updated_by = Some created_by,
                 dr_created_at = Some now, dr_created_by = Some created_by, dr_enabled = True,
                 dr_fingerprint_fields = ds_fingerprint_fields new, dr_full_deduplication = ds_full_deduplication new,
                 dr_ignore_fields = ds_ignore_fields new, dr_priority = 0, dr_is_provisioned = is_provisioned\<rparr>
               in (Inr r, db\<lparr>dd_rules := dd_rules db @ [r]\<rparr>))"

text \<open>The columns an update writes; the rest of the row stays, \<open>last_updated\<close> included.\<close>

definition updated_rule :: "dedup_settings \<Rightarrow> string \<Rightarrow> string \<Rightarrow> dedup_rule \<Rightarrow> dedup_rule" where
  "updated_rule new description updated_by r =
     r\<lparr>dr_name := ds_name new, dr_description := description, dr_provider_id := ds_provider_id new,
       dr_provider_type := ds_provider_type new, dr_last_updated_by := Some updated_by, dr_enabled := True,
       dr_fingerprint_fields := ds_fingerprint_fields new, dr_full_deduplication := ds_full_deduplication new,
       dr_ignore_fields := ds_ignore_fields new, dr_priority := 0\<rparr>"

definition update_rule ::
  "string \<Rightarrow> string \<Rightarrow> string \<Rightarrow> dedup_settings \<Rightarrow> dedup_db \<Rightarrow> dedup_rule option result \<times> dedup_db" where
  "update_rule rule_id tenant_id updated_by new db =
     (case uuid_hex rule_id of
        None \<Rightarrow> (Inr None, db)
      | Some _ \<Rightarrow>
          (case get_deduplication_rule_by_id tenant_id rule_id db of
             None \<Rightarrow> (Inl (Exn EValueError (''No deduplication rule found with id '' @ rule_id)), db)
           | Some r \<Rightarrow>
               (case ds_description new of
                  None \<Rightarrow> (null_description, db)
                | Some description \<Rightarrow>
                    (Inr (Some (updated_rule new description updated_by r)),
                     db\<lparr>dd_rules := map (\<lambda>x. if dr_id x = dr_id r then updated_rule new description updated_by x else x)
                         (dd_rules db)\<rparr>))))"

definition delete_rule :: "string \<Rightarrow> string \<Rightarrow> dedup_db \<Rightarrow> bool \<times> dedup_db" where
  "delete_rule rule_id tenant_id db =
     (case get_deduplication_rule_by_id tenant_id rule_id db of
        None \<Rightarrow> (False, db)
      | Some r \<Rightarrow> (True, db\<lparr>dd_rules := filter (\<lambda>x. dr_id x \<noteq> dr_id r) (dd_rules db)\<rparr>))"

definition create_deduplication_event ::
  "string \<Rightarrow> string \<Rightarrow> string \<Rightarrow> string option \<Rightarrow> string option \<Rightarrow> int \<Rightarrow> dedup_db \<Rightarrow> dedup_db" where
  "create_deduplication_event tenant_id rule_id ty provider_id provider_type now db =
     (case uuid_hex rule_id of
        None \<Rightarrow> db
      | Some h \<Rightarrow> db\<lparr>dd_events := dd_events db @ [\<lparr>de_tenant_id = tenant_id, de_rule_id = uuid_str h, de_type = ty,
          de_provider_id = provider_id, de_provider_type = provider_type, de_hour = now div 3600000000\<rparr>]\<rparr>)"

section \<open>The rules for a provider\<close>

record dedup_env =
  du_tenant_id :: string
  du_uuid5 :: "string \<Rightarrow> string"
  du_hash :: "pydict \<Rightarrow> string"
  du_distribution_enabled :: bool
  du_custom_enabled :: bool
  du_now :: int

definition fmt_opt :: "string option \<Rightarrow> string" where
  "fmt_opt v = (case v of Some s \<Rightarrow> s | None \<Rightarrow> ''None'')"

definition generate_uuid :: "dedup_env \<Rightarrow> string option \<Rightarrow> string option \<Rightarrow> string" where
  "generate_uuid env provider_id provider_type =
     (let provider_type = (if (provider_id = None \<or> provider_id = Some [])
            \<and> (case provider_type of Some (c # cs) \<Rightarrow> py_lower (c # cs) = ''keep'' | _ \<Rightarrow> False) then None else provider_type)
      in du_uuid5 env (fmt_opt provider_id @ ''_'' @ fmt_opt provider_type))"

definition or_keep :: "string option \<Rightarrow> string" where
  "or_keep provider_type = (case provider_type of Some (c # cs) \<Rightarrow> c # cs | _ \<Rightarrow> ''keep'')"

definition default_full_deduplication_rule :: "dedup_env \<Rightarrow> string option \<Rightarrow> string option \<Rightarrow> dedup_rule" where
  "default_full_deduplication_rule env provider_id provider_type =
     \<lparr>dr_id = generate_uuid env provider_id provider_type, dr_tenant_id = du_tenant_id env,
      dr_name = or_keep provider_type @ '' default deduplication rule'',
      dr_description = or_keep provider_type @ '' default deduplication rule'',
      dr_provider_id = provider_id, dr_provider_type = or_keep provider_type, dr_last_updated = None, dr_last_updated_by = None,
      dr_created_at = None, dr_created_by = None,
      dr_enabled = True, dr_fingerprint_fields = [], dr_full_deduplication = True, dr_ignore_fields = [''last_received''],
      dr_priority = 0, dr_is_provisioned = False\<rparr>"

definition get_deduplication_rules ::
  "dedup_env \<Rightarrow> string option \<Rightarrow> string option \<Rightarrow> dedup_db \<Rightarrow> dedup_rule list result" where
  "get_deduplication_rules env provider_id provider_type db =
     (let provider_type = or_keep provider_type;
          default_rule = default_full_deduplication_rule env provider_id (Some provider_type)
      in rbind (if du_custom_enabled env then get_custom_deduplication_rule (du_tenant_id env) provider_id provider_type db
                else Inr None) (\<lambda>found.
           case found of
             None \<Rightarrow> Inr [default_rule]
           | Some r \<Rightarrow> Inr [if dr_full_deduplication r then r else r\<lparr>dr_ignore_fields := dr_ignore_fields default_rule\<rparr>]))"

section \<open>Removing the ignored fields\<close>

text \<open>\<open>del d[a][b]...\<close> below an attribute.\<close>

fun del_path :: "pyval \<Rightarrow> string list \<Rightarrow> pyval result" where
  "del_path v [] = Inr v"
| "del_path (PDict d) [p] = (if dget d p = None then Inl (Exn EKeyError (repr_str p)) else Inr (PDict (dpop p d)))"
| "del_path (PDict d) (p # q # ps) =
     (case dget d p of
        None \<Rightarrow> Inl (Exn EKeyError (repr_str p))
      | Some v \<Rightarrow> rbind (del_path v (q # ps)) (\<lambda>v. Inr (PDict (dset p v d))))"
| "del_path _ (p # ps) = Inl (Exn ETypeError ''not a dictionary'')"

definition remove_field :: "string \<Rightarrow> pydict \<Rightarrow> pydict result" where
  "remove_field field alert =
     (case py_split ''.'' field of
        [f] \<Rightarrow> Inr (dpop f alert)
      | f # ps \<Rightarrow>
          (case dget alert f of
             None \<Rightarrow> Inl (Exn EAttributeError f)
           | Some v \<Rightarrow> rbind (del_path v ps) (\<lambda>v. Inr (dset f v alert)))
      | [] \<Rightarrow> Inr alert)"

fun remove_fields :: "string list \<Rightarrow> pydict \<Rightarrow> pydict result" where
  "remove_fields [] alert = Inr alert"
| "remove_fields (f # fs) alert = rbind (remove_field f alert) (remove_fields fs)"

section \<open>Classification\<close>

definition dto_fingerprint :: "pydict \<Rightarrow> string" where
  "dto_fingerprint alert = (case dict_get alert ''fingerprint'' PNone of PStr s \<Rightarrow> s | _ \<Rightarrow> [])"

definition flagged :: "string \<Rightarrow> pydict \<Rightarrow> bool" where
  "flagged f alert = truthy (dict_get alert f PNone)"

text \<open>A missing and an empty hash count as none; an empty dictionary of hashes is looked up again.\<close>

definition last_hash_of :: "dedup_env \<Rightarrow> (string \<times> string) list option \<Rightarrow> alert_db \<Rightarrow> string \<Rightarrow> string" where
  "last_hash_of env given adb fp =
     (let hashes = (case given of Some (h # hs) \<Rightarrow> h # hs
            | _ \<Rightarrow> get_last_alert_hashes_by_fingerprints (du_tenant_id env) [fp] adb)
      in (case dget hashes fp of Some h \<Rightarrow> h | None \<Rightarrow> []))"

definition apply_deduplication_rule ::
  "dedup_env \<Rightarrow> pydict \<Rightarrow> dedup_rule \<Rightarrow> (string \<times> string) list option \<Rightarrow> alert_db \<Rightarrow> pydict result" where
  "apply_deduplication_rule env alert r given adb =
     rbind (remove_fields (dr_ignore_fields r) alert) (\<lambda>stripped.
       let hash = du_hash env stripped; alert = dset ''alert_hash'' (PStr hash) alert;
           last = last_hash_of env given adb (dto_fingerprint alert)
       in Inr (if last \<noteq> [] \<and> last = hash then dset ''is_full_duplicate'' (PBool True) alert
               else if last \<noteq> [] then dset ''is_partial_duplicate'' (PBool True) alert
               else alert))"

definition dedup_type :: "pydict \<Rightarrow> string" where
  "dedup_type alert =
     (if flagged ''is_full_duplicate'' alert then ''full''
      else if flagged ''is_partial_duplicate'' alert then ''partial'' else ''none'')"

definition record_event :: "dedup_env \<Rightarrow> dedup_rule \<Rightarrow> pydict \<Rightarrow> dedup_db \<Rightarrow> dedup_db" where
  "record_event env r alert db =
     create_deduplication_event (du_tenant_id env) (dr_id r) (dedup_type alert)
       (opt_str (dict_get alert ''provider_id'' PNone)) (opt_str (dict_get alert ''provider_type'' PNone)) (du_now env) db"

fun apply_rules ::
  "dedup_env \<Rightarrow> (string \<times> string) list option \<Rightarrow> alert_db \<Rightarrow> dedup_rule list \<Rightarrow> pydict \<Rightarrow> dedup_db \<Rightarrow> pydict result \<times> dedup_db" where
  "apply_rules env given adb [] alert db = (Inr alert, db)"
| "apply_rules env given adb (r # rs) alert db =
     (case apply_deduplication_rule env alert r given adb of
        Inl e \<Rightarrow> (Inl e, db)
      | Inr alert \<Rightarrow>
          if \<not> du_distribution_enabled env then apply_rules env given adb rs alert db
          else let db = record_event env r alert db
               in if dedup_type alert = ''none'' then apply_rules env given adb rs alert db else (Inr alert, db))"

definition apply_deduplication ::
  "dedup_env \<Rightarrow> pydict \<Rightarrow> dedup_rule list \<Rightarrow> (string \<times> string) list option \<Rightarrow> alert_db \<Rightarrow> dedup_db \<Rightarrow> pydict result \<times> dedup_db" where
  "apply_deduplication env alert rules given adb db =
     (case (if rules \<noteq> [] then Inr rules
            else get_deduplication_rules env (opt_str (dict_get alert ''provider_id'' PNone))
              (opt_str (dict_get alert ''provider_type'' PNone)) db) of
        Inl e \<Rightarrow> (Inl e, db)
      | Inr rules \<Rightarrow> apply_rules env given adb rules alert db)"

section \<open>Statistics\<close>

text \<open>Groups of a \<open>GROUP BY\<close>, in the order of their first rows (SQL leaves the order open).\<close>

definition group_keys :: "('a \<Rightarrow> 'k) \<Rightarrow> 'a list \<Rightarrow> 'k list" where
  "group_keys f xs = rev (remdups (rev (map f xs)))"

definition group_size :: "('a \<Rightarrow> 'k) \<Rightarrow> 'a list \<Rightarrow> 'k \<Rightarrow> nat" where
  "group_size f xs k = length (filter (\<lambda>x. f x = k) xs)"

record dedup_stats =
  st_full :: nat
  st_partial :: nat
  st_none :: nat
  st_hours :: "(int \<times> nat) list"
  st_provider_id :: "string option"
  st_provider_type :: string

definition current_hour :: "int \<Rightarrow> int" where
  "current_hour now = now div 3600000000"

definition hour_labels :: "int \<Rightarrow> (int \<times> nat) list" where
  "hour_labels now = map (\<lambda>i. ((current_hour now - int i) mod 24, 0)) [0..<24]"

definition new_stats :: "int \<Rightarrow> string option \<Rightarrow> string option \<Rightarrow> dedup_stats" where
  "new_stats now provider_id provider_type =
     \<lparr>st_full = 0, st_partial = 0, st_none = 0, st_hours = hour_labels now,
      st_provider_id = provider_id, st_provider_type = or_keep provider_type\<rparr>"

definition add_count :: "string \<Rightarrow> nat \<Rightarrow> dedup_stats \<Rightarrow> dedup_stats" where
  "add_count ty n s =
     (if ty = ''full'' then s\<lparr>st_full := st_full s + n\<rparr>
      else if ty = ''partial'' then s\<lparr>st_partial := st_partial s + n\<rparr>
      else if ty = ''none'' then s\<lparr>st_none := st_none s + n\<rparr> else s)"

definition all_time_key :: "dedup_event \<Rightarrow> string \<times> string option \<times> string option \<times> string" where
  "all_time_key e = (de_rule_id e, de_provider_id e, de_provider_type e, de_type e)"

fun all_time_loop ::
  "int \<Rightarrow> ((string \<times> string option \<times> string option \<times> string) \<times> nat) list \<Rightarrow> (string \<times> dedup_stats) list
    \<Rightarrow> (string \<times> dedup_stats) list" where
  "all_time_loop now [] stats = stats"
| "all_time_loop now (((key, pid, pty, ty), n) # gs) stats =
     all_time_loop now gs
       (dset key (add_count ty n (case dget stats key of Some s \<Rightarrow> s | None \<Rightarrow> new_stats now pid pty)) stats)"

text \<open>The row of an hour overwrites the number of its slot, whatever the provider of the group.\<close>

definition hour_key :: "dedup_event \<Rightarrow> string \<times> string option \<times> string option \<times> int" where
  "hour_key e = (de_rule_id e, de_provider_id e, de_provider_type e, de_hour e)"

definition set_hour :: "nat \<Rightarrow> nat \<Rightarrow> dedup_stats \<Rightarrow> dedup_stats" where
  "set_hour i n s = s\<lparr>st_hours := (st_hours s)[i := (fst (st_hours s ! i), n)]\<rparr>"

fun hours_loop ::
  "int \<Rightarrow> ((string \<times> string option \<times> string option \<times> int) \<times> nat) list \<Rightarrow> (string \<times> dedup_stats) list
    \<Rightarrow> (string \<times> dedup_stats) list" where
  "hours_loop now [] stats = stats"
| "hours_loop now (((key, pid, pty, hour), n) # gs) stats =
     hours_loop now gs
       (case dget stats key of
          None \<Rightarrow> stats
        | Some s \<Rightarrow> let hours_ago = current_hour now - hour
            in if 0 \<le> hours_ago \<and> hours_ago < 24 then dset key (set_hour (nat (23 - hours_ago)) n s) stats else stats)"

definition get_all_deduplication_stats :: "string \<Rightarrow> int \<Rightarrow> dedup_db \<Rightarrow> (string \<times> dedup_stats) list" where
  "get_all_deduplication_stats tenant_id now db =
     (let events = filter (\<lambda>e. de_tenant_id e = tenant_id) (dd_events db);
          recent = filter (\<lambda>e. now - 86400000000 \<le> de_hour e * 3600000000) events
      in hours_loop now (map (\<lambda>k. (k, group_size hour_key recent k)) (group_keys hour_key recent))
           (all_time_loop now (map (\<lambda>k. (k, group_size all_time_key events k)) (group_keys all_time_key events)) []))"

section \<open>The rules shown to the user\<close>

record provider_info =
  pv_type :: string
  pv_id :: "string option"
  pv_name :: string
  pv_alert_tag :: bool

record dedup_dto =
  dt_rule :: dedup_rule
  dt_default :: bool
  dt_distribution :: "(int \<times> nat) list"
  dt_ingested :: nat
  dt_ratio :: rat

definition empty_distribution :: "(int \<times> nat) list" where
  "empty_distribution = map (\<lambda>i. (int i, 0)) [0..<24]"

definition dto_of_rule :: "bool \<Rightarrow> dedup_rule \<Rightarrow> dedup_dto" where
  "dto_of_rule dflt r =
     \<lparr>dt_rule = r, dt_default = dflt, dt_distribution = empty_distribution, dt_ingested = 0, dt_ratio = 0\<rparr>"

definition provider_key :: "string \<Rightarrow> string option \<Rightarrow> string" where
  "provider_key ty pid = ty @ ''_'' @ fmt_opt pid"

definition null_to_None :: "string \<Rightarrow> string" where
  "null_to_None key = (if contains_sub ''null'' key then py_replace ''null'' ''None'' key else key)"

definition append_at :: "string \<Rightarrow> 'a \<Rightarrow> (string \<times> 'a list) list \<Rightarrow> (string \<times> 'a list) list" where
  "append_at k x d = dset k ((case dget d k of Some xs \<Rightarrow> xs | None \<Rightarrow> []) @ [x]) d"

definition custom_dict :: "dedup_rule list \<Rightarrow> (string \<times> dedup_dto list) list" where
  "custom_dict rules =
     fold (\<lambda>r. append_at (null_to_None (provider_key (dr_provider_type r) (dr_provider_id r))) (dto_of_rule False r)) rules []"

text \<open>The default rule of a provider type, for one provider of the type.\<close>

definition default_for :: "dedup_env \<Rightarrow> dedup_rule \<Rightarrow> provider_info \<Rightarrow> dedup_rule" where
  "default_for env r p =
     (let r = r\<lparr>dr_id := generate_uuid env (pv_id p) (Some (pv_type p))\<rparr>
      in (case pv_id p of
            Some (c # cs) \<Rightarrow> r\<lparr>dr_description := dr_description r @ '' - '' @ c # cs, dr_provider_id := Some (c # cs)\<rparr>
          | _ \<Rightarrow> r))"

text \<open>With a custom rule for \<open>keep_None\<close> the accumulated list is the very list of the dictionary, so a
  provider with that key appends the list to itself.\<close>

fun collect ::
  "dedup_env \<Rightarrow> (string \<times> dedup_rule) list \<Rightarrow> (string \<times> dedup_dto list) list \<Rightarrow> provider_info list \<Rightarrow> dedup_dto list
    \<Rightarrow> dedup_dto list" where
  "collect env defaults custom [] acc = acc"
| "collect env defaults custom (p # ps) acc =
     (let key = provider_key (pv_type p) (pv_id p)
      in collect env defaults custom ps
           (case dget custom key of
              Some rules \<Rightarrow> acc @ (if key = ''keep_None'' then acc else rules)
            | None \<Rightarrow>
                (case dget defaults (pv_type p) of
                   None \<Rightarrow> acc
                 | Some r \<Rightarrow> acc @ [dto_of_rule True (default_for env r p)])))"

definition with_stats :: "(string \<times> dedup_stats) list \<Rightarrow> dedup_dto \<Rightarrow> dedup_dto" where
  "with_stats stats d =
     (case dget stats (dr_id (dt_rule d)) of
        None \<Rightarrow> d\<lparr>dt_ingested := 0, dt_ratio := 0\<rparr>
      | Some s \<Rightarrow>
          let ingested = st_full s + st_partial s + st_none s; count = st_full s + st_partial s
          in if ingested = 0 \<or> count = 0 then d\<lparr>dt_ingested := ingested, dt_ratio := 0\<rparr>
             else d\<lparr>dt_ingested := ingested, dt_ratio := of_nat count / of_nat ingested * 100,
               dt_distribution := st_hours s\<rparr>)"

text \<open>The statistics are keyed by rule, so a key \<open><provider id>_<provider type>\<close> finds the entry of a rule
  only if the two texts agree; the value looked up is under a misspelled key and always missing.\<close>

definition provider_distribution :: "dedup_env \<Rightarrow> (string \<times> dedup_stats) list \<Rightarrow> dedup_dto \<Rightarrow> (int \<times> nat) list option" where
  "provider_distribution env stats d =
     (if du_distribution_enabled env
         \<and> dget stats (fmt_opt (dr_provider_id (dt_rule d)) @ ''_'' @ dr_provider_type (dt_rule d)) \<noteq> None
      then None else Some (dt_distribution d))"

definition get_deduplications ::
  "dedup_env \<Rightarrow> provider_info list \<Rightarrow> provider_info list \<Rightarrow> (string \<times> dedup_rule) list \<Rightarrow> dedup_db
    \<Rightarrow> (dedup_dto \<times> (int \<times> nat) list option) list" where
  "get_deduplications env installed linked defaults db =
     (let providers = filter pv_alert_tag installed @ linked;
          custom = custom_dict (if du_custom_enabled env then get_all_deduplication_rules (du_tenant_id env) db else []);
          start = (case dget custom ''keep_None'' of Some rules \<Rightarrow> rules
            | None \<Rightarrow> [dto_of_rule True (default_full_deduplication_rule env None None)]);
          stats = get_all_deduplication_stats (du_tenant_id env) (du_now env) db;
          rules = map (with_stats stats) (collect env defaults custom providers start);
          shown = sort_key (\<lambda>d. if dt_default (fst d) then 0 else (1 :: nat))
            (map (\<lambda>d. (d, provider_distribution env stats d)) rules)
      in (case shown of [(d, _)] \<Rightarrow> if dt_ingested d = 0 then [] else shown | _ \<Rightarrow> shown))"

section \<open>Fields seen per provider\<close>

record alert_field =
  fd_tenant_id :: string
  fd_name :: string
  fd_provider_id :: "string option"
  fd_provider_type :: "string option"

definition get_alerts_fields :: "string \<Rightarrow> alert_field list \<Rightarrow> alert_field list" where
  "get_alerts_fields tenant_id table = filter (\<lambda>f. fd_tenant_id f = tenant_id) table"

definition or_null :: "string option \<Rightarrow> string" where
  "or_null v = (case v of Some (c # cs) \<Rightarrow> c # cs | _ \<Rightarrow> ''null'')"

definition get_deduplication_fields :: "string \<Rightarrow> alert_field list \<Rightarrow> (string \<times> string list) list" where
  "get_deduplication_fields tenant_id table =
     fold (\<lambda>f. append_at (or_null (fd_provider_type f) @ ''_'' @ or_null (fd_provider_id f)) (fd_name f))
       (get_alerts_fields tenant_id table) []"

section \<open>Managing rules\<close>

definition provider_not_found :: "dedup_settings \<Rightarrow> exn" where
  "provider_not_found req =
     Exn (EHttp 404) (''Provider '' @ ds_provider_type req @ '' not found''
       @ (case ds_provider_id req of Some (c # cs) \<Rightarrow> '' with id '' @ c # cs | _ \<Rightarrow> []))"

definition create_deduplication_rule ::
  "dedup_env \<Rightarrow> provider_info list \<Rightarrow> provider_info list \<Rightarrow> string \<Rightarrow> dedup_settings \<Rightarrow> string \<Rightarrow> dedup_db
    \<Rightarrow> dedup_rule result \<times> dedup_db" where
  "create_deduplication_rule env installed linked new_id req created_by db =
     (let key = provider_key (ds_provider_type req) (ds_provider_id req);
          req = (if contains_sub ''null'' key then req\<lparr>ds_provider_id := None\<rparr> else req)
      in if \<forall>p \<in> set (installed @ linked). null_to_None key \<noteq> provider_key (pv_type p) (pv_id p)
         then (Inl (provider_not_found req), db)
         else create_rule new_id (du_tenant_id env) created_by False (du_now env) req db)"

definition update_deduplication_rule ::
  "dedup_env \<Rightarrow> provider_info list \<Rightarrow> provider_info list \<Rightarrow> string \<Rightarrow> string \<Rightarrow> dedup_settings \<Rightarrow> string \<Rightarrow> dedup_db
    \<Rightarrow> dedup_rule option result \<times> dedup_db" where
  "update_deduplication_rule env installed linked new_id rule_id req updated_by db =
     (if rule_id = generate_uuid env (ds_provider_id req) (Some (ds_provider_type req))
      then (case create_deduplication_rule env installed linked new_id req updated_by db of
              (res, db) \<Rightarrow> (rbind res (\<lambda>r. Inr (Some r)), db))
      else (case get_deduplication_rule_by_id (du_tenant_id env) rule_id db of
              None \<Rightarrow> (Inl (Exn (EHttp 404) ''Deduplication rule not found''), db)
            | Some r \<Rightarrow>
                if dr_is_provisioned r
                then (Inl (Exn (EHttp 409) ''Provisioned deduplication rule cannot be updated''), db)
                else update_rule rule_id (du_tenant_id env) updated_by req db))"

definition delete_deduplication_rule :: "dedup_env \<Rightarrow> string \<Rightarrow> dedup_db \<Rightarrow> bool result \<times> dedup_db" where
  "delete_deduplication_rule env rule_id db =
     (case get_deduplication_rule_by_id (du_tenant_id env) rule_id db of
        None \<Rightarrow> (Inl (Exn (EHttp 404) ''Deduplication rule not found''), db)
      | Some r \<Rightarrow>
          if dr_is_provisioned r
          then (Inl (Exn (EHttp 409) ''Provisioned deduplication rule cannot be deleted''), db)
          else (case delete_rule rule_id (du_tenant_id env) db of (ok, db) \<Rightarrow> (Inr ok, db)))"

section \<open>Provisioning\<close>

record dedup_config =
  dc_provider_name :: "string option"
  dc_provider_type :: "string option"
  dc_description :: "string option"
  dc_fingerprint_fields :: "string list option"
  dc_full_deduplication :: "bool option"
  dc_ignore_fields :: "string list option"

text \<open>\<open>enrich_with_providers_info\<close>: an unknown provider is \<open>None\<close>, and its \<open>id\<close> an error.\<close>

definition config_settings :: "string \<Rightarrow> dedup_config \<Rightarrow> provider_info \<Rightarrow> dedup_settings" where
  "config_settings name c p =
     \<lparr>ds_name = name, ds_description = Some (case dc_description c of Some d \<Rightarrow> d | None \<Rightarrow> []),
      ds_provider_id = pv_id p, ds_provider_type = pv_type p,
      ds_fingerprint_fields = (case dc_fingerprint_fields c of Some fs \<Rightarrow> fs | None \<Rightarrow> []),
      ds_full_deduplication = (dc_full_deduplication c = Some True),
      ds_ignore_fields = (case dc_ignore_fields c of Some fs \<Rightarrow> fs | None \<Rightarrow> [])\<rparr>"

definition enrich_with_providers_info ::
  "provider_info list \<Rightarrow> (string \<times> dedup_config) list \<Rightarrow> (string \<times> dedup_settings) list result" where
  "enrich_with_providers_info installed rules =
     rmap (\<lambda>(name, c).
       (case (case dc_provider_name c of None \<Rightarrow> None | Some n \<Rightarrow> dget (dupdate [] (map (\<lambda>p. (pv_name p, p)) installed)) n) of
          None \<Rightarrow> Inl (Exn EAttributeError ''NoneType object has no attribute id'')
        | Some p \<Rightarrow> Inr (name, config_settings name c p))) rules"

definition provisioned_rules :: "string \<Rightarrow> dedup_db \<Rightarrow> dedup_rule list" where
  "provisioned_rules tenant_id db = filter dr_is_provisioned (get_all_deduplication_rules tenant_id db)"

fun delete_absent :: "string \<Rightarrow> string list \<Rightarrow> dedup_rule list \<Rightarrow> dedup_db \<Rightarrow> dedup_db" where
  "delete_absent tenant_id names [] db = db"
| "delete_absent tenant_id names (r # rs) db =
     delete_absent tenant_id names rs (if dr_name r \<in> set names then db else snd (delete_rule (dr_id r) tenant_id db))"

fun provision_loop ::
  "(string \<Rightarrow> string) \<Rightarrow> string \<Rightarrow> int \<Rightarrow> (string \<times> string) list \<Rightarrow> (string \<times> dedup_settings) list \<Rightarrow> dedup_db
    \<Rightarrow> unit result \<times> dedup_db" where
  "provision_loop new_id tenant_id now existing [] db = (Inr (), db)"
| "provision_loop new_id tenant_id now existing ((name, s) # rules) db =
     (case (case dget existing name of
              Some rule_id \<Rightarrow>
                (case update_rule rule_id tenant_id ''system'' s db of (res, db) \<Rightarrow> (rbind res (\<lambda>_. Inr ()), db))
            | None \<Rightarrow>
                (case create_rule (new_id name) tenant_id ''system'' True now s db of (res, db) \<Rightarrow> (rbind res (\<lambda>_. Inr ()), db))) of
        (Inl e, db) \<Rightarrow> (Inl e, db)
      | (Inr _, db) \<Rightarrow> provision_loop new_id tenant_id now existing rules db)"

definition provision_deduplication_rules ::
  "(string \<Rightarrow> string) \<Rightarrow> string \<Rightarrow> int \<Rightarrow> provider_info list \<Rightarrow> (string \<times> dedup_config) list \<Rightarrow> dedup_db
    \<Rightarrow> unit result \<times> dedup_db" where
  "provision_deduplication_rules new_id tenant_id now installed configs db =
     (case enrich_with_providers_info installed configs of
        Inl e \<Rightarrow> (Inl e, db)
      | Inr rules \<Rightarrow>
          let provisioned = provisioned_rules tenant_id db;
              existing = dupdate [] (map (\<lambda>r. (dr_name r, dr_id r)) provisioned)
          in provision_loop new_id tenant_id now existing rules (delete_absent tenant_id (map fst rules) provisioned db))"

text \<open>\<open>^(\/|\.\/|\.\.\/).*\.json$\<close> at the start of the value; the value or the file holds the providers with
  their rules, parsed by \<open>json.loads\<close>.\<close>

definition is_json_path :: "string \<Rightarrow> bool" where
  "is_json_path s =
     (let s = (if s \<noteq> [] \<and> List.last s = CHR 0x0A then butlast s else s);
          tail = (\<lambda>p. starts_with p s \<and> ends_with ''.json'' (drop (length p) s))
      in CHR 0x0A \<notin> set s \<and> (tail ''/'' \<or> tail ''./'' \<or> tail ''../''))"

type_synonym provider_rules = "(string \<times> string option \<times> (string \<times> dedup_config) list) list"

definition rules_by_name :: "provider_rules \<Rightarrow> (string \<times> dedup_config) list" where
  "rules_by_name providers =
     dupdate [] (concat (map (\<lambda>(pname, pty, rules).
       map (\<lambda>(name, c). (name, c\<lparr>dc_provider_name := Some pname, dc_provider_type := pty\<rparr>)) rules) providers))"

definition get_deduplication_rules_to_provision ::
  "string option \<Rightarrow> (string \<Rightarrow> string result) \<Rightarrow> (string \<Rightarrow> provider_rules result)
    \<Rightarrow> (string \<times> dedup_config) list option result" where
  "get_deduplication_rules_to_provision env_value read_file json_loads =
     (case env_value of
        Some (c # cs) \<Rightarrow>
          rbind (if is_json_path (c # cs) then read_file (c # cs) else Inr (c # cs)) (\<lambda>content.
            case json_loads content of
              Inl e \<Rightarrow> Inl (if exn_kind e = EOther ''JSONDecodeError''
                then Exn EException (''Error parsing deduplication rules from ''
                  @ (if is_json_path (c # cs) then ''file '' @ c # cs else ''env var KEEP_PROVIDERS'') @ '': '' @ exn_msg e)
                else e)
            | Inr providers \<Rightarrow> Inr (case rules_by_name providers of [] \<Rightarrow> None | r # rs \<Rightarrow> Some (r # rs)))
      | _ \<Rightarrow> Inr None)"

definition provision_deduplication_rules_from_env ::
  "string option \<Rightarrow> (string \<Rightarrow> string result) \<Rightarrow> (string \<Rightarrow> provider_rules result) \<Rightarrow> (string \<Rightarrow> string) \<Rightarrow> string \<Rightarrow> int
    \<Rightarrow> provider_info list \<Rightarrow> dedup_db \<Rightarrow> unit result \<times> dedup_db" where
  "provision_deduplication_rules_from_env env_value read_file json_loads new_id tenant_id now installed db =
     (case get_deduplication_rules_to_provision env_value read_file json_loads of
        Inl e \<Rightarrow> (Inl e, db)
      | Inr None \<Rightarrow> (Inr (), db)
      | Inr (Some configs) \<Rightarrow> provision_deduplication_rules new_id tenant_id now installed configs db)"

section \<open>Classification against the recorded hash\<close>

lemma dict_get_dset [simp]: "dict_get (dset k v d) k' w = (if k' = k then v else dict_get d k' w)"
  by (simp add: dict_get_def)

lemma attempts_succeeded:
  "set_last_alert_attempts n k faults tr db = (Inr (), db') \<Longrightarrow> tr db = Inr db'"
  by (induction n arbitrary: k) (auto split: option.splits sum.splits if_splits)

lemma recorded_hash:
  assumes "set_last_alert faults store t row n tracking db = (Inr (), db')"
    and "al_fingerprint row = fp" "al_alert_hash row = Some h"
    and "\<And>la. get_last_alert_by_fingerprint t fp db = Some la \<Longrightarrow> la_timestamp la < al_timestamp row"
  shows "get_last_alert_hashes_by_fingerprints t [fp] db' \<noteq> []"
    and "dget (get_last_alert_hashes_by_fingerprints t [fp] db') fp = Some h"
proof -
  have once: "set_last_alert_once store t row tracking db = Inr db'"
    using attempts_succeeded assms(1) unfolding set_last_alert_def .
  have "\<exists>la. adb_last_alerts db' = put_last_alert la (adb_last_alerts db) \<and> la_key la = (t, fp) \<and> la_alert_hash la = Some h"
  proof (cases "get_last_alert_by_fingerprint t fp db")
    case None
    with once assms(2,3) show ?thesis
      by (auto simp: set_last_alert_once_def rbind_Inr_iff la_key_def split: if_splits)
  next
    case (Some la)
    from find_in_set [OF Some [unfolded get_last_alert_by_fingerprint_def]]
    have "la_tenant_id la = t" "la_fingerprint la = fp" by auto
    with once assms(2,3) assms(4) [OF Some] Some show ?thesis
      by (auto simp: set_last_alert_once_def rbind_Inr_iff la_key_def split: if_splits)
  qed
  then obtain la where la: "adb_last_alerts db' = put_last_alert la (adb_last_alerts db)" "la_key la = (t, fp)"
    "la_alert_hash la = Some h" by blast
  define rows where "rows = get_last_alerts_by_fingerprints t [fp] db'"
  have all: "\<forall>l \<in> set rows. l = la"
    using la by (auto simp: rows_def get_last_alerts_by_fingerprints_def la_key_def intro!: put_unique)
  have "la \<in> set rows"
  proof -
    have "la \<in> set (put_last_alert la (adb_last_alerts db))" by (auto simp: put_last_alert_def)
    with la show ?thesis by (simp add: rows_def get_last_alerts_by_fingerprints_def la_key_def)
  qed
  moreover from la(2) have "la_fingerprint la = fp" by (simp add: la_key_def)
  moreover have "map (\<lambda>l. case la_alert_hash l of None \<Rightarrow> [] | Some g \<Rightarrow> [(la_fingerprint l, g)]) rows
      = replicate (length rows) [(fp, h)]"
    using all la(3) \<open>la_fingerprint la = fp\<close> by (intro replicate_eqI) auto
  ultimately obtain n where "n \<noteq> 0" "get_last_alert_hashes_by_fingerprints t [fp] db'
      = dupdate [] (concat (replicate n [(fp, h)]))"
    by (intro that [of "length rows"]) (auto simp: get_last_alert_hashes_by_fingerprints_def rows_def)
  moreover have "dupdate d (concat (replicate n [(fp, h)])) = (if n = 0 then d else dset fp h d)" for d n
    by (induction n arbitrary: d) (auto simp: dset_def update_Some_unfold)
  ultimately show "get_last_alert_hashes_by_fingerprints t [fp] db' \<noteq> []"
    "dget (get_last_alert_hashes_by_fingerprints t [fp] db') fp = Some h"
    by (auto simp: dset_def dget_def)
qed

definition classified :: "dedup_env \<Rightarrow> string \<Rightarrow> pydict \<Rightarrow> string \<Rightarrow> pydict" where
  "classified env prev alert hash =
     (let alert = dset ''alert_hash'' (PStr hash) alert
      in if prev \<noteq> [] \<and> prev = hash then dset ''is_full_duplicate'' (PBool True) alert
         else if prev \<noteq> [] then dset ''is_partial_duplicate'' (PBool True) alert else alert)"

lemma fingerprint_kept [simp]:
  "dto_fingerprint (dset ''alert_hash'' v alert) = dto_fingerprint alert"
  by (simp add: dto_fingerprint_def)

lemma hash_kept [simp]: "dict_get (classified env prev alert hash) ''alert_hash'' PNone = PStr hash"
  by (simp add: classified_def Let_def)

lemma provider_kept [simp]:
  "dict_get (classified env prev alert hash) ''provider_id'' w = dict_get alert ''provider_id'' w"
  "dict_get (classified env prev alert hash) ''provider_type'' w = dict_get alert ''provider_type'' w"
  by (simp_all add: classified_def Let_def)

lemma type_of_classified:
  assumes "\<not> flagged ''is_full_duplicate'' alert" "\<not> flagged ''is_partial_duplicate'' alert"
  shows "dedup_type (classified env prev alert hash) =
    (if prev = [] then ''none'' else if prev = hash then ''full'' else ''partial'')"
  using assms by (simp add: classified_def Let_def dedup_type_def flagged_def)

lemma apply_one_rule:
  "apply_rules env given adb [r] alert db =
     (case remove_fields (dr_ignore_fields r) alert of
        Inl e \<Rightarrow> (Inl e, db)
      | Inr stripped \<Rightarrow>
          let b = classified env (last_hash_of env given adb (dto_fingerprint alert)) alert (du_hash env stripped)
          in (Inr b, if du_distribution_enabled env then record_event env r b db else db))"
  by (cases "remove_fields (dr_ignore_fields r) alert")
    (simp_all add: apply_deduplication_rule_def classified_def Let_def)

text \<open>What a duplicate is.  Once the occurrence of an alert has been recorded with the hash that
  deduplication gave it, the next alert with its fingerprint is a full duplicate exactly when the two
  have the same hash without the ignored fields, and a partial duplicate otherwise; an event of that
  type is counted for the rule.\<close>

theorem duplicate_decided_by_hash:
  assumes "get_deduplication_rules env pid pty db0 = Inr [r]" "get_deduplication_rules env pid pty db1 = Inr [r]"
    and "\<forall>a \<in> {a1, a2}. opt_str (dict_get a ''provider_id'' PNone) = pid \<and> opt_str (dict_get a ''provider_type'' PNone) = pty"
    and "remove_fields (dr_ignore_fields r) a1 = Inr s1" "remove_fields (dr_ignore_fields r) a2 = Inr s2"
    and "du_hash env s1 \<noteq> []"
    and "fst (apply_deduplication env a1 [] None adb0 db0) = Inr b1"
    and "al_fingerprint row = dto_fingerprint a1" "al_alert_hash row = opt_str (dict_get b1 ''alert_hash'' PNone)"
    and "set_last_alert faults store (du_tenant_id env) row n tracking adb1 = (Inr (), adb2)"
    and "\<And>la. get_last_alert_by_fingerprint (du_tenant_id env) (al_fingerprint row) adb1 = Some la
      \<Longrightarrow> la_timestamp la < al_timestamp row"
    and "dto_fingerprint a2 = dto_fingerprint a1"
    and "\<not> flagged ''is_full_duplicate'' a2" "\<not> flagged ''is_partial_duplicate'' a2"
  shows "\<exists>b2. apply_deduplication env a2 [] None adb2 db1 =
      (Inr b2, if du_distribution_enabled env then record_event env r b2 db1 else db1)
    \<and> dedup_type b2 = (if du_hash env s1 = du_hash env s2 then ''full'' else ''partial'')"
proof -
  from assms(1,3,4,7) have "dict_get b1 ''alert_hash'' PNone = PStr (du_hash env s1)"
    by (auto simp: apply_deduplication_def apply_one_rule Let_def simp del: apply_rules.simps)
  with assms(9) have "al_alert_hash row = Some (du_hash env s1)" by (simp add: opt_str_def)
  from recorded_hash [OF assms(10) assms(8) this] assms(8,11,12)
  have "last_hash_of env None adb2 (dto_fingerprint a2) = du_hash env s1"
    by (simp add: last_hash_of_def Let_def)
  with assms(2,3,5) have "apply_deduplication env a2 [] None adb2 db1 =
      (let b = classified env (du_hash env s1) a2 (du_hash env s2)
       in (Inr b, if du_distribution_enabled env then record_event env r b db1 else db1))"
    by (simp add: apply_deduplication_def apply_one_rule del: apply_rules.simps)
  with type_of_classified [OF assms(13,14)] assms(6) show ?thesis by (auto simp: Let_def)
qed

section \<open>What provisioning leaves\<close>

definition canonical_id :: "string \<Rightarrow> bool" where
  "canonical_id i \<longleftrightarrow> map_option uuid_str (uuid_hex i) = Some i"

definition dedup_table_ok :: "dedup_db \<Rightarrow> bool" where
  "dedup_table_ok db \<longleftrightarrow> distinct (map dr_id (dd_rules db)) \<and> list_all (\<lambda>r. canonical_id (dr_id r)) (dd_rules db)"

definition rule_settings :: "dedup_rule \<Rightarrow> dedup_settings" where
  "rule_settings r =
     \<lparr>ds_name = dr_name r, ds_description = Some (dr_description r), ds_provider_id = dr_provider_id r,
      ds_provider_type = dr_provider_type r, ds_fingerprint_fields = dr_fingerprint_fields r,
      ds_full_deduplication = dr_full_deduplication r, ds_ignore_fields = dr_ignore_fields r\<rparr>"

text \<open>The provisioned rules of a tenant as a dictionary from names, and the rows of the table beside them.\<close>

definition is_provisioned_of :: "string \<Rightarrow> dedup_rule \<Rightarrow> bool" where
  "is_provisioned_of t r \<longleftrightarrow> dr_tenant_id r = t \<and> dr_is_provisioned r"

definition provisioned_dict :: "string \<Rightarrow> dedup_db \<Rightarrow> (string \<times> dedup_settings) list" where
  "provisioned_dict t db = map (\<lambda>r. (dr_name r, rule_settings r)) (filter (is_provisioned_of t) (dd_rules db))"

definition provisioned_ids :: "string \<Rightarrow> dedup_db \<Rightarrow> (string \<times> string) list" where
  "provisioned_ids t db = map (\<lambda>r. (dr_name r, dr_id r)) (filter (is_provisioned_of t) (dd_rules db))"

definition other_rules :: "string \<Rightarrow> dedup_db \<Rightarrow> dedup_rule list" where
  "other_rules t db = filter (\<lambda>r. \<not> is_provisioned_of t r) (dd_rules db)"

lemma provisioned_rules_eq: "provisioned_rules t db = filter (is_provisioned_of t) (dd_rules db)"
  by (auto simp: provisioned_rules_def get_all_deduplication_rules_def is_provisioned_of_def intro!: filter_cong)

lemma rule_by_id:
  "canonical_id i \<Longrightarrow> get_deduplication_rule_by_id t i db = find (\<lambda>r. dr_tenant_id r = t \<and> dr_id r = i) (dd_rules db)"
  by (auto simp: canonical_id_def get_deduplication_rule_by_id_def split: option.splits)

lemma rule_found:
  assumes "dedup_table_ok db" "r \<in> set (dd_rules db)" "dr_tenant_id r = t"
  shows "get_deduplication_rule_by_id t (dr_id r) db = Some r" "uuid_hex (dr_id r) \<noteq> None"
proof -
  have c: "canonical_id (dr_id r)" using assms by (auto simp: dedup_table_ok_def list_all_iff)
  then show "uuid_hex (dr_id r) \<noteq> None" by (auto simp: canonical_id_def)
  obtain x where x: "find (\<lambda>x. dr_tenant_id x = t \<and> dr_id x = dr_id r) (dd_rules db) = Some x"
    using assms(2,3) by (metis (mono_tags, lifting) find_None_iff not_None_eq)
  from find_in_set [OF this] assms have "x = r"
    by (auto simp: dedup_table_ok_def dest: inj_onD [OF conjunct2 [OF iffD1 [OF distinct_map]]])
  with x show "get_deduplication_rule_by_id t (dr_id r) db = Some r" by (simp add: rule_by_id [OF c])
qed

lemma dset_present:
  "wf_dict d \<Longrightarrow> k \<in> fst ` set d \<Longrightarrow> dset k v d = map (\<lambda>(k', w). (k', if k' = k then v else w)) d"
proof (induction d)
  case (Cons a d)
  obtain k' w where a: "a = (k', w)" by (cases a)
  have "map (\<lambda>(k', w). (k', if k' = k then v else w)) d = d" if "k \<notin> fst ` set d"
    using that by (intro map_idI) (auto simp: rev_image_eqI)
  with Cons a show ?case by (auto simp: wf_dict_def dset_def)
qed simp

lemma dset_absent: "k \<notin> fst ` set d \<Longrightarrow> dset k v d = d @ [(k, v)]"
  by (induction d) (auto simp: dset_def)

lemma settings_of_updated:
  "ds_description s = Some d \<Longrightarrow> rule_settings (updated_rule s d by r) = s"
  by (simp add: rule_settings_def updated_rule_def)

lemma updated_kept [simp]:
  "dr_id (updated_rule s d u r) = dr_id r" "dr_tenant_id (updated_rule s d u r) = dr_tenant_id r"
  "dr_is_provisioned (updated_rule s d u r) = dr_is_provisioned r" "dr_name (updated_rule s d u r) = ds_name s"
  by (simp_all add: updated_rule_def)

lemma update_provisioned:
  assumes ok: "dedup_table_ok db" "wf_dict (provisioned_dict t db)"
    and r: "r \<in> set (dd_rules db)" "is_provisioned_of t r" "dr_name r = ds_name s" and d: "ds_description s = Some d"
  shows "\<exists>x db'. update_rule (dr_id r) t u s db = (Inr x, db') \<and> dedup_table_ok db'
    \<and> map dr_id (dd_rules db') = map dr_id (dd_rules db) \<and> provisioned_ids t db' = provisioned_ids t db
    \<and> other_rules t db' = other_rules t db \<and> provisioned_dict t db' = dset (ds_name s) s (provisioned_dict t db)"
proof -
  have t: "dr_tenant_id r = t" using r(2) by (simp add: is_provisioned_of_def)
  let ?f = "\<lambda>x. if dr_id x = dr_id r then updated_rule s d u x else x"
  let ?db = "db\<lparr>dd_rules := map ?f (dd_rules db)\<rparr>"
  have upd: "update_rule (dr_id r) t u s db = (Inr (Some (updated_rule s d u r)), ?db)"
    using rule_found [OF ok(1) r(1) t] d by (auto simp: update_rule_def)
  have ids: "map dr_id (map ?f (dd_rules db)) = map dr_id (dd_rules db)" by simp
  have ok': "dedup_table_ok ?db"
    using ok(1) by (auto simp: dedup_table_ok_def list_all_iff ids simp del: map_map)
  have same: "is_provisioned_of t (?f x) = is_provisioned_of t x" for x by (simp add: is_provisioned_of_def)
  have only: "x = r" if "x \<in> set (dd_rules db)" "dr_id x = dr_id r" for x
    using ok(1) that r(1) by (auto simp: dedup_table_ok_def distinct_map dest: inj_onD)
  have other: "map ?f (other_rules t db) = other_rules t db"
    using only r(2) by (intro map_idI) (auto simp: other_rules_def)
  have inj: "dr_id x = dr_id r" if "x \<in> set (dd_rules db)" "is_provisioned_of t x" "dr_name x = ds_name s" for x
  proof -
    have "inj_on dr_name {x \<in> set (dd_rules db). is_provisioned_of t x}"
      using ok(2) by (simp add: wf_dict_def provisioned_dict_def distinct_map comp_def)
    from inj_onD [OF this, of x r] that r show ?thesis by simp
  qed
  have "provisioned_dict t ?db = map (\<lambda>x. (dr_name (?f x), rule_settings (?f x))) (filter (is_provisioned_of t) (dd_rules db))"
    by (simp add: provisioned_dict_def filter_map comp_def same)
  also have "\<dots> = map ((\<lambda>(k', w). (k', if k' = ds_name s then s else w)) \<circ> (\<lambda>x. (dr_name x, rule_settings x)))
      (filter (is_provisioned_of t) (dd_rules db))"
    using inj r(3) only by (intro map_cong) (auto simp: settings_of_updated [OF d])
  also have "\<dots> = dset (ds_name s) s (provisioned_dict t db)"
    using dset_present [OF ok(2), of "ds_name s" s] r by (force simp: provisioned_dict_def)
  finally have "provisioned_dict t ?db = dset (ds_name s) s (provisioned_dict t db)" .
  moreover have "other_rules t ?db = other_rules t db"
    using other by (simp add: other_rules_def filter_map comp_def same)
  moreover have "provisioned_ids t ?db = provisioned_ids t db"
    using r(3) by (auto simp: provisioned_ids_def filter_map comp_def same intro!: map_cong dest: only)
  ultimately show ?thesis using upd ok' ids by auto
qed

lemma create_provisioned:
  assumes "dedup_table_ok db" "canonical_id i" "i \<notin> dr_id ` set (dd_rules db)" "ds_description s = Some d"
    and "ds_name s \<notin> fst ` set (provisioned_dict t db)"
  shows "\<exists>x db'. create_rule i t u True now s db = (Inr x, db') \<and> dedup_table_ok db'
    \<and> map dr_id (dd_rules db') = map dr_id (dd_rules db) @ [i] \<and> provisioned_ids t db' = provisioned_ids t db @ [(ds_name s, i)]
    \<and> other_rules t db' = other_rules t db \<and> provisioned_dict t db' = dset (ds_name s) s (provisioned_dict t db)"
  using assms
  by (auto simp: create_rule_def Let_def dedup_table_ok_def other_rules_def provisioned_dict_def is_provisioned_of_def
      dset_absent rule_settings_def provisioned_ids_def)

lemma provision_loop_ok:
  assumes "dedup_table_ok db" "wf_dict (provisioned_dict t db)" "distinct (map fst rules)"
    and "\<forall>(n, s) \<in> set rules. ds_name s = n \<and> ds_description s \<noteq> None"
    and "\<And>n i. n \<in> fst ` set rules \<Longrightarrow> dget existing n = Some i \<Longrightarrow> (n, i) \<in> set (provisioned_ids t db)"
    and "\<And>n. n \<in> fst ` set rules \<Longrightarrow> dget existing n = None \<Longrightarrow> n \<notin> fst ` set (provisioned_dict t db)"
    and "\<And>n. n \<in> fst ` set rules \<Longrightarrow> canonical_id (new_id n) \<and> new_id n \<notin> dr_id ` set (dd_rules db)"
    and "inj_on new_id (fst ` set rules)"
  shows "\<exists>db'. provision_loop new_id t now existing rules db = (Inr (), db') \<and> dedup_table_ok db'
    \<and> other_rules t db' = other_rules t db \<and> provisioned_dict t db' = dupdate (provisioned_dict t db) rules"
  using assms
proof (induction rules arbitrary: db)
  case (Cons a rules)
  obtain n s where a: "a = (n, s)" by (cases a)
  from Cons.prems(4) a obtain d where s: "ds_name s = n" "ds_description s = Some d" by auto
  have step: "\<exists>x db1. (case dget existing n of
        Some rule_id \<Rightarrow> update_rule rule_id t ''system'' s db = (Inr x, db1)
      | None \<Rightarrow> \<exists>y. create_rule (new_id n) t ''system'' True now s db = (Inr y, db1))
    \<and> dedup_table_ok db1 \<and> dr_id ` set (dd_rules db1) \<subseteq> insert (new_id n) (dr_id ` set (dd_rules db))
    \<and> set (provisioned_ids t db) \<subseteq> set (provisioned_ids t db1)
    \<and> other_rules t db1 = other_rules t db \<and> provisioned_dict t db1 = dset n s (provisioned_dict t db)"
  proof (cases "dget existing n")
    case None
    from create_provisioned [OF Cons.prems(1) _ _ s(2), of "new_id n" t "''system''" now]
      Cons.prems(6) [OF _ None] Cons.prems(7) [of n] a s(1) None
    show ?thesis by (auto simp flip: set_map)
  next
    case (Some i)
    from Cons.prems(5) [OF _ Some] a obtain r where
      "r \<in> set (dd_rules db)" "dr_id r = i" "is_provisioned_of t r" "dr_name r = n" by (auto simp: provisioned_ids_def)
    with update_provisioned [OF Cons.prems(1,2), of r s d "''system''"] s Some
    show ?thesis by (auto simp flip: set_map)
  qed
  then obtain x db1 where db1: "case dget existing n of
        Some rule_id \<Rightarrow> update_rule rule_id t ''system'' s db = (Inr x, db1)
      | None \<Rightarrow> \<exists>y. create_rule (new_id n) t ''system'' True now s db = (Inr y, db1)"
    "dedup_table_ok db1" "dr_id ` set (dd_rules db1) \<subseteq> insert (new_id n) (dr_id ` set (dd_rules db))"
    "set (provisioned_ids t db) \<subseteq> set (provisioned_ids t db1)"
    "other_rules t db1 = other_rules t db" "provisioned_dict t db1 = dset n s (provisioned_dict t db)" by blast
  have names: "m \<noteq> n" if "m \<in> fst ` set rules" for m using Cons.prems(3) a that by auto
  have "\<exists>db'. provision_loop new_id t now existing rules db1 = (Inr (), db') \<and> dedup_table_ok db'
    \<and> other_rules t db' = other_rules t db1 \<and> provisioned_dict t db' = dupdate (provisioned_dict t db1) rules"
  proof (rule Cons.IH [OF db1(2)])
    show "wf_dict (provisioned_dict t db1)" using db1(6) Cons.prems(2) by simp
    show "distinct (map fst rules)" "\<forall>(n, s) \<in> set rules. ds_name s = n \<and> ds_description s \<noteq> None"
      "inj_on new_id (fst ` set rules)"
      using Cons.prems(3,4,8) by auto
    show "(m, i) \<in> set (provisioned_ids t db1)" if "m \<in> fst ` set rules" "dget existing m = Some i" for m i
      using Cons.prems(5) [of m i] that db1(4) by auto
    show "m \<notin> fst ` set (provisioned_dict t db1)" if "m \<in> fst ` set rules" "dget existing m = None" for m
      using Cons.prems(6) [of m] that names [of m] dget_None_iff [of "provisioned_dict t db1" m]
      by (simp add: db1(6)) (simp add: dget_None_iff)
    show "canonical_id (new_id m) \<and> new_id m \<notin> dr_id ` set (dd_rules db1)" if "m \<in> fst ` set rules" for m
    proof -
      have "new_id m \<noteq> new_id n"
        using inj_onD [OF Cons.prems(8), of m n] names [OF that] that a by auto
      with Cons.prems(7) [of m] that db1(3) show ?thesis by auto
    qed
  qed
  with db1 a show ?case by (auto split: option.splits)
qed simp

lemma delete_absent_rows:
  assumes "dedup_table_ok db"
    and "\<And>r x. r \<in> set rs \<Longrightarrow> x \<in> set (dd_rules db) \<Longrightarrow> dr_id x = dr_id r \<Longrightarrow> x = r"
    and "\<And>r. r \<in> set rs \<Longrightarrow> dr_tenant_id r = t \<and> canonical_id (dr_id r)"
  shows "dd_rules (delete_absent t names rs db) = filter (\<lambda>x. x \<notin> set rs \<or> dr_name x \<in> set names) (dd_rules db)
    \<and> dd_events (delete_absent t names rs db) = dd_events db"
  using assms
proof (induction rs arbitrary: db)
  case (Cons r rs)
  show ?case
  proof (cases "dr_name r \<in> set names")
    case True
    have "filter (\<lambda>x. x \<notin> set rs \<or> dr_name x \<in> set names) (dd_rules db)
        = filter (\<lambda>x. x \<notin> set (r # rs) \<or> dr_name x \<in> set names) (dd_rules db)"
      using True by (intro filter_cong) auto
    with Cons True show ?thesis by auto
  next
    case False
    have c: "canonical_id (dr_id r)" "dr_tenant_id r = t" using Cons.prems(3) by auto
    let ?db = "snd (delete_rule (dr_id r) t db)"
    have rows: "dd_rules ?db = filter (\<lambda>x. x \<noteq> r) (dd_rules db)" "dd_events ?db = dd_events db"
    proof (atomize (full), cases "get_deduplication_rule_by_id t (dr_id r) db")
      case None
      then have "r \<notin> set (dd_rules db)"
        using c by (auto simp: rule_by_id find_None_iff)
      then have "filter (\<lambda>x. x \<noteq> r) (dd_rules db) = dd_rules db" by (auto simp: filter_id_conv)
      with None show "dd_rules ?db = filter (\<lambda>x. x \<noteq> r) (dd_rules db) \<and> dd_events ?db = dd_events db"
        by (simp add: delete_rule_def)
    next
      case (Some x)
      from find_in_set [OF Some [unfolded rule_by_id [OF c(1)]]] Cons.prems(2) [of r x] have "x = r" by auto
      moreover have "filter (\<lambda>x. dr_id x \<noteq> dr_id r) (dd_rules db) = filter (\<lambda>x. x \<noteq> r) (dd_rules db)"
        using Cons.prems(2) [of r] by (intro filter_cong) auto
      ultimately show "dd_rules ?db = filter (\<lambda>x. x \<noteq> r) (dd_rules db) \<and> dd_events ?db = dd_events db"
        using Some by (simp add: delete_rule_def)
    qed
    have ok: "dedup_table_ok ?db"
      using Cons.prems(1) by (auto simp: dedup_table_ok_def rows distinct_map inj_on_def list_all_iff)
    have "dd_rules (delete_absent t names rs ?db) = filter (\<lambda>x. x \<notin> set rs \<or> dr_name x \<in> set names) (dd_rules ?db)
        \<and> dd_events (delete_absent t names rs ?db) = dd_events ?db"
      using Cons.prems(2,3) by (intro Cons.IH [OF ok]) (auto simp: rows)
    moreover have "filter (\<lambda>x. x \<notin> set rs \<or> dr_name x \<in> set names) (dd_rules ?db)
        = filter (\<lambda>x. x \<notin> set (r # rs) \<or> dr_name x \<in> set names) (dd_rules db)"
      using False by (auto simp: rows intro!: filter_cong)
    ultimately show ?thesis using False rows(2) by simp
  qed
qed simp

lemma enriched_names:
  assumes "enrich_with_providers_info installed configs = Inr rules"
  shows "map fst rules = map fst configs" "\<forall>(n, s) \<in> set rules. ds_name s = n \<and> ds_description s \<noteq> None"
proof -
  from assms have "list_all2 (\<lambda>(n, c) (m, s). m = n \<and> ds_name s = n \<and> ds_description s \<noteq> None) configs rules"
    unfolding enrich_with_providers_info_def rmap_Inr_all2
    by (rule list_all2_mono) (auto simp: config_settings_def split: option.splits)
  then show "map fst rules = map fst configs" "\<forall>(n, s) \<in> set rules. ds_name s = n \<and> ds_description s \<noteq> None"
    by (induction rule: list_all2_induct) auto
qed

text \<open>C11: provisioning makes the tenant's provisioned rules those of the environment.  When every rule
  names an installed provider, the call succeeds: each rule of the environment has exactly one
  provisioned row with its settings, there is no other provisioned row of the tenant, and the rules made
  by users and those of other tenants are untouched, in place.\<close>

theorem provisioning_reflects_environment:
  assumes "dedup_table_ok db" "wf_dict (provisioned_dict t db)" "wf_dict configs"
    and "enrich_with_providers_info installed configs = Inr rules"
    and "\<forall>n \<in> fst ` set configs. canonical_id (new_id n) \<and> new_id n \<notin> dr_id ` set (dd_rules db)"
    and "inj_on new_id (fst ` set configs)"
  shows "\<exists>db'. provision_deduplication_rules new_id t now installed configs db = (Inr (), db')
    \<and> dedup_table_ok db' \<and> wf_dict (provisioned_dict t db')
    \<and> (\<forall>n. dget (provisioned_dict t db') n = dget rules n) \<and> other_rules t db' = other_rules t db"
proof -
  note names = enriched_names [OF assms(4)]
  have keys: "fst ` set rules = fst ` set configs" using names(1) by (metis list.set_map)
  let ?names = "map fst rules" and ?rs = "provisioned_rules t db"
  let ?db = "delete_absent t ?names ?rs db" and ?existing = "dupdate [] (provisioned_ids t db)"
  have mem: "x \<in> set ?rs \<longleftrightarrow> x \<in> set (dd_rules db) \<and> is_provisioned_of t x" for x
    by (simp add: provisioned_rules_eq)
  have rows: "dd_rules ?db = filter (\<lambda>x. x \<notin> set ?rs \<or> dr_name x \<in> set ?names) (dd_rules db)"
    using assms(1) by (intro conjunct1 [OF delete_absent_rows])
      (auto simp: mem is_provisioned_of_def dedup_table_ok_def distinct_map inj_on_def list_all_iff)
  have ok: "dedup_table_ok ?db"
    using assms(1) by (auto simp: dedup_table_ok_def rows distinct_map inj_on_def list_all_iff)
  have kept: "filter (is_provisioned_of t) (dd_rules ?db)
      = filter (\<lambda>x. dr_name x \<in> set ?names) (filter (is_provisioned_of t) (dd_rules db))"
    by (auto simp: rows mem intro!: filter_cong)
  have other: "other_rules t ?db = other_rules t db"
    by (auto simp: other_rules_def rows mem intro!: filter_cong)
  have dict: "provisioned_dict t ?db = filter (\<lambda>(n, s). n \<in> set ?names) (provisioned_dict t db)"
    by (simp add: provisioned_dict_def kept filter_map comp_def)
  have wf: "wf_dict (provisioned_dict t ?db)"
    using assms(2) unfolding dict wf_dict_def by (rule distinct_map_filter)
  have ids: "set (provisioned_ids t ?db) = {(n, i) \<in> set (provisioned_ids t db). n \<in> set ?names}"
    by (force simp: provisioned_ids_def kept)
  have existing: "(n, i) \<in> set (provisioned_ids t ?db)" if "n \<in> fst ` set rules" "dget ?existing n = Some i" for n i
    using that by (auto simp: ids dget_dupdate split: option.splits dest: map_of_SomeD)
  have absent: "n \<notin> fst ` set (provisioned_dict t ?db)" if "dget ?existing n = None" for n
  proof -
    have "n \<notin> fst ` set (provisioned_ids t db)"
      using that by (auto simp: dget_dupdate map_of_eq_None_iff split: option.splits)
    moreover have "fst ` set (provisioned_ids t db) = fst ` set (provisioned_dict t db)"
      by (simp add: provisioned_ids_def provisioned_dict_def image_image)
    ultimately show ?thesis by (auto simp: dict)
  qed
  have fresh: "canonical_id (new_id n) \<and> new_id n \<notin> dr_id ` set (dd_rules ?db)" if "n \<in> fst ` set rules" for n
    using assms(5) that keys by (auto simp: rows)
  have dist: "distinct (map fst rules)" using assms(3) by (simp add: names(1) wf_dict_def)
  have inj: "inj_on new_id (fst ` set rules)" using assms(6) by (simp add: keys)
  from provision_loop_ok [where existing = ?existing and new_id = new_id and now = now,
      OF ok wf dist names(2) existing absent fresh inj]
  obtain db' where "provision_loop new_id t now ?existing rules ?db = (Inr (), db')" "dedup_table_ok db'"
    "other_rules t db' = other_rules t ?db" "provisioned_dict t db' = dupdate (provisioned_dict t ?db) rules"
    by auto
  moreover have "dget (dupdate (provisioned_dict t ?db) rules) n = dget rules n" for n
  proof (cases "dget rules n")
    case None
    then have "n \<notin> set ?names" by (simp add: dget_None_iff)
    then have "dget (provisioned_dict t ?db) n = None" by (force simp: dict dget_None_iff)
    with None dist show ?thesis by (simp add: dget_dupdate_wf wf_dict_def)
  next
    case (Some s)
    with dist show ?thesis by (simp add: dget_dupdate_wf wf_dict_def)
  qed
  ultimately show ?thesis
    using wf other assms(4)
    by (simp add: provision_deduplication_rules_def Let_def provisioned_rules_eq provisioned_ids_def)
qed

section \<open>Examples\<close>

definition demo_dedup_env :: dedup_env where
  "demo_dedup_env =
     \<lparr>du_tenant_id = ''t'', du_uuid5 = (\<lambda>_. ''00000000-0000-0000-0000-00000000000a''),
      du_hash = (\<lambda>d. ''h'' @ py_repr (dict_get d ''name'' PNone)),
      du_distribution_enabled = True, du_custom_enabled = True, du_now = 7200000000\<rparr>"

definition demo_alert :: "string \<Rightarrow> int \<Rightarrow> pydict" where
  "demo_alert name received =
     [(''fingerprint'', PStr ''f''), (''name'', PStr name), (''last_received'', PInt received),
      (''provider_type'', PStr ''mock''), (''provider_id'', PStr ''m1'')]"

definition demo_no_rules :: dedup_db where "demo_no_rules = \<lparr>dd_rules = [], dd_events = []\<rparr>"

definition demo_rule :: dedup_rule where
  "demo_rule = default_full_deduplication_rule demo_dedup_env (Some ''m1'') (Some ''mock'')"

definition demo_hashed :: alert where
  "demo_hashed = (demo_row ''1'' 5 ''firing'')\<lparr>al_fingerprint := ''f'', al_alert_hash := Some (du_hash demo_dedup_env (demo_alert ''disk'' 1))\<rparr>"

definition demo_recorded :: alert_db where
  "demo_recorded = snd (set_last_alert (\<lambda>_. None) demo_store ''t'' demo_hashed 3 None demo_empty)"

theorem duplicate_decided_by_hash_witness:
  "\<exists>b2. apply_deduplication demo_dedup_env (demo_alert ''disk'' 2) [] None demo_recorded demo_no_rules =
      (Inr b2, if du_distribution_enabled demo_dedup_env then record_event demo_dedup_env demo_rule b2 demo_no_rules
        else demo_no_rules)
    \<and> dedup_type b2 = (if du_hash demo_dedup_env (dpop ''last_received'' (demo_alert ''disk'' 1))
        = du_hash demo_dedup_env (dpop ''last_received'' (demo_alert ''disk'' 2)) then ''full'' else ''partial'')"
  by (rule duplicate_decided_by_hash [of demo_dedup_env "Some ''m1''" "Some ''mock''" demo_no_rules demo_rule demo_no_rules
        "demo_alert ''disk'' 1" "demo_alert ''disk'' 2" _ _ demo_empty
        "dset ''alert_hash'' (PStr (du_hash demo_dedup_env (dpop ''last_received'' (demo_alert ''disk'' 1)))) (demo_alert ''disk'' 1)"
        demo_hashed "\<lambda>_. None" demo_store 3 None demo_empty]) code_simp+

definition demo_provider :: provider_info where
  "demo_provider = \<lparr>pv_type = ''mock'', pv_id = Some ''m1'', pv_name = ''mocked'', pv_alert_tag = True\<rparr>"

definition demo_config :: dedup_config where
  "demo_config = \<lparr>dc_provider_name = Some ''mocked'', dc_provider_type = None, dc_description = None,
     dc_fingerprint_fields = Some [''name''], dc_full_deduplication = None, dc_ignore_fields = None\<rparr>"

definition demo_rule_ids :: "string \<Rightarrow> string" where
  "demo_rule_ids name = (if name = ''one'' then ''00000000-0000-0000-0000-000000000001'' else ''00000000-0000-0000-0000-000000000002'')"

definition demo_provisioned :: dedup_db where
  "demo_provisioned = snd (provision_deduplication_rules demo_rule_ids ''t'' 0 [demo_provider] [(''one'', demo_config)] demo_no_rules)"

theorem provisioning_reflects_environment_witness:
  "\<exists>db'. provision_deduplication_rules demo_rule_ids ''t'' 5 [demo_provider] [(''two'', demo_config)] demo_provisioned = (Inr (), db')
    \<and> dedup_table_ok db' \<and> wf_dict (provisioned_dict ''t'' db')
    \<and> (\<forall>n. dget (provisioned_dict ''t'' db') n = dget [(''two'', config_settings ''two'' demo_config demo_provider)] n)
    \<and> other_rules ''t'' db' = other_rules ''t'' demo_provisioned"
  by (rule provisioning_reflects_environment) (code_simp | simp)+

end
