(* ===== verification/AlertModel.thy ===== *)
theory AlertModel
  imports PyStrings
begin

text \<open>
  The alert model (\<open>src/common/models/alert.py\<close>, \<open>severity_base.py\<close>): the enumerations and the construction
  of an \<open>AlertDto\<close> from a dictionary.  The validators are translated; the conversion of a value to the declared
  type of a field, the parsing of dates, SHA-256 and the drawn UUID are parameters.  Fields, aliases, defaults and
  extra fields follow the documented rules of the model class (\<open>Extra.allow\<close>, \<open>allow_population_by_field_name\<close>,
  \<open>use_enum_values\<close>).  The clock is read once, and an alert is the dictionary of its fields.
\<close>

section \<open>Enumerations\<close>

definition SEVERITIES :: "(string \<times> int) list" where
  "SEVERITIES = [(''critical'', 5), (''high'', 4), (''warning'', 3), (''info'', 2), (''low'', 1)]"

definition from_number :: "int \<Rightarrow> string result" where
  "from_number n =
     (case find (\<lambda>(s, k). k = n) SEVERITIES of
        Some (s, k) \<Rightarrow> Inr s
      | None \<Rightarrow> Inl (Exn EValueError (''No AlertSeverity with order '' @ show_int n)))"

definition severity_compare :: "(int \<Rightarrow> int \<Rightarrow> bool) \<Rightarrow> string \<Rightarrow> string \<Rightarrow> bool option" where
  "severity_compare cmp a b =
     (case (map_of SEVERITIES a, map_of SEVERITIES b) of (Some m, Some n) \<Rightarrow> Some (cmp m n) | _ \<Rightarrow> None)"

definition STATUSES :: "string list" where
  "STATUSES = [''firing'', ''resolved'', ''acknowledged'', ''suppressed'', ''pending'', ''maintenance'']"

definition ENVIRONMENTS :: "string list" where
  "ENVIRONMENTS = [''production'', ''integration'', ''load'', ''development'', ''test'']"

section \<open>Fingerprints\<close>

record dto_env =
  dv_now_iso :: string
  dv_uuid :: string
  dv_sha256 :: "string \<Rightarrow> string"
  dv_iso_utc :: "string \<Rightarrow> string option"
  dv_unix_utc :: "string \<Rightarrow> string option"
  dv_normalized :: "string \<Rightarrow> string option"
  dv_convert :: "string \<Rightarrow> pyval \<Rightarrow> pyval result"

fun text_before :: "string \<Rightarrow> string \<Rightarrow> bool" where
  "text_before [] t = True"
| "text_before (c # cs) [] = False"
| "text_before (c # cs) (d # ds) =
     ((of_char c :: nat) < of_char d \<or> c = d \<and> text_before cs ds)"

fun insert_item :: "string \<times> pyval \<Rightarrow> pydict \<Rightarrow> pydict" where
  "insert_item x [] = [x]"
| "insert_item x (y # ys) = (if text_before (fst x) (fst y) then x # y # ys else y # insert_item x ys)"

definition sorted_items :: "pydict \<Rightarrow> pydict" where
  "sorted_items d = fold insert_item d []"

definition get_fingerprint :: "dto_env \<Rightarrow> pyval \<Rightarrow> pydict \<Rightarrow> pyval result" where
  "get_fingerprint env fingerprint vs =
     (case fingerprint of
        PNone \<Rightarrow>
          (case dict_get vs ''name'' PNone of
             PStr (c # cs) \<Rightarrow> Inr (PStr (dv_sha256 env (c # cs)))
           | v \<Rightarrow> if truthy v then Inl (Exn EAttributeError ''encode'')
                  else (case json_dumps (PDict (sorted_items vs)) of
                          Some s \<Rightarrow> Inr (PStr (dv_sha256 env s))
                        | None \<Rightarrow> Inl (Exn ETypeError ''not JSON serializable'')))
      | PStr s \<Rightarrow> Inr (PStr (take 255 s))
      | PList xs \<Rightarrow> Inr (PList (take 255 xs))
      | _ \<Rightarrow> Inl (Exn ETypeError ''not subscriptable''))"

definition ensure_list :: "pyval \<Rightarrow> pyval" where
  "ensure_list v = (case v of PNone \<Rightarrow> PList [] | PDict d \<Rightarrow> PList (map (\<lambda>(k, _). PStr k) d) | _ \<Rightarrow> v)"

text \<open>A value that is neither text nor false is a \<open>TypeError\<close> of the first conversion, which is not caught
  there.\<close>

definition validate_received :: "dto_env \<Rightarrow> pyval \<Rightarrow> pyval result" where
  "validate_received env v =
     (if \<not> truthy v then Inr (PStr (dv_now_iso env))
      else (case v of
              PStr s \<Rightarrow>
                (case dv_iso_utc env s of
                   Some t \<Rightarrow> Inr (PStr t)
                 | None \<Rightarrow>
                     (case dv_unix_utc env (rstrip_by (\<lambda>c. c = CHR ''Z'') s) of
                        Some t \<Rightarrow> Inr (PStr t)
                      | None \<Rightarrow> Inl (Exn EValueError (''Invalid date format: '' @ s))))
            | _ \<Rightarrow> Inl (Exn ETypeError ''fromisoformat: argument must be str'')))"

section \<open>Defaults\<close>

definition default_id :: "dto_env \<Rightarrow> pydict \<Rightarrow> pydict" where
  "default_id env vs = (if truthy (dict_get vs ''id'' PNone) then vs else dset ''id'' (PStr (dv_uuid env)) vs)"

definition sync_component :: "pydict \<Rightarrow> pydict" where
  "sync_component vs =
     (let component = dict_get vs ''component'' PNone; obj = dict_get vs ''object'' PNone
      in if component \<noteq> PNone \<and> obj = PNone then dset ''object'' component vs
         else if obj \<noteq> PNone \<and> component = PNone then dset ''component'' obj vs
         else if component \<noteq> PNone \<and> obj \<noteq> PNone \<and> component \<noteq> obj then dset ''object'' component vs
         else vs)"

definition default_severity :: "pyval \<Rightarrow> string" where
  "default_severity v =
     (case v of
        PInt n \<Rightarrow> (case from_number n of Inr s \<Rightarrow> s | Inl _ \<Rightarrow> ''info'')
      | PBool b \<Rightarrow> (case from_number (if b then 1 else 0) of Inr s \<Rightarrow> s | Inl _ \<Rightarrow> ''info'')
      | PStr s \<Rightarrow> if s \<in> fst ` set SEVERITIES then s else ''info''
      | _ \<Rightarrow> ''info'')"

definition one_of :: "string list \<Rightarrow> string \<Rightarrow> pyval \<Rightarrow> string" where
  "one_of allowed dflt v = (case v of PStr s \<Rightarrow> if s \<in> set allowed then s else dflt | _ \<Rightarrow> dflt)"

definition default_received :: "dto_env \<Rightarrow> pydict \<Rightarrow> pydict" where
  "default_received env vs =
     (if truthy (dict_get vs ''last_received'' PNone) then vs else dset ''last_received'' (PStr (dv_now_iso env)) vs)"

definition hashable_key :: "pyval \<Rightarrow> bool" where
  "hashable_key v = (case v of PList _ \<Rightarrow> False | PDict _ \<Rightarrow> False | _ \<Rightarrow> True)"

definition key_entry :: "pydict \<Rightarrow> pyval \<Rightarrow> pyval" where
  "key_entry d v = (case v of PStr s \<Rightarrow> dict_get d s PNone | _ \<Rightarrow> PNone)"

definition assignee_at :: "dto_env \<Rightarrow> pydict \<Rightarrow> pyval \<Rightarrow> pyval" where
  "assignee_at env assignees received =
     (if truthy (key_entry assignees received) then key_entry assignees received
      else (case received of
              PStr s \<Rightarrow> (case dv_normalized env (rstrip_by (\<lambda>c. c = CHR ''Z'') s) of
                           Some t \<Rightarrow> dict_get assignees t PNone
                         | None \<Rightarrow> key_entry assignees received)
            | _ \<Rightarrow> key_entry assignees received))"

definition pop_assignees :: "dto_env \<Rightarrow> pydict \<Rightarrow> pydict result" where
  "pop_assignees env vs =
     (let received = dict_get vs ''last_received'' PNone; assignees = dict_get vs ''assignees'' PNone;
          vs = dpop ''assignees'' vs
      in (case assignees of
            PDict (x # xs) \<Rightarrow>
              if hashable_key received then Inr (dset ''assignee'' (assignee_at env (x # xs) received) vs)
              else Inl (Exn ETypeError ''unhashable type'')
          | _ \<Rightarrow> Inr vs))"

definition set_default_values :: "dto_env \<Rightarrow> pydict \<Rightarrow> pydict result" where
  "set_default_values env vs =
     (let vs = sync_component (default_id env vs);
          vs = dset ''severity'' (PStr (default_severity (dict_get vs ''severity'' PNone))) vs;
          vs = dset ''status'' (PStr (one_of STATUSES ''firing'' (dict_get vs ''status'' PNone))) vs;
          vs = dset ''environment'' (PStr (one_of ENVIRONMENTS ''production'' (dict_get vs ''environment'' PNone))) vs
      in rbind (pop_assignees env (default_received env vs)) (\<lambda>vs. Inr (dpop ''deletedAt'' vs)))"

section \<open>Construction\<close>

text \<open>Name, alias and default; no default is a required field.\<close>

definition dto_fields :: "(string \<times> string \<times> pyval option) list" where
  "dto_fields =
     [(''id'', ''event_id'', Some PNone), (''name'', ''name'', None), (''status'', ''status'', None),
      (''severity'', ''severity'', None), (''last_received'', ''lastReceived'', Some PNone),
      (''firing_start_time'', ''firingStartTime'', Some PNone),
      (''firing_start_time_since_last_resolved'', ''firingStartTimeSinceLastResolved'', Some PNone),
      (''firing_counter'', ''firingCounter'', Some (PInt 0)), (''unresolved_counter'', ''unresolvedCounter'', Some (PInt 0)),
      (''is_full_duplicate'', ''isFullDuplicate'', Some (PBool False)),
      (''is_partial_duplicate'', ''isPartialDuplicate'', Some (PBool False)),
      (''duplicate_reason'', ''duplicateReason'', Some PNone), (''source'', ''source'', Some (PList [])),
      (''description'', ''description'', Some PNone), (''fingerprint'', ''fingerprint'', Some PNone),
      (''dismiss_until'', ''dismissUntil'', Some PNone), (''assignee'', ''assignee'', Some PNone),
      (''provider_id'', ''providerId'', Some PNone), (''provider_type'', ''providerType'', Some PNone),
      (''note'', ''note'', Some PNone), (''started_at'', ''startedAt'', Some PNone), (''incident'', ''incident'', Some PNone),
      (''object'', ''object'', Some PNone), (''component'', ''component'', Some PNone), (''site'', ''site'', Some PNone),
      (''impact'', ''impact'', Some PNone), (''runbook_url'', ''runbook_url'', Some PNone),
      (''alert_rule_url'', ''alert_rule_url'', Some PNone), (''environment'', ''environment'', Some (PStr ''production''))]"

definition before_conversion :: "dto_env \<Rightarrow> string \<Rightarrow> pyval \<Rightarrow> pydict \<Rightarrow> pyval result" where
  "before_conversion env f v vs =
     (if f = ''fingerprint'' then get_fingerprint env v vs
      else if f = ''source'' then Inr (ensure_list v)
      else if f = ''last_received'' then validate_received env v
      else Inr v)"

definition always_validated :: "string \<Rightarrow> bool" where
  "always_validated f \<longleftrightarrow> f \<in> {''fingerprint'', ''last_received''}"

text \<open>The value of a field, and the key of the input it was read from.\<close>

definition field_input :: "pydict \<Rightarrow> string \<Rightarrow> string \<Rightarrow> (string \<times> pyval) option" where
  "field_input input f alias =
     (case dget input alias of
        Some v \<Rightarrow> Some (alias, v)
      | None \<Rightarrow> (case dget input f of Some v \<Rightarrow> Some (f, v) | None \<Rightarrow> None))"

definition validate_field ::
  "dto_env \<Rightarrow> pydict \<Rightarrow> string \<times> string \<times> pyval option \<Rightarrow> pydict \<Rightarrow> pyval result" where
  "validate_field env input = (\<lambda>(f, alias, dflt) vs.
     (case (field_input input f alias, dflt) of
        (Some (k, v), _) \<Rightarrow> rbind (before_conversion env f v vs) (dv_convert env f)
      | (None, None) \<Rightarrow> Inl (Exn EValueError ''field required'')
      | (None, Some d) \<Rightarrow> if always_validated f then rbind (before_conversion env f d vs) (dv_convert env f) else Inr d))"

text \<open>The fields in their order; \<open>ok\<close> says whether all of them were valid so far.\<close>

fun validate_fields ::
  "dto_env \<Rightarrow> pydict \<Rightarrow> (string \<times> string \<times> pyval option) list \<Rightarrow> pydict \<Rightarrow> bool \<Rightarrow> bool \<times> pydict" where
  "validate_fields env input [] vs ok = (ok, vs)"
| "validate_fields env input (fd # fds) vs ok =
     (case validate_field env input fd vs of
        Inr v \<Rightarrow> validate_fields env input fds (dset (fst fd) v vs) ok
      | Inl _ \<Rightarrow> validate_fields env input fds vs False)"

definition is_used :: "pydict \<Rightarrow> string \<Rightarrow> bool" where
  "is_used input k \<longleftrightarrow> list_ex (\<lambda>(f, alias, d). map_option fst (field_input input f alias) = Some k) dto_fields"

definition alert_dto :: "dto_env \<Rightarrow> pydict \<Rightarrow> pydict result" where
  "alert_dto env event =
     (case set_default_values env event of
        Inl _ \<Rightarrow> Inl (Exn (EOther ''ValidationError'') ''AlertDto'')
      | Inr input \<Rightarrow>
          (case validate_fields env input dto_fields [] True of
             (False, _) \<Rightarrow> Inl (Exn (EOther ''ValidationError'') ''AlertDto'')
           | (True, vs) \<Rightarrow> Inr (dupdate vs (filter (\<lambda>(k, v). \<not> is_used input k) input))))"

text \<open>Equality ignores the times.\<close>

definition dto_equal :: "pydict \<Rightarrow> pydict \<Rightarrow> bool" where
  "dto_equal a b \<longleftrightarrow>
     (let strip = (\<lambda>d. dpop ''event_id'' (dpop ''started_at'' (dpop ''last_received'' d)))
      in \<forall>k \<in> fst ` set (strip a) \<union> fst ` set (strip b). dget (strip a) k = dget (strip b) k)"

section \<open>What a constructed alert looks like\<close>

definition text_field_ok :: "(string \<Rightarrow> pyval \<Rightarrow> pyval result) \<Rightarrow> string \<Rightarrow> bool" where
  "text_field_ok conv f \<longleftrightarrow> (\<forall>s. conv f (PStr s) = Inr (PStr s)) \<and> conv f PNone = Inr PNone
     \<and> (\<forall>v v'. conv f v = Inr v' \<longrightarrow> v' = PNone \<or> (\<exists>s. v' = PStr s))
     \<and> (\<forall>v v'. conv f v = Inr v' \<and> truthy v \<longrightarrow> truthy v') \<and> (\<forall>xs v. conv f (PList xs) \<noteq> Inr v)"

definition text_fields :: "string list" where
  "text_fields = [''id'', ''status'', ''severity'', ''last_received'', ''fingerprint'', ''object'', ''component'', ''environment'']"

text \<open>What the model class documents of the conversions, and what is known of digests and of formatted times.\<close>

definition dto_env_ok :: "dto_env \<Rightarrow> bool" where
  "dto_env_ok env \<longleftrightarrow>
     (\<forall>f v v'. dv_convert env f v = Inr v' \<longrightarrow> dv_convert env f v' = Inr v')
     \<and> list_all (text_field_ok (dv_convert env)) text_fields
     \<and> (\<forall>v v'. dv_convert env ''source'' v = Inr v' \<and> v \<noteq> PNone \<longrightarrow> (\<exists>xs. v' = PList xs))
     \<and> list_all (\<lambda>(f, alias, d). case d of Some v \<Rightarrow> dv_convert env f v = Inr v | None \<Rightarrow> True) dto_fields
     \<and> (\<forall>v. dv_convert env ''object'' v = dv_convert env ''component'' v)
     \<and> (\<forall>s. length (dv_sha256 env s) \<le> 255) \<and> dv_now_iso env \<noteq> [] \<and> dv_uuid env \<noteq> []
     \<and> (\<forall>s t. dv_iso_utc env s = Some t \<or> dv_unix_utc env s = Some t \<longrightarrow> t \<noteq> [] \<and> dv_iso_utc env t = Some t)"

definition dto_names :: "string list" where
  "dto_names = map fst dto_fields"

definition no_alias :: "pydict \<Rightarrow> bool" where
  "no_alias d \<longleftrightarrow> list_all (\<lambda>(f, alias, dflt). f \<noteq> alias \<longrightarrow> dget d alias = None) dto_fields"

lemma dset_given: "dget d k = Some v \<Longrightarrow> dset k v d = d"
  unfolding dset_def dget_def by (induction d) auto

lemma dpop_absent: "dget d k = None \<Longrightarrow> dpop k d = d"
  unfolding dpop_def dget_def by (induction d) auto

lemma distinct_dto_names: "distinct dto_names"
  unfolding dto_names_def dto_fields_def by simp

lemma validate_fields_valid:
  "validate_fields env input fds vs ok = (True, vs') \<Longrightarrow> distinct (map fst fds) \<Longrightarrow>
     ok \<and> (\<forall>k. k \<notin> fst ` set fds \<longrightarrow> dget vs' k = dget vs k)
     \<and> (\<forall>fd \<in> set fds. \<exists>v vs0. validate_field env input fd vs0 = Inr v \<and> dget vs' (fst fd) = Some v)"
proof (induction fds arbitrary: vs ok)
  case (Cons fd fds)
  show ?case
  proof (cases "validate_field env input fd vs")
    case (Inr v)
    with Cons.prems Cons.IH [of "dset (fst fd) v vs" ok] have
      ih: "ok" "\<And>k. k \<notin> fst ` set fds \<Longrightarrow> dget vs' k = dget (dset (fst fd) v vs) k"
        "\<forall>fd \<in> set fds. \<exists>v vs0. validate_field env input fd vs0 = Inr v \<and> dget vs' (fst fd) = Some v"
      by simp_all
    have "fst fd \<notin> fst ` set fds" using Cons.prems(2) by simp
    from ih(2) [OF this] Inr have "\<exists>v vs0. validate_field env input fd vs0 = Inr v \<and> dget vs' (fst fd) = Some v" by auto
    with ih show ?thesis by simp
  next
    case (Inl e)
    with Cons.prems Cons.IH [of vs False] show ?thesis by simp
  qed
qed simp

lemma validate_fields_known:
  "\<forall>fd \<in> set fds. \<forall>vs. validate_field env input fd vs = Inr (g (fst fd)) \<Longrightarrow>
     validate_fields env input fds vs ok = (ok, fold (\<lambda>fd. dset (fst fd) (g (fst fd))) fds vs)"
  by (induction fds arbitrary: vs) simp_all

lemma dget_fold_known:
  "dget (fold (\<lambda>fd. dset (fst fd) (g (fst fd))) fds vs) k = (if k \<in> fst ` set fds then Some (g k) else dget vs k)"
  by (induction fds arbitrary: vs) auto

lemma field_input_name:
  assumes "no_alias input" "(f, alias, dflt) \<in> set dto_fields"
  shows "field_input input f alias = map_option (\<lambda>v. (f, v)) (dget input f)"
  using assms by (auto simp: no_alias_def list_all_iff field_input_def split: option.split)

lemma is_used_name:
  assumes "no_alias input" "dget input k \<noteq> None"
  shows "is_used input k \<longleftrightarrow> k \<in> set dto_names"
proof
  assume "is_used input k"
  then obtain f al d where "(f, al, d) \<in> set dto_fields" "map_option fst (field_input input f al) = Some k"
    by (auto simp: is_used_def list_ex_iff)
  with field_input_name [OF assms(1)] show "k \<in> set dto_names"
    by (auto simp: dto_names_def image_iff) (metis fst_conv)
next
  assume "k \<in> set dto_names"
  then obtain al d where k: "(k, al, d) \<in> set dto_fields" by (auto simp: dto_names_def)
  with field_input_name [OF assms(1) this] assms(2) show "is_used input k"
    unfolding is_used_def list_ex_iff by (intro bexI [of _ "(k, al, d)"]) auto
qed

lemma dget_extras:
  assumes "wf_dict input" "no_alias input"
  shows "dget (dupdate vs (filter (\<lambda>(k, v). \<not> is_used input k) input)) k
      = (if k \<notin> set dto_names \<and> dget input k \<noteq> None then dget input k else dget vs k)"
proof -
  let ?e = "filter (\<lambda>(k, v). \<not> is_used input k) input"
  have wf: "wf_dict ?e"
    using assms(1) by (auto simp: wf_dict_def distinct_map intro: inj_on_subset)
  have "map_of (filter (\<lambda>(k, v). \<not> P k) d) k = (if P k then None else map_of d k)" for P and d :: pydict
    by (induction d) auto
  then have "dget ?e k = (if is_used input k then None else dget input k)"
    by (simp add: dget_def)
  with is_used_name [OF assms(2), of k] show ?thesis
    by (auto simp: dget_dupdate_wf [OF wf] split: option.split)
qed

lemma alert_dto_split:
  assumes "alert_dto env event = Inr a"
  obtains input vs where "set_default_values env event = Inr input"
    "validate_fields env input dto_fields [] True = (True, vs)"
    "a = dupdate vs (filter (\<lambda>(k, v). \<not> is_used input k) input)"
proof -
  obtain input where i: "set_default_values env event = Inr input"
    using assms by (cases "set_default_values env event") (auto simp: alert_dto_def)
  obtain ok vs where v: "validate_fields env input dto_fields [] True = (ok, vs)" by fastforce
  with assms i that show ?thesis by (cases ok) (auto simp: alert_dto_def)
qed

section \<open>The defaults\<close>

definition own_keys :: "string list" where
  "own_keys = [''id'', ''object'', ''component'', ''severity'', ''status'', ''environment'', ''last_received'', ''assignee'',
     ''assignees'', ''deletedAt'']"

lemma wf_default_steps:
  "wf_dict d \<Longrightarrow> wf_dict (default_id env d)" "wf_dict d \<Longrightarrow> wf_dict (sync_component d)"
  "wf_dict d \<Longrightarrow> wf_dict (default_received env d)" "pop_assignees env d = Inr d' \<Longrightarrow> wf_dict d \<Longrightarrow> wf_dict d'"
  by (auto simp: default_id_def sync_component_def default_received_def pop_assignees_def Let_def
      split: pyval.splits list.splits if_splits)

lemma default_steps_other:
  "k \<notin> set own_keys \<Longrightarrow> dget (default_id env d) k = dget d k"
  "k \<notin> set own_keys \<Longrightarrow> dget (sync_component d) k = dget d k"
  "k \<notin> set own_keys \<Longrightarrow> dget (default_received env d) k = dget d k"
  "pop_assignees env d = Inr d' \<Longrightarrow> k \<notin> set own_keys \<Longrightarrow> dget d' k = dget d k"
  by (auto simp: own_keys_def default_id_def sync_component_def default_received_def pop_assignees_def Let_def
      split: pyval.splits list.splits if_splits)

definition before_pop :: "dto_env \<Rightarrow> pydict \<Rightarrow> pydict" where
  "before_pop env vs =
     (let vs = sync_component (default_id env vs);
          vs = dset ''severity'' (PStr (default_severity (dict_get vs ''severity'' PNone))) vs;
          vs = dset ''status'' (PStr (one_of STATUSES ''firing'' (dict_get vs ''status'' PNone))) vs
      in default_received env
           (dset ''environment'' (PStr (one_of ENVIRONMENTS ''production'' (dict_get vs ''environment'' PNone))) vs))"

lemma set_default_values_pop:
  "set_default_values env event = rbind (pop_assignees env (before_pop env event)) (\<lambda>vs. Inr (dpop ''deletedAt'' vs))"
  by (simp add: set_default_values_def before_pop_def Let_def)

lemma set_default_values_split:
  assumes "set_default_values env event = Inr input"
  obtains d where "pop_assignees env (before_pop env event) = Inr d" "input = dpop ''deletedAt'' d"
  using assms by (auto simp: set_default_values_pop rbind_Inr_iff)

lemma wf_before_pop: "wf_dict event \<Longrightarrow> wf_dict (before_pop env event)"
  by (simp add: before_pop_def Let_def wf_default_steps)

lemma before_pop_other: "k \<notin> set own_keys \<Longrightarrow> dget (before_pop env event) k = dget event k"
  by (simp add: before_pop_def Let_def default_steps_other) (auto simp: own_keys_def default_steps_other)

lemma set_default_values_other:
  assumes "set_default_values env event = Inr input" "k \<notin> set own_keys"
  shows "dget input k = dget event k"
proof -
  obtain d where "pop_assignees env (before_pop env event) = Inr d" "input = dpop ''deletedAt'' d"
    using assms(1) by (rule set_default_values_split)
  with default_steps_other(4) [OF this(1) assms(2)] before_pop_other [OF assms(2)] assms(2) show ?thesis
    by (auto simp: own_keys_def)
qed

lemma set_default_values_wf: "set_default_values env event = Inr input \<Longrightarrow> wf_dict event \<Longrightarrow> wf_dict input"
  by (erule set_default_values_split) (auto intro: wf_default_steps(4) wf_before_pop)

lemma set_default_values_no_alias:
  assumes "set_default_values env event = Inr input" "no_alias event"
  shows "no_alias input"
proof -
  have "list_all (\<lambda>(f, al, d). f \<noteq> al \<longrightarrow> al \<notin> set own_keys) dto_fields" by code_simp
  then show ?thesis
    using assms(2) set_default_values_other [OF assms(1)] by (simp add: no_alias_def list_all_iff split_beta)
qed

definition defaults_set :: "pydict \<Rightarrow> bool" where
  "defaults_set d \<longleftrightarrow> truthy (dict_get d ''id'' PNone)
     \<and> (\<exists>s. dget d ''severity'' = Some (PStr s) \<and> s \<in> fst ` set SEVERITIES)
     \<and> (\<exists>s. dget d ''status'' = Some (PStr s) \<and> s \<in> set STATUSES)
     \<and> (\<exists>s. dget d ''environment'' = Some (PStr s) \<and> s \<in> set ENVIRONMENTS)
     \<and> truthy (dict_get d ''last_received'' PNone)
     \<and> dict_get d ''object'' PNone = dict_get d ''component'' PNone"

lemma default_severity_in: "default_severity v \<in> fst ` set SEVERITIES"
proof -
  have "s \<in> fst ` set SEVERITIES" if "from_number n = Inr s" for n s
    using that find_in_set [of "\<lambda>(s, k). k = n" SEVERITIES] by (force simp: from_number_def split: option.splits)
  moreover have "''info'' \<in> fst ` set SEVERITIES" by (simp add: SEVERITIES_def)
  ultimately show ?thesis by (auto simp: default_severity_def split: pyval.splits sum.splits)
qed

lemma one_of_in: "dflt \<in> set allowed \<Longrightarrow> one_of allowed dflt v \<in> set allowed"
  by (simp add: one_of_def split: pyval.split)

lemma sync_component_equal:
  "dict_get (sync_component d) ''object'' PNone = dict_get (sync_component d) ''component'' PNone"
  by (auto simp: sync_component_def Let_def dict_get_def)

lemma sync_component_id: "dict_get (sync_component d) ''id'' PNone = dict_get d ''id'' PNone"
  by (auto simp: sync_component_def Let_def dict_get_def)

lemma before_pop_defaults:
  assumes "dto_env_ok env"
  shows "defaults_set (before_pop env event)"
proof -
  let ?d = "sync_component (default_id env event)"
  have "truthy (dict_get ?d ''id'' PNone)"
    using assms by (simp add: sync_component_id) (auto simp: default_id_def dict_get_def dto_env_ok_def)
  moreover have "dict_get ?d ''object'' PNone = dict_get ?d ''component'' PNone" by (rule sync_component_equal)
  moreover have "''firing'' \<in> set STATUSES" "''production'' \<in> set ENVIRONMENTS" by (simp_all add: STATUSES_def ENVIRONMENTS_def)
  ultimately show ?thesis
    using assms default_severity_in one_of_in
    by (simp add: defaults_set_def before_pop_def Let_def default_received_def dict_get_def dto_env_ok_def)
qed

lemma set_default_values_set:
  assumes "dto_env_ok env" "set_default_values env event = Inr input"
  shows "defaults_set input" "dget input ''assignees'' = None" "dget input ''deletedAt'' = None"
proof -
  obtain d where d: "pop_assignees env (before_pop env event) = Inr d" "input = dpop ''deletedAt'' d"
    using assms(2) by (rule set_default_values_split)
  have k: "dget d k = dget (before_pop env event) k" if "k \<noteq> ''assignee''" "k \<noteq> ''assignees''" for k
    using d(1) that by (auto simp: pop_assignees_def Let_def split: pyval.splits list.splits if_splits)
  have "dget d ''assignees'' = None"
    using d(1) by (auto simp: pop_assignees_def Let_def split: pyval.splits list.splits if_splits)
  with d(2) show "dget input ''assignees'' = None" "dget input ''deletedAt'' = None" by simp_all
  show "defaults_set input"
    using before_pop_defaults [OF assms(1), of event] d(2) by (simp add: defaults_set_def dict_get_def k)
qed

text \<open>An alert's dictionary already has its defaults.\<close>

lemma set_default_values_id:
  assumes "defaults_set a" "dget a ''assignees'' = None" "dget a ''deletedAt'' = None"
  shows "set_default_values env a = Inr a"
proof -
  from assms(1) obtain s t e where v: "dget a ''severity'' = Some (PStr s)" "dget a ''status'' = Some (PStr t)"
      "dget a ''environment'' = Some (PStr e)" "s \<in> fst ` set SEVERITIES" "t \<in> set STATUSES" "e \<in> set ENVIRONMENTS"
    by (auto simp: defaults_set_def)
  have "default_id env a = a" using assms(1) by (simp add: default_id_def defaults_set_def)
  moreover have "sync_component a = a" using assms(1) by (simp add: sync_component_def Let_def defaults_set_def)
  moreover have "default_severity (dict_get a ''severity'' PNone) = s" "one_of STATUSES ''firing'' (dict_get a ''status'' PNone) = t"
      "one_of ENVIRONMENTS ''production'' (dict_get a ''environment'' PNone) = e"
    using v by (simp_all add: default_severity_def one_of_def dict_get_def)
  moreover have "default_received env a = a" using assms(1) by (simp add: default_received_def defaults_set_def)
  ultimately have "before_pop env a = a" using v by (simp add: before_pop_def Let_def dset_given)
  then show ?thesis
    using assms by (simp add: set_default_values_pop pop_assignees_def Let_def dict_get_def dpop_absent)
qed

section \<open>Round trip\<close>

lemma converted_twice: "dto_env_ok env \<Longrightarrow> dv_convert env f v = Inr v' \<Longrightarrow> dv_convert env f v' = Inr v'"
  unfolding dto_env_ok_def by blast

lemma text_fieldD:
  assumes "dto_env_ok env" "f \<in> set text_fields"
  shows "dv_convert env f (PStr s) = Inr (PStr s)" "dv_convert env f v = Inr v' \<Longrightarrow> v' = PNone \<or> (\<exists>s. v' = PStr s)"
    "dv_convert env f v = Inr v' \<Longrightarrow> truthy v \<Longrightarrow> truthy v'" "dv_convert env f (PList xs) \<noteq> Inr v"
  using assms unfolding dto_env_ok_def list_all_iff text_field_ok_def by blast+

lemma fingerprint_value:
  assumes "dto_env_ok env" "rbind (get_fingerprint env u vs0) (dv_convert env ''fingerprint'') = Inr v"
  shows "\<exists>s. v = PStr s \<and> length s \<le> 255"
proof -
  have t: "''fingerprint'' \<in> set text_fields" by (simp add: text_fields_def)
  have "length (dv_sha256 env s) \<le> 255" for s using assms(1) by (simp add: dto_env_ok_def)
  with assms(2) text_fieldD(1,4) [OF assms(1) t] show ?thesis
    by (auto simp: get_fingerprint_def rbind_Inr_iff split: pyval.splits list.splits if_splits option.splits)
qed

lemma received_value:
  assumes "dto_env_ok env" "truthy u" "rbind (validate_received env u) (dv_convert env ''last_received'') = Inr v"
  shows "\<exists>s. v = PStr s \<and> s \<noteq> [] \<and> dv_iso_utc env s = Some s"
proof -
  have t: "''last_received'' \<in> set text_fields" by (simp add: text_fields_def)
  have "dv_iso_utc env s = Some t \<Longrightarrow> t \<noteq> [] \<and> dv_iso_utc env t = Some t"
      "dv_unix_utc env s = Some t \<Longrightarrow> t \<noteq> [] \<and> dv_iso_utc env t = Some t" for s t
    using assms(1) unfolding dto_env_ok_def by blast+
  with assms(2,3) text_fieldD(1) [OF assms(1) t] show ?thesis
    by (auto simp: validate_received_def rbind_Inr_iff split: pyval.splits option.splits)
qed

lemma source_value:
  assumes "dto_env_ok env" "dv_convert env ''source'' (ensure_list u) = Inr v"
  shows "\<exists>xs. v = PList xs"
proof -
  have "ensure_list u \<noteq> PNone" by (auto simp: ensure_list_def split: pyval.split)
  with assms show ?thesis unfolding dto_env_ok_def by blast
qed

lemma field_value_kept:
  assumes env: "dto_env_ok env" and fd: "(f, al, d) \<in> set dto_fields" and inp: "no_alias input" "defaults_set input"
    and v: "validate_field env input (f, al, d) vs0 = Inr v"
  shows "rbind (before_conversion env f v vs) (dv_convert env f) = Inr v"
proof -
  note fi = field_input_name [OF inp(1) fd]
  have received: "dget input ''last_received'' = Some u \<Longrightarrow> truthy u" "dget input ''last_received'' \<noteq> None" for u
    using inp(2) by (auto simp: defaults_set_def dict_get_def split: option.splits)
  consider (fp) "f = ''fingerprint''" | (src) "f = ''source''" | (rec) "f = ''last_received''"
    | (other) "f \<notin> {''fingerprint'', ''source'', ''last_received''}" by blast
  then show ?thesis
  proof cases
    case fp
    have "d = Some PNone" using fd fp by (auto simp: dto_fields_def)
    with v fi fp obtain u where "rbind (get_fingerprint env u vs0) (dv_convert env ''fingerprint'') = Inr v"
      by (auto simp: validate_field_def before_conversion_def always_validated_def split: option.splits)
    from fingerprint_value [OF env this] obtain s where "v = PStr s" "length s \<le> 255" by blast
    with fp text_fieldD(1) [OF env, of "''fingerprint''" s] show ?thesis
      by (simp add: before_conversion_def get_fingerprint_def rbind_def text_fields_def)
  next
    case src
    have d: "d = Some (PList [])" using fd src by (auto simp: dto_fields_def)
    have "dv_convert env ''source'' (PList []) = Inr (PList [])"
      using env fd unfolding src d dto_env_ok_def list_all_iff by force
    with v fi src d have "\<exists>u. dv_convert env ''source'' (ensure_list u) = Inr v"
      by (cases "dget input ''source''")
        (auto simp: validate_field_def before_conversion_def always_validated_def rbind_def ensure_list_def intro: exI [of _ PNone])
    then obtain u where "dv_convert env ''source'' (ensure_list u) = Inr v" by blast
    from source_value [OF env this] converted_twice [OF env this] show ?thesis
      by (auto simp: src before_conversion_def ensure_list_def rbind_def)
  next
    case rec
    from received(2) v fi rec obtain u where
      "rbind (validate_received env u) (dv_convert env ''last_received'') = Inr v" "dget input ''last_received'' = Some u"
      by (auto simp: validate_field_def before_conversion_def always_validated_def split: option.splits)
    with received_value [OF env received(1)] obtain s where "v = PStr s" "s \<noteq> []" "dv_iso_utc env s = Some s" by blast
    with rec text_fieldD(1) [OF env, of "''last_received''" s] show ?thesis
      by (simp add: before_conversion_def validate_received_def rbind_def text_fields_def)
  next
    case other
    then have b: "before_conversion env f u vs' = Inr u" for u vs' by (simp add: before_conversion_def)
    from v fi other consider u where "dv_convert env f u = Inr v" | "d = Some v"
      by (auto simp: validate_field_def b rbind_def always_validated_def split: option.splits)
    then have "dv_convert env f v = Inr v"
    proof cases
      case 1
      then show ?thesis by (rule converted_twice [OF env])
    next
      case 2
      with env fd show ?thesis unfolding dto_env_ok_def list_all_iff by force
    qed
    with b show ?thesis by (simp add: rbind_def)
  qed
qed

lemma alert_dto_value:
  assumes "dto_env_ok env" "wf_dict event" "no_alias event" "alert_dto env event = Inr a" "set_default_values env event = Inr input"
  shows "fd \<in> set dto_fields \<Longrightarrow> \<exists>v vs0. validate_field env input fd vs0 = Inr v \<and> dget a (fst fd) = Some v"
    and "k \<notin> set dto_names \<Longrightarrow> dget a k = dget input k"
proof -
  obtain vs where vs: "validate_fields env input dto_fields [] True = (True, vs)"
      "a = dupdate vs (filter (\<lambda>(k, v). \<not> is_used input k) input)"
    using alert_dto_split [OF assms(4)] assms(5) by (metis sum.inject(2))
  have na: "no_alias input" "wf_dict input"
    using set_default_values_no_alias set_default_values_wf assms by blast+
  note e = dget_extras [OF na(2,1), of vs, folded vs(2)]
  note f = validate_fields_valid [OF vs(1) distinct_dto_names [unfolded dto_names_def]]
  show "\<exists>v vs0. validate_field env input fd vs0 = Inr v \<and> dget a (fst fd) = Some v" if "fd \<in> set dto_fields"
    using f that e [of "fst fd"] by (auto simp: dto_names_def)
  show "dget a k = dget input k" if "k \<notin> set dto_names"
    using f that e [of k] by (auto simp: dto_names_def dget_def)
qed

lemma validate_fields_wf: "validate_fields env input fds vs ok = (b, vs') \<Longrightarrow> wf_dict vs \<Longrightarrow> wf_dict vs'"
  by (induction fds arbitrary: vs ok) (auto split: sum.splits)

lemma alert_dto_wf: "alert_dto env event = Inr a \<Longrightarrow> wf_dict a"
  by (erule alert_dto_split) (auto dest!: validate_fields_wf simp: wf_dict_def [of "[]"])

lemma named_value:
  assumes "no_alias input" "(f, al, d) \<in> set dto_fields" "validate_field env input (f, al, d) vs0 = Inr v"
    "f \<notin> {''fingerprint'', ''source'', ''last_received''}"
  shows "(dget input f = None \<and> d = Some v) \<or> (\<exists>u. dget input f = Some u \<and> dv_convert env f u = Inr v)"
  using assms field_input_name [OF assms(1,2)]
  by (auto simp: validate_field_def before_conversion_def always_validated_def rbind_def split: option.splits)

lemma alert_dto_defaults:
  assumes env: "dto_env_ok env" "wf_dict event" "no_alias event" "alert_dto env event = Inr a"
    and inp: "set_default_values env event = Inr input"
  shows "defaults_set a"
proof -
  have na: "no_alias input" "defaults_set input"
    using set_default_values_no_alias [OF inp env(3)] set_default_values_set(1) [OF env(1) inp] by blast+
  have plain: "(dget input f = None \<and> dget a f = d) \<or> (\<exists>u v. dget input f = Some u \<and> dv_convert env f u = Inr v \<and> dget a f = Some v)"
    if fd: "(f, al, d) \<in> set dto_fields" "f \<notin> {''fingerprint'', ''source'', ''last_received''}" for f al d
    using alert_dto_value(1) [OF env inp fd(1)] named_value [OF na(1) fd(1) _ fd(2)] by fastforce
  have kept: "dget a f = Some (PStr s)"
    if "dget input f = Some (PStr s)" "f \<in> set text_fields" "(f, al, d) \<in> set dto_fields" "f \<notin> {''fingerprint'', ''source'', ''last_received''}" for f s al d
    using plain [OF that(3,4)] text_fieldD(1) [OF env(1) that(2)] that(1) by auto
  have "truthy (dict_get a ''id'' PNone)"
    using plain [of "''id''" "''event_id''" "Some PNone"] na(2) text_fieldD(3) [OF env(1), of "''id''"]
    by (auto simp: dto_fields_def text_fields_def defaults_set_def dict_get_def)
  moreover have "dict_get a ''object'' PNone = dict_get a ''component'' PNone"
  proof -
    have "dv_convert env ''object'' v = dv_convert env ''component'' v" "dv_convert env ''component'' PNone = Inr PNone" for v
      using env(1) by (simp_all add: dto_env_ok_def text_fields_def text_field_ok_def)
    with plain [of "''object''" "''object''" "Some PNone"] plain [of "''component''" "''component''" "Some PNone"] na(2)
    show ?thesis by (auto simp: dto_fields_def defaults_set_def dict_get_def split: option.splits)
  qed
  moreover have "truthy (dict_get a ''last_received'' PNone)"
  proof -
    obtain v vs0 where v: "validate_field env input (''last_received'', ''lastReceived'', Some PNone) vs0 = Inr v"
        "dget a ''last_received'' = Some v"
      using alert_dto_value(1) [OF env inp, of "(''last_received'', ''lastReceived'', Some PNone)"] by (auto simp: dto_fields_def)
    from na(2) obtain u where "dget input ''last_received'' = Some u" "truthy u"
      by (auto simp: defaults_set_def dict_get_def split: option.splits)
    with v(1) field_input_name [OF na(1), of "''last_received''" "''lastReceived''" "Some PNone"]
    have "rbind (validate_received env u) (dv_convert env ''last_received'') = Inr v"
      by (simp add: validate_field_def before_conversion_def dto_fields_def)
    from received_value [OF env(1) \<open>truthy u\<close> this] v(2) show ?thesis by (auto simp: dict_get_def)
  qed
  moreover have "\<exists>s. dget a ''severity'' = Some (PStr s) \<and> s \<in> fst ` set SEVERITIES"
    using na(2) kept [of "''severity''" _ "''severity''" None] by (auto simp: defaults_set_def dto_fields_def text_fields_def)
  moreover have "\<exists>s. dget a ''status'' = Some (PStr s) \<and> s \<in> set STATUSES"
    using na(2) kept [of "''status''" _ "''status''" None] by (auto simp: defaults_set_def dto_fields_def text_fields_def)
  moreover have "\<exists>s. dget a ''environment'' = Some (PStr s) \<and> s \<in> set ENVIRONMENTS"
    using na(2) kept [of "''environment''" _ "''environment''" "Some (PStr ''production'')"]
    by (auto simp: defaults_set_def dto_fields_def text_fields_def)
  ultimately show ?thesis unfolding defaults_set_def by blast
qed


definition demo_convert :: "string \<Rightarrow> pyval \<Rightarrow> pyval result" where
  "demo_convert f v =
     (if f = ''source'' then (case v of PList xs \<Rightarrow> Inr v | _ \<Rightarrow> Inl (Exn ETypeError ''list''))
      else if f \<in> {''firing_counter'', ''unresolved_counter'', ''is_full_duplicate'', ''is_partial_duplicate''} then Inr v
      else (case v of PNone \<Rightarrow> Inr PNone | PStr s \<Rightarrow> Inr (PStr s) | PInt i \<Rightarrow> Inr (PStr (show_int i))
            | _ \<Rightarrow> Inl (Exn ETypeError ''str'')))"

definition demo_dto_env :: dto_env where
  "demo_dto_env = \<lparr>dv_now_iso = ''2024'', dv_uuid = ''u1'', dv_sha256 = take 64, dv_iso_utc = (\<lambda>s. if s = [] then None else Some s),
     dv_unix_utc = (\<lambda>_. None), dv_normalized = Some, dv_convert = demo_convert\<rparr>"

lemma show_int_nonempty: "show_int i \<noteq> []"
  by (simp add: show_int_def)

lemma demo_dto_env_ok: "dto_env_ok demo_dto_env"
proof -
  have "list_all (\<lambda>f. f \<notin> {''source'', ''firing_counter'', ''unresolved_counter'', ''is_full_duplicate'', ''is_partial_duplicate''}) text_fields"
    by code_simp
  moreover have "text_field_ok demo_convert f"
    if "f \<notin> {''source'', ''firing_counter'', ''unresolved_counter'', ''is_full_duplicate'', ''is_partial_duplicate''}" for f
    using that show_int_nonempty by (auto simp: text_field_ok_def demo_convert_def split: pyval.splits)
  ultimately have "list_all (text_field_ok demo_convert) text_fields" by (simp add: list_all_iff)
  moreover have "list_all (\<lambda>(f, alias, d). case d of Some v \<Rightarrow> demo_convert f v = Inr v | None \<Rightarrow> True) dto_fields"
    by code_simp
  moreover have "demo_convert f v = Inr v' \<Longrightarrow> demo_convert f v' = Inr v'" for f v v'
    by (auto simp: demo_convert_def split: pyval.splits if_splits)
  ultimately show ?thesis
    by (auto simp: dto_env_ok_def demo_dto_env_def demo_convert_def [of "''object''"] demo_convert_def [of "''component''"]
        demo_convert_def [of "''source''"] split: pyval.splits if_splits)
qed

definition demo_payload_event :: pydict where
  "demo_payload_event = [(''name'', PStr ''disk''), (''severity'', PInt 5), (''object'', PStr ''db1''), (''labels'', PDict [(''a'', PInt 1)])]"

definition demo_built :: pydict where
  "demo_built = (case alert_dto demo_dto_env demo_payload_event of Inr a \<Rightarrow> a | Inl _ \<Rightarrow> [])"


end
