(* ===== verification/EventPipeline.thy ===== *)
theory EventPipeline
  imports Frames Deduplicator WorkflowManager NotifyCoalescer ErrorStormGuard AlertModel
begin

text \<open>
  The processing of one event from its arrival to the notification of the clients (\<open>process_event\<close>,
  \<open>__handle_formatted_events\<close>, \<open>__internal_prepartion\<close>, \<open>__save_error_alerts\<close> and \<open>_notify_client\<close> in
  \<open>src/common/event_management/process_event_task.py\<close>), with the formatting of alerts by providers
  (\<open>format_alert\<close> in \<open>src/providers/base/base_provider.py\<close>), the notification cache and the table of alert fields.
  The maintenance windows, the deduplicator, the save, the workflow manager, the rules engine and the notifier
  are those of their own theories.  Form bodies, which become dictionaries before, are left out, and so is the push
  to Elasticsearch, whose exceptions are caught.  A provider that cannot be loaded or parsed leaves the event as it
  is, and so does \<open>parse_event_raw_body\<close>, which no provider overrides.
\<close>

section \<open>Formatting by providers\<close>

datatype event_value = EvDict pydict | EvDto pydict | EvList "event_value list" | EvStr string | EvNone

definition PROVIDER_MODULES :: "string list" where
  "PROVIDER_MODULES = [''bash'', ''console'', ''http'', ''keep'', ''mock'', ''postgres'', ''python'']"

definition get_provider_class :: "string option \<Rightarrow> string result" where
  "get_provider_class provider_type =
     (case provider_type of
        None \<Rightarrow> Inl (Exn EAttributeError ''split'')
      | Some t \<Rightarrow>
          (case py_split ''.'' t of
             p # subs \<Rightarrow>
               if p \<notin> set PROVIDER_MODULES then Inl (Exn (EOther ''ModuleNotFoundError'') p)
               else if subs = [] then Inr p else Inl (Exn EAttributeError p)
           | [] \<Rightarrow> Inl (Exn (EOther ''ModuleNotFoundError'') [])))"

text \<open>The class methods \<open>_format_alert\<close>: only the one of \<open>KeepProvider\<close> is implemented.\<close>

definition format_alert_impl :: "dto_env \<Rightarrow> string \<Rightarrow> event_value \<Rightarrow> pydict list option result" where
  "format_alert_impl env cls event =
     (if cls \<noteq> ''keep'' then Inl (Exn (EOther ''NotImplementedError'') ''format_alert() method not implemented'')
      else (case event of
              EvDict d \<Rightarrow> rbind (alert_dto env d) (\<lambda>a. Inr (Some [a]))
            | _ \<Rightarrow> Inl (Exn ETypeError ''argument after ** must be a mapping'')))"

fun sort_value :: "pyval \<Rightarrow> pyval" and sort_entries :: "pydict \<Rightarrow> pydict" where
  "sort_value (PDict d) = PDict (sorted_items (sort_entries d))"
| "sort_value (PList xs) = PList (map sort_value xs)"
| "sort_value v = v"
| "sort_entries [] = []"
| "sort_entries ((k, v) # d) = (k, sort_value v) # sort_entries d"

fun walk_keys :: "pyval \<Rightarrow> string list \<Rightarrow> pyval" where
  "walk_keys v [] = v"
| "walk_keys (PDict d) (k # ks) = walk_keys (dict_get d k PNone) ks"
| "walk_keys v (k # ks) = PNone"

definition fingerprint_part :: "pydict \<Rightarrow> string \<Rightarrow> string result" where
  "fingerprint_part alert f =
     (let v = walk_keys (PDict alert) (py_split ''.'' f);
          text = (case v of
             PList xs \<Rightarrow> json_dumps (sort_value v) | PDict d \<Rightarrow> json_dumps (sort_value v)
           | PNone \<Rightarrow> Some [] | _ \<Rightarrow> Some (py_str v))
      in (case text of Some s \<Rightarrow> Inr s | None \<Rightarrow> Inl (Exn ETypeError ''not JSON serializable'')))"

definition get_alert_fingerprint :: "dto_env \<Rightarrow> pydict \<Rightarrow> string list \<Rightarrow> pyval result" where
  "get_alert_fingerprint env alert fs =
     (if fs = [] then Inr (dict_get alert ''name'' PNone)
      else rbind (rmap (fingerprint_part alert) fs) (\<lambda>parts. Inr (PStr (dv_sha256 env (concat parts)))))"

definition with_provider :: "string option \<Rightarrow> string option \<Rightarrow> pydict \<Rightarrow> pydict" where
  "with_provider provider_id provider_type a =
     dset ''provider_type'' (opt_pstr provider_type) (dset ''provider_id'' (opt_pstr provider_id) a)"

text \<open>A null provider type equals no rule's.\<close>

definition format_alert ::
  "dto_env \<Rightarrow> string \<Rightarrow> string \<Rightarrow> string option \<Rightarrow> string option \<Rightarrow> dedup_db \<Rightarrow> event_value \<Rightarrow> event_value result" where
  "format_alert env cls tenant_id provider_type provider_id db event =
     (case format_alert_impl env cls event of
        Inl e \<Rightarrow> Inl e
      | Inr None \<Rightarrow> Inr EvNone
      | Inr (Some alerts) \<Rightarrow>
          rbind (case provider_type of None \<Rightarrow> Inr None
                 | Some t \<Rightarrow> get_custom_deduplication_rule tenant_id provider_id t db) (\<lambda>rule.
            let alerts = map (with_provider provider_id provider_type) alerts
            in (case rule of
                  None \<Rightarrow> Inr (EvList (map EvDto alerts))
                | Some r \<Rightarrow>
                    rbind (rmap (\<lambda>a. rbind (get_alert_fingerprint env a (dr_fingerprint_fields r)) (\<lambda>fp.
                        Inr (EvDto (dset ''fingerprint'' fp a)))) alerts) (\<lambda>es. Inr (EvList es)))))"

section \<open>Alert fields\<close>

record alert_field =
  af_tenant_id :: string
  af_field_name :: string
  af_provider_id :: "string option"
  af_provider_type :: "string option"

definition event_fields :: "pydict \<Rightarrow> string list" where
  "event_fields e = concat (map (\<lambda>(k, v). case v of PDict d \<Rightarrow> map (\<lambda>(n, _). k @ ''.'' @ n) d | _ \<Rightarrow> [k]) e)"

definition upsert_field :: "string \<Rightarrow> string option \<Rightarrow> string option \<Rightarrow> string \<Rightarrow> alert_field list \<Rightarrow> alert_field list" where
  "upsert_field tenant_id pid pt f table =
     (if list_ex (\<lambda>r. af_tenant_id r = tenant_id \<and> af_field_name r = f) table
      then map (\<lambda>r. if af_tenant_id r = tenant_id \<and> af_field_name r = f then r\<lparr>af_provider_id := pid, af_provider_type := pt\<rparr> else r) table
      else table @ [\<lparr>af_tenant_id = tenant_id, af_field_name = f, af_provider_id = pid, af_provider_type = pt\<rparr>])"

definition quoted_text :: "string \<Rightarrow> string option \<Rightarrow> string option" where
  "quoted_text dialect s = (if dialect = ''mssql'' then Some (fmt_opt s) else s)"

text \<open>The first argument counts the attempts left; \<open>faults n\<close> is the exception of the statement in attempt
  \<open>n\<close>, if any.  After the last deadlock the function returns without having written.\<close>

fun upsert_attempts ::
  "nat \<Rightarrow> nat \<Rightarrow> (nat \<Rightarrow> exn option) \<Rightarrow> string \<Rightarrow> (alert_field list \<Rightarrow> alert_field list) \<Rightarrow> alert_field list
     \<Rightarrow> unit result \<times> alert_field list" where
  "upsert_attempts 0 i faults dialect write table = (Inr (), table)"
| "upsert_attempts (Suc n) i faults dialect write table =
     (if dialect \<notin> {''postgresql'', ''mysql'', ''sqlite'', ''mssql''} then
        (Inl (Exn (EOther ''NotImplementedError'') (''Upsert not supported for '' @ dialect)), table)
      else (case faults i of
              None \<Rightarrow> (Inr (), write table)
            | Some e \<Rightarrow>
                if exn_kind e = EOther ''OperationalError'' \<and> contains_sub ''Deadlock found'' (exn_msg e)
                then upsert_attempts n (Suc i) faults dialect write table
                else (Inl e, table)))"

definition bulk_upsert_alert_fields ::
  "(nat \<Rightarrow> exn option) \<Rightarrow> string \<Rightarrow> string \<Rightarrow> string list \<Rightarrow> string option \<Rightarrow> string option \<Rightarrow> alert_field list
     \<Rightarrow> unit result \<times> alert_field list" where
  "bulk_upsert_alert_fields faults dialect tenant_id fs provider_id provider_type table =
     upsert_attempts 3 0 faults dialect
       (fold (upsert_field tenant_id (quoted_text dialect provider_id) (quoted_text dialect provider_type)) fs) table"

section \<open>Environment and state\<close>

record provider_row =
  pr_id :: string
  pr_tenant_id :: string
  pr_name :: string
  pr_type :: string

definition get_provider_by_name :: "string \<Rightarrow> string \<Rightarrow> provider_row list \<Rightarrow> provider_row option" where
  "get_provider_by_name tenant_id name rows = find (\<lambda>p. pr_tenant_id p = tenant_id \<and> pr_name p = name) rows"

text \<open>\<open>pp_extract_other\<close> are the logs of the extraction rules for a list or a text, which they cannot change;
  \<open>pp_format_trace\<close> is the stack trace of an exception raised in a formatting function.\<close>

record 'p pipe_env =
  pp_save :: "'p save_env"
  pp_windows_enabled :: bool
  pp_windows :: "'p mw_env"
  pp_window_table :: "mw_rule list"
  pp_dedup :: dedup_env
  pp_fields_enabled :: bool
  pp_dialect :: string
  pp_field_faults :: "nat \<Rightarrow> exn option"
  pp_mgr :: mgr_env
  pp_correlation :: bool
  pp_rules :: "rule list"
  pp_coalesce :: bool
  pp_max_pending :: nat
  pp_api_url :: string
  pp_clock :: int
  pp_interval :: int
  pp_dto :: dto_env
  pp_providers :: "provider_row list"
  pp_session :: "exn option"
  pp_error_session :: "exn option"
  pp_format_trace :: "exn \<Rightarrow> string option"
  pp_sha1 :: "string \<Rightarrow> string"
  pp_extract_other :: "event_value \<Rightarrow> enrich_world \<Rightarrow> enrich_world"

record event_world = save_world +
  pw_dedup :: dedup_db
  pw_fields :: "alert_field list"
  pw_mgr :: mgr
  pw_sent :: "(string \<times> string) list"
  pw_notifier :: notifier
  pw_cache :: "((string \<times> string) \<times> int) list"
  pw_guard :: guard

definition pipe_save :: "'p pipe_env \<Rightarrow> 'p save_env" where
  "pipe_save env = (pp_save env)\<lparr>sv_enrich := (sv_enrich (pp_save env))\<lparr>ee_to_dto := alert_dto (pp_dto env)\<rparr>\<rparr>"

abbreviation pp_tenant :: "'p pipe_env \<Rightarrow> string" where
  "pp_tenant env \<equiv> sv_tenant_id (pp_save env)"

section \<open>Notification\<close>

definition should_notify :: "int \<Rightarrow> int \<Rightarrow> string \<times> string \<Rightarrow> ((string \<times> string) \<times> int) list \<Rightarrow> bool \<times> ((string \<times> string) \<times> int) list" where
  "should_notify interval now key cache =
     (case map_of cache key of
        None \<Rightarrow> (True, AList.update key now cache)
      | Some last_time \<Rightarrow> if interval \<le> now - last_time then (True, AList.update key now cache) else (False, cache))"

definition notify_client :: "'p pipe_env \<Rightarrow> pydict list \<Rightarrow> string list \<Rightarrow> event_world \<Rightarrow> event_world" where
  "notify_client env alerts incident_ids w =
     (let send = submit_notify (pp_coalesce env) (pp_max_pending env) (pp_api_url env) (pp_tenant env);
          w = w\<lparr>pw_notifier := send ''poll-alerts'' (PDict [(''alerts'', PList (map PDict alerts))]) (pw_notifier w)\<rparr>
      in if incident_ids = [] then w
         else (case should_notify (pp_interval env) (pp_clock env) (pp_tenant env, ''incident-change'') (pw_cache w) of
                 (False, cache) \<Rightarrow> w\<lparr>pw_cache := cache\<rparr>
               | (True, cache) \<Rightarrow>
                   w\<lparr>pw_cache := cache,
                     pw_notifier := send ''incident-change'' (PDict [(''incident_ids'', PList (map PStr incident_ids))]) (pw_notifier w)\<rparr>))"

section \<open>A batch of alerts\<close>

definition filter_windows :: "'p pipe_env \<Rightarrow> pydict list \<Rightarrow> event_world \<Rightarrow> pydict list result \<times> event_world" where
  "filter_windows env events w =
     (let rules = active_windows (pp_tenant env) (mx_now (pp_windows env)) (pp_window_table env)
      in if rules = [] then (Inr events, w)
         else (case maintenance_filter (pp_windows env) rules events (alerts_of w) of
                 (x, db) \<Rightarrow> (x, set_alerts db w)))"

fun deduplicate_each ::
  "dedup_env \<Rightarrow> dedup_rule list \<Rightarrow> (string \<times> string) list \<Rightarrow> alert_db \<Rightarrow> pydict list \<Rightarrow> dedup_db \<Rightarrow> pydict list result \<times> dedup_db" where
  "deduplicate_each env rules hashes adb [] db = (Inr [], db)"
| "deduplicate_each env rules hashes adb (e # es) db =
     (case apply_deduplication env e rules (Some hashes) adb db of
        (Inl x, db) \<Rightarrow> (Inl x, db)
      | (Inr e, db) \<Rightarrow>
          (case deduplicate_each env rules hashes adb es db of
             (Inl x, db) \<Rightarrow> (Inl x, db)
           | (Inr es, db) \<Rightarrow> (Inr (e # es), db)))"

definition deduplicate ::
  "'p pipe_env \<Rightarrow> string option \<Rightarrow> string option \<Rightarrow> pydict list \<Rightarrow> event_world \<Rightarrow> pydict list result \<times> event_world" where
  "deduplicate env provider_type provider_id events w =
     (case get_deduplication_rules (pp_dedup env) provider_id provider_type (pw_dedup w) of
        Inl e \<Rightarrow> (Inl e, w)
      | Inr rules \<Rightarrow>
          (case deduplicate_each (pp_dedup env) rules
                  (get_last_alert_hashes_by_fingerprints (pp_tenant env) (map alert_fingerprint events) (alerts_of w))
                  (alerts_of w) events (pw_dedup w) of
             (x, db) \<Rightarrow> (x, w\<lparr>pw_dedup := db\<rparr>)))"

definition is_duplicate :: "pydict \<Rightarrow> bool" where
  "is_duplicate e \<longleftrightarrow> flagged ''is_full_duplicate'' e"

fun upsert_fields :: "'p pipe_env \<Rightarrow> pydict list \<Rightarrow> event_world \<Rightarrow> unit result \<times> event_world" where
  "upsert_fields env [] w = (Inr (), w)"
| "upsert_fields env (e # es) w =
     (case bulk_upsert_alert_fields (pp_field_faults env) (pp_dialect env) (pp_tenant env) (event_fields e)
             (opt_str (dict_get e ''provider_id'' PNone)) (opt_str (dict_get e ''provider_type'' PNone)) (pw_fields w) of
        (Inl x, table) \<Rightarrow> (Inl x, w\<lparr>pw_fields := table\<rparr>)
      | (Inr _, table) \<Rightarrow> upsert_fields env es (w\<lparr>pw_fields := table\<rparr>))"

text \<open>The manager works on the objects of the events, so the events read back are those it changed; its
  exceptions are caught.\<close>

definition run_workflows :: "'p pipe_env \<Rightarrow> pydict list \<Rightarrow> event_world \<Rightarrow> pydict list \<times> event_world" where
  "run_workflows env events w =
     (let m = pw_mgr w; n = length (mg_heap m);
          m = m\<lparr>mg_heap := mg_heap m @ map (\<lambda>e. \<lparr>ev_incident = False, ev_fields = e\<rparr>) events\<rparr>;
          me = (pp_mgr env)\<lparr>find_enrichment := \<lambda>t fp. get_enrichment t fp (alerts_of w)\<rparr>;
          m = snd (insert_events me (pp_tenant env) [n..<n + length events] m)
      in (map (\<lambda>i. ev_fields (mg_heap m ! i)) [n..<n + length events], w\<lparr>pw_mgr := m\<rparr>))"

definition correlate :: "'p pipe_env \<Rightarrow> pydict list \<Rightarrow> event_world \<Rightarrow> incident list \<times> event_world" where
  "correlate env events w =
     (if \<not> pp_correlation env then ([], w)
      else (case run_rules (sv_engine (pp_save env)) (pp_rules env) events (sw_inc w, pw_sent w) of
              (x, db, sent) \<Rightarrow> (case x of Inr is \<Rightarrow> is | Inl _ \<Rightarrow> [], w\<lparr>sw_inc := db, pw_sent := sent\<rparr>)))"

definition in_maintenance :: "pydict \<Rightarrow> bool" where
  "in_maintenance e \<longleftrightarrow> alert_status e = ''maintenance''"

text \<open>After the save: fields, workflows, correlation and notification.  Events in maintenance are held back from
  workflows and correlation.\<close>

definition handle_saved ::
  "'p pipe_env \<Rightarrow> bool \<Rightarrow> pydict list \<Rightarrow> event_world \<Rightarrow> pydict list option result \<times> event_world" where
  "handle_saved env notify events w =
     (case (if pp_fields_enabled env then upsert_fields env events w else (Inr (), w)) of
        (Inl x, w) \<Rightarrow> (Inl x, w)
      | (Inr _, w) \<Rightarrow>
          let recover = mx_recover (pp_windows env);
              ignored = (if recover then filter in_maintenance events else []);
              (events, w) = run_workflows env (if recover then filter (\<lambda>e. \<not> in_maintenance e) events else events) w;
              (incidents, w) = correlate env events w;
              events = events @ ignored
          in (if notify then (Inr (Some events), notify_client env events (map in_id incidents) w) else (Inr None, w)))"

definition handle_formatted_events ::
  "'p pipe_env \<Rightarrow> string option \<Rightarrow> string option \<Rightarrow> pyval list \<Rightarrow> pydict list \<Rightarrow> bool \<Rightarrow> int option \<Rightarrow> event_world
     \<Rightarrow> pydict list option result \<times> event_world" where
  "handle_formatted_events env provider_type provider_id raw events notify forced w =
     (case (if pp_windows_enabled env then filter_windows env events w else (Inr events, w)) of
        (Inl x, w) \<Rightarrow> (Inl x, w)
      | (Inr events, w) \<Rightarrow>
          if pp_windows_enabled env \<and> events = [] then (Inr None, w)
          else (case deduplicate env provider_type provider_id events w of
                  (Inl x, w) \<Rightarrow> (Inl x, w)
                | (Inr events, w) \<Rightarrow>
                    (case save_to_db (pipe_save env) provider_type provider_id forced raw
                            (filter (\<lambda>e. \<not> is_duplicate e) events) (filter is_duplicate events) w of
                       (Inl x, w) \<Rightarrow> (Inl x, w)
                     | (Inr events, w) \<Rightarrow> handle_saved env notify events w)))"

section \<open>From the event to the batch\<close>

definition resolve_provider :: "'p pipe_env \<Rightarrow> string option \<Rightarrow> string option \<Rightarrow> string option \<Rightarrow> string option \<times> string option" where
  "resolve_provider env provider_type provider_id provider_name =
     (case (provider_name, provider_id) of
        (Some (c # cs), None) \<Rightarrow> (case get_provider_by_name (pp_tenant env) (c # cs) (pp_providers env) of
            Some p \<Rightarrow> (Some (pr_type p), Some (pr_id p)) | None \<Rightarrow> (provider_type, provider_id))
      | (Some (c # cs), Some []) \<Rightarrow> (case get_provider_by_name (pp_tenant env) (c # cs) (pp_providers env) of
            Some p \<Rightarrow> (Some (pr_type p), Some (pr_id p)) | None \<Rightarrow> (provider_type, provider_id))
      | _ \<Rightarrow> (provider_type, provider_id))"

text \<open>Extraction before the formatting: an exception leaves the event, with the updates it got in place.\<close>

definition pre_extract :: "'p pipe_env \<Rightarrow> event_value \<Rightarrow> event_world \<Rightarrow> event_value \<times> event_world" where
  "pre_extract env event w =
     (let run = (\<lambda>is_dto d. run_extraction_rules (sv_enrich (pipe_save env)) (sv_extraction (pp_save env)) [] True is_dto d
            (enrich_world_of w));
          value = (\<lambda>x held. case x of Inr d \<Rightarrow> d | Inl _ \<Rightarrow> held)
      in (case event of
            EvDict d \<Rightarrow> (case run False d of (x, held, ew) \<Rightarrow> (EvDict (value x held), set_enrich_world ew w))
          | EvDto d \<Rightarrow> (case run True d of (x, held, ew) \<Rightarrow> (EvDto (value x held), set_enrich_world ew w))
          | _ \<Rightarrow> (event, set_enrich_world ((pp_extract_other env event (enrich_world_of w))\<lparr>ew_db := alerts_of w\<rparr>) w)))"

definition provider_class_of :: "string option \<Rightarrow> string" where
  "provider_class_of provider_type = (case get_provider_class provider_type of Inr cls \<Rightarrow> cls | Inl _ \<Rightarrow> ''keep'')"

definition is_internal :: "pydict \<Rightarrow> bool" where
  "is_internal d \<longleftrightarrow> dget d ''source'' = Some (PList [PStr ''keep'']) \<or> dget d ''provider_type'' = Some (PStr ''keep'')"

definition format_item ::
  "'p pipe_env \<Rightarrow> string option \<Rightarrow> string option \<Rightarrow> dedup_db \<Rightarrow> event_value \<Rightarrow> event_value result" where
  "format_item env provider_type provider_id db event =
     format_alert (pp_dto env) (provider_class_of provider_type) (pp_tenant env) provider_type provider_id db event"

definition format_list_item ::
  "'p pipe_env \<Rightarrow> string option \<Rightarrow> string option \<Rightarrow> dedup_db \<Rightarrow> event_value \<Rightarrow> event_value result" where
  "format_list_item env provider_type provider_id db item =
     (case item of EvDto d \<Rightarrow> Inr (EvDto d) | _ \<Rightarrow> format_item env provider_type provider_id db item)"

text \<open>The formatted event, and whether it is internal: the variable is only bound when a single event is
  formatted.\<close>

definition format_event ::
  "'p pipe_env \<Rightarrow> string option \<Rightarrow> string option \<Rightarrow> dedup_db \<Rightarrow> event_value \<Rightarrow> (event_value \<times> bool option) result" where
  "format_event env provider_type provider_id db event =
     (case event of
        EvList items \<Rightarrow>
          rbind (rmap (format_list_item env provider_type provider_id db) items) (\<lambda>items. Inr (EvList items, None))
      | EvDict d \<Rightarrow>
          if provider_type = None then Inr (event, None)
          else if is_internal d then Inr (event, Some True)
          else rbind (format_item env provider_type provider_id db event) (\<lambda>e. Inr (e, Some False))
      | _ \<Rightarrow> Inr (event, None))"

text \<open>The name of an internal event is looked up with a module that does not exist.\<close>

definition name_event :: "string option \<Rightarrow> bool option \<Rightarrow> pydict \<Rightarrow> pydict result" where
  "name_event provider_type internal d =
     (if truthy (dict_get d ''name'' PNone) then Inr d
      else if provider_type = Some ''keep'' \<or> dget d ''provider_type'' = Some (PStr ''keep'') \<or> internal = Some True then
        Inl (Exn (EOther ''ModuleNotFoundError'') ''No module named src.common.core.db.db'')
      else if internal = None then Inl (Exn (EOther ''UnboundLocalError'') ''is_internal_keep_event'')
      else Inr (dset ''name'' (dict_get d ''id'' (PStr ''unknown alert name'')) d))"

definition fingerprint_event :: "string option \<Rightarrow> bool option \<Rightarrow> pydict \<Rightarrow> pydict result" where
  "fingerprint_event fingerprint internal d =
     (case fingerprint of
        Some (c # cs) \<Rightarrow>
          (case internal of
             None \<Rightarrow> Inl (Exn (EOther ''UnboundLocalError'') ''is_internal_keep_event'')
           | Some b \<Rightarrow> Inr (if b \<or> dget d ''fingerprint'' = None then dset ''fingerprint'' (PStr (c # cs)) d else d))
      | _ \<Rightarrow> Inr d)"

fun internal_preparation :: "string option \<Rightarrow> string option \<Rightarrow> event_value list \<Rightarrow> pydict list result" where
  "internal_preparation fingerprint api_key_name [] = Inr []"
| "internal_preparation fingerprint api_key_name (EvDto d # es) =
     (let d = (if truthy (dict_get d ''source'' PNone) then d else dset ''source'' (PList [PStr ''keep'']) d);
          d = (case fingerprint of Some fp \<Rightarrow> dset ''fingerprint'' (PStr fp) d | None \<Rightarrow> d);
          d = (case api_key_name of Some k \<Rightarrow> dset ''apiKeyRef'' (PStr k) d | None \<Rightarrow> d)
      in rbind (internal_preparation fingerprint api_key_name es) (\<lambda>ds. Inr (d # ds)))"
| "internal_preparation fingerprint api_key_name (e # es) = Inl (Exn EAttributeError ''source'')"

definition event_truthy :: "event_value \<Rightarrow> bool" where
  "event_truthy e =
     (case e of EvDict d \<Rightarrow> d \<noteq> [] | EvDto d \<Rightarrow> True | EvList es \<Rightarrow> es \<noteq> [] | EvStr s \<Rightarrow> s \<noteq> [] | EvNone \<Rightarrow> False)"

fun raw_value :: "event_value \<Rightarrow> pyval" where
  "raw_value (EvDict d) = PDict d"
| "raw_value (EvDto d) = PDict d"
| "raw_value (EvList es) = PList (map raw_value es)"
| "raw_value (EvStr s) = PStr s"
| "raw_value EvNone = PNone"

text \<open>The raw events of a batch; raw \<open>AlertDto\<close> objects, which the column rejects, are not distinguished
  from their dictionaries.\<close>

definition raw_items :: "event_value \<Rightarrow> pyval list" where
  "raw_items e =
     (case e of
        EvList es \<Rightarrow> map raw_value es
      | EvStr s \<Rightarrow> map (\<lambda>c. PStr [c]) s
      | EvNone \<Rightarrow> []
      | _ \<Rightarrow> [raw_value e])"

text \<open>What is handed to the batch: the raw event, wrapped or not, and the events before their preparation.\<close>

definition batch_of ::
  "'p pipe_env \<Rightarrow> string option \<Rightarrow> string option \<Rightarrow> bool option \<Rightarrow> event_value \<Rightarrow> event_value \<Rightarrow> (event_value \<times> event_value list) result" where
  "batch_of env provider_type fingerprint internal raw event =
     (case event of
        EvDict d \<Rightarrow>
          rbind (name_event provider_type internal d) (\<lambda>d.
            rbind (fingerprint_event fingerprint internal d) (\<lambda>d.
              rbind (alert_dto (pp_dto env) d) (\<lambda>a. Inr (EvList [raw], [EvDto a]))))
      | EvDto a \<Rightarrow> Inr (EvList [raw], [EvDto a])
      | EvList es \<Rightarrow> Inr (raw, es)
      | _ \<Rightarrow> Inr (raw, []))"

section \<open>One event\<close>

definition processed_as :: "'p pipe_env \<Rightarrow> string option \<Rightarrow> string option \<Rightarrow> string option \<Rightarrow> string option \<times> string option" where
  "processed_as env provider_type provider_id provider_name =
     (if pp_session env = None then resolve_provider env provider_type provider_id provider_name else (provider_type, provider_id))"

text \<open>The body of the \<open>try\<close> statement: its result, and the raw event as it is when it ends.\<close>

definition process_formatted ::
  "'p pipe_env \<Rightarrow> string option \<Rightarrow> string option \<Rightarrow> string option \<Rightarrow> string option \<Rightarrow> bool \<Rightarrow> int option
     \<Rightarrow> event_value \<Rightarrow> event_value \<Rightarrow> bool option \<Rightarrow> event_world \<Rightarrow> (pydict list option result \<times> event_value) \<times> event_world" where
  "process_formatted env provider_type provider_id fingerprint api_key_name notify forced raw event internal w =
     (case batch_of env provider_type fingerprint internal raw event of
        Inl e \<Rightarrow> ((Inl e, raw), w)
      | Inr (raw, es) \<Rightarrow>
          (case internal_preparation fingerprint api_key_name es of
             Inl e \<Rightarrow> ((Inl e, raw), w)
           | Inr events \<Rightarrow>
               (case handle_formatted_events env provider_type provider_id (raw_items raw) events notify forced w of
                  (x, w) \<Rightarrow> ((x, raw), w))))"

definition process_body ::
  "'p pipe_env \<Rightarrow> string option \<Rightarrow> string option \<Rightarrow> string option \<Rightarrow> string option \<Rightarrow> bool \<Rightarrow> int option
     \<Rightarrow> event_value \<Rightarrow> event_world \<Rightarrow> (pydict list option result \<times> event_value) \<times> event_world" where
  "process_body env provider_type provider_id fingerprint api_key_name notify forced raw w =
     (case pp_session env of
        Some e \<Rightarrow> ((Inl e, raw), w)
      | None \<Rightarrow>
          (case pre_extract env raw w of
             (event, w) \<Rightarrow>
               (case format_event env provider_type provider_id (pw_dedup w) event of
                  Inl e \<Rightarrow> ((Inl e, raw), w)
                | Inr (formatted, internal) \<Rightarrow>
                    if formatted = EvNone \<and> event \<noteq> EvNone \<and> provider_type = Some ''cloudwatch'' then ((Inr None, raw), w)
                    else if \<not> event_truthy formatted then ((Inr (Some []), raw), w)
                    else (case formatted of
                            EvStr s \<Rightarrow> ((Inr None, raw), w)
                          | _ \<Rightarrow> process_formatted env provider_type provider_id fingerprint api_key_name notify forced raw
                                   formatted internal w))))"

definition error_message :: "'p pipe_env \<Rightarrow> exn \<Rightarrow> string" where
  "error_message env e =
     (case pp_format_trace env e of
        Some t \<Rightarrow> t | None \<Rightarrow> ''Error processing event, contact Keep team for more information'')"

definition error_rows :: "'p pipe_env \<Rightarrow> string option \<Rightarrow> event_value \<Rightarrow> string \<Rightarrow> alert_raw list" where
  "error_rows env provider_type raw msg =
     map (\<lambda>e. \<lparr>rw_tenant_id = pp_tenant env, rw_provider_type = provider_type, rw_error = True, rw_message = Some msg,
              rw_alert = raw_value e\<rparr>)
       (case raw of EvList es \<Rightarrow> es | _ \<Rightarrow> [raw])"

definition error_granted :: "'p pipe_env \<Rightarrow> string option \<Rightarrow> string \<Rightarrow> guard \<Rightarrow> bool \<times> guard" where
  "error_granted env provider_type msg g =
     should_record_error (pp_sha1 env) (pp_clock env) (Some (pp_tenant env)) provider_type ''save_error_alerts'' (Some msg) g"

text \<open>Without a session the exception handler itself raises, and the caller catches it.\<close>

definition save_error_alerts :: "'p pipe_env \<Rightarrow> string option \<Rightarrow> event_value \<Rightarrow> string \<Rightarrow> event_world \<Rightarrow> event_world" where
  "save_error_alerts env provider_type raw msg w =
     (if \<not> event_truthy raw then w
      else (case error_granted env provider_type msg (pw_guard w) of
              (False, g) \<Rightarrow> w\<lparr>pw_guard := g\<rparr>
            | (True, g) \<Rightarrow>
                if pp_error_session env = None
                then w\<lparr>pw_guard := g, sw_raw := sw_raw w @ error_rows env provider_type raw msg\<rparr>
                else w\<lparr>pw_guard := g\<rparr>))"

datatype outcome = Returned "pydict list option" | Retry int | Escaped exn

definition TIMES_TO_RETRY_JOB :: int where "TIMES_TO_RETRY_JOB = 5"

definition process_one_event ::
  "'p pipe_env \<Rightarrow> pydict \<Rightarrow> string option \<Rightarrow> string option \<Rightarrow> string option \<Rightarrow> string option \<Rightarrow> event_value \<Rightarrow> bool
     \<Rightarrow> int option \<Rightarrow> string option \<Rightarrow> event_world \<Rightarrow> outcome \<times> event_world" where
  "process_one_event env ctx provider_type provider_id fingerprint api_key_name event notify forced provider_name w =
     (let (provider_type, provider_id) = processed_as env provider_type provider_id provider_name
      in (case process_body env provider_type provider_id fingerprint api_key_name notify forced event w of
            ((Inr r, _), w) \<Rightarrow> (Returned r, w)
          | ((Inl e, raw), w) \<Rightarrow>
              let w = save_error_alerts env provider_type raw (error_message env e) w
              in if ctx = [] then (Returned None, w)
                 else (case dget ctx ''job_try'' of
                         None \<Rightarrow> (Escaped (Exn EKeyError ''job_try''), w)
                       | Some v \<Rightarrow> (Retry (int_of v * TIMES_TO_RETRY_JOB), w))))"

section \<open>What processing never takes back\<close>

definition ext_pipe :: "event_world \<Rightarrow> event_world \<Rightarrow> bool" where
  "ext_pipe w w' \<longleftrightarrow> (\<exists>rows. adb_alerts (alerts_of w') = adb_alerts (alerts_of w) @ rows)
     \<and> newer_last (alerts_of w) (alerts_of w') \<and> RulesEngine.grows (sw_inc w) (sw_inc w')
     \<and> (\<exists>r. sw_raw w' = sw_raw w @ r) \<and> (\<exists>q. mg_queue (pw_mgr w') = mg_queue (pw_mgr w) @ q)
     \<and> (\<exists>m. pw_sent w' = pw_sent w @ m)"

lemma ext_pipe_refl [simp]: "ext_pipe w w"
  by (simp add: ext_pipe_def)

lemma ext_pipe_trans: "ext_pipe a b \<Longrightarrow> ext_pipe b c \<Longrightarrow> ext_pipe a c"
  unfolding ext_pipe_def using newer_last_trans RulesEngine.grows_trans by (metis (no_types, lifting) append.assoc)

lemma ext_pipe_save: "ext_save w w' \<Longrightarrow> ext_pipe w w'"
  by (cases w; cases w') (simp add: ext_save_def ext_pipe_def)

lemma ext_pipe_updates [simp]:
  "ext_pipe w (w\<lparr>pw_dedup := d\<rparr>)" "ext_pipe w (w\<lparr>pw_fields := t\<rparr>)" "ext_pipe w (w\<lparr>pw_notifier := n\<rparr>)"
  "ext_pipe w (w\<lparr>pw_cache := c\<rparr>)" "ext_pipe w (w\<lparr>pw_guard := g\<rparr>)"
  "ext_pipe w (w\<lparr>pw_guard := g, sw_raw := sw_raw w @ rows\<rparr>)" "ext_pipe w (w\<lparr>pw_cache := c, pw_notifier := n\<rparr>)"
  by (simp_all add: ext_pipe_def)

lemma maintenance_filter_tables:
  "maintenance_filter env rules es db = (x, db') \<Longrightarrow> adb_alerts db' = adb_alerts db \<and> adb_last_alerts db' = adb_last_alerts db"
proof (induction es arbitrary: db x db')
  case (Cons e es)
  have c: "check_windows env rules e db = (y, db1) \<Longrightarrow> adb_alerts db1 = adb_alerts db \<and> adb_last_alerts db1 = adb_last_alerts db"
    for y db1
    by (induction rules) (auto simp: maintenance_audit_def split: if_splits sum.splits bool.splits)
  obtain y db1 where k: "check_if_alert_in_maintenance_windows env rules e db = (y, db1)" by fastforce
  then have t: "adb_alerts db1 = adb_alerts db \<and> adb_last_alerts db1 = adb_last_alerts db"
    using c by (auto simp: check_if_alert_in_maintenance_windows_def split: if_splits)
  obtain z db2 where m: "maintenance_filter env rules es db1 = (z, db2)" by fastforce
  from Cons.IH [OF m] t Cons.prems k m show ?case by (cases y; cases z) auto
qed simp

lemma filter_windows_tables:
  assumes "filter_windows env events w = (x, w')"
  shows "\<exists>db. (w' = set_alerts db w \<or> w' = w \<and> db = alerts_of w)
    \<and> adb_alerts db = adb_alerts (alerts_of w) \<and> adb_last_alerts db = adb_last_alerts (alerts_of w)"
proof (cases "active_windows (pp_tenant env) (mx_now (pp_windows env)) (pp_window_table env) = []")
  case True
  with assms show ?thesis by (intro exI [of _ "alerts_of w"]) (simp add: filter_windows_def)
next
  case False
  obtain y db where m: "maintenance_filter (pp_windows env) (active_windows (pp_tenant env) (mx_now (pp_windows env)) (pp_window_table env))
      events (alerts_of w) = (y, db)" by fastforce
  from maintenance_filter_tables [OF m] False assms m show ?thesis
    by (intro exI [of _ db]) (simp add: filter_windows_def)
qed

lemma filter_windows_ext:
  assumes "filter_windows env events w = (x, w')"
  shows "ext_pipe w w'"
proof -
  obtain db where "w' = set_alerts db w \<or> w' = w" "adb_alerts db = adb_alerts (alerts_of w)"
      "adb_last_alerts db = adb_last_alerts (alerts_of w)"
    using filter_windows_tables [OF assms] by blast
  then show ?thesis
    using ext_save_alerts [of db w "[]"] newer_last_cong [of db "alerts_of w"] by (auto intro: ext_pipe_save)
qed

lemma deduplicate_world:
  assumes "deduplicate env pt pid events w = (x, w')"
  shows "\<exists>d. w' = w\<lparr>pw_dedup := d\<rparr>"
proof -
  have "\<exists>d. w = w\<lparr>pw_dedup := d\<rparr>" by (rule exI [of _ "pw_dedup w"]) simp
  with assms show ?thesis by (auto simp: deduplicate_def split: sum.splits prod.splits)
qed

lemma upsert_fields_ext: "upsert_fields env es w = (x, w') \<Longrightarrow> ext_pipe w w'"
proof (induction es arbitrary: w)
  case (Cons e es)
  obtain y t where u: "bulk_upsert_alert_fields (pp_field_faults env) (pp_dialect env) (pp_tenant env) (event_fields e)
      (opt_str (dict_get e ''provider_id'' PNone)) (opt_str (dict_get e ''provider_type'' PNone)) (pw_fields w) = (y, t)" by fastforce
  with Cons.prems Cons.IH [of "w\<lparr>pw_fields := t\<rparr>"] show ?case
    by (cases y) (auto intro: ext_pipe_trans [OF ext_pipe_updates(2)])
qed simp

lemma run_workflows_ext: "ext_pipe w (snd (run_workflows env events w))"
proof -
  let ?m = "(pw_mgr w)\<lparr>mg_heap := mg_heap (pw_mgr w) @ map (\<lambda>e. \<lparr>ev_incident = False, ev_fields = e\<rparr>) events\<rparr>"
  obtain r m where i: "insert_events ((pp_mgr env)\<lparr>find_enrichment := \<lambda>t fp. get_enrichment t fp (alerts_of w)\<rparr>) (pp_tenant env)
      [length (mg_heap (pw_mgr w))..<length (mg_heap (pw_mgr w)) + length events] ?m = (r, m)" by fastforce
  from insert_events_new [OF i] have "\<exists>q. mg_queue m = mg_queue (pw_mgr w) @ q" by (auto simp: queues_new_def)
  then show ?thesis by (simp add: run_workflows_def Let_def i ext_pipe_def)
qed

lemma correlate_ext: "ext_pipe w (snd (correlate env events w))"
proof (cases "pp_correlation env")
  case True
  obtain x db sent where r: "run_rules (sv_engine (pp_save env)) (pp_rules env) events (sw_inc w, pw_sent w) = (x, db, sent)"
    by (metis prod_cases3)
  from run_rules_ext [OF r] True r show ?thesis by (simp add: correlate_def ext_pipe_def)
qed (simp add: correlate_def)

lemma notify_client_ext: "ext_pipe w (notify_client env alerts ids w)"
proof -
  have "ext_pipe w (w\<lparr>pw_notifier := n, pw_cache := c\<rparr>)" "ext_pipe w (w\<lparr>pw_notifier := n\<rparr>\<lparr>pw_cache := c, pw_notifier := m\<rparr>)" for n c m
    by (simp_all add: ext_pipe_def)
  then show ?thesis by (simp add: notify_client_def Let_def split: prod.split bool.split)
qed

lemma handle_saved_ext: "ext_pipe w (snd (handle_saved env notify events w))"
proof -
  obtain x w1 where u: "(if pp_fields_enabled env then upsert_fields env events w else (Inr (), w)) = (x, w1)" by fastforce
  then have w1: "ext_pipe w w1" by (auto split: if_splits intro: upsert_fields_ext)
  define recover where "recover = mx_recover (pp_windows env)"
  define ignored where "ignored = (if recover then filter in_maintenance events else [])"
  obtain es w2 where f: "run_workflows env (if recover then filter (\<lambda>e. \<not> in_maintenance e) events else events) w1 = (es, w2)"
    by fastforce
  obtain incs w3 where c: "correlate env es w2 = (incs, w3)" by fastforce
  have w3: "ext_pipe w w3"
    using ext_pipe_trans [OF ext_pipe_trans [OF w1 run_workflows_ext] correlate_ext] f c by (metis snd_conv)
  have "snd (handle_saved env notify events w) = (case x of Inl _ \<Rightarrow> w1
      | Inr _ \<Rightarrow> if notify then notify_client env (es @ ignored) (map in_id incs) w3 else w3)"
    unfolding handle_saved_def u Let_def prod.case recover_def [symmetric] ignored_def [symmetric] f c
    by (simp split: sum.split)
  moreover have "ext_pipe w (notify_client env a ids w3)" for a ids using w3 notify_client_ext by (rule ext_pipe_trans)
  ultimately show ?thesis using w1 w3 by (simp split: sum.split)
qed

lemma handle_formatted_ext: "ext_pipe w (snd (handle_formatted_events env pt pid raw events notify forced w))"
proof -
  obtain x w1 where f: "(if pp_windows_enabled env then filter_windows env events w else (Inr events, w)) = (x, w1)" by fastforce
  then have w1: "ext_pipe w w1" by (auto split: if_splits intro: filter_windows_ext)
  have stage: "ext_pipe w1 (snd (case deduplicate env pt pid es w1 of
          (Inl x, w) \<Rightarrow> (Inl x, w)
        | (Inr events, w) \<Rightarrow>
            (case save_to_db (pipe_save env) pt pid forced raw (filter (\<lambda>e. \<not> is_duplicate e) events) (filter is_duplicate events) w of
               (Inl x, w) \<Rightarrow> (Inl x, w)
             | (Inr events, w) \<Rightarrow> handle_saved env notify events w)))" for es
  proof -
    obtain y w2 where d: "deduplicate env pt pid es w1 = (y, w2)" by fastforce
    have w2: "ext_pipe w1 w2" using deduplicate_world [OF d] by auto
    show ?thesis
    proof (cases y)
      case (Inr marked)
      obtain z w3 where s: "save_to_db (pipe_save env) pt pid forced raw (filter (\<lambda>e. \<not> is_duplicate e) marked)
          (filter is_duplicate marked) w2 = (z, w3)" by fastforce
      have w3: "ext_pipe w1 w3"
        using ext_pipe_trans [OF w2 ext_pipe_save [OF save_to_db_ext]] s by (metis snd_conv)
      have "ext_pipe w1 (snd (handle_saved env notify events w3))" for events
        using w3 handle_saved_ext by (rule ext_pipe_trans)
      with d Inr s w3 show ?thesis by (simp split: sum.split)
    qed (simp add: d w2)
  qed
  show ?thesis
    using ext_pipe_trans [OF w1 stage] w1 unfolding handle_formatted_events_def f prod.case
    by (cases x) auto
qed

lemma pre_extract_ext:
  assumes "pre_extract env event w = (e, w')"
  shows "ext_pipe w w'"
proof -
  have run: "ext_pipe w (set_enrich_world ew w)" if "run_extraction_rules ee table [] True b d (enrich_world_of w) = (x, held, ew)"
    for ee table b d x held ew
    using ext_save_enrich [of w ew] run_extraction_keeps_rows [OF that] by (intro ext_pipe_save) simp
  have other: "ext_pipe w (set_enrich_world (ew\<lparr>ew_db := alerts_of w\<rparr>) w)" for ew
    by (intro ext_pipe_save ext_save_enrich) simp
  from assms run other show ?thesis
    by (auto simp: pre_extract_def Let_def split: event_value.splits prod.splits)
qed

lemma process_body_ext: "ext_pipe w (snd (process_body env pt pid fp api notify forced raw w))"
proof (cases "pp_session env")
  case None
  obtain e w1 where p: "pre_extract env raw w = (e, w1)" by fastforce
  note w1 = pre_extract_ext [OF p]
  have formatted: "ext_pipe w (snd (process_formatted env pt pid fp api notify forced raw e' i w1))" for e' i
  proof (cases "\<exists>raw' es events. batch_of env pt fp i raw e' = Inr (raw', es) \<and> internal_preparation fp api es = Inr events")
    case True
    then obtain raw' es events where b: "batch_of env pt fp i raw e' = Inr (raw', es)" "internal_preparation fp api es = Inr events"
      by blast
    obtain y w2 where h: "handle_formatted_events env pt pid (raw_items raw') events notify forced w1 = (y, w2)" by fastforce
    have "ext_pipe w1 w2" using handle_formatted_ext [of w1 env pt pid "raw_items raw'" events notify forced] h by simp
    with w1 b h ext_pipe_trans show ?thesis by (auto simp: process_formatted_def)
  next
    case False
    with w1 show ?thesis by (auto simp: process_formatted_def split: sum.split)
  qed
  show ?thesis
    using w1 formatted by (auto simp: process_body_def None p split: sum.split event_value.split)
qed (simp add: process_body_def)

lemma save_error_alerts_ext: "ext_pipe w (save_error_alerts env pt raw msg w)"
  by (simp add: save_error_alerts_def split: prod.split bool.split)

text \<open>C3: whatever happens to an event, and however its processing ends, nothing stored before is lost: the alert
  rows are only appended to, no last alert disappears or gets older, incidents keep their identity, visibility and
  links, and the raw events, the workflow queue and the messages of the rules engine are only extended.\<close>

theorem processing_only_extends:
  assumes "process_one_event env ctx provider_type provider_id fingerprint api_key_name event notify forced provider_name w = (out, w')"
  shows "(\<exists>rows. adb_alerts (alerts_of w') = adb_alerts (alerts_of w) @ rows)
    \<and> newer_last (alerts_of w) (alerts_of w') \<and> RulesEngine.grows (sw_inc w) (sw_inc w')
    \<and> (\<exists>r. sw_raw w' = sw_raw w @ r) \<and> (\<exists>q. mg_queue (pw_mgr w') = mg_queue (pw_mgr w) @ q)
    \<and> (\<exists>m. pw_sent w' = pw_sent w @ m)"
proof -
  obtain pt pid where p: "processed_as env provider_type provider_id provider_name = (pt, pid)" by fastforce
  obtain x raw w1 where b: "process_body env pt pid fingerprint api_key_name notify forced event w = ((x, raw), w1)"
    by (metis prod.exhaust)
  have w1: "ext_pipe w w1" using process_body_ext [of w env pt pid fingerprint api_key_name notify forced event] b by simp
  have "w' = w1 \<or> (\<exists>msg. w' = save_error_alerts env pt raw msg w1)"
    using assms p b by (auto simp: process_one_event_def Let_def split: sum.splits if_splits option.splits)
  with w1 ext_pipe_trans [OF w1 save_error_alerts_ext] have "ext_pipe w w'" by blast
  then show ?thesis unfolding ext_pipe_def .
qed

section \<open>A list of unformatted events\<close>

fun is_dto :: "event_value \<Rightarrow> bool" where
  "is_dto (EvDto d) = True"
| "is_dto e = False"

lemma internal_preparation_dtos: "internal_preparation fp api es = Inr events \<Longrightarrow> list_all is_dto es"
proof (induction es arbitrary: events)
  case (Cons e es)
  then show ?case by (cases e) (auto simp: rbind_Inr_iff Let_def)
qed simp

lemma format_alert_no_dto: "format_alert env cls tn pt pid db event = Inr e \<Longrightarrow> \<not> is_dto e"
  by (auto simp: format_alert_def rbind_Inr_iff Let_def split: sum.splits option.splits)

lemma rmap_list_all2: "rmap f xs = Inr ys \<Longrightarrow> list_all2 (\<lambda>x y. f x = Inr y) xs ys"
  by (induction xs arbitrary: ys) (auto simp: rbind_Inr_iff)

lemma format_list_not_dtos:
  assumes "rmap (format_list_item env pt pid db) items = Inr items'" "x \<in> set items" "\<not> is_dto x"
  shows "\<not> list_all is_dto items'" "items' \<noteq> []"
proof -
  obtain i where i: "i < length items" "items ! i = x" using assms(2) by (auto simp: in_set_conv_nth)
  note rel = rmap_list_all2 [OF assms(1)]
  then have l: "length items' = length items" by (simp add: list_all2_lengthD)
  from rel i have "format_list_item env pt pid db x = Inr (items' ! i)" by (auto simp: list_all2_conv_all_nth)
  moreover have "format_list_item env pt pid db x = format_item env pt pid db x"
    using assms(3) by (cases x) (simp_all add: format_list_item_def)
  ultimately have "format_item env pt pid db x = Inr (items' ! i)" by simp
  then have "\<not> is_dto (items' ! i)" unfolding format_item_def by (rule format_alert_no_dto)
  with i l show "\<not> list_all is_dto items'" "items' \<noteq> []" by (auto simp: list_all_length)
qed

lemma raw_list_body:
  assumes "\<not> list_all is_dto items"
  shows "\<exists>e w1. process_body env pt pid fp api notify forced (EvList items) w = ((Inl e, EvList items), w1)
    \<and> sw_inc w1 = sw_inc w \<and> save_world.more w1 = save_world.more w \<and> sw_raw w1 = sw_raw w"
proof (cases "pp_session env")
  case (Some e)
  then show ?thesis by (auto simp: process_body_def)
next
  case None
  obtain x where x: "x \<in> set items" "\<not> is_dto x" using assms by (auto simp: list_all_iff)
  obtain ee w1 where p: "pre_extract env (EvList items) w = (ee, w1)" by fastforce
  then have w1: "ee = EvList items" "sw_inc w1 = sw_inc w" "save_world.more w1 = save_world.more w" "sw_raw w1 = sw_raw w"
    by (auto simp: pre_extract_def Let_def set_enrich_world_def set_alerts_def)
  show ?thesis
  proof (cases "rmap (format_list_item env pt pid (pw_dedup w1)) items")
    case (Inl e)
    with None p w1 show ?thesis by (simp add: process_body_def format_event_def rbind_def)
  next
    case (Inr items')
    note nd = format_list_not_dtos [OF Inr x]
    then obtain e where "internal_preparation fp api items' = Inl e"
      using internal_preparation_dtos [of fp api items'] by (cases "internal_preparation fp api items'") auto
    with None p w1 Inr nd show ?thesis
      by (simp add: process_body_def format_event_def rbind_def event_truthy_def process_formatted_def batch_of_def)
  qed
qed

text \<open>C26: a list that holds an event that is not yet an \<open>AlertDto\<close> is never processed, whatever its provider and
  its other events are.  The provider's method returns a list for every item, so the batch holds lists where the
  preparation expects alerts; the job is retried, no alert, incident, queue entry or notification comes of it, and
  the raw events are stored as errors only when the error guard grants it.\<close>

theorem raw_list_never_processed:
  assumes "\<not> list_all is_dto items" "dget ctx ''job_try'' = Some v"
    "process_one_event env ctx provider_type provider_id fingerprint api_key_name (EvList items) notify forced provider_name w = (out, w')"
  shows "out = Retry (int_of v * 5) \<and> sw_inc w' = sw_inc w \<and> pw_mgr w' = pw_mgr w \<and> pw_sent w' = pw_sent w
    \<and> pw_notifier w' = pw_notifier w
    \<and> (\<exists>pt e. sw_raw w' = sw_raw w @
         (if fst (error_granted env pt (error_message env e) (pw_guard w)) \<and> pp_error_session env = None
          then error_rows env pt (EvList items) (error_message env e) else []))"
proof -
  obtain pt pid where p: "processed_as env provider_type provider_id provider_name = (pt, pid)" by fastforce
  obtain e w1 where b: "process_body env pt pid fingerprint api_key_name notify forced (EvList items) w = ((Inl e, EvList items), w1)"
      "sw_inc w1 = sw_inc w" "save_world.more w1 = save_world.more w" "sw_raw w1 = sw_raw w"
    using raw_list_body [OF assms(1)] by blast
  have more: "pw_mgr w1 = pw_mgr w" "pw_sent w1 = pw_sent w" "pw_notifier w1 = pw_notifier w" "pw_guard w1 = pw_guard w"
    using b(3) by (cases w; cases w1; simp)+
  have ctx: "ctx \<noteq> []" using assms(2) by (auto simp: dget_def)
  have t: "event_truthy (EvList items)" using assms(1) by (cases items) (simp_all add: event_truthy_def)
  obtain ok g where g: "error_granted env pt (error_message env e) (pw_guard w) = (ok, g)" by fastforce
  from assms(2,3) p b(1) ctx have out: "out = Retry (int_of v * 5)"
      "w' = save_error_alerts env pt (EvList items) (error_message env e) w1"
    by (simp_all add: process_one_event_def TIMES_TO_RETRY_JOB_def Let_def)
  have w': "w' = (if ok \<and> pp_error_session env = None
      then w1\<lparr>pw_guard := g, sw_raw := sw_raw w1 @ error_rows env pt (EvList items) (error_message env e)\<rparr>
      else w1\<lparr>pw_guard := g\<rparr>)"
    using t g more by (simp add: out(2) save_error_alerts_def split: bool.split)
  have "sw_raw w' = sw_raw w @
      (if fst (error_granted env pt (error_message env e) (pw_guard w)) \<and> pp_error_session env = None
       then error_rows env pt (EvList items) (error_message env e) else [])"
    by (simp add: w' g b(4))
  moreover have "sw_inc w' = sw_inc w" "pw_mgr w' = pw_mgr w" "pw_sent w' = pw_sent w" "pw_notifier w' = pw_notifier w"
    by (simp_all add: w' b(2) more)
  ultimately show ?thesis using out(1) by blast
qed

section \<open>A batch of duplicates\<close>

lemma save_no_events:
  assumes "save_to_db env pt pid forced raw [] duplicates w = (x, w')"
  shows "x = Inr [] \<and> keeps_rows (alerts_of w) (alerts_of w') \<and> adb_last_alerts (alerts_of w') = adb_last_alerts (alerts_of w)
    \<and> sw_inc w' = (sw_inc w)\<lparr>idb_store := alerts_of w'\<rparr> \<and> save_world.more w' = save_world.more w"
proof -
  have dup: "adb_last_alerts (fold (save_duplicate env) es db) = adb_last_alerts db" for es db
    by (induction es arbitrary: db) (simp_all add: save_duplicate_def touch_last_alert_def)
  define w0 where "w0 = store_raw env pt raw w"
  have w0: "alerts_of w0 = alerts_of w" "sw_inc w0 = sw_inc w" "save_world.more w0 = save_world.more w"
    by (simp_all add: w0_def store_raw_def)
  have "w' = save_duplicates env duplicates w0" "x = Inr []"
    using assms by (simp_all add: save_to_db_def resolve_saved_def Let_def w0_def)
  with save_duplicates_rows [of w0 env duplicates] w0 show ?thesis
    unfolding save_duplicates_def by (cases "sv_audit env") (simp_all add: set_alerts_def dup)
qed

lemma run_rules_no_events: "run_rules env rules [] s = (Inr [], fst s, snd s)"
proof -
  have "rule_event_pairs t rules [] = []" for t by (simp add: rule_event_pairs_def concat_eq_Nil_conv)
  then show ?thesis by (simp add: run_rules_def run_cel_rules_def rbind_def)
qed

lemma handle_saved_nothing:
  assumes "handle_saved env notify [] w = (r, w')"
  shows "sw_inc w' = sw_inc w \<and> pw_mgr w' = pw_mgr w \<and> pw_sent w' = pw_sent w \<and> sw_raw w' = sw_raw w
    \<and> r = (if notify then Inr (Some []) else Inr None)"
proof -
  have "run_workflows env [] w = ([], w)"
    by (simp add: run_workflows_def insert_events_def)
  moreover have "correlate env [] w = ([], w)"
    by (simp add: correlate_def run_rules_no_events)
  ultimately show ?thesis
    using assms by (auto simp: handle_saved_def Let_def notify_client_def split: if_splits)
qed


section \<open>Demonstration\<close>

definition demo_notifier0 :: notifier where
  "demo_notifier0 = \<lparr>nf_pending = [], nf_scheduled = [], nf_tasks = [], nf_workers = [], nf_posts = []\<rparr>"

definition demo_pipe_env :: "string pipe_env" where
  "demo_pipe_env = \<lparr>pp_save = demo_save_env, pp_windows_enabled = True, pp_windows = demo_mw_env, pp_window_table = [],
     pp_dedup = demo_dedup_env, pp_fields_enabled = True, pp_dialect = ''sqlite'', pp_field_faults = (\<lambda>_. None),
     pp_mgr = demo_mgr_env\<lparr>me_table := \<lparr>workflows = [], versions = []\<rparr>\<rparr>, pp_correlation = True, pp_rules = [],
     pp_coalesce = True, pp_max_pending = 4, pp_api_url = ''api'', pp_clock = 3, pp_interval = 1, pp_dto = demo_dto_env,
     pp_providers = [], pp_session = None, pp_error_session = None, pp_format_trace = (\<lambda>_. None), pp_sha1 = id,
     pp_extract_other = (\<lambda>_ w. w)\<rparr>"

definition demo_guard0 :: guard where
  "demo_guard0 = \<lparr>window = 60, max_per_key = 1, max_entries = 8, entries = []\<rparr>"

definition demo_event_world :: event_world where
  "demo_event_world = save_world.extend demo_save_world
     \<lparr>pw_dedup = demo_no_rules, pw_fields = [], pw_mgr = \<lparr>mg_heap = [], mg_queue = []\<rparr>, pw_sent = [],
      pw_notifier = demo_notifier0, pw_cache = [], pw_guard = demo_guard0\<rparr>"

definition demo_event_payload :: pydict where
  "demo_event_payload = [(''name'', PStr ''disk''), (''status'', PStr ''firing''), (''fingerprint'', PStr ''f''), (''id'', PStr ''x''),
     (''last_received'', PStr ''2024'')]"

definition demo_run :: "event_value \<Rightarrow> event_world \<Rightarrow> outcome \<times> event_world" where
  "demo_run event w = process_one_event demo_pipe_env [(''job_try'', PInt 2)] (Some ''keep'') (Some ''k'') None None event True None None w"

theorem processing_only_extends_witness:
  "\<exists>rows. adb_alerts (alerts_of (snd (demo_run (EvDict demo_event_payload) demo_event_world)))
     = adb_alerts (alerts_of demo_event_world) @ rows"
  unfolding demo_run_def
  by (rule conjunct1 [OF processing_only_extends [OF surjective_pairing]])

theorem raw_list_never_processed_witness:
  "fst (demo_run (EvList [EvDto demo_built, EvDict demo_event_payload]) demo_event_world) = Retry 10
   \<and> sw_inc (snd (demo_run (EvList [EvDto demo_built, EvDict demo_event_payload]) demo_event_world)) = sw_inc demo_event_world"
proof -
  have "\<not> list_all is_dto [EvDto demo_built, EvDict demo_event_payload]" by simp
  moreover have "dget [(''job_try'', PInt 2)] ''job_try'' = Some (PInt 2)" by (simp add: dget_def)
  ultimately show ?thesis
    using raw_list_never_processed [OF _ _ surjective_pairing, of "[EvDto demo_built, EvDict demo_event_payload]"
        "[(''job_try'', PInt 2)]" "PInt 2" demo_pipe_env]
    unfolding demo_run_def by (simp add: int_of_def)
qed

definition demo_known_world :: event_world where
  "demo_known_world = set_alerts demo_recorded demo_event_world"

definition demo_dedup_pipe :: "string pipe_env" where
  "demo_dedup_pipe = demo_pipe_env\<lparr>pp_windows_enabled := False\<rparr>"

definition demo_marked :: "pydict list result \<times> event_world" where
  "demo_marked = deduplicate demo_dedup_pipe (Some ''mock'') (Some ''m1'') [Deduplicator.demo_alert ''disk'' 2] demo_known_world"


end
