(* ===== verification/Parser.thy ===== *)
theory Parser
  imports Workflow WorkflowTable
begin

text \<open>
  \<open>src/parser/parser.py\<close>: from the dictionary of a workflow to a \<open>Workflow\<close>: providers and reusable
  actions are collected, actions are merged with the reusable action they name, steps and actions are
  built with their providers, and interval, state and triggers are read.  Parsing removes the type
  and the configuration of a step's provider from the dictionary it is given, so the functions on
  steps also return the dictionary as they leave it.

  Files and environment variables appear decoded; \<open>pe_make_provider\<close> is the import and construction
  of a provider class, \<open>pe_validate_param\<close> pydantic's validation of \<open>StepProviderParameter\<close>.
\<close>

section \<open>Merging configurations\<close>

text \<open>\<open>key in ob\<close> followed by \<open>ob.get(key)\<close>, and \<open>ob[key] = value\<close>, for any value \<open>ob\<close>.\<close>

definition item_in :: "string \<Rightarrow> pyval \<Rightarrow> pyval option result" where
  "item_in key ob =
     (case ob of
        PDict d \<Rightarrow> Inr (dget d key)
      | PStr s \<Rightarrow> if contains_sub key s then Inl (Exn EAttributeError ''get'') else Inr None
      | PList l \<Rightarrow> if PStr key \<in> set l then Inl (Exn EAttributeError ''get'') else Inr None
      | _ \<Rightarrow> Inl (Exn ETypeError ''not iterable''))"

definition set_item :: "string \<Rightarrow> pyval \<Rightarrow> pyval \<Rightarrow> pyval result" where
  "set_item key v ob =
     (case ob of PDict d \<Rightarrow> Inr (PDict (dset key v d)) | _ \<Rightarrow> Inl (Exn ETypeError ''item assignment''))"

text \<open>The nodes of a list of the reusable action: characters of a string are merged into and dropped.\<close>

definition nodes_of :: "pyval \<Rightarrow> pyval list result" where
  "nodes_of v =
     (case v of
        PList l \<Rightarrow> Inr l
      | PStr s \<Rightarrow> Inr (map (\<lambda>c. PStr [c]) s)
      | PDict d \<Rightarrow> if d = [] then Inr [] else Inl (Exn EKeyError ''0'')
      | _ \<Rightarrow> Inl (Exn ETypeError ''has no len()''))"

definition with_nodes :: "pyval \<Rightarrow> pyval list \<Rightarrow> pyval" where
  "with_nodes v ns = (case v of PList _ \<Rightarrow> PList ns | _ \<Rightarrow> v)"

text \<open>\<open>_merge\<close> changes its second argument; the result is that argument afterwards.  Elements of the
  first list beyond the second one are merged into a new dictionary that is not kept.\<close>

fun merge_value :: "pyval \<Rightarrow> pyval \<Rightarrow> pyval result"
  and merge_items :: "(string \<times> pyval) list \<Rightarrow> pyval \<Rightarrow> pyval result"
  and merge_nodes :: "pyval list \<Rightarrow> pyval list \<Rightarrow> pyval list result" where
  "merge_value (PDict items) ob = merge_items items ob"
| "merge_value PNone ob = Inl (Exn EAttributeError ''items'')"
| "merge_value (PBool b) ob = Inl (Exn EAttributeError ''items'')"
| "merge_value (PInt i) ob = Inl (Exn EAttributeError ''items'')"
| "merge_value (PStr s) ob = Inl (Exn EAttributeError ''items'')"
| "merge_value (PList l) ob = Inl (Exn EAttributeError ''items'')"
| "merge_value (PParam k s d) ob = Inl (Exn EAttributeError ''items'')"
| "merge_items [] ob = Inr ob"
| "merge_items ((key, PDict value) # kvs) ob =
     rbind (rbind (item_in key ob) (\<lambda>found. case found of
         Some node \<Rightarrow> rbind (merge_value (PDict value) node) (\<lambda>n. set_item key n ob)
       | None \<Rightarrow> set_item key (PDict value) ob)) (merge_items kvs)"
| "merge_items ((key, PList value) # kvs) ob =
     rbind (rbind (item_in key ob) (\<lambda>found. case found of
         Some node \<Rightarrow> rbind (nodes_of node) (\<lambda>ns. rbind (merge_nodes value ns) (\<lambda>ns'. set_item key (with_nodes node ns') ob))
       | None \<Rightarrow> set_item key (PList value) ob)) (merge_items kvs)"
| "merge_items ((key, value) # kvs) ob = rbind (set_item key value ob) (merge_items kvs)"
| "merge_nodes [] ns = Inr ns"
| "merge_nodes (v # vs) [] = rbind (merge_value v (PDict [])) (\<lambda>_. rbind (merge_nodes vs []) (\<lambda>_. Inr []))"
| "merge_nodes (v # vs) (n # ns) =
     rbind (merge_value v n) (\<lambda>n'. rbind (merge_nodes vs ns) (\<lambda>ns'. Inr (n' # ns')))"

definition deep_merge :: "pyval \<Rightarrow> pyval \<Rightarrow> pyval result" where
  "deep_merge source dest = merge_value source dest"

section \<open>Reading fields\<close>

definition need_iter :: "pyval \<Rightarrow> pyval list result" where
  "need_iter v = (case v of PList l \<Rightarrow> Inr l | PStr s \<Rightarrow> Inr (map (\<lambda>c. PStr [c]) s)
     | PDict d \<Rightarrow> Inr (map (\<lambda>(k, _). PStr k) d) | _ \<Rightarrow> Inl (Exn ETypeError ''object is not iterable''))"

fun trigger_interval :: "pyval list \<Rightarrow> pyval \<Rightarrow> pyval result" where
  "trigger_interval [] interval = Inr interval"
| "trigger_interval (t # ts) interval =
     rbind (need_dict t) (\<lambda>d. trigger_interval ts
       (if dict_get d ''type'' PNone = PStr ''interval'' then dict_get d ''value'' (PInt 0) else interval))"

definition scaled :: "string \<Rightarrow> int \<Rightarrow> pyval" where
  "scaled s factor = (case py_int (butlast s) of Some n \<Rightarrow> PInt (n * factor) | None \<Rightarrow> PStr s)"

definition interval_seconds :: "pyval \<Rightarrow> pyval" where
  "interval_seconds v =
     (case v of
        PStr s \<Rightarrow>
          if py_isdigit s then (case py_int s of Some n \<Rightarrow> PInt n | None \<Rightarrow> v)
          else if ends_with ''m'' s then scaled s 60
          else if ends_with ''h'' s then scaled s 3600
          else if ends_with ''d'' s then scaled s 86400
          else v
      | _ \<Rightarrow> v)"

definition parse_interval :: "pydict \<Rightarrow> int result" where
  "parse_interval workflow =
     rbind (need_iter (dict_get workflow ''triggers'' (PList []))) (\<lambda>triggers.
     rbind (trigger_interval triggers (dict_get workflow ''interval'' (PInt 0))) (\<lambda>interval.
       (case interval_seconds interval of
          PInt n \<Rightarrow> Inr n
        | PBool b \<Rightarrow> Inr (if b then 1 else 0)
        | v \<Rightarrow> Inl (Exn EValueError (''Invalid interval format: '' @ py_str v)))))"

definition parse_disabled :: "pydict \<Rightarrow> bool" where
  "parse_disabled workflow \<longleftrightarrow> dict_get workflow ''disabled'' PNone \<in> {PStr ''true'', PBool True}"

definition python_keywords :: "string list" where
  "python_keywords =
     [''False'', ''None'', ''True'', ''and'', ''as'', ''assert'', ''async'', ''await'', ''break'', ''class'', ''continue'',
      ''def'', ''del'', ''elif'', ''else'', ''except'', ''finally'', ''for'', ''from'', ''global'', ''if'', ''import'', ''in'',
      ''is'', ''lambda'', ''nonlocal'', ''not'', ''or'', ''pass'', ''raise'', ''return'', ''try'', ''while'', ''with'', ''yield'']"

definition parameter_name :: "string \<Rightarrow> string" where
  "parameter_name p = (if p \<in> set python_keywords then p @ ''_'' else p)"

type_synonym validator = "pydict \<Rightarrow> (string \<times> bool \<times> pyval) option"

text \<open>A value that is neither text, list, number, truth value nor dictionary is left out.\<close>

definition parameter_value :: "validator \<Rightarrow> pyval \<Rightarrow> pyval option" where
  "parameter_value check v =
     (case v of
        PDict d \<Rightarrow> (case check d of Some (key, safe, dflt) \<Rightarrow> Some (PParam key safe dflt) | None \<Rightarrow> Some v)
      | PStr _ \<Rightarrow> Some v | PList _ \<Rightarrow> Some v | PInt _ \<Rightarrow> Some v | PBool _ \<Rightarrow> Some v
      | _ \<Rightarrow> None)"

fun parse_parameters :: "validator \<Rightarrow> pydict \<Rightarrow> pydict \<Rightarrow> pydict" where
  "parse_parameters check [] parsed = parsed"
| "parse_parameters check ((p, v) # ps) parsed =
     parse_parameters check ps
       (case parameter_value check v of Some w \<Rightarrow> dset (parameter_name p) w parsed | None \<Rightarrow> parsed)"

definition parse_provider_parameters :: "validator \<Rightarrow> pyval \<Rightarrow> pydict result" where
  "parse_provider_parameters check v =
     (case v of
        PDict d \<Rightarrow> Inr (parse_parameters check d [])
      | _ \<Rightarrow> if v = PList [] \<or> v = PStr [] then Inr [] else Inl (Exn ETypeError ''parameters are not a mapping''))"

section \<open>Providers\<close>

record installed_provider =
  ip_id :: string
  ip_name :: string
  ip_details :: "pydict option"

record parse_env =
  pe_validate_param :: validator
  pe_make_provider :: "pyval \<Rightarrow> pyval \<Rightarrow> pyval \<Rightarrow> unit result"
  pe_getenv :: "string \<Rightarrow> string option"
  pe_providers_file :: "pydict option"
  pe_keep_providers :: "pydict option"
  pe_env_providers :: "(string \<times> pyval option) list"
  pe_installed :: "installed_provider list"
  pe_use_cache :: bool
  pe_actions_file :: "pyval list option"
  pe_db_actions :: "(string \<times> pyval) list"
  pe_workflow_table :: wf_table
  pe_last_execution :: "(pyval \<times> pyval) option"
  pe_dumps :: "pydict \<Rightarrow> string"
  pe_read_secret :: "string \<Rightarrow> pydict option result"

fun inject_env_variables :: "(string \<Rightarrow> string option) \<Rightarrow> pyval \<Rightarrow> pyval" where
  "inject_env_variables getenv (PDict d) = PDict (map (\<lambda>(k, v). (k, inject_env_variables getenv v)) d)"
| "inject_env_variables getenv (PList l) = PList (map (inject_env_variables getenv) l)"
| "inject_env_variables getenv (PStr s) =
     (if starts_with ''$('' s \<and> ends_with '')'' s then
        (case getenv (butlast (drop 2 s)) of Some v \<Rightarrow> if v = [] then PStr s else PStr v | None \<Rightarrow> PStr s)
      else PStr s)"
| "inject_env_variables getenv v = v"

text \<open>The caller ignores the returned value, so only what is changed in place counts.\<close>

fun inject_in_place :: "(string \<Rightarrow> string option) \<Rightarrow> pyval \<Rightarrow> pyval" where
  "inject_in_place getenv (PDict d) = inject_env_variables getenv (PDict d)"
| "inject_in_place getenv (PList l) = PList (map (inject_in_place getenv) l)"
| "inject_in_place getenv v = v"

definition env_provider_name :: "string \<Rightarrow> string" where
  "env_provider_name env = py_lower (py_replace ''_'' ''-'' (py_replace ''KEEP_PROVIDER_'' [] env))"

definition parse_providers_from_env :: "parse_env \<Rightarrow> pydict \<Rightarrow> pydict" where
  "parse_providers_from_env env providers =
     (let providers = (case pe_keep_providers env of
            Some d \<Rightarrow> dupdate providers (case inject_in_place (pe_getenv env) (PDict d) of PDict d' \<Rightarrow> d' | _ \<Rightarrow> d)
          | None \<Rightarrow> providers)
      in fold (\<lambda>(name, decoded) ps. case decoded of
             Some v \<Rightarrow> dset (env_provider_name name) (inject_in_place (pe_getenv env) v) ps
           | None \<Rightarrow> ps)
           (filter (\<lambda>(name, _). starts_with ''KEEP_PROVIDER_'' name) (pe_env_providers env)) providers)"

text \<open>The parser keeps the providers it loaded; with the cache switched on they are used again as long as
  the ids of the installed providers have not changed.\<close>

definition installed_or_cached :: "parse_env \<Rightarrow> installed_provider list \<Rightarrow> installed_provider list" where
  "installed_or_cached env cache =
     (if cache = [] \<or> \<not> pe_use_cache env then pe_installed env
      else if set (map ip_id (pe_installed env)) \<noteq> set (map ip_id cache) then pe_installed env
      else cache)"

definition load_providers_from_db ::
  "parse_env \<Rightarrow> string \<Rightarrow> installed_provider list \<Rightarrow> pydict \<Rightarrow> pydict \<times> installed_provider list" where
  "load_providers_from_db env tenant_id cache providers =
     (if tenant_id = [] then (providers, cache)
      else
        (let installed = installed_or_cached env cache
         in (fold (\<lambda>p ps. case ip_details p of
                Some d \<Rightarrow> dset (ip_name p) (PDict d) (dset (ip_id p) (PDict d) ps)
              | None \<Rightarrow> ps) installed providers, installed)))"

definition load_providers_config ::
  "parse_env \<Rightarrow> string \<Rightarrow> pydict \<Rightarrow> installed_provider list \<Rightarrow> pydict \<Rightarrow> pydict \<times> installed_provider list" where
  "load_providers_config env tenant_id workflow_providers cache providers =
     (let providers = (case pe_providers_file env of Some d \<Rightarrow> dupdate providers d | None \<Rightarrow> providers);
          providers = dupdate providers workflow_providers;
          providers = parse_providers_from_env env providers
      in load_providers_from_db env tenant_id cache providers)"

definition no_config :: pyval where
  "no_config = PDict [(''authentication'', PDict [])]"

definition extract_provider_id :: "string \<Rightarrow> string result" where
  "extract_provider_id s =
     (case py_split ''.'' s of
        [_, config] \<Rightarrow> Inr (py_strip (py_replace ''}}'' [] config))
      | _ \<Rightarrow> Inl (Exn EValueError ''Provider config is not valid, should be in the format: {{ <provider_id>.<config_id> }}''))"

definition parse_provider_config :: "pydict \<Rightarrow> pyval \<Rightarrow> pyval \<Rightarrow> (pyval \<times> pyval) result" where
  "parse_provider_config providers provider_type config =
     (case config of
        PDict d \<Rightarrow> Inr (provider_type, config)
      | PNone \<Rightarrow> Inr (provider_type, no_config)
      | PStr s \<Rightarrow> rbind (extract_provider_id s) (\<lambda>cid.
          let found = dict_get providers cid PNone
          in Inr (PStr cid, if truthy found then found else no_config))
      | _ \<Rightarrow> Inl (Exn ETypeError ''cannot unpack non-iterable NoneType object''))"

text \<open>The class name of a provider type, and the type a provider reports, which is derived from that name.\<close>

fun title_from :: "bool \<Rightarrow> string \<Rightarrow> string" where
  "title_from start [] = []"
| "title_from start (c # cs) =
     (if is_upper c \<or> is_lower c then (if start then to_upper c else to_lower c) # title_from False cs
      else c # title_from True cs)"

definition class_part :: "string \<Rightarrow> string" where
  "class_part s = py_replace ''_'' [] (title_from True s)"

definition provider_class_name :: "string \<Rightarrow> string" where
  "provider_class_name t =
     (case py_split ''.'' t of
        a # b # _ \<Rightarrow> class_part a @ class_part b @ ''Provider''
      | [a] \<Rightarrow> class_part a @ ''Provider''
      | [] \<Rightarrow> ''Provider'')"

definition reported_type :: "string \<Rightarrow> string" where
  "reported_type class_name =
     py_replace '' '' ''.'' (py_strip (py_lower (concat
       (map (\<lambda>c. if is_upper c then [CHR '' '', c] else [c]) (py_replace ''Provider'' [] class_name)))))"

definition provider_type_name :: "pyval \<Rightarrow> string" where
  "provider_type_name t = (case t of PStr s \<Rightarrow> provider_class_name s | _ \<Rightarrow> [])"

section \<open>Steps\<close>

text \<open>The removal of the provider's type and configuration from the step it is given.\<close>

definition take_provider :: "pydict \<Rightarrow> (pyval \<times> pyval) result \<times> pydict" where
  "take_provider st =
     (case dict_get st ''provider'' PNone of
        PDict p \<Rightarrow>
          (case dget p ''type'' of
             None \<Rightarrow> (Inl (Exn EKeyError ''type''), st)
           | Some t \<Rightarrow>
               let p = dpop ''type'' p
               in (Inr (t, case dget p ''config'' of Some c \<Rightarrow> c | None \<Rightarrow> no_config),
                   dset ''provider'' (PDict (dpop ''config'' p)) st))
      | PList _ \<Rightarrow> (Inl (Exn ETypeError ''pop''), st)
      | _ \<Rightarrow> (Inl (Exn EValueError ''Step provider type is required''), st))"

definition get_step_provider :: "parse_env \<Rightarrow> pydict \<Rightarrow> pydict \<Rightarrow> pyval result \<times> pydict" where
  "get_step_provider env providers st =
     (case take_provider st of
        (Inl e, st) \<Rightarrow> (Inl e, st)
      | (Inr (t, config), st) \<Rightarrow>
          (rbind (parse_provider_config providers t config) (\<lambda>(pid, conf).
             rbind (pe_make_provider env pid t conf) (\<lambda>_. Inr t)), st))"

text \<open>A step with the class name of its provider; a name that is no text is taken as its text.\<close>

type_synonym built = "step \<times> string"

definition is_keep_class :: "string \<Rightarrow> bool" where
  "is_keep_class class_name = contains_sub ''KeepProvider'' class_name"

definition build_step :: "parse_env \<Rightarrow> pyval \<Rightarrow> pydict \<Rightarrow> built result" where
  "build_step env provider_type st =
     rbind (need_dict (dict_get st ''provider'' (PDict []))) (\<lambda>p.
     rbind (parse_provider_parameters (pe_validate_param env) (dict_get p ''with'' PNone)) (\<lambda>params.
     rbind (new_step (py_str (dict_get st ''name'' PNone)) st False (is_keep_class (provider_type_name provider_type)) params)
       (\<lambda>s. Inr (s, provider_type_name provider_type))))"

definition parse_step :: "parse_env \<Rightarrow> pydict \<Rightarrow> pyval \<Rightarrow> built result \<times> pyval" where
  "parse_step env providers v =
     (case v of
        PDict st \<Rightarrow>
          (case get_step_provider env providers st of
             (Inl e, st') \<Rightarrow> (Inl e, PDict st')
           | (Inr t, st') \<Rightarrow> (build_step env t st', PDict st'))
      | _ \<Rightarrow> (Inl (Exn EAttributeError ''get''), v))"

fun parse_step_list :: "parse_env \<Rightarrow> pydict \<Rightarrow> pyval list \<Rightarrow> built list result \<times> pyval list" where
  "parse_step_list env providers [] = (Inr [], [])"
| "parse_step_list env providers (v # vs) =
     (case parse_step env providers v of
        (Inl e, v') \<Rightarrow> (Inl e, v' # vs)
      | (Inr s, v') \<Rightarrow>
          (case parse_step_list env providers vs of
             (r, vs') \<Rightarrow> (rbind r (\<lambda>ss. Inr (s # ss)), v' # vs')))"

definition parse_steps :: "parse_env \<Rightarrow> pydict \<Rightarrow> pydict \<Rightarrow> built list result \<times> pydict" where
  "parse_steps env providers workflow =
     (case dget workflow ''steps'' of
        None \<Rightarrow> (Inr [], workflow)
      | Some (PList l) \<Rightarrow>
          (case parse_step_list env providers l of (r, l') \<Rightarrow> (r, dset ''steps'' (PList l') workflow))
      | Some v \<Rightarrow> (rbind (need_iter v) (\<lambda>vs. fst (parse_step_list env providers vs)), workflow))"

section \<open>Actions\<close>

text \<open>The reusable actions: keyed by \<open>use\<close>, or by the name, whatever value that is.\<close>

type_synonym actions_table = "(pyval \<times> pyval) list"

definition action_key :: "pydict \<Rightarrow> pyval" where
  "action_key a = (let use = dict_get a ''use'' PNone in if truthy use then use else dict_get a ''name'' PNone)"

definition is_hashable :: "pyval \<Rightarrow> bool" where
  "is_hashable v = (case v of PList _ \<Rightarrow> False | PDict _ \<Rightarrow> False | _ \<Rightarrow> True)"

fun register_actions :: "pyval list \<Rightarrow> actions_table \<Rightarrow> actions_table result" where
  "register_actions [] t = Inr t"
| "register_actions (v # vs) t =
     rbind (need_dict v) (\<lambda>a.
       if is_hashable (action_key a) then register_actions vs (AList.update (action_key a) v t)
       else Inl (Exn ETypeError ''unhashable type''))"

definition load_actions_config :: "parse_env \<Rightarrow> string \<Rightarrow> pyval \<Rightarrow> actions_table result" where
  "load_actions_config env tenant_id workflow_actions =
     rbind (register_actions (case pe_actions_file env of Some l \<Rightarrow> l | None \<Rightarrow> []) []) (\<lambda>t.
     rbind (if truthy workflow_actions then rbind (need_iter workflow_actions) (\<lambda>l. register_actions l t) else Inr t) (\<lambda>t.
       Inr (if tenant_id = [] then t
            else fold (\<lambda>(use, details). AList.update (PStr use) details) (pe_db_actions env) t)))"

definition merge_action_by_use :: "actions_table \<Rightarrow> pyval \<Rightarrow> pyval result" where
  "merge_action_by_use t v =
     rbind (need_dict v) (\<lambda>a.
       let use = dict_get a ''use'' PNone
       in if is_hashable use then
            deep_merge v (case map_of t use of Some x \<Rightarrow> x | None \<Rightarrow> PDict [])
          else Inl (Exn ETypeError ''unhashable type''))"

text \<open>An action's step gets the parameters as they are written; the parsed ones only go to the
  constructor of the provider.\<close>

definition get_action :: "parse_env \<Rightarrow> pydict \<Rightarrow> string option \<Rightarrow> pyval \<Rightarrow> built result" where
  "get_action env providers action_name v =
     rbind (need_dict v) (\<lambda>a.
     rbind (need_dict (dict_get a ''provider'' (PDict []))) (\<lambda>p.
     let params = dict_get p ''with'' (PDict []); t = dict_get p ''type'' PNone
     in rbind (parse_provider_parameters (pe_validate_param env) params) (\<lambda>_.
        rbind (parse_provider_config providers t (dict_get p ''config'' PNone)) (\<lambda>(pid, conf).
        rbind (pe_make_provider env pid t conf) (\<lambda>_.
        rbind (new_step (case action_name of Some n \<Rightarrow> n | None \<Rightarrow> py_str (dict_get a ''name'' PNone)) a True
                 (is_keep_class (provider_type_name t)) (case params of PDict d \<Rightarrow> d | _ \<Rightarrow> []))
          (\<lambda>s. Inr (s, provider_type_name t)))))))"

text \<open>The merged actions come from a generator, so an action is built before the next one is merged.\<close>

fun parse_action_list :: "parse_env \<Rightarrow> pydict \<Rightarrow> actions_table \<Rightarrow> pyval list \<Rightarrow> built list result" where
  "parse_action_list env providers t [] = Inr []"
| "parse_action_list env providers t (v # vs) =
     rbind (merge_action_by_use t v) (\<lambda>a.
     rbind (get_action env providers None a) (\<lambda>b.
     rbind (parse_action_list env providers t vs) (\<lambda>bs. Inr (b # bs))))"

definition parse_actions :: "parse_env \<Rightarrow> pydict \<Rightarrow> actions_table \<Rightarrow> pydict \<Rightarrow> built list result" where
  "parse_actions env providers t workflow =
     rbind (need_iter (dict_get workflow ''actions'' (PList []))) (parse_action_list env providers t)"

definition get_on_failure_action :: "parse_env \<Rightarrow> pydict \<Rightarrow> pydict \<Rightarrow> built option result" where
  "get_on_failure_action env providers workflow =
     (let v = dict_get workflow ''on-failure'' (PDict [])
      in if truthy v then rbind (get_action env providers (Some ''on-failure'') v) (\<lambda>b. Inr (Some b)) else Inr None)"

section \<open>Workflows\<close>

text \<open>What the constructor of \<open>Workflow\<close> gets: fields that are taken over as the YAML has them are values
  of any kind.\<close>

record parsed_workflow =
  pw_id :: string
  pw_revision :: "int option"
  pw_name :: pyval
  pw_description :: pyval
  pw_disabled :: bool
  pw_owners :: pyval
  pw_tags :: pyval
  pw_interval :: int
  pw_triggers :: pyval
  pw_steps :: "step list"
  pw_actions :: "step list"
  pw_on_failure :: "step option"
  pw_provider_types :: "string list"
  pw_strategy :: pyval
  pw_consts :: pyval
  pw_debug :: pyval
  pw_permissions :: pyval
  pw_is_test :: bool
  pw_context :: ctx

definition find_workflow_id :: "parse_env \<Rightarrow> string \<Rightarrow> pydict \<Rightarrow> string result" where
  "find_workflow_id env tenant_id workflow =
     (case dict_get workflow ''id'' PNone of
        PNone \<Rightarrow> Inl (Exn EValueError ''Workflow dict must have an id'')
      | v \<Rightarrow> (let name = py_str v
              in case get_workflow_id tenant_id name (pe_workflow_table env) of
                   Some wid \<Rightarrow> if wid = [] then Inr name else Inr wid
                 | None \<Rightarrow> Inr name))"

text \<open>The types the providers report, each once, in order of first use.\<close>

fun distinct_types :: "built list \<Rightarrow> string list \<Rightarrow> string list" where
  "distinct_types [] seen = seen"
| "distinct_types ((_, class_name) # bs) seen =
     (let t = reported_type class_name in distinct_types bs (if t \<in> set seen then seen else seen @ [t]))"

definition opt_dict :: "pyval \<Rightarrow> pydict result" where
  "opt_dict v = (if truthy v then (case v of PDict d \<Rightarrow> Inr d | _ \<Rightarrow> Inl (Exn EValueError ''update'')) else Inr [])"

definition parse_workflow ::
  "parse_env \<Rightarrow> string \<Rightarrow> int option \<Rightarrow> pyval \<Rightarrow> pyval \<Rightarrow> string \<Rightarrow> bool \<Rightarrow> installed_provider list \<Rightarrow> pydict
     \<Rightarrow> parsed_workflow result \<times> installed_provider list \<times> pydict" where
  "parse_workflow env tenant_id revision workflow_providers workflow_actions db_id is_test cache workflow =
     (case (if db_id = [] then find_workflow_id env tenant_id workflow else Inr db_id) of
        Inl e \<Rightarrow> (Inl e, cache, workflow)
      | Inr wid \<Rightarrow>
        (case opt_dict workflow_providers of
           Inl e \<Rightarrow> (Inl e, cache, workflow)
         | Inr workflow_providers \<Rightarrow>
          let c = load_last_execution (pe_dumps env workflow) (pe_last_execution env) (new_ctx tenant_id (Some wid));
              (providers, cache) = load_providers_config env tenant_id workflow_providers cache []
          in (case load_actions_config env tenant_id workflow_actions of
                Inl e \<Rightarrow> (Inl e, cache, workflow)
              | Inr t \<Rightarrow>
                  (case parse_steps env providers workflow of
                     (Inl e, workflow) \<Rightarrow> (Inl e, cache, workflow)
                   | (Inr steps, workflow) \<Rightarrow>
                       (rbind (parse_actions env providers t workflow) (\<lambda>actions.
                        rbind (parse_interval workflow) (\<lambda>interval.
                        rbind (get_on_failure_action env providers workflow) (\<lambda>on_failure.
                        let consts = dict_get workflow ''consts'' (PDict [])
                        in Inr \<lparr>pw_id = wid, pw_revision = revision,
                             pw_name = dict_get workflow ''name'' (PStr ''Untitled''),
                             pw_description = dict_get workflow ''description'' (PStr ''No description''),
                             pw_disabled = parse_disabled workflow,
                             pw_owners = dict_get workflow ''owners'' (PList []),
                             pw_tags = dict_get workflow ''tags'' (PList []),
                             pw_interval = interval,
                             pw_triggers = dict_get workflow ''triggers'' (PList []),
                             pw_steps = map fst steps, pw_actions = map fst actions,
                             pw_on_failure = map_option fst on_failure,
                             pw_provider_types = distinct_types (steps @ actions) [],
                             pw_strategy = dict_get workflow ''strategy'' (PStr NONPARALLEL_WITH_RETRY),
                             pw_consts = consts,
                             pw_debug = dict_get workflow ''debug'' (PBool False),
                             pw_permissions = dict_get workflow ''permissions'' (PList []),
                             pw_is_test = is_test,
                             pw_context = set_secret_context (pe_read_secret env)
                               (set_consts_context consts (c\<lparr>providers_context := providers\<rparr>))\<rparr>))),
                        cache, workflow)))))"

fun parse_workflow_list ::
  "parse_env \<Rightarrow> string \<Rightarrow> int option \<Rightarrow> pyval \<Rightarrow> pyval \<Rightarrow> string \<Rightarrow> bool \<Rightarrow> installed_provider list \<Rightarrow> pyval list
     \<Rightarrow> parsed_workflow list result \<times> installed_provider list" where
  "parse_workflow_list env tenant_id revision wp wa db_id is_test cache [] = (Inr [], cache)"
| "parse_workflow_list env tenant_id revision wp wa db_id is_test cache (v # vs) =
     (case need_dict v of
        Inl e \<Rightarrow> (Inl e, cache)
      | Inr d \<Rightarrow>
          (case parse_workflow env tenant_id revision wp wa db_id is_test cache d of
             (Inl e, cache, _) \<Rightarrow> (Inl e, cache)
           | (Inr w, cache, _) \<Rightarrow>
               (case parse_workflow_list env tenant_id revision wp wa db_id is_test cache vs of
                  (r, cache) \<Rightarrow> (rbind r (\<lambda>ws. Inr (w # ws)), cache))))"

definition either :: "pydict \<Rightarrow> string \<Rightarrow> string \<Rightarrow> pyval" where
  "either d a b = (let v = dict_get d a PNone in if truthy v then v else dict_get d b PNone)"

definition parse_workflows ::
  "parse_env \<Rightarrow> string \<Rightarrow> int option \<Rightarrow> string \<Rightarrow> bool \<Rightarrow> installed_provider list \<Rightarrow> pydict
     \<Rightarrow> parsed_workflow list result \<times> installed_provider list" where
  "parse_workflows env tenant_id revision db_id is_test cache yaml =
     (let wp = dict_get yaml ''providers'' PNone; wa = dict_get yaml ''actions'' PNone;
          many = either yaml ''workflows'' ''alerts''; one = either yaml ''workflow'' ''alert'';
          raw = (if truthy many then need_iter many else if truthy one then Inr [one] else Inr [PDict yaml])
      in (case raw of
            Inl e \<Rightarrow> (Inl e, cache)
          | Inr vs \<Rightarrow> parse_workflow_list env tenant_id revision wp wa db_id is_test cache vs))"

text \<open>The \<open>provider\<close> of every entry that has one.\<close>

definition provider_entries :: "pyval list \<Rightarrow> pyval list result" where
  "provider_entries vs =
     rbind (rmap (item_in ''provider'') vs) (\<lambda>ps.
       Inr (concat (map (\<lambda>p. case p of Some v \<Rightarrow> [v] | None \<Rightarrow> []) ps)))"

definition provider_entry_name :: "pyval \<Rightarrow> (string \<times> pyval) result" where
  "provider_entry_name v =
     rbind (need_dict v) (\<lambda>p.
       let t = dict_get p ''type'' PNone
       in (case dict_get p ''config'' (PStr (''NAME.'' @ py_str t)) of
             PStr s \<Rightarrow>
               (case py_split ''.'' s of
                  _ # name # _ \<Rightarrow> Inr (py_strip (py_replace ''}}'' [] name), t)
                | _ \<Rightarrow> Inl (Exn EIndexError ''list index out of range''))
           | _ \<Rightarrow> Inl (Exn EAttributeError ''split'')))"

definition get_providers_from_workflow_dict :: "pydict \<Rightarrow> (string \<times> pyval) list result" where
  "get_providers_from_workflow_dict workflow =
     rbind (need_iter (dict_get workflow ''actions'' (PList []))) (\<lambda>actions.
     rbind (provider_entries actions) (\<lambda>action_providers.
     rbind (need_iter (dict_get workflow ''steps'' (PList []))) (\<lambda>steps.
     rbind (provider_entries steps) (\<lambda>step_providers.
       rmap provider_entry_name (action_providers @ step_providers)))))"

section \<open>Merging by paths\<close>

fun wf_value :: "pyval \<Rightarrow> bool" where
  "wf_value (PDict d) \<longleftrightarrow> wf_dict d \<and> list_all (\<lambda>(_, v). wf_value v) d"
| "wf_value (PList l) \<longleftrightarrow> list_all wf_value l"
| "wf_value _ \<longleftrightarrow> True"

fun path_get :: "string list \<Rightarrow> pyval \<Rightarrow> pyval option" where
  "path_get [] v = Some v"
| "path_get (k # ks) (PDict d) = (case dget d k of Some v \<Rightarrow> path_get ks v | None \<Rightarrow> None)"
| "path_get (k # ks) v = None"

text \<open>A path leaves a value where a dictionary does not have its next key.\<close>

fun leaves :: "string list \<Rightarrow> pyval \<Rightarrow> bool" where
  "leaves (k # ks) (PDict d) = (case dget d k of Some v \<Rightarrow> leaves ks v | None \<Rightarrow> True)"
| "leaves _ v = False"

definition plain :: "pyval \<Rightarrow> bool" where
  "plain v \<longleftrightarrow> (case v of PDict _ \<Rightarrow> False | PList _ \<Rightarrow> False | _ \<Rightarrow> True)"

definition merge_entry :: "pyval \<Rightarrow> pyval option \<Rightarrow> pyval result" where
  "merge_entry v old =
     (case (v, old) of
        (PDict _, Some node) \<Rightarrow> merge_value v node
      | (PList l, Some node) \<Rightarrow> rbind (nodes_of node) (\<lambda>ns. rbind (merge_nodes l ns) (\<lambda>ns'. Inr (with_nodes node ns')))
      | _ \<Rightarrow> Inr v)"

lemma merge_items_step:
  "merge_items ((k, v) # kvs) (PDict d) = rbind (merge_entry v (dget d k)) (\<lambda>w. merge_items kvs (PDict (dset k w d)))"
  by (cases v; cases "dget d k")
    (simp_all add: merge_entry_def item_in_def set_item_def rbind_def split: sum.splits)

lemma merge_items_spec:
  "merge_items kvs (PDict d) = Inr c \<Longrightarrow> wf_dict kvs \<Longrightarrow>
     \<exists>d'. c = PDict d' \<and> (\<forall>k. case dget kvs k of
         None \<Rightarrow> dget d' k = dget d k
       | Some v \<Rightarrow> (\<exists>w. merge_entry v (dget d k) = Inr w \<and> dget d' k = Some w))"
proof (induction kvs arbitrary: d)
  case (Cons kv kvs)
  obtain k v where kv: "kv = (k, v)" by fastforce
  from Cons.prems(1) obtain w where w: "merge_entry v (dget d k) = Inr w" "merge_items kvs (PDict (dset k w d)) = Inr c"
    unfolding kv merge_items_step by (auto simp: rbind_Inr_iff)
  have k: "dget kvs k = None" using Cons.prems(2) kv by (auto simp: wf_dict_def dget_None_iff)
  have "wf_dict kvs" using Cons.prems(2) by (simp add: wf_dict_def)
  from Cons.IH [OF w(2) this] obtain d' where d: "c = PDict d'" "\<forall>j. case dget kvs j of
      None \<Rightarrow> dget d' j = dget (dset k w d) j
    | Some v \<Rightarrow> (\<exists>x. merge_entry v (dget (dset k w d) j) = Inr x \<and> dget d' j = Some x)" by blast
  have "case dget (kv # kvs) j of None \<Rightarrow> dget d' j = dget d j
    | Some v \<Rightarrow> (\<exists>w. merge_entry v (dget d j) = Inr w \<and> dget d' j = Some w)" for j
    using d(2) [rule_format, of j] k w(1) by (cases "j = k"; cases "dget kvs j") (simp_all add: kv dget_Cons)
  with d(1) show ?case by blast
qed auto

lemma merge_nodes_length: "merge_nodes vs ns = Inr ns' \<Longrightarrow> length ns' = length ns"
proof (induction vs arbitrary: ns ns')
  case (Cons v vs)
  then show ?case by (cases ns) (auto simp: rbind_Inr_iff)
qed simp

text \<open>The value of a merged dictionary at a key.\<close>

lemma merge_at:
  assumes "merge_value (PDict a) (PDict b) = Inr c" "wf_dict a"
  obtains d where "c = PDict d" "\<And>k. dget a k = None \<Longrightarrow> dget d k = dget b k"
    "\<And>k v. dget a k = Some v \<Longrightarrow> \<exists>w. merge_entry v (dget b k) = Inr w \<and> dget d k = Some w"
proof -
  from merge_items_spec [of a b c] assms obtain d where d: "c = PDict d"
    "\<forall>k. case dget a k of None \<Rightarrow> dget d k = dget b k
       | Some v \<Rightarrow> (\<exists>w. merge_entry v (dget b k) = Inr w \<and> dget d k = Some w)" by auto
  have "dget d k = dget b k" if "dget a k = None" for k
    using d(2) [rule_format, of k] that by simp
  moreover have "\<exists>w. merge_entry v (dget b k) = Inr w \<and> dget d k = Some w" if "dget a k = Some v" for k v
    using d(2) [rule_format, of k] that by simp
  ultimately show ?thesis using that [OF d(1)] by blast
qed

lemma wf_at: "wf_value (PDict a) \<Longrightarrow> dget a k = Some v \<Longrightarrow> wf_value v"
  by (auto simp: list_all_iff dest!: dget_in_set)

lemma plain_merge_entry: "plain v \<Longrightarrow> merge_entry v old = Inr v"
  by (cases v) (simp_all add: plain_def merge_entry_def)

text \<open>Where two dictionaries are merged, one step along a path leads to merged values or out of them.\<close>

lemma merge_step_cases:
  assumes "merge_value (PDict a) (PDict b) = Inr c" "wf_value (PDict a)" "dget a k = Some v"
  obtains w where "path_get (k # ks) c = path_get ks w" "merge_entry v (dget b k) = Inr w" "wf_value v"
proof -
  have "wf_dict a" using assms(2) by simp
  from merge_at [OF assms(1) this] assms(3) obtain d w where "c = PDict d" "merge_entry v (dget b k) = Inr w"
    "dget d k = Some w" by metis
  then show ?thesis using wf_at [OF assms(2,3)] by (intro that [of w]) simp_all
qed

lemma merge_into_other:
  assumes "merge_value (PDict a) ob = Inr c" "\<And>b. ob \<noteq> PDict b"
  shows "a = []"
proof (cases a)
  case (Cons kv kvs)
  obtain k v where "kv = (k, v)" by fastforce
  with assms Cons show ?thesis
    by (cases v; cases ob) (auto simp: rbind_Inr_iff set_item_def item_in_def split: option.splits if_splits)
qed

lemma merged_plain:
  "merge_value a b = Inr c \<Longrightarrow> wf_value a \<Longrightarrow> p \<noteq> [] \<Longrightarrow> path_get p a = Some v \<Longrightarrow> plain v \<Longrightarrow> path_get p c = Some v"
proof (induction p arbitrary: a b c)
  case (Cons k ks)
  from Cons.prems(4) obtain da x where a: "a = PDict da" "dget da k = Some x" "path_get ks x = Some v"
    by (cases a) (auto split: option.splits)
  then have "da \<noteq> []" by auto
  with merge_into_other [of da b c] Cons.prems(1) a(1) obtain db where b: "b = PDict db" by blast
  have m: "merge_value (PDict da) (PDict db) = Inr c" "wf_value (PDict da)" using Cons.prems a b by simp_all
  from merge_step_cases [OF m a(2), of ks] obtain w where
    w: "path_get (k # ks) c = path_get ks w" "merge_entry x (dget db k) = Inr w" "wf_value x" by blast
  show ?case
  proof (cases ks)
    case Nil
    with a(3) Cons.prems(5) w plain_merge_entry show ?thesis by simp
  next
    case (Cons k' ks')
    with a(3) obtain dx where x: "x = PDict dx" by (cases x) auto
    show ?thesis
    proof (cases "dget db k")
      case None
      with w x a(3) show ?thesis by (simp add: merge_entry_def)
    next
      case (Some node)
      with w(2) x have "merge_value x node = Inr w" by (simp add: merge_entry_def)
      from Cons.IH [OF this w(3) _ a(3) Cons.prems(5)] Cons w(1) show ?thesis by simp
    qed
  qed
qed simp

lemma merged_rest:
  "merge_value a b = Inr c \<Longrightarrow> wf_value a \<Longrightarrow> leaves p a \<Longrightarrow> path_get p b = Some v \<Longrightarrow> path_get p c = Some v"
proof (induction p arbitrary: a b c)
  case (Cons k ks)
  from Cons.prems(4) obtain db y where b: "b = PDict db" "dget db k = Some y" "path_get ks y = Some v"
    by (cases b) (auto split: option.splits)
  from Cons.prems(3) obtain da where a: "a = PDict da" by (cases a) auto
  have m: "merge_value (PDict da) (PDict db) = Inr c" "wf_value (PDict da)" using Cons.prems a b by simp_all
  show ?case
  proof (cases "dget da k")
    case None
    have "wf_dict da" using m(2) by simp
    from merge_at [OF m(1) this] None obtain d where "c = PDict d" "dget d k = dget db k" by metis
    with b show ?thesis by simp
  next
    case (Some x)
    with Cons.prems(3) a have l: "leaves ks x" by simp
    then obtain dx where x: "x = PDict dx" by (cases ks; cases x) auto
    from merge_step_cases [OF m Some, of ks] obtain w where
      w: "path_get (k # ks) c = path_get ks w" "merge_entry x (dget db k) = Inr w" "wf_value x" by blast
    then have "merge_value x y = Inr w" using x b(2) by (simp add: merge_entry_def)
    from Cons.IH [OF this w(3) l b(3)] w(1) show ?thesis by simp
  qed
qed simp

lemma merged_lists:
  "merge_value a b = Inr c \<Longrightarrow> wf_value a \<Longrightarrow> path_get p a = Some (PList xs) \<Longrightarrow> path_get p b = Some (PList ys) \<Longrightarrow>
     \<exists>zs. path_get p c = Some (PList zs) \<and> length zs = length ys"
proof (induction p arbitrary: a b c)
  case Nil
  then show ?case by simp
next
  case (Cons k ks)
  from Cons.prems(3) obtain da x where a: "a = PDict da" "dget da k = Some x" "path_get ks x = Some (PList xs)"
    by (cases a) (auto split: option.splits)
  from Cons.prems(4) obtain db y where b: "b = PDict db" "dget db k = Some y" "path_get ks y = Some (PList ys)"
    by (cases b) (auto split: option.splits)
  have m: "merge_value (PDict da) (PDict db) = Inr c" "wf_value (PDict da)" using Cons.prems a b by simp_all
  from merge_step_cases [OF m a(2), of ks] obtain w where
    w: "path_get (k # ks) c = path_get ks w" "merge_entry x (dget db k) = Inr w" "wf_value x" by blast
  show ?case
  proof (cases ks)
    case Nil
    with a(3) b(2,3) w(2) obtain ns where "merge_nodes xs ys = Inr ns" "w = PList ns"
      by (auto simp: merge_entry_def nodes_of_def with_nodes_def rbind_Inr_iff)
    with merge_nodes_length [of xs ys ns] w(1) Nil show ?thesis by simp
  next
    case (Cons k' ks')
    with a(3) obtain dx where x: "x = PDict dx" by (cases x) auto
    then have "merge_value x y = Inr w" using w(2) b(2) by (simp add: merge_entry_def)
    from Cons.IH [OF this w(3) a(3) b(3)] w(1) show ?thesis by simp
  qed
qed

section \<open>Steps of a parsed workflow\<close>

text \<open>The configuration a step is left with: its provider without type and configuration.\<close>

definition stripped :: "pydict \<Rightarrow> pydict" where
  "stripped st =
     (case dget st ''provider'' of
        Some (PDict p) \<Rightarrow> dset ''provider'' (PDict (dpop ''config'' (dpop ''type'' p))) st
      | _ \<Rightarrow> st)"

lemma take_provider_Inr:
  assumes "take_provider st = (Inr x, st')"
  shows "st' = stripped st" "\<exists>p. dget st' ''provider'' = Some (PDict p) \<and> dget p ''type'' = None"
  using assms
  by (auto simp: take_provider_def stripped_def dict_get_def Let_def split: pyval.splits option.splits)

lemma take_provider_again:
  "dget st ''provider'' = Some (PDict p) \<Longrightarrow> dget p ''type'' = None \<Longrightarrow>
     take_provider st = (Inl (Exn EKeyError ''type''), st)"
  by (simp add: take_provider_def dict_get_def)

definition parsed_step_of :: "parse_env \<Rightarrow> pyval \<Rightarrow> built \<Rightarrow> pyval \<Rightarrow> bool" where
  "parsed_step_of env v b v' \<longleftrightarrow>
     (\<exists>st p. v = PDict st \<and> v' = PDict (stripped st) \<and> st_config (fst b) = stripped st \<and> \<not> st_is_action (fst b)
        \<and> st_id (fst b) = py_str (dict_get (stripped st) ''name'' PNone)
        \<and> dget (stripped st) ''provider'' = Some (PDict p) \<and> dget p ''type'' = None
        \<and> parse_provider_parameters (pe_validate_param env) (dict_get p ''with'' PNone) = Inr (st_params (fst b)))"

lemma new_step_fields:
  "new_step sid config is_action keep params = Inr s \<Longrightarrow>
     st_id s = sid \<and> st_config s = config \<and> st_is_action s = is_action \<and> st_params s = params"
  by (auto simp: new_step_def rbind_Inr_iff Let_def)

lemma parse_step_Inr:
  assumes "parse_step env providers v = (Inr b, v')"
  shows "parsed_step_of env v b v'"
proof -
  obtain st where v: "v = PDict st" using assms by (cases v) (simp_all add: parse_step_def)
  obtain r st' where g: "get_step_provider env providers st = (r, st')" by fastforce
  obtain t where r: "r = Inr t" "build_step env t st' = Inr b" "v' = PDict st'"
    using assms v g by (cases r) (simp_all add: parse_step_def)
  obtain x where x: "take_provider st = (Inr x, st')"
    using g r(1) by (auto simp: get_step_provider_def split: prod.splits sum.splits)
  from take_provider_Inr [OF this] obtain p where p: "st' = stripped st" "dget st' ''provider'' = Some (PDict p)"
    "dget p ''type'' = None" by blast
  with r(2) obtain params s where s: "parse_provider_parameters (pe_validate_param env) (dict_get p ''with'' PNone) = Inr params"
    "new_step (py_str (dict_get st' ''name'' PNone)) st' False (is_keep_class (provider_type_name t)) params = Inr s"
    "b = (s, provider_type_name t)"
    by (auto simp: build_step_def rbind_Inr_iff need_dict_def dict_get_def)
  from new_step_fields [OF s(2)] s(1,3) p v r(3) show ?thesis by (auto simp: parsed_step_of_def)
qed

lemma parse_step_again:
  assumes "parsed_step_of env v b v'"
  shows "fst (parse_step env' providers v') = Inl (Exn EKeyError ''type'')"
  using assms by (auto simp: parsed_step_of_def parse_step_def get_step_provider_def take_provider_again)

lemma parse_step_list_Inr:
  "parse_step_list env providers vs = (Inr bs, vs') \<Longrightarrow>
     length bs = length vs \<and> length vs' = length vs \<and> (\<forall>i < length vs. parsed_step_of env (vs ! i) (bs ! i) (vs' ! i))"
proof (induction vs arbitrary: bs vs')
  case (Cons v vs)
  obtain r v' where p: "parse_step env providers v = (r, v')" by fastforce
  then obtain b where r: "r = Inr b" using Cons.prems by (cases r) simp_all
  obtain q ws where q: "parse_step_list env providers vs = (q, ws)" by fastforce
  with Cons.prems p r obtain cs where cs: "q = Inr cs" "bs = b # cs" "vs' = v' # ws"
    by (auto simp: rbind_Inr_iff)
  from Cons.IH [of cs ws] q cs(1) have "length cs = length vs \<and> length ws = length vs
    \<and> (\<forall>i < length vs. parsed_step_of env (vs ! i) (cs ! i) (ws ! i))" by simp
  with parse_step_Inr [of env providers v b v'] p r cs(2,3) show ?case by (auto simp: nth_Cons')
qed simp

section \<open>Reusable actions of the file\<close>

text \<open>A workflow without a wrapping key offers its own actions as reusable ones, after those of the
  actions file: an action that uses one of the file is merged with itself instead.\<close>

lemma file_action_shadowed:
  assumes "load_actions_config env tenant_id (PList [PDict d]) = Inr t"
    and "dget d ''use'' = Some (PStr u)" and "u \<noteq> []" and "u \<notin> fst ` set (pe_db_actions env)"
  shows "merge_action_by_use t (PDict d) = deep_merge (PDict d) (PDict d)"
proof -
  have k: "action_key d = PStr u" "dict_get d ''use'' PNone = PStr u"
    using assms(2,3) by (simp_all add: action_key_def dict_get_def)
  have db: "map_of (fold (\<lambda>(use, details). AList.update (PStr use) details) ds t0) (PStr u) = map_of t0 (PStr u)"
    if "u \<notin> fst ` set ds" for ds t0
    using that by (induction ds arbitrary: t0) (auto simp: update_conv')
  obtain t0 where "t = (if tenant_id = [] then AList.update (PStr u) (PDict d) t0
      else fold (\<lambda>(use, details). AList.update (PStr use) details) (pe_db_actions env) (AList.update (PStr u) (PDict d) t0))"
    using assms(1) k
    by (auto simp: load_actions_config_def rbind_Inr_iff need_iter_def need_dict_def is_hashable_def)
  then have "map_of t (PStr u) = Some (PDict d)"
    using db [OF assms(4)] by (simp add: update_conv')
  then show ?thesis
    using k(2) by (simp add: merge_action_by_use_def need_dict_def is_hashable_def Let_def)
qed

section \<open>Intervals\<close>

lemma interval_text:
  "parse_interval [(''interval'', PStr (show_nat n))] = Inr (int n)"
  by (simp add: parse_interval_def dict_get_def dget_Cons need_iter_def interval_seconds_def py_isdigit_def
      show_nat_digits py_int_show_nat)

section \<open>Properties\<close>

text \<open>C37: steps are parsed once and in order.  When parsing the steps succeeds there is one step per
  entry of the list, named and configured as the entry without its provider's type and
  configuration, with the parsed parameters; but the dictionary is left without them, so parsing
  its steps again raises \<open>KeyError\<close>.\<close>

theorem parsed_steps:
  assumes "dget workflow ''steps'' = Some (PList vs)" and "parse_steps env providers workflow = (Inr bs, workflow')"
  shows "\<exists>vs'. dget workflow' ''steps'' = Some (PList vs') \<and> length bs = length vs \<and> length vs' = length vs
    \<and> (\<forall>i < length vs. parsed_step_of env (vs ! i) (bs ! i) (vs' ! i))
    \<and> (\<forall>env' providers'. vs \<noteq> [] \<longrightarrow> fst (parse_steps env' providers' workflow') = Inl (Exn EKeyError ''type''))"
proof -
  obtain r vs' where l: "parse_step_list env providers vs = (r, vs')" by fastforce
  with assms have r: "r = Inr bs" "workflow' = dset ''steps'' (PList vs') workflow" by (auto simp: parse_steps_def)
  with parse_step_list_Inr [of env providers vs bs vs'] l
  have s: "length bs = length vs" "length vs' = length vs" "\<forall>i < length vs. parsed_step_of env (vs ! i) (bs ! i) (vs' ! i)"
    by simp_all
  have "fst (parse_steps env' providers' workflow') = Inl (Exn EKeyError ''type'')" if ne: "vs \<noteq> []" for env' providers'
  proof -
    obtain v ws where w: "vs' = v # ws" using ne s(2) by (cases vs') auto
    have "parsed_step_of env (vs ! 0) (bs ! 0) v" using s(3) ne w by fastforce
    from parse_step_again [OF this, of env' providers'] obtain v2 where
      "parse_step env' providers' v = (Inl (Exn EKeyError ''type''), v2)" by (metis prod.collapse)
    then show ?thesis by (simp add: r(2) w parse_steps_def)
  qed
  with s r(2) show ?thesis by (intro exI [of _ vs']) simp
qed

text \<open>Merging by paths.  A merged action has the action's own plain values, and wherever the action
  leaves the path the reusable action's values; where both have a list, the merged list is exactly as
  long as the reusable action's, so further elements of the action's list are lost.\<close>

theorem deep_merge_paths:
  assumes "deep_merge action reusable = Inr merged" and "wf_value action"
  shows "(\<forall>p v. p \<noteq> [] \<and> path_get p action = Some v \<and> plain v \<longrightarrow> path_get p merged = Some v)
    \<and> (\<forall>p v. leaves p action \<and> path_get p reusable = Some v \<longrightarrow> path_get p merged = Some v)
    \<and> (\<forall>p xs ys. path_get p action = Some (PList xs) \<and> path_get p reusable = Some (PList ys)
         \<longrightarrow> (\<exists>zs. path_get p merged = Some (PList zs) \<and> length zs = length ys))"
proof -
  have m: "merge_value action reusable = Inr merged" using assms(1) by (simp add: deep_merge_def)
  show ?thesis
    using merged_plain [OF m assms(2)] merged_rest [OF m assms(2)] merged_lists [OF m assms(2)] by blast
qed

section \<open>Witnesses\<close>

definition demo_parse_env :: parse_env where
  "demo_parse_env = \<lparr>pe_validate_param = (\<lambda>d. case dget d ''key'' of Some (PStr k) \<Rightarrow> Some (k, False, PNone) | _ \<Rightarrow> None),
     pe_make_provider = (\<lambda>_ _ _. Inr ()), pe_getenv = (\<lambda>_. None), pe_providers_file = None, pe_keep_providers = None,
     pe_env_providers = [], pe_installed = [], pe_use_cache = False, pe_actions_file = None, pe_db_actions = [],
     pe_workflow_table = \<lparr>workflows = [], versions = []\<rparr>, pe_last_execution = None, pe_dumps = (\<lambda>_. []),
     pe_read_secret = (\<lambda>_. Inr None)\<rparr>"

definition demo_workflow_dict :: pydict where
  "demo_workflow_dict = [(''id'', PStr ''w''), (''steps'', PList [PDict [(''name'', PStr ''s1''),
     (''provider'', PDict [(''type'', PStr ''mock''), (''with'', PDict [(''class'', PInt 1), (''skip'', PNone)])])]])]"

theorem parsed_steps_witness:
  "fst (parse_steps demo_parse_env [] (snd (parse_steps demo_parse_env [] demo_workflow_dict)))
     = Inl (Exn EKeyError ''type'')
   \<and> (case fst (parse_steps demo_parse_env [] demo_workflow_dict) of
        Inr bs \<Rightarrow> map (\<lambda>b. st_params (fst b)) bs = [[(''class_'', PInt 1)]] | Inl _ \<Rightarrow> False)"
proof
  show params: "case fst (parse_steps demo_parse_env [] demo_workflow_dict) of
        Inr bs \<Rightarrow> map (\<lambda>b. st_params (fst b)) bs = [[(''class_'', PInt 1)]] | Inl _ \<Rightarrow> False" by code_simp
  obtain vs where vs: "dget demo_workflow_dict ''steps'' = Some (PList vs)" "vs \<noteq> []"
    by (simp add: demo_workflow_dict_def dget_Cons)
  obtain bs workflow' where p: "parse_steps demo_parse_env [] demo_workflow_dict = (Inr bs, workflow')"
    using params by (cases "parse_steps demo_parse_env [] demo_workflow_dict") (auto split: sum.splits)
  from parsed_steps [OF vs(1) p] vs(2) p
  show "fst (parse_steps demo_parse_env [] (snd (parse_steps demo_parse_env [] demo_workflow_dict)))
     = Inl (Exn EKeyError ''type'')" by auto
qed

definition demo_action :: pyval where
  "demo_action = PDict [(''name'', PStr ''a''), (''with'', PDict [(''rows'', PList [PDict [], PDict [(''x'', PInt 2)]])])]"

definition demo_reusable :: pyval where
  "demo_reusable = PDict [(''name'', PStr ''base''), (''with'', PDict [(''rows'', PList [PDict [(''y'', PInt 1)]]), (''to'', PStr ''ops'')])]"

theorem deep_merge_paths_witness:
  "\<exists>merged zs. deep_merge demo_action demo_reusable = Inr merged \<and> path_get [''name''] merged = Some (PStr ''a'')
     \<and> path_get [''with'', ''to''] merged = Some (PStr ''ops'') \<and> path_get [''with'', ''rows''] merged = Some (PList zs) \<and> length zs = 1"
proof -
  have "case deep_merge demo_action demo_reusable of Inr _ \<Rightarrow> True | Inl _ \<Rightarrow> False" by code_simp
  then obtain merged where m: "deep_merge demo_action demo_reusable = Inr merged" by (auto split: sum.splits)
  have w: "wf_value demo_action" by code_simp
  note spec = deep_merge_paths [OF m w]
  have "path_get [''name''] demo_action = Some (PStr ''a'')" "plain (PStr ''a'')"
    "leaves [''with'', ''to''] demo_action" "path_get [''with'', ''to''] demo_reusable = Some (PStr ''ops'')"
    "path_get [''with'', ''rows''] demo_action = Some (PList [PDict [], PDict [(''x'', PInt 2)]])"
    "path_get [''with'', ''rows''] demo_reusable = Some (PList [PDict [(''y'', PInt 1)]])"
    by code_simp+
  with spec have "path_get [''name''] merged = Some (PStr ''a'')" "path_get [''with'', ''to''] merged = Some (PStr ''ops'')"
    "\<exists>zs. path_get [''with'', ''rows''] merged = Some (PList zs) \<and> length zs = length [PDict [(''y'', PInt 1)]]"
    by blast+
  with m show ?thesis by auto
qed

end
