(* ===== verification/WorkflowStore.thy ===== *)
theory WorkflowStore
  imports Parser ExecutionStore
begin

text \<open>
  \<open>src/workflowmanager/workflowstore.py\<close>: workflows are created, deleted, read and parsed through the
  store, templates are listed from a directory, and at start-up the workflows that the environment or a
  directory prescribes are written to the workflow table and the others are removed from it.

  YAML (\<open>se_load\<close>, \<open>se_dump\<close>), files and URLs, the shuffle, pydantic's reading of a string field
  (\<open>se_str_field\<close>), the database driver's text of a value that is not a string (\<open>se_text\<close>), CEL and
  the import of provider modules are parameters.  The \<open>uuid\<close> a new row gets is an argument; the
  \<open>n\<close>-th file of a directory gets the \<open>n\<close>-th one.
\<close>

record store_env =
  se_load :: "string \<Rightarrow> pyval result"
  se_dump :: "pyval \<Rightarrow> string"
  se_is_url :: "string \<Rightarrow> bool"
  se_fetch :: "string \<Rightarrow> string result"
  se_read :: "string \<Rightarrow> string result"
  se_isdir :: "string \<Rightarrow> bool"
  se_listdir :: "string \<Rightarrow> string list"
  se_exists :: "string \<Rightarrow> bool"
  se_shuffle :: "string list \<Rightarrow> string list"
  se_uuid :: "nat \<Rightarrow> string"
  se_str_field :: "pyval \<Rightarrow> string option"
  se_text :: "pyval \<Rightarrow> string result"
  se_cel :: "string \<Rightarrow> string \<Rightarrow> string \<Rightarrow> bool result"
  se_import :: "string \<Rightarrow> unit result"

section \<open>Executions of the store\<close>

definition execution_row :: "string \<Rightarrow> string \<Rightarrow> bool option \<Rightarrow> exec_db \<Rightarrow> wf_execution list" where
  "execution_row tenant_id execution_id is_test db =
     filter (\<lambda>e. (case is_test of None \<Rightarrow> True | Some b \<Rightarrow> ex_is_test e = b)
       \<and> ex_id e = execution_id \<and> ex_tenant_id e = tenant_id) (executions db)"

text \<open>\<open>.one()\<close>, whose \<open>NoResultFound\<close> becomes a 404.\<close>

definition get_workflow_execution :: "string \<Rightarrow> string \<Rightarrow> bool option \<Rightarrow> exec_db \<Rightarrow> wf_execution result" where
  "get_workflow_execution tenant_id execution_id is_test db =
     (case execution_row tenant_id execution_id is_test db of
        [] \<Rightarrow> Inl (Exn (EHttp 404) (''Workflow execution '' @ execution_id @ '' not found''))
      | [e] \<Rightarrow> Inr e
      | _ \<Rightarrow> Inl (Exn (EOther ''MultipleResultsFound'') []))"

record log_row =
  lg_execution_id :: string
  lg_timestamp :: int
  lg_message :: string

definition get_workflow_execution_with_logs ::
  "string \<Rightarrow> string \<Rightarrow> bool option \<Rightarrow> exec_db \<Rightarrow> log_row list \<Rightarrow> (wf_execution \<times> log_row list) result" where
  "get_workflow_execution_with_logs tenant_id execution_id is_test db logs =
     rbind (get_workflow_execution tenant_id execution_id is_test db) (\<lambda>e.
       Inr (e, sort_key lg_timestamp (filter (\<lambda>l. lg_execution_id l = execution_id) logs)))"

section \<open>Creating, deleting and reading\<close>

definition http_not_found :: "string \<Rightarrow> exn" where
  "http_not_found workflow_id = Exn (EHttp 404) (''Workflow '' @ workflow_id @ '' not found'')"

text \<open>A value bound to a text column.  A name must not be null.\<close>

definition text_column :: "store_env \<Rightarrow> pyval \<Rightarrow> string option result" where
  "text_column env v =
     (case v of PNone \<Rightarrow> Inr None | PStr s \<Rightarrow> Inr (Some s) | _ \<Rightarrow> rbind (se_text env v) (\<lambda>s. Inr (Some s)))"

definition name_column :: "store_env \<Rightarrow> pyval \<Rightarrow> string result" where
  "name_column env v =
     rbind (text_column env v) (\<lambda>t. case t of
         Some s \<Rightarrow> Inr s
       | None \<Rightarrow> Inl (Exn EIntegrityError ''workflow.name may not be null''))"

text \<open>The dictionary with the name it is stored under, and the row that is asked for.\<close>

definition named_workflow :: "pydict \<Rightarrow> pydict" where
  "named_workflow workflow =
     (if truthy (dict_get workflow ''name'' PNone) then workflow
      else dset ''name'' (dict_get workflow ''id'' PNone) workflow)"

definition values_from :: "store_env \<Rightarrow> string \<Rightarrow> int \<Rightarrow> pydict \<Rightarrow> wf_values result" where
  "values_from env created_by interval workflow =
     rbind (name_column env (dict_get workflow ''name'' PNone)) (\<lambda>name.
     rbind (text_column env (dict_get workflow ''description'' PNone)) (\<lambda>description.
       Inr \<lparr>v_name = name, v_description = description, v_interval = Some interval,
         v_raw = se_dump env (PDict workflow), v_is_disabled = parse_disabled workflow,
         v_updated_by = created_by, v_provisioned = False, v_provisioned_file = None\<rparr>))"

definition create_workflow ::
  "store_env \<Rightarrow> int \<Rightarrow> string \<Rightarrow> string \<Rightarrow> string \<Rightarrow> bool \<Rightarrow> bool \<Rightarrow> pydict \<Rightarrow> wf_table \<Rightarrow> wf_row result \<times> wf_table" where
  "create_workflow env now uuid tenant_id created_by force_update lookup_by_name workflow t =
     (case rbind (parse_interval workflow) (\<lambda>interval.
             values_from env created_by interval (named_workflow workflow)) of
        Inl e \<Rightarrow> (Inl e, t)
      | Inr vals \<Rightarrow> add_or_update_workflow now uuid tenant_id created_by force_update False lookup_by_name vals t)"

definition delete_workflow_checked :: "string \<Rightarrow> string \<Rightarrow> wf_table \<Rightarrow> unit result \<times> wf_table" where
  "delete_workflow_checked tenant_id workflow_id t =
     (case get_workflow_by_id tenant_id workflow_id t of
        None \<Rightarrow> (Inl (http_not_found workflow_id), t)
      | Some w \<Rightarrow>
          if wr_provisioned w then (Inl (Exn (EHttp 403) ''Cannot delete a provisioned workflow''), t)
          else (Inr (), delete_workflow tenant_id workflow_id t))"

text \<open>\<open>key in value\<close> and \<open>value[key]\<close> for any value.\<close>

definition has_key :: "string \<Rightarrow> pyval \<Rightarrow> bool result" where
  "has_key key v =
     (case v of
        PDict d \<Rightarrow> Inr (dget d key \<noteq> None)
      | PStr s \<Rightarrow> Inr (contains_sub key s)
      | PList l \<Rightarrow> Inr (PStr key \<in> set l)
      | _ \<Rightarrow> Inl (Exn ETypeError ''argument is not iterable''))"

definition get_item :: "string \<Rightarrow> pyval \<Rightarrow> pyval result" where
  "get_item key v =
     (case v of
        PDict d \<Rightarrow> (case dget d key of Some x \<Rightarrow> Inr x | None \<Rightarrow> Inl (Exn EKeyError key))
      | _ \<Rightarrow> Inl (Exn ETypeError ''indices must be integers''))"

definition unwrap_workflow :: "pyval \<Rightarrow> pyval result" where
  "unwrap_workflow v =
     rbind (has_key ''workflow'' v) (\<lambda>b. if b then get_item ''workflow'' v else
     rbind (has_key ''alert'' v) (\<lambda>b. if b then get_item ''alert'' v else Inr v))"

definition format_workflow_yaml :: "store_env \<Rightarrow> string \<Rightarrow> string result" where
  "format_workflow_yaml env yaml_string =
     rbind (se_load env yaml_string) (\<lambda>v.
     rbind (unwrap_workflow v) (\<lambda>w. Inr (se_dump env (PDict [(''workflow'', w)]))))"

definition get_raw_workflow :: "store_env \<Rightarrow> string \<Rightarrow> string \<Rightarrow> wf_table \<Rightarrow> string result" where
  "get_raw_workflow env tenant_id workflow_id t =
     (case get_workflow_by_id tenant_id workflow_id t of
        None \<Rightarrow> Inl (http_not_found workflow_id)
      | Some w \<Rightarrow> format_workflow_yaml env (wr_raw w))"

type_synonym parsed = "parsed_workflow list result \<times> installed_provider list"

definition parse_loaded ::
  "parse_env \<Rightarrow> string \<Rightarrow> int option \<Rightarrow> string \<Rightarrow> bool \<Rightarrow> installed_provider list \<Rightarrow> pyval \<Rightarrow> parsed" where
  "parse_loaded penv tenant_id revision db_id is_test cache v =
     (case need_dict v of
        Inl e \<Rightarrow> (Inl e, cache)
      | Inr d \<Rightarrow> parse_workflows penv tenant_id revision db_id is_test cache d)"

definition only_workflow :: "string \<Rightarrow> parsed_workflow list \<Rightarrow> parsed_workflow result" where
  "only_workflow workflow_id ws =
     (case ws of
        [] \<Rightarrow> Inl (http_not_found workflow_id)
      | [w] \<Rightarrow> Inr w
      | _ \<Rightarrow> Inl (Exn (EHttp 500) (''More than one workflow with id '' @ workflow_id @ '' found'')))"

definition get_workflow ::
  "store_env \<Rightarrow> parse_env \<Rightarrow> string \<Rightarrow> string \<Rightarrow> installed_provider list \<Rightarrow> wf_table
     \<Rightarrow> parsed_workflow result \<times> installed_provider list" where
  "get_workflow env penv tenant_id workflow_id cache t =
     (case get_workflow_by_id tenant_id workflow_id t of
        None \<Rightarrow> (Inl (http_not_found workflow_id), cache)
      | Some w \<Rightarrow>
          (case se_load env (wr_raw w) of
             Inl e \<Rightarrow> (Inl e, cache)
           | Inr yaml \<Rightarrow>
               (case parse_loaded penv tenant_id (Some (wr_revision w)) (wr_id w) (wr_is_test w) cache yaml of
                  (r, cache) \<Rightarrow> (rbind r (only_workflow workflow_id), cache))))"

definition get_workflow_from_dict ::
  "parse_env \<Rightarrow> string \<Rightarrow> installed_provider list \<Rightarrow> pydict \<Rightarrow> parsed_workflow result \<times> installed_provider list" where
  "get_workflow_from_dict penv tenant_id cache workflow =
     (case parse_workflows penv tenant_id None [] False cache workflow of
        (r, cache) \<Rightarrow> (rbind r (\<lambda>ws. case ws of
            w # _ \<Rightarrow> Inr w | [] \<Rightarrow> Inl (Exn (EHttp 500) ''Unable to parse workflow from dict'')), cache))"

section \<open>Workflows in files\<close>

definition parse_workflow_to_dict :: "store_env \<Rightarrow> string \<Rightarrow> pyval result" where
  "parse_workflow_to_dict env path =
     rbind (if se_is_url env path then se_fetch env path else se_read env path) (se_load env)"

definition is_yaml_file :: "string \<Rightarrow> bool" where
  "is_yaml_file file \<longleftrightarrow> ends_with ''.yaml'' file \<or> ends_with ''.yml'' file"

text \<open>\<open>os.path.join\<close> and \<open>os.path.commonpath\<close> of two paths (POSIX).\<close>

definition os_join :: "string \<Rightarrow> string \<Rightarrow> string" where
  "os_join dir file =
     (if starts_with ''/'' file then file
      else if dir = [] \<or> ends_with ''/'' dir then dir @ file else dir @ ''/'' @ file)"

definition path_parts :: "string \<Rightarrow> string list" where
  "path_parts path = filter (\<lambda>c. c \<noteq> [] \<and> c \<noteq> ''.'') (py_split ''/'' path)"

fun common_parts :: "string list \<Rightarrow> string list \<Rightarrow> string list" where
  "common_parts (x # xs) (y # ys) = (if x = y then x # common_parts xs ys else [])"
| "common_parts _ _ = []"

definition commonpath :: "string \<Rightarrow> string \<Rightarrow> string result" where
  "commonpath a b =
     (if starts_with ''/'' a \<noteq> starts_with ''/'' b
      then Inl (Exn EValueError ''mixed absolute and relative paths'')
      else Inr ((if starts_with ''/'' a then ''/'' else []) @ py_join ''/'' (common_parts (path_parts a) (path_parts b))))"

datatype path_arg = OnePath string | Paths "string list"

fun parse_paths :: "store_env \<Rightarrow> parse_env \<Rightarrow> string \<Rightarrow> installed_provider list \<Rightarrow> string list \<Rightarrow> parsed" where
  "parse_paths env penv tenant_id cache [] = (Inr [], cache)"
| "parse_paths env penv tenant_id cache (p # ps) =
     (case parse_workflow_to_dict env p of
        Inl e \<Rightarrow> (Inl e, cache)
      | Inr v \<Rightarrow>
          (case parse_loaded penv tenant_id None [] False cache v of
             (Inl e, cache) \<Rightarrow> (Inl e, cache)
           | (Inr ws, cache) \<Rightarrow>
               (case parse_paths env penv tenant_id cache ps of
                  (r, cache) \<Rightarrow> (rbind r (\<lambda>vs. Inr (ws @ vs)), cache))))"

text \<open>In a directory a file that does not load stops the listing, one that does not parse is left out.\<close>

fun parse_directory :: "store_env \<Rightarrow> parse_env \<Rightarrow> string \<Rightarrow> string \<Rightarrow> installed_provider list \<Rightarrow> string list \<Rightarrow> parsed" where
  "parse_directory env penv tenant_id dir cache [] = (Inr [], cache)"
| "parse_directory env penv tenant_id dir cache (file # files) =
     (if is_yaml_file file then
        (case parse_workflow_to_dict env (os_join dir file) of
           Inl e \<Rightarrow> (Inl e, cache)
         | Inr v \<Rightarrow>
             (case parse_loaded penv tenant_id None [] False cache v of
                (r, cache) \<Rightarrow>
                  (case parse_directory env penv tenant_id dir cache files of
                     (r', cache) \<Rightarrow>
                       (rbind r' (\<lambda>vs. Inr ((case r of Inl _ \<Rightarrow> [] | Inr ws \<Rightarrow> ws) @ vs)), cache))))
      else parse_directory env penv tenant_id dir cache files)"

definition get_workflows_from_path ::
  "store_env \<Rightarrow> parse_env \<Rightarrow> string \<Rightarrow> installed_provider list \<Rightarrow> path_arg \<Rightarrow> parsed" where
  "get_workflows_from_path env penv tenant_id cache path =
     (case path of
        Paths ps \<Rightarrow> parse_paths env penv tenant_id cache ps
      | OnePath p \<Rightarrow>
          if se_isdir env p then parse_directory env penv tenant_id p cache (se_listdir env p)
          else (case parse_workflow_to_dict env p of
                  Inl e \<Rightarrow> (Inl e, cache)
                | Inr v \<Rightarrow> parse_loaded penv tenant_id None [] False cache v))"

section \<open>Provisioning\<close>

record preparsed =
  pp_id :: string
  pp_name :: string
  pp_description :: "string option"
  pp_interval :: int
  pp_disabled :: bool

definition str_field :: "store_env \<Rightarrow> pyval \<Rightarrow> string result" where
  "str_field env v = (case se_str_field env v of Some s \<Rightarrow> Inr s | None \<Rightarrow> Inl (Exn EValueError ''str type expected''))"

definition pre_parse_workflow_yaml :: "store_env \<Rightarrow> string \<Rightarrow> pyval \<Rightarrow> preparsed result" where
  "pre_parse_workflow_yaml env uuid v =
     rbind (unwrap_workflow v) (\<lambda>w.
     rbind (need_dict w) (\<lambda>d.
       if \<not> truthy (either d ''name'' ''id'')
       then Inl (Exn EValueError (''Workflow '' @ py_str w @ '' does not have a name or id''))
       else
         rbind (parse_interval d) (\<lambda>interval.
         rbind (str_field env (either d ''name'' ''id'')) (\<lambda>name.
         rbind (case dict_get d ''description'' PNone of
                  PNone \<Rightarrow> Inr None
                | x \<Rightarrow> rbind (str_field env x) (\<lambda>s. Inr (Some s))) (\<lambda>description.
           Inr \<lparr>pp_id = uuid, pp_name = name, pp_description = description, pp_interval = interval,
             pp_disabled = parse_disabled d\<rparr>)))))"

definition provisioned_values :: "store_env \<Rightarrow> string option \<Rightarrow> pyval \<Rightarrow> preparsed \<Rightarrow> wf_values" where
  "provisioned_values env file yaml pp =
     \<lparr>v_name = pp_name pp, v_description = pp_description pp, v_interval = Some (pp_interval pp),
      v_raw = se_dump env yaml, v_is_disabled = pp_disabled pp, v_updated_by = ''system'',
      v_provisioned = True, v_provisioned_file = file\<rparr>"

definition provision ::
  "store_env \<Rightarrow> int \<Rightarrow> string \<Rightarrow> string option \<Rightarrow> pyval \<Rightarrow> preparsed \<Rightarrow> wf_table \<Rightarrow> wf_row result \<times> wf_table" where
  "provision env now tenant_id file yaml pp t =
     add_or_update_workflow now (pp_id pp) tenant_id ''system'' False False False
       (provisioned_values env file yaml pp) t"

definition load_and_pre_parse :: "store_env \<Rightarrow> string \<Rightarrow> string \<Rightarrow> (pyval \<times> preparsed) result" where
  "load_and_pre_parse env uuid source =
     rbind (se_load env source) (\<lambda>yaml. rbind (pre_parse_workflow_yaml env uuid yaml) (\<lambda>pp. Inr (yaml, pp)))"

definition deprovision :: "string \<Rightarrow> wf_row list \<Rightarrow> wf_table \<Rightarrow> wf_table" where
  "deprovision tenant_id rows t = fold (\<lambda>w. delete_workflow tenant_id (wr_id w)) rows t"

type_synonym provisioned_list = "(wf_row + pyval) list"

text \<open>From the environment: only a \<open>ValueError\<close> makes the prescribed workflow count as absent.\<close>

definition provision_from_env ::
  "store_env \<Rightarrow> int \<Rightarrow> string \<Rightarrow> string \<Rightarrow> wf_row list \<Rightarrow> wf_table \<Rightarrow> provisioned_list result \<times> wf_table" where
  "provision_from_env env now tenant_id source old t =
     (case load_and_pre_parse env (se_uuid env 0) source of
        Inl e \<Rightarrow>
          if is_value_error (exn_kind e) then (Inr [], deprovision tenant_id old t) else (Inl e, t)
      | Inr (yaml, pp) \<Rightarrow>
          (case provision env now tenant_id None yaml pp
                  (deprovision tenant_id (filter (\<lambda>w. wr_name w \<noteq> pp_name pp) old) t) of
             (Inl _, t') \<Rightarrow> (Inr (map Inl old), t')
           | (Inr _, t') \<Rightarrow> (Inr (map Inl old @ [Inr yaml]), t')))"

definition outside_directory :: "store_env \<Rightarrow> string \<Rightarrow> wf_row \<Rightarrow> bool result" where
  "outside_directory env dir w =
     (case wr_provisioned_file w of
        None \<Rightarrow> Inr True
      | Some file \<Rightarrow>
          if \<not> se_exists env file then Inr True
          else rbind (commonpath dir file) (\<lambda>c. Inr (\<not> ends_with c dir)))"

fun deprovision_outside :: "store_env \<Rightarrow> string \<Rightarrow> string \<Rightarrow> wf_row list \<Rightarrow> wf_table \<Rightarrow> unit result \<times> wf_table" where
  "deprovision_outside env tenant_id dir [] t = (Inr (), t)"
| "deprovision_outside env tenant_id dir (w # ws) t =
     (case outside_directory env dir w of
        Inl e \<Rightarrow> (Inl e, t)
      | Inr b \<Rightarrow> deprovision_outside env tenant_id dir ws
          (if b then delete_workflow_by_provisioned_file tenant_id (wr_provisioned_file w) t else t))"

definition provision_file ::
  "store_env \<Rightarrow> int \<Rightarrow> string \<Rightarrow> string \<Rightarrow> string \<Rightarrow> string \<Rightarrow> wf_table \<Rightarrow> pyval option \<times> wf_table" where
  "provision_file env now tenant_id dir uuid file t =
     (case rbind (se_read env (os_join dir file)) (load_and_pre_parse env uuid) of
        Inl _ \<Rightarrow> (None, t)
      | Inr (yaml, pp) \<Rightarrow>
          (case provision env now tenant_id (Some (os_join dir file)) yaml pp t of
             (Inl _, t') \<Rightarrow> (None, t')
           | (Inr _, t') \<Rightarrow> (Some yaml, t')))"

fun provision_files ::
  "store_env \<Rightarrow> int \<Rightarrow> string \<Rightarrow> string \<Rightarrow> nat \<Rightarrow> string list \<Rightarrow> wf_table \<Rightarrow> pyval list \<times> wf_table" where
  "provision_files env now tenant_id dir n [] t = ([], t)"
| "provision_files env now tenant_id dir n (file # files) t =
     (if is_yaml_file file then
        (case provision_file env now tenant_id dir (se_uuid env n) file t of
           (y, t) \<Rightarrow>
             (case provision_files env now tenant_id dir (Suc n) files t of
                (ys, t) \<Rightarrow> ((case y of Some v \<Rightarrow> [v] | None \<Rightarrow> []) @ ys, t)))
      else provision_files env now tenant_id dir (Suc n) files t)"

definition provision_from_directory ::
  "store_env \<Rightarrow> int \<Rightarrow> string \<Rightarrow> string \<Rightarrow> wf_row list \<Rightarrow> wf_table \<Rightarrow> provisioned_list result \<times> wf_table" where
  "provision_from_directory env now tenant_id dir old t =
     (case deprovision_outside env tenant_id dir old t of
        (Inl e, t) \<Rightarrow> (Inl e, t)
      | (Inr _, t) \<Rightarrow>
          (case provision_files env now tenant_id dir 0 (se_listdir env dir) t of
             (ys, t) \<Rightarrow> (Inr (map Inl old @ map Inr ys), t)))"

definition unset :: "string option \<Rightarrow> bool" where
  "unset v \<longleftrightarrow> v = None \<or> v = Some []"

definition provision_workflows ::
  "store_env \<Rightarrow> int \<Rightarrow> string \<Rightarrow> string option \<Rightarrow> string option \<Rightarrow> wf_table \<Rightarrow> provisioned_list result \<times> wf_table" where
  "provision_workflows env now tenant_id dir source t =
     (let old = get_all_provisioned_workflows tenant_id t
      in if unset dir \<and> unset source then (Inr [], deprovision tenant_id old t)
         else (case (dir, source) of
             (Some _, Some _) \<Rightarrow>
               (Inl (Exn EException ''Workflows provisioned via env var and directory at the same time. Please choose one.''), t)
           | (Some d, None) \<Rightarrow>
               if se_isdir env d then provision_from_directory env now tenant_id d old t
               else (Inl (Exn (EOther ''FileNotFoundError'') (''Directory '' @ d @ '' does not exist'')), t)
           | (None, Some s) \<Rightarrow> provision_from_env env now tenant_id s old t
           | (None, None) \<Rightarrow> (Inr [], t)))"

section \<open>Templates\<close>

definition yaml_files :: "store_env \<Rightarrow> string \<Rightarrow> string list result" where
  "yaml_files env dir =
     (if \<not> se_isdir env dir then Inl (Exn (EOther ''FileNotFoundError'') (''Directory '' @ dir @ '' does not exist''))
      else if filter is_yaml_file (se_listdir env dir) = []
        then Inl (Exn (EOther ''FileNotFoundError'') (''No workflows found in directory '' @ dir))
        else Inr (filter is_yaml_file (se_listdir env dir)))"

text \<open>The template a file holds, if it has a workflow; whatever fails is logged and skipped.\<close>

definition template_of :: "store_env \<Rightarrow> string \<Rightarrow> string \<Rightarrow> pydict option result" where
  "template_of env dir file =
     rbind (parse_workflow_to_dict env (os_join dir file)) (\<lambda>v.
     rbind (has_key ''workflow'' v) (\<lambda>b.
       if \<not> b then Inr None
       else
         rbind (get_item ''workflow'' v) (\<lambda>w.
         rbind (get_item ''id'' w) (\<lambda>i.
         rbind (need_dict v) (\<lambda>d.
           let d = dset ''name'' i d; d = dset ''workflow_raw'' (PStr (se_dump env (PDict d))) d
           in Inr (Some (dset ''workflow_raw_id'' i d)))))))"

fun take_templates :: "store_env \<Rightarrow> string \<Rightarrow> int \<Rightarrow> int \<Rightarrow> string list \<Rightarrow> pydict list" where
  "take_templates env dir limit count [] = []"
| "take_templates env dir limit count (file # files) =
     (if count = limit then []
      else (case template_of env dir file of
          Inr (Some d) \<Rightarrow> d # take_templates env dir limit (count + 1) files
        | _ \<Rightarrow> take_templates env dir limit count files))"

definition get_random_workflow_templates :: "store_env \<Rightarrow> string \<Rightarrow> int \<Rightarrow> pydict list result" where
  "get_random_workflow_templates env dir limit =
     rbind (yaml_files env dir) (\<lambda>files. Inr (take_templates env dir limit 0 (se_shuffle env files)))"

definition lower_text :: "pyval \<Rightarrow> string result" where
  "lower_text v = (case v of PStr s \<Rightarrow> Inr (py_lower s) | _ \<Rightarrow> Inl (Exn EAttributeError ''lower''))"

definition template_matches :: "store_env \<Rightarrow> string \<Rightarrow> pydict \<Rightarrow> bool result" where
  "template_matches env cel d =
     rbind (need_dict (dict_get d ''workflow'' (PDict []))) (\<lambda>w.
     rbind (lower_text (dict_get w ''name'' PNone)) (\<lambda>name.
     rbind (lower_text (dict_get w ''description'' (PStr []))) (\<lambda>description.
       se_cel env cel name description)))"

definition relevant_template :: "store_env \<Rightarrow> string \<Rightarrow> string option \<Rightarrow> string \<Rightarrow> pydict list" where
  "relevant_template env dir cel file =
     (case template_of env dir file of
        Inr (Some d) \<Rightarrow>
          if unset cel then [d]
          else (case template_matches env (the cel) d of Inr True \<Rightarrow> [d] | _ \<Rightarrow> [])
      | _ \<Rightarrow> [])"

text \<open>\<open>xs[start:stop]\<close> with the indices Python allows; \<open>None\<close> as the stop is the end.\<close>

definition slice_index :: "nat \<Rightarrow> int \<Rightarrow> nat" where
  "slice_index n i = (if i < 0 then nat (int n + i) else min n (nat i))"

definition py_slice :: "int option \<Rightarrow> int option \<Rightarrow> 'a list \<Rightarrow> 'a list" where
  "py_slice start stop xs =
     (let a = (case start of None \<Rightarrow> 0 | Some i \<Rightarrow> slice_index (length xs) i);
          b = (case stop of None \<Rightarrow> length xs | Some i \<Rightarrow> slice_index (length xs) i)
      in take (b - a) (drop a xs))"

definition query_workflow_templates ::
  "store_env \<Rightarrow> string \<Rightarrow> string option \<Rightarrow> int option \<Rightarrow> int option \<Rightarrow> (pydict list \<times> int) result" where
  "query_workflow_templates env dir cel limit offset =
     rbind (yaml_files env dir) (\<lambda>files.
       let found = concat (map (relevant_template env dir cel) files)
       in (case (offset, limit) of
             (Some a, Some l) \<Rightarrow> Inr (py_slice (Some a) (Some (a + l)) found, int (length found))
           | _ \<Rightarrow> Inl (Exn ETypeError ''unsupported operand'')))"

section \<open>What the list of workflows shows\<close>

record installed =
  ins_id :: string
  ins_name :: string
  ins_type :: string

record provider_dto =
  pd_name :: string
  pd_type :: string
  pd_id :: "string option"
  pd_installed :: bool

type_synonym installed_by_type = "(string \<times> (string \<times> installed) list) list"

text \<open>\<open>installed_providers_by_type[type][name]\<close>: a \<open>KeyError\<close> is \<open>None\<close>; a type that cannot be
  hashed is an error that nobody catches.\<close>

definition installed_provider_of :: "installed_by_type \<Rightarrow> pyval \<Rightarrow> string \<Rightarrow> installed option result" where
  "installed_provider_of installed ptype name =
     (case ptype of
        PStr t \<Rightarrow> Inr (Option.bind (dget installed t) (\<lambda>ps. dget ps name))
      | PList _ \<Rightarrow> Inl (Exn ETypeError ''unhashable type'')
      | PDict _ \<Rightarrow> Inl (Exn ETypeError ''unhashable type'')
      | _ \<Rightarrow> Inr None)"

text \<open>\<open>get_provider_required_config\<close> gives a class or an empty dictionary, never \<open>None\<close>; only a module
  that does not exist leaves the caller with \<open>None\<close>.\<close>

definition config_missing :: "store_env \<Rightarrow> pyval \<Rightarrow> bool result" where
  "config_missing env ptype =
     (case ptype of
        PStr t \<Rightarrow>
          (case se_import env (hd (py_split ''.'' t)) of
             Inr _ \<Rightarrow> Inr False
           | Inl e \<Rightarrow> if exn_kind e = EOther ''ModuleNotFoundError'' then Inr True else Inl e)
      | _ \<Rightarrow> Inl (Exn ETypeError ''argument is not iterable''))"

definition provider_shown ::
  "store_env \<Rightarrow> installed_by_type \<Rightarrow> provider_dto list \<Rightarrow> string \<times> pyval \<Rightarrow> provider_dto list result" where
  "provider_shown env installed shown p =
     rbind (installed_provider_of installed (snd p) (fst p)) (\<lambda>found. case found of
         Some i \<Rightarrow>
           Inr (if Some (ins_id i) \<in> pd_id ` set shown then shown
                else shown @ [\<lparr>pd_name = ins_name i, pd_type = ins_type i, pd_id = Some (ins_id i), pd_installed = True\<rparr>])
       | None \<Rightarrow>
           rbind (config_missing env (snd p)) (\<lambda>missing.
             Inr (shown @ [\<lparr>pd_name = fst p, pd_type = (case snd p of PStr t \<Rightarrow> t | _ \<Rightarrow> []),
               pd_id = None, pd_installed = missing\<rparr>])))"

fun providers_shown ::
  "store_env \<Rightarrow> installed_by_type \<Rightarrow> provider_dto list \<Rightarrow> (string \<times> pyval) list \<Rightarrow> provider_dto list result" where
  "providers_shown env installed shown [] = Inr shown"
| "providers_shown env installed shown (p # ps) =
     rbind (provider_shown env installed shown p) (\<lambda>shown. providers_shown env installed shown ps)"

text \<open>The dictionary below \<open>workflow\<close> if there is a non-empty one; nothing when the text does not load.\<close>

definition stored_workflow :: "store_env \<Rightarrow> string \<Rightarrow> pyval option" where
  "stored_workflow env raw =
     (case rbind (se_load env raw) (\<lambda>v. rbind (need_dict v) (\<lambda>d.
             let w = dict_get d ''workflow'' PNone in Inr (if truthy w then w else v))) of
        Inl _ \<Rightarrow> None
      | Inr w \<Rightarrow> if truthy w then Some w else None)"

definition get_workflow_meta_data ::
  "store_env \<Rightarrow> installed_by_type \<Rightarrow> wf_row option \<Rightarrow> (provider_dto list \<times> pyval) result" where
  "get_workflow_meta_data env installed workflow =
     (case Option.bind workflow (\<lambda>w. stored_workflow env (wr_raw w)) of
        None \<Rightarrow> Inr ([], PList [])
      | Some w \<Rightarrow>
          rbind (providers_shown env installed []
                   (case rbind (need_dict w) get_providers_from_workflow_dict of Inl _ \<Rightarrow> [] | Inr ps \<Rightarrow> ps)) (\<lambda>shown.
          rbind (need_dict w) (\<lambda>d. Inr (shown, dict_get d ''triggers'' (PList [])))))"

definition is_alert_action :: "pyval \<Rightarrow> bool result" where
  "is_alert_action action =
     rbind (need_dict action) (\<lambda>a.
     rbind (need_dict (dict_get a ''provider'' (PDict []))) (\<lambda>p.
       if dict_get p ''type'' PNone = PStr ''keep'' then has_key ''alert'' (dict_get p ''with'' (PDict []))
       else Inr False))"

fun any_alert_action :: "pyval list \<Rightarrow> bool result" where
  "any_alert_action [] = Inr False"
| "any_alert_action (a # as) = rbind (is_alert_action a) (\<lambda>b. if b then Inr True else any_alert_action as)"

definition is_alert_rule_workflow :: "pydict \<Rightarrow> bool result" where
  "is_alert_rule_workflow workflow_raw =
     rbind (need_iter (dict_get workflow_raw ''actions'' (PList []))) any_alert_action"


section \<open>Rows that deprovisioning touches\<close>

lemma mark_deleted_set:
  assumes "w \<in> set (mark_deleted P ws)"
  shows "w \<in> set ws \<or> (\<exists>v \<in> set ws. P v \<and> w = v\<lparr>wr_is_deleted := True\<rparr>)"
  using assms by (induction ws) (auto split: if_splits)

lemma mark_deleted_keeps: "w \<in> set ws \<Longrightarrow> \<not> P w \<Longrightarrow> w \<in> set (mark_deleted P ws)"
  by (induction ws) auto

lemma find_marks: "find P ws = Some d \<Longrightarrow> d\<lparr>wr_is_deleted := True\<rparr> \<in> set (mark_deleted P ws)"
  by (induction ws) (auto split: if_splits)

lemma mark_deleted_noop: "find P ws = Some d \<Longrightarrow> wr_is_deleted d \<Longrightarrow> mark_deleted P ws = ws"
  by (induction ws) (auto split: if_splits)

lemma find_mark_other:
  assumes "find P ws = Some d" and "\<And>w. Q w \<Longrightarrow> \<not> P w" and "\<And>w. P (w\<lparr>wr_is_deleted := True\<rparr>) = P w"
  shows "find P (mark_deleted Q ws) = Some d"
  using assms(1) by (induction ws) (auto simp: assms(2,3) split: if_splits)

definition with_file :: "string \<Rightarrow> string option \<Rightarrow> wf_row \<Rightarrow> bool" where
  "with_file tenant_id file w \<longleftrightarrow> wr_tenant_id w = tenant_id \<and> wr_provisioned_file w = file"

lemma delete_by_file_alt:
  "delete_workflow_by_provisioned_file tn f t = t\<lparr>workflows := mark_deleted (with_file tn f) (workflows t)\<rparr>"
  by (simp add: delete_workflow_by_provisioned_file_def with_file_def [abs_def])

lemma with_file_marked: "with_file tn f (w\<lparr>wr_is_deleted := True\<rparr>) = with_file tn f w"
  by (simp add: with_file_def)

text \<open>A deleted row with the same file shields the rows after it.\<close>

lemma shielded_step:
  assumes "find (with_file tn f) (workflows t) = Some d" "wr_is_deleted d" "w \<in> set (workflows t)" "with_file tn f w"
  shows "find (with_file tn f) (workflows (delete_workflow_by_provisioned_file tn g t)) = Some d
    \<and> w \<in> set (workflows (delete_workflow_by_provisioned_file tn g t))"
proof (cases "g = f")
  case True
  with assms show ?thesis by (simp add: delete_by_file_alt mark_deleted_noop)
next
  case False
  then have other: "with_file tn g v \<Longrightarrow> \<not> with_file tn f v" for v by (auto simp: with_file_def)
  then have "w \<in> set (mark_deleted (with_file tn g) (workflows t))"
    using assms(3,4) by (intro mark_deleted_keeps) auto
  moreover have "find (with_file tn f) (mark_deleted (with_file tn g) (workflows t)) = Some d"
    by (rule find_mark_other [OF assms(1)]) (simp_all add: other with_file_marked)
  ultimately show ?thesis by (simp add: delete_by_file_alt)
qed

lemma shielded_rows:
  assumes "deprovision_outside env tn dir ws t = (r, t')"
    and "find (with_file tn f) (workflows t) = Some d" "wr_is_deleted d" "w \<in> set (workflows t)" "with_file tn f w"
  shows "w \<in> set (workflows t')"
  using assms
proof (induction ws arbitrary: t)
  case (Cons v ws)
  note s = shielded_step [OF Cons.prems(2-5)]
  show ?case
  proof (cases "outside_directory env dir v")
    case (Inl e)
    with Cons.prems show ?thesis by simp
  next
    case (Inr b)
    with Cons.prems s show ?thesis
      by (cases b) (auto intro: Cons.IH)
  qed
qed auto

lemma no_yaml_files: "filter is_yaml_file files = [] \<Longrightarrow> provision_files env now tn dir n files t = ([], t)"
  by (induction files arbitrary: n) (auto split: if_splits)

text \<open>A workflow whose file vanished stays when the tenant has an older, already deleted row with the same
  file: deletion by file takes the first row, whatever its state.\<close>

theorem vanished_file_not_deprovisioned:
  assumes "provision_workflows env now tn (Some dir) None t = (r, t')" and "dir \<noteq> []"
    and "filter is_yaml_file (se_listdir env dir) = []"
    and "find (with_file tn f) (workflows t) = Some d" "wr_is_deleted d"
    and "w \<in> set (get_all_provisioned_workflows tn t)" "wr_provisioned_file w = f"
  shows "w \<in> set (get_all_provisioned_workflows tn t')"
proof -
  have w: "w \<in> set (workflows t)" "with_file tn f w" "live tn w" "wr_provisioned w"
    using assms(6,7) by (auto simp: get_all_provisioned_workflows_def with_file_def live_def)
  obtain q t1 where o: "deprovision_outside env tn dir (get_all_provisioned_workflows tn t) t = (q, t1)" by fastforce
  from shielded_rows [OF o assms(4,5) w(1,2)] have "w \<in> set (workflows t1)" .
  moreover have "t' = t \<or> t' = t1"
    using assms(1,2) o
    by (auto simp: provision_workflows_def unset_def Let_def provision_from_directory_def no_yaml_files [OF assms(3)]
        split: if_splits sum.splits)
  ultimately show ?thesis using w by (auto simp: get_all_provisioned_workflows_def)
qed



text \<open>Changing from the environment to a directory deletes the tenant's first row without a file, be it a
  workflow of a user.\<close>

theorem switch_deletes_users_workflow:
  assumes "provision_workflows env now tn (Some dir) None t = (r, t')" and "dir \<noteq> []" "se_isdir env dir"
    and "filter is_yaml_file (se_listdir env dir) = []"
    and "get_all_provisioned_workflows tn t = [p]" "wr_provisioned_file p = None"
    and "find (with_file tn None) (workflows t) = Some u"
  shows "u\<lparr>wr_is_deleted := True\<rparr> \<in> set (workflows t')"
proof -
  have "deprovision_outside env tn dir [p] t = (Inr (), delete_workflow_by_provisioned_file tn None t)"
    by (simp add: outside_directory_def assms(6))
  with assms(1-5) have "t' = delete_workflow_by_provisioned_file tn None t"
    by (auto simp: provision_workflows_def unset_def Let_def provision_from_directory_def no_yaml_files)
  with find_marks [OF assms(7)] show ?thesis by (simp add: delete_by_file_alt)
qed

text \<open>Deprovisioning from the environment.\<close>

lemma delete_table:
  assumes "table_ok t" shows "table_ok (delete_workflow tn i t)"
  by (simp add: delete_workflow_def delete_table_ok [OF assms])

lemma deprovision_Cons [simp]:
  "deprovision tn [] t = t"
  "deprovision tn (w # ws) t = deprovision tn ws (delete_workflow tn (wr_id w) t)"
  by (simp_all add: deprovision_def)

lemma deprovision_table: "table_ok t \<Longrightarrow> table_ok (deprovision tn ws t)"
  by (induction ws arbitrary: t) (simp_all add: delete_table)

lemma delete_ids [simp]: "map wr_id (workflows (delete_workflow tn i t)) = map wr_id (workflows t)"
  unfolding delete_workflow_def by (simp add: mark_deleted_map)

lemma deprovision_ids [simp]: "map wr_id (workflows (deprovision tn ws t)) = map wr_id (workflows t)"
  by (induction ws arbitrary: t) simp_all

lemma deleted_row_marked:
  assumes "distinct (map wr_id ws)" "w \<in> set (mark_deleted (\<lambda>w. wr_tenant_id w = tn \<and> wr_id w = i) ws)"
    "wr_tenant_id w = tn" "wr_id w = i"
  shows "wr_is_deleted w"
  using assms
proof (induction ws)
  case (Cons v ws)
  show ?case
  proof (cases "wr_tenant_id v = tn \<and> wr_id v = i")
    case True
    from Cons.prems(1) have new: "wr_id v \<noteq> wr_id x" if "x \<in> set ws" for x using that by fastforce
    from True Cons.prems(2) have "w = v\<lparr>wr_is_deleted := True\<rparr> \<or> w \<in> set ws" by simp
    then show ?thesis
    proof
      assume "w \<in> set ws"
      from new [OF this] True Cons.prems(4) show ?thesis by simp
    qed simp
  next
    case False
    with Cons.prems have "w \<in> set (mark_deleted (\<lambda>w. wr_tenant_id w = tn \<and> wr_id w = i) ws)" by auto
    with Cons show ?thesis by simp
  qed
qed simp

text \<open>Live rows after a deletion were there before and have another id; rows of another id or tenant stay.\<close>

lemma delete_live:
  assumes "table_ok t" "w \<in> set (workflows (delete_workflow tn i t))" "live tn w"
  shows "w \<in> set (workflows t) \<and> wr_id w \<noteq> i"
proof -
  have m: "w \<in> set (mark_deleted (\<lambda>w. wr_tenant_id w = tn \<and> wr_id w = i) (workflows t))"
    using assms(2) by (simp add: delete_workflow_def)
  have "wr_id w \<noteq> i"
  proof
    assume "wr_id w = i"
    with deleted_row_marked [OF _ m] assms(1,3) have "wr_is_deleted w" by (simp add: table_ok_def live_def)
    with assms(3) show False by (simp add: live_def)
  qed
  moreover from mark_deleted_set [OF m] have "w \<in> set (workflows t)"
  proof
    assume "\<exists>v \<in> set (workflows t). (wr_tenant_id v = tn \<and> wr_id v = i) \<and> w = v\<lparr>wr_is_deleted := True\<rparr>"
    then obtain v where "w = v\<lparr>wr_is_deleted := True\<rparr>" by blast
    with assms(3) show ?thesis by (simp add: live_def)
  qed
  ultimately show ?thesis by blast
qed

lemma deprovision_live:
  assumes "table_ok t" "w \<in> set (workflows (deprovision tn ws t))" "live tn w"
  shows "w \<in> set (workflows t) \<and> list_all (\<lambda>v. wr_id w \<noteq> wr_id v) ws"
  using assms
proof (induction ws arbitrary: t)
  case (Cons v ws)
  have "w \<in> set (workflows (deprovision tn ws (delete_workflow tn (wr_id v) t)))"
    using Cons.prems(2) unfolding deprovision_Cons(2) .
  from Cons.IH [OF delete_table [OF Cons.prems(1)] this Cons.prems(3)]
  have w: "w \<in> set (workflows (delete_workflow tn (wr_id v) t))" "list_all (\<lambda>v. wr_id w \<noteq> wr_id v) ws" by simp_all
  have "w \<in> set (workflows t)" "wr_id w \<noteq> wr_id v"
    using delete_live [OF Cons.prems(1) w(1) Cons.prems(3)] by blast+
  with w(2) show ?case unfolding list.pred_inject by blast
qed simp

lemma delete_keeps:
  assumes "w \<in> set (workflows t)" "\<not> (wr_tenant_id w = tn \<and> wr_id w = i)"
  shows "w \<in> set (workflows (delete_workflow tn i t))"
  using mark_deleted_keeps [of w "workflows t" "\<lambda>w. wr_tenant_id w = tn \<and> wr_id w = i"] assms
  unfolding delete_workflow_def by simp

lemma distinct_map_eq: "distinct (map f xs) \<Longrightarrow> x \<in> set xs \<Longrightarrow> y \<in> set xs \<Longrightarrow> f x = f y \<Longrightarrow> x = y"
  by (auto simp: distinct_map dest: inj_onD)

lemma deprovision_keeps:
  "w \<in> set (workflows t) \<Longrightarrow> list_all (\<lambda>v. \<not> (wr_tenant_id w = tn \<and> wr_id w = wr_id v)) ws \<Longrightarrow>
     w \<in> set (workflows (deprovision tn ws t))"
proof (induction ws arbitrary: t)
  case (Cons v ws)
  have "\<not> (wr_tenant_id w = tn \<and> wr_id w = wr_id v)" "list_all (\<lambda>v. \<not> (wr_tenant_id w = tn \<and> wr_id w = wr_id v)) ws"
    using Cons.prems(2) by simp_all
  from Cons.IH [OF delete_keeps [OF Cons.prems(1) this(1)] this(2)] show ?case
    unfolding deprovision_Cons(2) .
qed simp

text \<open>What \<open>add_or_update_workflow\<close> does to the live rows of a tenant when it looks up by name.\<close>

lemma provision_cases:
  assumes "provision env now tn file yaml pp t = (r, t')" and "table_ok t" and "pp_id pp \<notin> set (map wr_id (workflows t))"
  obtains (skip) w where "t' = t" "r = Inr w" "w \<in> set (workflows t)" "live tn w"
      "is_equal_workflow_dicts tn False (provisioned_values env file yaml pp) w"
  | (update) e row where "r = Inr row" "e \<in> set (workflows t)" "live tn e"
      "workflows t' = map (\<lambda>w. if wr_id w = wr_id e then row else w) (workflows t)"
      "wr_name row = pp_name pp" "wr_raw row = se_dump env yaml" "live tn row" "wr_provisioned row"
      "wr_name e = pp_name pp"
  | (insert) row where "r = Inr row" "workflows t' = workflows t @ [row]"
      "wr_name row = pp_name pp" "wr_raw row = se_dump env yaml" "live tn row" "wr_provisioned row"
proof -
  let ?v = "provisioned_values env file yaml pp"
  have v: "v_name ?v = pp_name pp" "v_raw ?v = se_dump env yaml" "v_provisioned ?v"
    by (simp_all add: provisioned_values_def)
  note a = assms(1) [unfolded provision_def]
  show thesis
  proof (cases "get_workflow_by_name tn (pp_name pp) t")
    case None
    have "(pp_id pp, 1) \<notin> set (map (\<lambda>v. (wv_workflow_id v, wv_revision v)) (versions t))"
    proof
      assume "(pp_id pp, 1) \<in> set (map (\<lambda>v. (wv_workflow_id v, wv_revision v)) (versions t))"
      then obtain x where "x \<in> set (versions t)" "wv_workflow_id x = pp_id pp" by auto
      with assms(2) have "pp_id pp \<in> wr_id ` set (workflows t)"
        unfolding table_ok_def image_subset_iff by metis
      with assms(3) show False by simp
    qed
    with None a assms(3) v have "r = Inr (new_row now (pp_id pp) tn ''system'' False ?v)"
      "workflows t' = workflows t @ [new_row now (pp_id pp) tn ''system'' False ?v]"
      by (auto simp: add_or_update_workflow_def Let_def)
    then show thesis by (rule insert) (simp_all add: new_row_def v live_def)
  next
    case (Some e)
    note e = lookup_member(2) [OF Some]
    show thesis
    proof (cases "is_equal_workflow_dicts tn False ?v e")
      case True
      with a Some v e skip [of e] show thesis by (simp add: add_or_update_workflow_def)
    next
      case False
      obtain row t2 where u: "update_workflow_with_values now e ?v t = (row, t2)" by fastforce
      with a Some v False have rt: "r = Inr row" "t' = t2" by (simp_all add: add_or_update_workflow_def)
      from u have ws: "workflows t2 = map (\<lambda>w. if wr_id w = wr_id e then row else w) (workflows t)"
        by (auto simp: update_workflow_with_values_def Let_def)
      from u obtain n where "row = updated_row now ?v n e"
        by (auto simp: update_workflow_with_values_def Let_def)
      with e v show thesis
        by (intro update [of row e]) (simp_all add: rt ws updated_row_def live_def)
    qed
  qed
qed

text \<open>The rows after the workflows of another name have been deprovisioned.\<close>

definition of_other_name :: "string \<Rightarrow> string \<Rightarrow> wf_table \<Rightarrow> wf_row list" where
  "of_other_name tn name t = filter (\<lambda>w. wr_name w \<noteq> name) (get_all_provisioned_workflows tn t)"

lemma left_has_name:
  assumes "table_ok t" "w \<in> set (workflows (deprovision tn (of_other_name tn name t) t))" "live tn w" "wr_provisioned w"
  shows "wr_name w = name"
proof (rule ccontr)
  assume other: "wr_name w \<noteq> name"
  from deprovision_live [OF assms(1-3)]
  have l: "w \<in> set (workflows t)" "list_all (\<lambda>v. wr_id w \<noteq> wr_id v) (of_other_name tn name t)" by blast+
  have "w \<in> set (of_other_name tn name t)"
    using l(1) assms(3,4) other by (simp add: of_other_name_def get_all_provisioned_workflows_def)
  moreover from l have "\<forall>v \<in> set (of_other_name tn name t). wr_id w \<noteq> wr_id v" by (simp only: list_all_iff)
  ultimately show False by blast
qed

lemma left_unchanged:
  assumes "table_ok t" and w: "w \<in> set (workflows t)" "\<not> (live tn w \<and> wr_provisioned w \<and> wr_name w \<noteq> name)"
  shows "w \<in> set (workflows (deprovision tn (of_other_name tn name t) t))"
proof -
  have "\<not> (wr_tenant_id w = tn \<and> wr_id w = wr_id v)" if v: "v \<in> set (of_other_name tn name t)" for v
  proof
    assume same: "wr_tenant_id w = tn \<and> wr_id w = wr_id v"
    from v have "v \<in> set (workflows t)" by (simp add: of_other_name_def get_all_provisioned_workflows_def)
    with same have "w = v" using assms(1) w(1) by (auto simp: table_ok_def dest: distinct_map_eq)
    with v w(2) show False by (simp add: of_other_name_def get_all_provisioned_workflows_def)
  qed
  then show ?thesis by (intro deprovision_keeps [OF w(1)]) (simp add: list_all_iff)
qed

lemma prov_iff:
  "w \<in> set (get_all_provisioned_workflows tn t) \<longleftrightarrow> w \<in> set (workflows t) \<and> live tn w \<and> wr_provisioned w"
  by (simp add: get_all_provisioned_workflows_def)

text \<open>Writing the prescribed workflow into a table whose provisioned workflows all have its name.\<close>

lemma provision_named:
  assumes p: "provision env now tn file yaml pp t = (q, t')" and ok: "table_ok t"
    and new: "pp_id pp \<notin> set (map wr_id (workflows t))"
    and named: "\<And>w. w \<in> set (workflows t) \<Longrightarrow> live tn w \<Longrightarrow> wr_provisioned w \<Longrightarrow> wr_name w = pp_name pp"
  shows "(\<exists>w \<in> set (get_all_provisioned_workflows tn t'). wr_raw w = se_dump env yaml)
    \<and> (\<forall>w \<in> set (get_all_provisioned_workflows tn t'). wr_name w = pp_name pp)
    \<and> (\<forall>w \<in> set (workflows t). \<not> (live tn w \<and> wr_name w = pp_name pp) \<longrightarrow> w \<in> set (workflows t'))"
  using p ok new
proof (cases rule: provision_cases)
  case (skip w)
  then have "wr_raw w = se_dump env yaml" "wr_provisioned w"
    by (simp_all add: is_equal_workflow_dicts_def provisioned_values_def)
  with skip show ?thesis using named prov_iff by blast
next
  case (update e row)
  have ws: "v \<in> set (workflows t') \<Longrightarrow> v = row \<or> v \<in> set (workflows t)" for v
    unfolding update(4) by (auto split: if_splits)
  have row: "row \<in> set (workflows t')" using update(2) unfolding update(4) by force
  have stay: "v \<in> set (workflows t')" if "v \<in> set (workflows t)" "wr_id v \<noteq> wr_id e" for v
    using that unfolding update(4) by force
  have "v \<in> set (workflows t')" if v: "v \<in> set (workflows t)" "\<not> (live tn v \<and> wr_name v = pp_name pp)" for v
  proof -
    have "v \<noteq> e" using v(2) update(3,9) by blast
    then have "wr_id v \<noteq> wr_id e" using distinct_map_eq [OF _ v(1) update(2)] ok by (auto simp: table_ok_def)
    then show ?thesis using stay v(1) by blast
  qed
  moreover have "\<exists>w \<in> set (get_all_provisioned_workflows tn t'). wr_raw w = se_dump env yaml"
    using prov_iff row update by blast
  moreover have "\<forall>w \<in> set (get_all_provisioned_workflows tn t'). wr_name w = pp_name pp"
    using named prov_iff ws update(5) by blast
  ultimately show ?thesis by blast
next
  case (insert row)
  then show ?thesis using named by (auto simp: prov_iff)
qed

text \<open>C14: provisioning from the environment variable makes the provisioned workflows be the prescribed
  one.  When the text loads and has a usable name, afterwards one live provisioned workflow of the tenant
  has the prescribed text, every live provisioned workflow of the tenant has the prescribed name, and no
  row changes but those provisioned before and a live one of that name.\<close>

theorem environment_provisions_one:
  assumes "table_ok t" and "source \<noteq> []"
    and "load_and_pre_parse env (se_uuid env 0) source = Inr (yaml, pp)"
    and "pp_id pp \<notin> set (map wr_id (workflows t))"
    and "provision_workflows env now tn None (Some source) t = (r, t')"
  shows "(\<exists>w \<in> set (get_all_provisioned_workflows tn t'). wr_raw w = se_dump env yaml)
    \<and> (\<forall>w \<in> set (get_all_provisioned_workflows tn t'). wr_name w = pp_name pp)
    \<and> (\<forall>w \<in> set (workflows t). \<not> (live tn w \<and> (wr_provisioned w \<or> wr_name w = pp_name pp))
         \<longrightarrow> w \<in> set (workflows t'))"
proof -
  define t1 where "t1 = deprovision tn (of_other_name tn (pp_name pp) t) t"
  obtain q where p: "provision env now tn None yaml pp t1 = (q, t')"
    using assms(2,3,5)
    by (cases "provision env now tn None yaml pp t1")
      (auto simp: provision_workflows_def unset_def Let_def provision_from_env_def of_other_name_def [symmetric]
        t1_def [symmetric] split: sum.splits)
  have ok: "table_ok t1" and new: "pp_id pp \<notin> set (map wr_id (workflows t1))"
    using assms(1,4) by (simp_all add: t1_def deprovision_table del: set_map)
  have named: "wr_name w = pp_name pp" if "w \<in> set (workflows t1)" "live tn w" "wr_provisioned w" for w
    using left_has_name [OF assms(1) that(1) [unfolded t1_def] that(2,3)] .
  have kept: "w \<in> set (workflows t1)"
    if "w \<in> set (workflows t)" "\<not> (live tn w \<and> wr_provisioned w \<and> wr_name w \<noteq> pp_name pp)" for w
    using left_unchanged [OF assms(1) that] unfolding t1_def .
  from provision_named [OF p ok new named] kept show ?thesis by blast
qed

section \<open>Raw text and templates\<close>

text \<open>When YAML loads what it dumps, formatting is idempotent: what the raw endpoint returns is a
  workflow that formats to itself.\<close>

theorem format_idempotent:
  assumes "\<And>v. se_load env (se_dump env v) = Inr v" and "format_workflow_yaml env s = Inr out"
  shows "format_workflow_yaml env out = Inr out"
proof -
  from assms(2) obtain v w where "out = se_dump env (PDict [(''workflow'', w)])"
    by (auto simp: format_workflow_yaml_def rbind_Inr_iff)
  then show ?thesis
    by (simp add: format_workflow_yaml_def assms(1) unwrap_workflow_def has_key_def get_item_def dget_def)
qed

text \<open>At most \<open>limit\<close> templates are returned, each the template of some YAML file of the directory; a
  negative limit is no limit.\<close>

lemma take_templates_bound: "count \<le> limit \<Longrightarrow> int (length (take_templates env dir limit count files)) \<le> limit - count"
proof (induction files arbitrary: count)
  case (Cons f fs)
  show ?case
  proof (cases "count = limit")
    case False
    with Cons.prems have "count + 1 \<le> limit" by simp
    from Cons.IH [OF this] Cons.IH [OF Cons.prems] False show ?thesis
      by (simp split: sum.split option.split)
  qed simp
qed simp

lemma take_templates_from:
  "d \<in> set (take_templates env dir limit count files) \<Longrightarrow> \<exists>file \<in> set files. template_of env dir file = Inr (Some d)"
  by (induction files arbitrary: count) (auto split: sum.splits option.splits if_splits)

theorem templates_bounded:
  assumes "get_random_workflow_templates env dir limit = Inr ds" and "0 \<le> limit"
    and "\<And>fs. set (se_shuffle env fs) = set fs"
  shows "int (length ds) \<le> limit
    \<and> (\<forall>d \<in> set ds. \<exists>file \<in> set (se_listdir env dir). is_yaml_file file \<and> template_of env dir file = Inr (Some d))"
proof -
  from assms(1) have d: "ds = take_templates env dir limit 0 (se_shuffle env (filter is_yaml_file (se_listdir env dir)))"
    by (auto simp: get_random_workflow_templates_def rbind_Inr_iff yaml_files_def split: if_splits)
  with take_templates_bound [OF assms(2)] have "int (length ds) \<le> limit" by simp
  moreover have "\<exists>file \<in> set (se_listdir env dir). is_yaml_file file \<and> template_of env dir file = Inr (Some x)"
    if "x \<in> set ds" for x
    using take_templates_from [OF that [unfolded d]] assms(3) by auto
  ultimately show ?thesis by blast
qed

text \<open>A page of the query, for indices that are not negative, and the whole result from its pages.\<close>

lemma py_slice_page: "0 \<le> a \<Longrightarrow> 0 \<le> l \<Longrightarrow> py_slice (Some a) (Some (a + l)) xs = take (nat l) (drop (nat a) xs)"
  by (cases "nat a \<le> length xs")
    (auto simp: py_slice_def slice_index_def Let_def nat_add_distrib min_def)

lemma pages_complete:
  "concat (map (\<lambda>k. take l (drop (k * l) xs)) [0..<n]) = take (n * l) xs"
  by (induction n) (simp_all add: add.commute [of l] take_add)

theorem template_pages:
  assumes "0 < l" and "\<And>k. k < n \<Longrightarrow> query_workflow_templates env dir cel (Some l) (Some (int k * l)) = Inr (page k, found)"
    and "found \<le> int n * l" "0 < n" "yaml_files env dir = Inr files"
  shows "concat (map page [0..<n]) = concat (map (relevant_template env dir cel) files) \<and> found = int (length (concat (map page [0..<n])))"
proof -
  let ?xs = "concat (map (relevant_template env dir cel) files)"
  have page: "page k = take (nat l) (drop (k * nat l) ?xs)" and tot: "found = int (length ?xs)" if "k < n" for k
    using assms(2) [OF that] assms(1) py_slice_page [of "int k * l" l ?xs]
    by (simp_all add: query_workflow_templates_def assms(5) Let_def nat_mult_distrib)
  have "concat (map page [0..<n]) = concat (map (\<lambda>k. take (nat l) (drop (k * nat l) ?xs)) [0..<n])"
    using page by (metis (no_types, lifting) atLeastLessThan_iff map_cong set_upt)
  also have "\<dots> = take (n * nat l) ?xs" by (rule pages_complete)
  also have "\<dots> = ?xs"
  proof -
    have "int (length ?xs) \<le> int (n * nat l)" using tot [OF assms(4)] assms(1,3) by simp
    then have "length ?xs \<le> n * nat l" by (rule of_nat_le_iff [THEN iffD1])
    then show ?thesis by (rule take_all)
  qed
  finally show ?thesis using tot [OF assms(4)] by simp
qed

section \<open>Providers in the list of workflows\<close>

lemma provider_shown_spec:
  assumes "provider_shown env ins shown p = Inr shown'"
  shows "shown' = shown
    \<or> (\<exists>i. installed_provider_of ins (snd p) (fst p) = Inr (Some i) \<and> Some (ins_id i) \<notin> pd_id ` set shown
         \<and> shown' = shown @ [\<lparr>pd_name = ins_name i, pd_type = ins_type i, pd_id = Some (ins_id i), pd_installed = True\<rparr>])
    \<or> (\<exists>d. shown' = shown @ [d] \<and> pd_id d = None
         \<and> pd_installed d = (\<exists>e. se_import env (hd (py_split ''.'' (pd_type d))) = Inl e \<and> exn_kind e = EOther ''ModuleNotFoundError''))"
proof (cases "installed_provider_of ins (snd p) (fst p)")
  case (Inr found)
  show ?thesis
  proof (cases found)
    case None
    with assms Inr obtain b where b: "config_missing env (snd p) = Inr b"
      "shown' = shown @ [\<lparr>pd_name = fst p, pd_type = (case snd p of PStr t \<Rightarrow> t | _ \<Rightarrow> []), pd_id = None, pd_installed = b\<rparr>]"
      by (auto simp: provider_shown_def rbind_Inr_iff)
    then have "b = (\<exists>e. se_import env (hd (py_split ''.'' (case snd p of PStr t \<Rightarrow> t | _ \<Rightarrow> []))) = Inl e \<and> exn_kind e = EOther ''ModuleNotFoundError'')"
      by (auto simp: config_missing_def split: pyval.splits sum.splits if_splits)
    with b show ?thesis by simp
  next
    case (Some i)
    with assms Inr show ?thesis by (auto simp: provider_shown_def)
  qed
qed (use assms in \<open>simp add: provider_shown_def\<close>)

definition shown_ok :: "store_env \<Rightarrow> provider_dto list \<Rightarrow> bool" where
  "shown_ok env ds \<longleftrightarrow>
     distinct (filter (\<lambda>i. i \<noteq> None) (map pd_id ds))
     \<and> (\<forall>d \<in> set ds. pd_installed d = (pd_id d \<noteq> None
          \<or> (\<exists>e. se_import env (hd (py_split ''.'' (pd_type d))) = Inl e \<and> exn_kind e = EOther ''ModuleNotFoundError'')))"

lemma provider_shown_ok:
  assumes "provider_shown env ins shown p = Inr shown'" "shown_ok env shown" shows "shown_ok env shown'"
  using provider_shown_spec [OF assms(1)] assms(2) by (auto simp: shown_ok_def)

lemma providers_shown_ok:
  "providers_shown env ins shown ps = Inr ds \<Longrightarrow> shown_ok env shown \<Longrightarrow> shown_ok env ds"
  by (induction ps arbitrary: shown) (auto simp: rbind_Inr_iff dest: provider_shown_ok)

theorem missing_provider_shown_installed:
  assumes "get_workflow_meta_data env ins w = Inr (ds, triggers)"
  shows "distinct (filter (\<lambda>i. i \<noteq> None) (map pd_id ds))
    \<and> (\<forall>d \<in> set ds. pd_installed d = (pd_id d \<noteq> None
          \<or> (\<exists>e. se_import env (hd (py_split ''.'' (pd_type d))) = Inl e \<and> exn_kind e = EOther ''ModuleNotFoundError'')))"
proof -
  have "shown_ok env []" by (simp add: shown_ok_def)
  with assms have "shown_ok env ds"
    by (auto simp: get_workflow_meta_data_def rbind_Inr_iff split: option.splits intro: providers_shown_ok)
  then show ?thesis by (simp add: shown_ok_def)
qed

text \<open>A 404, 403 or no error at all; the row is deleted exactly in the last case, and no other row changes.\<close>

theorem delete_checked:
  assumes "table_ok t" and "delete_workflow_checked tn i t = (r, t')"
  shows "(r = Inr () \<longrightarrow> (\<exists>w \<in> set (workflows t). wr_id w = i \<and> live tn w \<and> \<not> wr_provisioned w) \<and> get_workflow_by_id tn i t' = None)
    \<and> (r \<noteq> Inr () \<longrightarrow> t' = t)
    \<and> (\<forall>w \<in> set (workflows t). wr_id w \<noteq> i \<longrightarrow> w \<in> set (workflows t'))"
proof (cases "get_workflow_by_id tn i t")
  case None
  with assms show ?thesis by (auto simp: delete_workflow_checked_def)
next
  case (Some w)
  note w = lookup_member(1) [OF Some]
  show ?thesis
  proof (cases "wr_provisioned w")
    case True
    with Some assms show ?thesis by (auto simp: delete_workflow_checked_def)
  next
    case False
    with Some assms(2) have r: "r = Inr ()" "t' = delete_workflow tn i t" by (simp_all add: delete_workflow_checked_def)
    have "\<not> (live tn v \<and> wr_id v = i)" if "v \<in> set (workflows t')" for v
      using delete_live [OF assms(1) that [unfolded r(2)]] by blast
    then have "get_workflow_by_id tn i t' = None" by (auto simp: get_workflow_by_id_def find_None_iff)
    moreover have "\<forall>v \<in> set (workflows t). wr_id v \<noteq> i \<longrightarrow> v \<in> set (workflows t')"
      unfolding r(2) using delete_keeps by blast
    ultimately show ?thesis using r(1) w False by blast
  qed
qed

section \<open>Witnesses\<close>

definition demo_store_env :: store_env where
  "demo_store_env = \<lparr>se_load = (\<lambda>s. if s = ''A'' then Inr (PDict [(''workflow'', PDict [(''id'', PStr ''a'')])])
       else if s = ''B'' then Inr (PDict [(''name'', PStr ''b'')]) else Inl (Exn (EOther ''YAMLError'') [])),
     se_dump = (\<lambda>v. case v of PDict [(''name'', _)] \<Rightarrow> ''B'' | _ \<Rightarrow> ''A''),
     se_is_url = (\<lambda>_. False), se_fetch = Inr, se_read = (\<lambda>_. Inr ''A''), se_isdir = (\<lambda>_. True), se_listdir = (\<lambda>_. []),
     se_exists = (\<lambda>_. False), se_shuffle = rev, se_uuid = (\<lambda>n. ''u'' @ show_nat n),
     se_str_field = (\<lambda>v. case v of PStr s \<Rightarrow> Some s | _ \<Rightarrow> None), se_text = (\<lambda>v. Inr (py_str v)),
     se_cel = (\<lambda>_ _ _. Inr True), se_import = (\<lambda>m. if m = ''mock'' then Inr () else Inl (Exn (EOther ''ModuleNotFoundError'') []))\<rparr>"

definition demo_wf_row :: "string \<Rightarrow> string \<Rightarrow> bool \<Rightarrow> bool \<Rightarrow> string option \<Rightarrow> wf_row" where
  "demo_wf_row i name deleted provisioned file =
     \<lparr>wr_id = i, wr_tenant_id = ''t'', wr_name = name, wr_description = None, wr_created_by = ''me'', wr_updated_by = None,
      wr_interval = None, wr_raw = ''A'', wr_is_deleted = deleted, wr_is_disabled = False, wr_revision = 1,
      wr_last_updated = 0, wr_provisioned = provisioned, wr_provisioned_file = file, wr_is_test = False\<rparr>"

definition demo_version :: "string \<Rightarrow> wf_version" where
  "demo_version i = \<lparr>wv_workflow_id = i, wv_revision = 1, wv_raw = ''A'', wv_updated_by = ''me'', wv_updated_at = 0,
     wv_is_valid = True, wv_is_current = True, wv_comment = None\<rparr>"

definition demo_rows_table :: wf_table where
  "demo_rows_table = \<lparr>workflows = [demo_wf_row ''x1'' ''mine'' False False None, demo_wf_row ''x2'' ''a'' False True None],
     versions = [demo_version ''x1'', demo_version ''x2'']\<rparr>"

lemma demo_rows_table_ok: "table_ok demo_rows_table"
  by (simp add: table_ok_def demo_rows_table_def demo_wf_row_def demo_version_def history_of_def versions_of_def)

theorem environment_provisions_one_witness:
  "\<exists>t'. (\<exists>w \<in> set (get_all_provisioned_workflows ''t'' t'). wr_raw w = ''B'')
    \<and> (\<forall>w \<in> set (get_all_provisioned_workflows ''t'' t'). wr_name w = ''b'')
    \<and> demo_wf_row ''x1'' ''mine'' False False None \<in> set (workflows t')"
proof -
  obtain r t' where run: "provision_workflows demo_store_env 5 ''t'' None (Some ''B'') demo_rows_table = (r, t')" by fastforce
  have loads: "load_and_pre_parse demo_store_env (se_uuid demo_store_env 0) ''B''
    = Inr (PDict [(''name'', PStr ''b'')], \<lparr>pp_id = ''u0'', pp_name = ''b'', pp_description = None, pp_interval = 0, pp_disabled = False\<rparr>)"
    by code_simp
  have fresh: "''u0'' \<notin> set (map wr_id (workflows demo_rows_table))" by code_simp
  have raw: "se_dump demo_store_env (PDict [(''name'', PStr ''b'')]) = ''B''" by code_simp
  have mine: "demo_wf_row ''x1'' ''mine'' False False None \<in> set (workflows demo_rows_table)"
    "\<not> (live ''t'' (demo_wf_row ''x1'' ''mine'' False False None) \<and> (wr_provisioned (demo_wf_row ''x1'' ''mine'' False False None)
       \<or> wr_name (demo_wf_row ''x1'' ''mine'' False False None) = ''b''))"
    by (simp_all add: demo_rows_table_def demo_wf_row_def)
  from environment_provisions_one [OF demo_rows_table_ok _ loads _ run] fresh mine raw show ?thesis
    by (intro exI [of _ t']) simp
qed

text \<open>A file that came, went, came again and went again: its second row stays.\<close>

definition demo_files_table :: wf_table where
  "demo_files_table = \<lparr>workflows = [demo_wf_row ''x1'' ''a'' True True (Some ''/d/a.yml''), demo_wf_row ''x2'' ''a'' False True (Some ''/d/a.yml'')],
     versions = [demo_version ''x1'', demo_version ''x2'']\<rparr>"

lemma file_twice_stays:
  "snd (provision_workflows demo_store_env 5 ''t'' (Some ''/d'') None demo_files_table) = demo_files_table"
  by code_simp

text \<open>Here it is the user's workflow that the change to a directory deletes.\<close>

lemma user_row_deleted:
  "map wr_is_deleted (workflows (snd (provision_workflows demo_store_env 5 ''t'' (Some ''/d'') None demo_rows_table))) = [True, False]"
  by code_simp

text \<open>The same directory written with a slash at its end counts as another one.\<close>

lemma trailing_slash_outside:
  assumes "se_exists env ''/d/a.yml''"
  shows "outside_directory env ''/d'' (demo_wf_row ''x1'' ''a'' False True (Some ''/d/a.yml'')) = Inr False"
    and "outside_directory env ''/d/'' (demo_wf_row ''x1'' ''a'' False True (Some ''/d/a.yml'')) = Inr True"
proof -
  have "commonpath ''/d'' ''/d/a.yml'' = Inr ''/d''" "commonpath ''/d/'' ''/d/a.yml'' = Inr ''/d''"
    "ends_with ''/d'' ''/d''" "\<not> ends_with ''/d'' ''/d/''" by code_simp+
  with assms show "outside_directory env ''/d'' (demo_wf_row ''x1'' ''a'' False True (Some ''/d/a.yml'')) = Inr False"
    "outside_directory env ''/d/'' (demo_wf_row ''x1'' ''a'' False True (Some ''/d/a.yml'')) = Inr True"
    by (simp_all add: outside_directory_def demo_wf_row_def)
qed

end
