(* ===== verification/Functions.thy ===== *)
theory Functions
  imports WorkflowStore AlertStore IOHandler
begin

text \<open>
  \<open>src/functions/__init__.py\<close>: the functions a template can call as \<open>keep.<name>(...)\<close>, and the table
  in which the renderer looks them up.  Instants are microseconds since the epoch.

  Parameters are \<open>json.loads\<close>, \<open>json5.loads\<close>, \<open>dateutil\<close> and \<open>fromisoformat\<close>, the clock, the time
  zones (weekday and hour of an instant), and the two decimals of a floating-point quotient.
  \<open>fe_other\<close> stands for the functions on floats and on \<open>datetime\<close> objects, which are not template values
  here; those of them that are modelled have their own types.
\<close>

record fun_env =
  fe_json_loads :: "string \<Rightarrow> pyval result"
  fe_json5_loads :: "string \<Rightarrow> pyval result"
  fe_parse_date :: "string \<Rightarrow> int result"
  fe_isoparse :: "string \<Rightarrow> int result"
  fe_now :: int
  fe_now_iso :: string
  fe_local :: "string \<Rightarrow> int \<Rightarrow> (int \<times> int) option"
  fe_fixed2 :: "int \<Rightarrow> int \<Rightarrow> string"
  fe_other :: "string \<Rightarrow> keep_fun option"

section \<open>Numbers\<close>

definition to_int :: "pyval \<Rightarrow> int result" where
  "to_int v =
     (case v of
        PInt i \<Rightarrow> Inr i
      | PBool b \<Rightarrow> Inr (if b then 1 else 0)
      | PStr s \<Rightarrow> (case py_int s of Some i \<Rightarrow> Inr i | None \<Rightarrow> Inl (Exn EValueError (''invalid literal for int(): '' @ repr_str s)))
      | _ \<Rightarrow> Inl (Exn ETypeError ''int() argument''))"

fun rfold :: "('a \<Rightarrow> 'b \<Rightarrow> 'a result) \<Rightarrow> 'a \<Rightarrow> 'b list \<Rightarrow> 'a result" where
  "rfold f a [] = Inr a"
| "rfold f a (x # xs) = rbind (f a x) (\<lambda>a. rfold f a xs)"

text \<open>The first argument combined with each of the others, from the left.\<close>

definition from_first :: "(int \<Rightarrow> int \<Rightarrow> int result) \<Rightarrow> pyval list \<Rightarrow> pyval result" where
  "from_first f args =
     rbind (rmap to_int args) (\<lambda>is. case is of
         [] \<Rightarrow> Inl (Exn EIndexError ''list index out of range'')
       | i # is \<Rightarrow> rbind (rfold f i is) (\<lambda>r. Inr (PInt r)))"

definition keep_add :: "pyval list \<Rightarrow> pyval result" where
  "keep_add args = rbind (rmap to_int args) (\<lambda>is. Inr (PInt (sum_list is)))"

definition keep_sub :: "pyval list \<Rightarrow> pyval result" where
  "keep_sub = from_first (\<lambda>a b. Inr (a - b))"

definition keep_mul :: "pyval list \<Rightarrow> pyval result" where
  "keep_mul = from_first (\<lambda>a b. Inr (a * b))"

definition zero_division :: exn where
  "zero_division = Exn (EOther ''ZeroDivisionError'') ''integer division or modulo by zero''"

text \<open>The modulus takes the sign of the divisor and the quotient rounds down, as \<open>mod\<close> and \<open>div\<close> do.\<close>

definition keep_mod :: "pyval list \<Rightarrow> pyval result" where
  "keep_mod = from_first (\<lambda>a b. if b = 0 then Inl zero_division else Inr (a mod b))"

definition keep_fdiv :: "pyval list \<Rightarrow> pyval result" where
  "keep_fdiv = from_first (\<lambda>a b. if b = 0 then Inl zero_division else Inr (a div b))"

section \<open>Comparison and sequences\<close>

text \<open>\<open>==\<close>: booleans are the numbers 0 and 1, dictionaries compare without their order.\<close>

definition scalar :: "pyval \<Rightarrow> pyval" where
  "scalar v = (case v of PBool b \<Rightarrow> PInt (if b then 1 else 0) | _ \<Rightarrow> v)"

fun py_eq :: "pyval \<Rightarrow> pyval \<Rightarrow> bool" and items_in :: "(string \<times> pyval) list \<Rightarrow> pydict \<Rightarrow> bool"
  and list_eq :: "pyval list \<Rightarrow> pyval list \<Rightarrow> bool" where
  "py_eq (PList xs) w = (case w of PList ys \<Rightarrow> list_eq xs ys | _ \<Rightarrow> False)"
| "py_eq (PDict d) w = (case w of PDict e \<Rightarrow> length d = length e \<and> items_in d e | _ \<Rightarrow> False)"
| "py_eq PNone w = (scalar w = PNone)"
| "py_eq (PBool b) w = (scalar w = PInt (if b then 1 else 0))"
| "py_eq (PInt i) w = (scalar w = PInt i)"
| "py_eq (PStr s) w = (scalar w = PStr s)"
| "py_eq (PParam k sf dflt) w = (w = PParam k sf dflt)"
| "items_in [] e = True"
| "items_in ((k, v) # d) e = ((case dget e k of None \<Rightarrow> False | Some w \<Rightarrow> py_eq v w) \<and> items_in d e)"
| "list_eq [] ys = (ys = [])"
| "list_eq (x # xs) ys = (case ys of [] \<Rightarrow> False | y # ys \<Rightarrow> py_eq x y \<and> list_eq xs ys)"

text \<open>\<open>groupby\<close> yields at most one group: every element equals the first.\<close>

definition all_same :: "pyval list \<Rightarrow> bool" where
  "all_same xs = (case xs of [] \<Rightarrow> True | x # xs \<Rightarrow> list_all (\<lambda>y. py_eq y x) xs)"

definition keep_all :: "pyval \<Rightarrow> pyval result" where
  "keep_all v = rbind (need_iter v) (\<lambda>xs. Inr (PBool (all_same xs)))"

definition keep_diff :: "pyval \<Rightarrow> pyval result" where
  "keep_diff v = rbind (need_iter v) (\<lambda>xs. Inr (PBool (\<not> all_same xs)))"

definition keep_len :: "pyval \<Rightarrow> pyval result" where
  "keep_len v =
     (case v of
        PList l \<Rightarrow> Inr (PInt (int (length l)))
      | PStr s \<Rightarrow> Inr (PInt (int (length s)))
      | PDict d \<Rightarrow> Inr (PInt (int (length d)))
      | _ \<Rightarrow> Inl (Exn ETypeError ''object has no len()''))"

definition nth_item :: "'a list \<Rightarrow> int \<Rightarrow> 'a result" where
  "nth_item xs i =
     (let j = (if i < 0 then i + int (length xs) else i)
      in if 0 \<le> j \<and> j < int (length xs) then Inr (xs ! nat j) else Inl (Exn EIndexError ''index out of range''))"

text \<open>\<open>value[index]\<close>.\<close>

definition int_index :: "pyval \<Rightarrow> int result" where
  "int_index v =
     (case v of PInt i \<Rightarrow> Inr i | PBool b \<Rightarrow> Inr (if b then 1 else 0)
      | _ \<Rightarrow> Inl (Exn ETypeError ''indices must be integers or slices''))"

definition subscript :: "pyval \<Rightarrow> pyval \<Rightarrow> pyval result" where
  "subscript v i =
     (case v of
        PList l \<Rightarrow> rbind (int_index i) (nth_item l)
      | PStr s \<Rightarrow> rbind (int_index i) (\<lambda>i. rbind (nth_item s i) (\<lambda>c. Inr (PStr [c])))
      | PDict d \<Rightarrow>
          (case i of
             PStr k \<Rightarrow> (case dget d k of Some x \<Rightarrow> Inr x | None \<Rightarrow> Inl (Exn EKeyError k))
           | PList _ \<Rightarrow> Inl (Exn ETypeError ''unhashable type'')
           | PDict _ \<Rightarrow> Inl (Exn ETypeError ''unhashable type'')
           | _ \<Rightarrow> Inl (Exn EKeyError (py_str i)))
      | _ \<Rightarrow> Inl (Exn ETypeError ''object is not subscriptable''))"

definition keep_index :: "pyval \<Rightarrow> pyval \<Rightarrow> pyval result" where
  "keep_index v i =
     subscript v (case i of PStr s \<Rightarrow> if py_isdigit s then (case py_int s of Some n \<Rightarrow> PInt n | None \<Rightarrow> i) else i | _ \<Rightarrow> i)"

definition keep_first :: "pyval \<Rightarrow> pyval result" where "keep_first v = subscript v (PInt 0)"
definition keep_last :: "pyval \<Rightarrow> pyval result" where "keep_last v = subscript v (PInt (- 1))"

definition slice_of :: "int \<Rightarrow> int option \<Rightarrow> pyval \<Rightarrow> pyval result" where
  "slice_of a b v =
     (case v of
        PStr s \<Rightarrow> Inr (PStr (py_slice (Some a) b s))
      | PList l \<Rightarrow> Inr (PList (py_slice (Some a) b l))
      | _ \<Rightarrow> Inl (Exn ETypeError ''object is not subscriptable''))"

definition keep_slice :: "pyval \<Rightarrow> pyval \<Rightarrow> pyval \<Rightarrow> pyval result" where
  "keep_slice v start stop =
     rbind (to_int start) (\<lambda>a.
       if stop \<in> {PInt 0, PBool False, PStr ''0''} then slice_of a None v
       else rbind (to_int stop) (\<lambda>b. slice_of a (Some b) v))"

section \<open>Strings\<close>

definition on_str :: "(string \<Rightarrow> pyval result) \<Rightarrow> pyval \<Rightarrow> pyval result" where
  "on_str f v = (case v of PStr s \<Rightarrow> f s | _ \<Rightarrow> Inl (Exn EAttributeError ''object has no such string method''))"

definition keep_uppercase :: "pyval \<Rightarrow> pyval result" where
  "keep_uppercase = on_str (\<lambda>s. Inr (PStr (py_upper s)))"

definition keep_lowercase :: "pyval \<Rightarrow> pyval result" where
  "keep_lowercase = on_str (\<lambda>s. Inr (PStr (py_lower s)))"

definition py_capitalize :: "string \<Rightarrow> string" where
  "py_capitalize s = (case s of [] \<Rightarrow> [] | c # cs \<Rightarrow> to_upper c # py_lower cs)"

definition keep_capitalize :: "pyval \<Rightarrow> pyval result" where
  "keep_capitalize = on_str (\<lambda>s. Inr (PStr (py_capitalize s)))"

definition keep_title :: "pyval \<Rightarrow> pyval result" where
  "keep_title = on_str (\<lambda>s. Inr (PStr (title_from True s)))"

definition keep_strip :: "pyval \<Rightarrow> pyval result" where
  "keep_strip = on_str (\<lambda>s. Inr (PStr (py_strip s)))"

text \<open>\<open>s.split()\<close>: runs of white space separate.\<close>

fun split_words :: "string \<Rightarrow> string \<Rightarrow> string list" where
  "split_words cur [] = (if cur = [] then [] else [rev cur])"
| "split_words cur (c # cs) =
     (if is_space c then (if cur = [] then split_words [] cs else rev cur # split_words [] cs)
      else split_words (c # cur) cs)"

definition keep_split :: "pyval \<Rightarrow> pyval \<Rightarrow> pyval result" where
  "keep_split v sep =
     on_str (\<lambda>s. case sep of
         PNone \<Rightarrow> Inr (PList (map PStr (split_words [] (py_strip s))))
       | PStr d \<Rightarrow> if d = [] then Inl (Exn EValueError ''empty separator'')
           else Inr (PList (map PStr (py_split d (py_strip s))))
       | _ \<Rightarrow> Inl (Exn ETypeError ''must be str or None'')) v"

definition keep_remove_newlines :: "pyval \<Rightarrow> pyval result" where
  "keep_remove_newlines =
     on_str (\<lambda>s. Inr (PStr (py_replace [CHR 0x09] [] (py_replace nl [] (py_replace (cr @ nl) [] s)))))"

text \<open>\<open>s.replace(old, new)\<close>; an empty \<open>old\<close> puts \<open>new\<close> around every character.\<close>

definition replace_any :: "string \<Rightarrow> string \<Rightarrow> string \<Rightarrow> string" where
  "replace_any old new s =
     (if old = [] then new @ concat (map (\<lambda>c. c # new) s) else py_replace old new s)"

definition keep_replace :: "pyval \<Rightarrow> pyval \<Rightarrow> pyval \<Rightarrow> pyval result" where
  "keep_replace v old new =
     on_str (\<lambda>s. case (old, new) of
         (PStr a, PStr b) \<Rightarrow> Inr (PStr (replace_any a b s))
       | _ \<Rightarrow> Inl (Exn ETypeError ''replace() argument must be str'')) v"

text \<open>\<open>urllib.parse.quote\<close>: UTF-8 of code points below 256, with upper-case digits.\<close>

definition percent :: "nat \<Rightarrow> string" where
  "percent n = CHR 0x25 # py_upper (hex_byte (char_of n))"

definition quote_char :: "char \<Rightarrow> string" where
  "quote_char c =
     (let n = (of_char c :: nat) in
      if is_alnum c \<or> c \<in> {CHR ''_'', CHR ''.'', CHR ''-'', CHR ''~'', CHR ''/''} then [c]
      else if n < 128 then percent n
      else percent (192 + n div 64) @ percent (128 + n mod 64))"

definition keep_encode :: "pyval \<Rightarrow> pyval result" where
  "keep_encode v = (case v of PStr s \<Rightarrow> Inr (PStr (concat (map quote_char s))) | _ \<Rightarrow> Inl (Exn ETypeError ''quote_from_bytes() expected bytes''))"

definition join_strings :: "pyval \<Rightarrow> string list \<Rightarrow> pyval result" where
  "join_strings sep xs = on_str (\<lambda>d. Inr (PStr (py_join d xs))) sep"

definition keep_join :: "fun_env \<Rightarrow> pyval \<Rightarrow> pyval \<Rightarrow> pyval \<Rightarrow> pyval result" where
  "keep_join env v sep prefix =
     rbind (case v of PStr s \<Rightarrow> fe_json5_loads env s | _ \<Rightarrow> Inr v) (\<lambda>v.
       let pre = (if truthy prefix then py_str prefix else [])
       in (case v of
             PDict d \<Rightarrow> join_strings sep (map (\<lambda>(k, x). pre @ k @ ''='' @ py_str x) d)
           | _ \<Rightarrow> rbind (need_iter v) (\<lambda>xs. join_strings sep (map (\<lambda>x. pre @ py_str x) xs))))"

section \<open>JSON and dictionaries\<close>

text \<open>\<open>json.dumps(data, indent=4, default=str)\<close>.\<close>

definition new_line :: "nat \<Rightarrow> string" where
  "new_line n = nl @ replicate (4 * n) CHR 0x20"

definition bracket :: "nat \<Rightarrow> string \<Rightarrow> string list \<Rightarrow> string \<Rightarrow> string" where
  "bracket n opening items closing =
     (if items = [] then opening @ closing
      else opening @ new_line (Suc n) @ py_join ('','' @ new_line (Suc n)) items @ new_line n @ closing)"

fun json_pretty :: "nat \<Rightarrow> pyval \<Rightarrow> string" and pretty_items :: "nat \<Rightarrow> (string \<times> pyval) list \<Rightarrow> string list"
  and pretty_list :: "nat \<Rightarrow> pyval list \<Rightarrow> string list" where
  "json_pretty n PNone = ''null''"
| "json_pretty n (PBool b) = (if b then ''true'' else ''false'')"
| "json_pretty n (PInt i) = show_int i"
| "json_pretty n (PStr s) = json_str s"
| "json_pretty n (PList xs) = bracket n ''['' (pretty_list (Suc n) xs) '']''"
| "json_pretty n (PDict d) = bracket n ''{'' (pretty_items (Suc n) d) ''}''"
| "json_pretty n (PParam k sf dflt) = json_str (py_str (PParam k sf dflt))"
| "pretty_items n [] = []"
| "pretty_items n ((k, v) # d) = (json_str k @ '': '' @ json_pretty n v) # pretty_items n d"
| "pretty_list n [] = []"
| "pretty_list n (v # vs) = json_pretty n v # pretty_list n vs"

definition loaded :: "fun_env \<Rightarrow> pyval \<Rightarrow> pyval result" where
  "loaded env v = (case v of PStr s \<Rightarrow> fe_json_loads env s | _ \<Rightarrow> Inr v)"

definition keep_json_dumps :: "fun_env \<Rightarrow> pyval \<Rightarrow> pyval result" where
  "keep_json_dumps env v = rbind (loaded env v) (\<lambda>v. Inr (PStr (json_pretty 0 v)))"

definition is_decode_error :: "exn \<Rightarrow> bool" where
  "is_decode_error e \<longleftrightarrow> exn_kind e = EOther ''JSONDecodeError''"

definition escape_control :: "string \<Rightarrow> string" where
  "escape_control s =
     concat (map (\<lambda>c. let n = (of_char c :: nat) in
         if n < 32 \<or> (127 \<le> n \<and> n < 160) then [CHR 0x5C, CHR ''u'', CHR ''0'', CHR ''0''] @ hex_byte c else [c]) s)"

definition keep_json_loads :: "fun_env \<Rightarrow> pyval \<Rightarrow> pyval result" where
  "keep_json_loads env v =
     (case v of
        PStr s \<Rightarrow>
          (case fe_json_loads env s of
             Inr d \<Rightarrow> Inr d
           | Inl e \<Rightarrow>
               if is_decode_error e then
                 (case fe_json_loads env (escape_control s) of
                    Inr d \<Rightarrow> Inr d
                  | Inl e \<Rightarrow> if is_decode_error e then Inr (PDict []) else Inl e)
               else Inr (PDict []))
      | _ \<Rightarrow> Inr (PDict []))"

definition as_dict :: "pyval \<Rightarrow> pydict result" where
  "as_dict v = (case v of PDict d \<Rightarrow> Inr d | _ \<Rightarrow> Inl (Exn EAttributeError ''items''))"

definition keep_dict_to_key_value_list :: "pyval \<Rightarrow> pyval result" where
  "keep_dict_to_key_value_list v =
     rbind (as_dict v) (\<lambda>d. Inr (PList (map (\<lambda>(k, x). PStr (k @ '':'' @ py_str x)) d)))"

fun pop_keys :: "pyval list \<Rightarrow> pydict \<Rightarrow> pydict result" where
  "pop_keys [] d = Inr d"
| "pop_keys (k # ks) d =
     (case k of
        PStr s \<Rightarrow> pop_keys ks (dpop s d)
      | PList _ \<Rightarrow> Inl (Exn ETypeError ''unhashable type'')
      | PDict _ \<Rightarrow> Inl (Exn ETypeError ''unhashable type'')
      | _ \<Rightarrow> pop_keys ks d)"

text \<open>\<open>pop\<close> of another value fails, unless nothing is popped.\<close>

definition keep_dict_pop :: "fun_env \<Rightarrow> pyval list \<Rightarrow> pyval result" where
  "keep_dict_pop env args =
     (case args of
        [] \<Rightarrow> Inl (Exn ETypeError ''missing a required argument'')
      | v # ks \<Rightarrow>
          rbind (loaded env v) (\<lambda>v.
            case v of
              PDict d \<Rightarrow> rbind (pop_keys ks d) (\<lambda>d. Inr (PDict d))
            | PList _ \<Rightarrow> if ks = [] then Inr v else Inl (Exn ETypeError ''pop expected at most 1 argument, got 2'')
            | _ \<Rightarrow> if ks = [] then Inr v else Inl (Exn EAttributeError ''pop'')))"

definition filter_keys :: "fun_env \<Rightarrow> bool \<Rightarrow> pyval \<Rightarrow> pyval \<Rightarrow> pyval result" where
  "filter_keys env keep v prefix =
     rbind (loaded env v) (\<lambda>v. rbind (as_dict v) (\<lambda>d.
       case prefix of
         PStr p \<Rightarrow> Inr (PDict (filter (\<lambda>(k, _). starts_with p k = keep) d))
       | _ \<Rightarrow> if d = [] then Inr (PDict []) else Inl (Exn ETypeError ''startswith first arg must be str'')))"

definition keep_dict_pop_prefix :: "fun_env \<Rightarrow> pyval \<Rightarrow> pyval \<Rightarrow> pyval result" where
  "keep_dict_pop_prefix env = filter_keys env False"

definition keep_dict_filter_by_prefix :: "fun_env \<Rightarrow> pyval \<Rightarrow> pyval \<Rightarrow> pyval result" where
  "keep_dict_filter_by_prefix env = filter_keys env True"

definition keep_dictget :: "fun_env \<Rightarrow> pyval \<Rightarrow> pyval \<Rightarrow> pyval \<Rightarrow> pyval result" where
  "keep_dictget env v key dflt =
     (case (case v of PStr _ \<Rightarrow> keep_json_loads env v | _ \<Rightarrow> Inr v) of
        Inr (PDict d) \<Rightarrow>
          (case key of
             PStr k \<Rightarrow> Inr (dict_get d k dflt)
           | PList _ \<Rightarrow> Inl (Exn ETypeError ''unhashable type'')
           | PDict _ \<Rightarrow> Inl (Exn ETypeError ''unhashable type'')
           | _ \<Rightarrow> Inr dflt)
      | _ \<Rightarrow> Inr dflt)"

section \<open>Time\<close>

definition second :: int where "second = 1000000"

definition overflow_error :: exn where
  "overflow_error = Exn (EOther ''OverflowError'') ''date value out of range''"

text \<open>A \<open>timedelta\<close> has at most 999999999 days, a \<open>datetime\<close> lies in the years 1 to 9999.\<close>

definition timedelta :: "int \<Rightarrow> int result" where
  "timedelta secs = (if \<bar>secs div 86400\<bar> \<le> 999999999 then Inr (secs * second) else Inl overflow_error)"

definition plus_delta :: "int \<Rightarrow> int \<Rightarrow> int result" where
  "plus_delta dt us =
     (if - 62135596800 * second \<le> dt + us \<and> dt + us < 253402300800 * second then Inr (dt + us)
      else Inl overflow_error)"

definition unit_seconds :: "(string \<times> int) list" where
  "unit_seconds = [(''seconds'', 1), (''minutes'', 60), (''hours'', 3600), (''days'', 86400), (''weeks'', 604800)]"

definition timestamp_delta :: "int \<Rightarrow> int \<Rightarrow> string \<Rightarrow> int result" where
  "timestamp_delta dt amount timestamp_unit =
     (case dget unit_seconds timestamp_unit of
        None \<Rightarrow> Inl (Exn EValueError (''Unsupported timestamp_unit: '' @ timestamp_unit))
      | Some u \<Rightarrow> rbind (timedelta (amount * u)) (plus_delta dt))"

definition substract_minutes :: "int \<Rightarrow> int \<Rightarrow> int result" where
  "substract_minutes dt minutes = rbind (timedelta (minutes * 60)) (\<lambda>us. plus_delta dt (- us))"

definition is_parser_error :: "exn \<Rightarrow> bool" where
  "is_parser_error e \<longleftrightarrow> exn_kind e = EOther ''ParserError''"

text \<open>The instant of a text or \<open>datetime\<close>; \<open>None\<close> is the empty string of a text that is no date.\<close>

definition to_utc :: "fun_env \<Rightarrow> string + int \<Rightarrow> int option result" where
  "to_utc env dt =
     (case dt of
        Inr t \<Rightarrow> Inr (Some t)
      | Inl s \<Rightarrow>
          (case fe_parse_date env (py_strip s) of
             Inr t \<Rightarrow> Inr (Some t)
           | Inl e \<Rightarrow> if is_parser_error e then Inr None else Inl e))"

definition truncate :: "int \<Rightarrow> int" where
  "truncate us = (if 0 \<le> us then us div second else - ((- us) div second))"

definition to_timestamp :: "fun_env \<Rightarrow> string + int \<Rightarrow> int result" where
  "to_timestamp env dt = rbind (to_utc env dt) (\<lambda>t. Inr (case t of None \<Rightarrow> 0 | Some us \<Rightarrow> truncate us))"

definition keep_utcnowtimestamp :: "fun_env \<Rightarrow> pyval result" where
  "keep_utcnowtimestamp env = Inr (PInt (truncate (fe_now env)))"

text \<open>The matches of \<open>(\d+)([wdhms])\<close>: a maximal run of digits with a unit right after it.\<close>

definition time_units :: "(char \<times> int) list" where
  "time_units = [(CHR ''w'', 604800), (CHR ''d'', 86400), (CHR ''h'', 3600), (CHR ''m'', 60), (CHR ''s'', 1)]"

fun scan_times :: "string \<Rightarrow> string \<Rightarrow> (nat \<times> char) list" where
  "scan_times digits [] = []"
| "scan_times digits (c # cs) =
     (if is_digit c then scan_times (digits @ [c]) cs
      else (if digits \<noteq> [] \<and> map_of time_units c \<noteq> None then [(read_nat digits, c)] else []) @ scan_times [] cs)"

definition time_total :: "(nat \<times> char) list \<Rightarrow> int" where
  "time_total ms = sum_list (map (\<lambda>(n, c). int n * the (map_of time_units c)) ms)"

definition add_time_to_date ::
  "(string \<Rightarrow> string \<Rightarrow> int result) \<Rightarrow> string + int \<Rightarrow> string \<Rightarrow> string \<Rightarrow> int result" where
  "add_time_to_date strptime date date_format time_str =
     rbind (case date of Inl s \<Rightarrow> strptime s date_format | Inr t \<Rightarrow> Inr t) (\<lambda>t.
     rbind (timedelta (time_total (scan_times [] time_str))) (plus_delta t))"

section \<open>Alerts and office hours\<close>

definition require :: "string \<Rightarrow> exn" where
  "require what = Exn EValueError (what @ '' is required'')"

definition firing_divisor :: "pyval \<Rightarrow> int option" where
  "firing_divisor u =
     (if u \<in> {PStr ''m'', PStr ''minutes''} then Some 60
      else if u \<in> {PStr ''h'', PStr ''hours''} then Some 3600
      else if u \<in> {PStr ''s'', PStr ''seconds''} then Some 1 else None)"

definition firing_start :: "alert_dto \<Rightarrow> string" where
  "firing_start a = (case dto_firing_start_time a of Some t \<Rightarrow> if t = [] then dto_last_received a else t | None \<Rightarrow> dto_last_received a)"

definition firing_time_of :: "fun_env \<Rightarrow> alert_db \<Rightarrow> string \<Rightarrow> string \<Rightarrow> pyval \<Rightarrow> pyval result" where
  "firing_time_of env db tenant fp time_unit =
     (case get_alerts_by_fingerprint tenant fp (Some 1) None db of
        [] \<Rightarrow> Inr (PStr ''0.00'')
      | rows \<Rightarrow>
          (case convert_db_alerts_to_dto_alerts (fe_now_iso env) db rows of
             [] \<Rightarrow> Inl (Exn EIndexError ''list index out of range'')
           | dto # _ \<Rightarrow>
               if dto_status dto \<noteq> ''firing'' \<or> firing_start dto = [] then Inr (PStr ''0.00'')
               else rbind (fe_isoparse env (py_replace ''Z'' ''+00:00'' (firing_start dto))) (\<lambda>t.
                 case firing_divisor time_unit of
                   None \<Rightarrow> Inl (Exn EValueError ''Invalid time_unit.'')
                 | Some k \<Rightarrow> Inr (PStr (fe_fixed2 env (fe_now env - t) k)))))"

definition keep_get_firing_time :: "fun_env \<Rightarrow> alert_db \<Rightarrow> pyval \<Rightarrow> pyval \<Rightarrow> pyval \<Rightarrow> pyval result" where
  "keep_get_firing_time env db tenant_id a time_unit =
     (case tenant_id of
        PStr tenant \<Rightarrow>
          if tenant = [] then Inl (require ''tenant_id'')
          else
            (case loaded env a of
               Inl _ \<Rightarrow> Inl (Exn EValueError ''alert is not a valid JSON'')
             | Inr v \<Rightarrow>
                rbind (need_dict v) (\<lambda>d.
                  (case dict_get d ''fingerprint'' PNone of
                     PStr fp \<Rightarrow>
                       if fp = [] then Inl (require ''fingerprint'') else firing_time_of env db tenant fp time_unit
                   | x \<Rightarrow> if truthy x then Inl (Exn (EOther ''ProgrammingError'') []) else Inl (require ''fingerprint''))))
      | _ \<Rightarrow> Inl (require ''tenant_id''))"

definition since_unit :: "pyval \<Rightarrow> int option" where
  "since_unit u =
     (if u = PStr ''d'' then Some 86400 else if u = PStr ''w'' then Some 604800
      else if u = PStr ''h'' then Some 3600 else if u = PStr ''m'' then Some 60 else None)"

definition since_delta :: "pyval \<Rightarrow> int result" where
  "since_delta ago =
     rbind (subscript ago (PInt (- 1))) (\<lambda>u.
       case since_unit u of
         None \<Rightarrow> Inl (Exn EValueError ''Invalid time unit.'')
       | Some k \<Rightarrow>
           (case ago of
              PStr s \<Rightarrow> (case py_int (butlast s) of
                   Some n \<Rightarrow> timedelta (n * k) | None \<Rightarrow> Inl (Exn EValueError ''invalid literal for int()''))
            | _ \<Rightarrow> Inl (Exn ETypeError ''int() argument'')))"

definition keep_is_first_time :: "fun_env \<Rightarrow> alert_db \<Rightarrow> pyval \<Rightarrow> pyval \<Rightarrow> pyval \<Rightarrow> pyval result" where
  "keep_is_first_time env db tenant_id fingerprint ago =
     (if \<not> truthy tenant_id then Inl (require ''tenant_id'')
      else if \<not> truthy fingerprint then Inl (require ''fingerprint'')
      else (case (tenant_id, fingerprint) of
          (PStr tenant, PStr fp) \<Rightarrow>
            (case get_alerts_by_fingerprint tenant fp (Some 2) (Some ''firing'') db of
               [] \<Rightarrow> Inl (Exn EValueError ''No previous alerts found for the given fingerprint.'')
             | [_] \<Rightarrow> Inr (PBool True)
             | _ # previous # _ \<Rightarrow>
                 if \<not> truthy ago then Inr (PBool False)
                 else rbind (since_delta ago) (\<lambda>us. Inr (PBool (us < fe_now env - al_timestamp previous))))
        | _ \<Rightarrow> Inl (Exn (EOther ''ProgrammingError'') [])))"

definition day_number :: "pyval \<Rightarrow> int result" where
  "day_number v =
     (case v of PInt i \<Rightarrow> Inr i | PBool b \<Rightarrow> Inr (if b then 1 else 0)
      | _ \<Rightarrow> Inl (Exn ETypeError ''not supported between instances''))"

definition valid_days :: "pyval \<Rightarrow> int list result" where
  "valid_days days =
     (case rbind (need_iter days) (rmap day_number) of
        Inl _ \<Rightarrow> Inl (Exn EValueError ''business_days must be an iterable of integers between 0 and 6'')
      | Inr ns \<Rightarrow> if list_all (\<lambda>n. 0 \<le> n \<and> n \<le> 6) ns then Inr ns
          else Inl (Exn EValueError ''Invalid business days''))"

definition valid_hour :: "int \<Rightarrow> bool" where
  "valid_hour h \<longleftrightarrow> 0 \<le> h \<and> h \<le> 23"

definition unknown_zone :: "pyval \<Rightarrow> exn" where
  "unknown_zone tz = Exn EValueError (''Invalid timezone: '' @ py_str tz)"

text \<open>The name of a known time zone.\<close>

definition zone :: "fun_env \<Rightarrow> pyval \<Rightarrow> string result" where
  "zone env tz =
     (case tz of
        PStr z \<Rightarrow> (case fe_local env z 0 of None \<Rightarrow> Inl (unknown_zone tz) | Some _ \<Rightarrow> Inr z)
      | PNone \<Rightarrow> Inl (unknown_zone tz)
      | _ \<Rightarrow> Inl (Exn EAttributeError ''upper''))"

definition time_to_check :: "fun_env \<Rightarrow> pyval \<Rightarrow> int option result" where
  "time_to_check env v =
     (case v of
        PNone \<Rightarrow> Inr (Some (fe_now env))
      | PStr s \<Rightarrow> to_utc env (Inl s)
      | _ \<Rightarrow> if truthy v then Inl (Exn EAttributeError ''astimezone'') else Inr None)"

definition keep_is_business_hours ::
  "fun_env \<Rightarrow> pyval \<Rightarrow> pyval \<Rightarrow> pyval \<Rightarrow> pyval \<Rightarrow> pyval \<Rightarrow> pyval result" where
  "keep_is_business_hours env t start_hour end_hour business_days tz =
     rbind (to_int start_hour) (\<lambda>start.
     rbind (to_int end_hour) (\<lambda>stop.
       if \<not> (valid_hour start \<and> valid_hour stop) then Inl (Exn EValueError ''Hours must be between 0 and 23'')
       else
         rbind (valid_days business_days) (\<lambda>days.
         rbind (zone env tz) (\<lambda>z.
         rbind (time_to_check env t) (\<lambda>dt.
           case dt of
             None \<Rightarrow> Inr (PBool False)
           | Some us \<Rightarrow>
               (case fe_local env z us of
                  None \<Rightarrow> Inl (unknown_zone tz)
                | Some (weekday, hour) \<Rightarrow>
                    if business_days = PStr [] then Inl (Exn ETypeError ''requires string as left operand'')
                    else Inr (PBool (weekday \<in> set days \<and> start \<le> hour \<and> hour < stop))))))))"

section \<open>The table of functions\<close>

text \<open>Python's binding of arguments to named parameters with defaults: the values in the order of the
  parameters, and the keyword arguments no parameter took.\<close>

definition bind_error :: exn where
  "bind_error = Exn ETypeError ''arguments do not match the signature''"

fun bind_args :: "(string \<times> pyval option) list \<Rightarrow> pyval list \<Rightarrow> pydict \<Rightarrow> (pyval list \<times> pydict) result" where
  "bind_args [] [] ks = Inr ([], ks)"
| "bind_args [] (a # as) ks = Inl bind_error"
| "bind_args ((p, d) # ps) (a # as) ks =
     (if dget ks p \<noteq> None then Inl bind_error
      else rbind (bind_args ps as ks) (\<lambda>(vs, rest). Inr (a # vs, rest)))"
| "bind_args ((p, d) # ps) [] ks =
     (case (case dget ks p of Some v \<Rightarrow> Some v | None \<Rightarrow> d) of
        None \<Rightarrow> Inl bind_error
      | Some v \<Rightarrow> rbind (bind_args ps [] (dpop p ks)) (\<lambda>(vs, rest). Inr (v # vs, rest)))"

definition plain_fun :: "(string \<times> pyval option) list \<Rightarrow> (pyval list \<Rightarrow> pyval result) \<Rightarrow> keep_fun" where
  "plain_fun params f =
     (False, \<lambda>as ks. rbind (bind_args params as ks) (\<lambda>(vs, rest). if rest = [] then f vs else Inl bind_error))"

definition kwargs_fun :: "(string \<times> pyval option) list \<Rightarrow> (pyval list \<Rightarrow> pydict \<Rightarrow> pyval result) \<Rightarrow> keep_fun" where
  "kwargs_fun params f = (True, \<lambda>as ks. rbind (bind_args params as ks) (\<lambda>(vs, rest). f vs rest))"

definition args_fun :: "(pyval list \<Rightarrow> pyval result) \<Rightarrow> keep_fun" where
  "args_fun f = (False, \<lambda>as ks. if ks = [] then f as else Inl bind_error)"

definition dict_pop_fun :: "fun_env \<Rightarrow> keep_fun" where
  "dict_pop_fun env = (False, \<lambda>as ks.
     case ks of
       [] \<Rightarrow> keep_dict_pop env as
     | [(k, v)] \<Rightarrow> if k = ''data'' \<and> as = [] then keep_dict_pop env [v] else Inl bind_error
     | _ \<Rightarrow> Inl bind_error)"

definition fun1 :: "string \<Rightarrow> (pyval \<Rightarrow> pyval result) \<Rightarrow> keep_fun" where
  "fun1 p f = plain_fun [(p, None)] (\<lambda>vs. f (vs ! 0))"

definition fun2 :: "string \<Rightarrow> string \<Rightarrow> (pyval \<Rightarrow> pyval \<Rightarrow> pyval result) \<Rightarrow> keep_fun" where
  "fun2 p q f = plain_fun [(p, None), (q, None)] (\<lambda>vs. f (vs ! 0) (vs ! 1))"

definition tenant_of :: "pydict \<Rightarrow> pyval" where
  "tenant_of ks = dict_get ks ''tenant_id'' PNone"

definition default_days :: pyval where
  "default_days = PList [PInt 0, PInt 1, PInt 2, PInt 3, PInt 4]"

definition function_table :: "fun_env \<Rightarrow> alert_db \<Rightarrow> (string \<times> keep_fun) list" where
  "function_table env db =
     [(''add'', args_fun keep_add), (''sub'', args_fun keep_sub), (''mul'', args_fun keep_mul),
      (''mod'', args_fun keep_mod), (''fdiv'', args_fun keep_fdiv),
      (''eq'', fun2 ''a'' ''b'' (\<lambda>a b. Inr (PBool (py_eq a b)))),
      (''all'', fun1 ''iterable'' keep_all), (''diff'', fun1 ''iterable'' keep_diff),
      (''len'', kwargs_fun [(''iterable'', Some (PList []))] (\<lambda>vs ks. keep_len (vs ! 0))),
      (''uppercase'', fun1 ''string'' keep_uppercase), (''lowercase'', fun1 ''string'' keep_lowercase),
      (''capitalize'', fun1 ''string'' keep_capitalize), (''title'', fun1 ''string'' keep_title),
      (''split'', fun2 ''string'' ''delimeter'' keep_split), (''index'', fun2 ''iterable'' ''index'' keep_index),
      (''strip'', fun1 ''string'' keep_strip),
      (''remove_newlines'', plain_fun [(''string'', Some (PStr []))] (\<lambda>vs. keep_remove_newlines (vs ! 0))),
      (''first'', fun1 ''iterable'' keep_first), (''last'', fun1 ''iterable'' keep_last),
      (''utcnowtimestamp'', plain_fun [] (\<lambda>_. keep_utcnowtimestamp env)),
      (''json_dumps'', fun1 ''data'' (keep_json_dumps env)), (''json_loads'', fun1 ''data'' (keep_json_loads env)),
      (''replace'', plain_fun [(''string'', None), (''old'', None), (''new'', None)]
         (\<lambda>vs. keep_replace (vs ! 0) (vs ! 1) (vs ! 2))),
      (''encode'', fun1 ''string'' keep_encode),
      (''dict_to_key_value_list'', fun1 ''d'' keep_dict_to_key_value_list),
      (''slice'', plain_fun [(''str_to_slice'', None), (''start'', Some (PInt 0)), (''end'', Some (PInt 0))]
         (\<lambda>vs. keep_slice (vs ! 0) (vs ! 1) (vs ! 2))),
      (''join'', plain_fun [(''iterable'', None), (''delimiter'', Some (PStr '','')), (''prefix'', Some PNone)]
         (\<lambda>vs. keep_join env (vs ! 0) (vs ! 1) (vs ! 2))),
      (''dict_pop'', dict_pop_fun env),
      (''dict_pop_prefix'', fun2 ''data'' ''prefix'' (keep_dict_pop_prefix env)),
      (''dict_filter_by_prefix'', fun2 ''data'' ''prefix'' (keep_dict_filter_by_prefix env)),
      (''get_firing_time'', kwargs_fun [(''alert'', None), (''time_unit'', None)]
         (\<lambda>vs ks. keep_get_firing_time env db (tenant_of ks) (vs ! 0) (vs ! 1))),
      (''is_first_time'', kwargs_fun [(''fingerprint'', None), (''since'', Some PNone)]
         (\<lambda>vs ks. keep_is_first_time env db (tenant_of ks) (vs ! 0) (vs ! 1))),
      (''is_business_hours'', plain_fun [(''time_to_check'', Some PNone), (''start_hour'', Some (PInt 8)),
          (''end_hour'', Some (PInt 20)), (''business_days'', Some default_days), (''timezone'', Some (PStr ''UTC''))]
         (\<lambda>vs. keep_is_business_hours env (vs ! 0) (vs ! 1) (vs ! 2) (vs ! 3) (vs ! 4))),
      (''dictget'', plain_fun [(''data'', None), (''key'', None), (''default'', Some PNone)]
         (\<lambda>vs. keep_dictget env (vs ! 0) (vs ! 1) (vs ! 2)))]"

definition keep_functions :: "fun_env \<Rightarrow> alert_db \<Rightarrow> string \<Rightarrow> keep_fun option" where
  "keep_functions env db name =
     (case dget (function_table env db) name of Some f \<Rightarrow> Some f | None \<Rightarrow> fe_other env name)"

text \<open>The renderer with these functions.\<close>

definition with_functions :: "fun_env \<Rightarrow> alert_db \<Rightarrow> io_env \<Rightarrow> io_env" where
  "with_functions env db io = io\<lparr>keep_function := keep_functions env db\<rparr>"


section \<open>What the functions read\<close>

definition own_alerts :: "string \<Rightarrow> alert_db \<Rightarrow> alert list" where
  "own_alerts t db = filter (\<lambda>a. al_tenant_id a = t) (adb_alerts db)"

definition own_last_alerts :: "string \<Rightarrow> alert_db \<Rightarrow> last_alert list" where
  "own_last_alerts t db = filter (\<lambda>l. la_tenant_id l = t) (adb_last_alerts db)"

lemma get_alerts_own:
  "own_alerts t db = own_alerts t db' \<Longrightarrow>
     get_alerts_by_fingerprint t fp limit status db = get_alerts_by_fingerprint t fp limit status db'"
proof -
  assume o: "own_alerts t db = own_alerts t db'"
  have "filter (\<lambda>a. al_tenant_id a = t \<and> Q a) (adb_alerts d) = filter Q (own_alerts t d)" for Q d
    by (simp add: own_alerts_def conj_commute)
  then show ?thesis by (simp only: get_alerts_by_fingerprint_def o)
qed

lemma take_limit_set: "x \<in> set (take_limit n xs) \<Longrightarrow> x \<in> set xs"
  by (auto simp: take_limit_def split: option.splits if_splits dest: in_set_takeD)

lemma get_alerts_tenant: "a \<in> set (get_alerts_by_fingerprint t fp limit status db) \<Longrightarrow> al_tenant_id a = t"
  unfolding get_alerts_by_fingerprint_def by (drule take_limit_set) (simp add: newest_alerts_def)

lemma find_filter: "find (\<lambda>x. P x \<and> Q x) xs = find Q (filter P xs)"
  by (induction xs) auto

lemma last_alert_own:
  assumes "own_last_alerts t db = own_last_alerts t db'"
  shows "get_last_alert_by_fingerprint t fp db = get_last_alert_by_fingerprint t fp db'"
  using assms by (simp add: get_last_alert_by_fingerprint_def own_last_alerts_def la_key_def find_filter)

lemma convert_own:
  assumes "own_last_alerts t db = own_last_alerts t db'" and "list_all (\<lambda>a. al_tenant_id a = t) as"
  shows "convert_db_alerts_to_dto_alerts n db as = convert_db_alerts_to_dto_alerts n db' as"
  using assms(2)
proof (induction as)
  case (Cons a as)
  have e: "dto_of_alert n (if al_fingerprint a = [] then None
        else get_last_alert_by_fingerprint (al_tenant_id a) (al_fingerprint a) db) a
    = dto_of_alert n (if al_fingerprint a = [] then None
        else get_last_alert_by_fingerprint (al_tenant_id a) (al_fingerprint a) db') a"
    using Cons.prems last_alert_own [OF assms(1)] by simp
  have h: "convert_db_alerts_to_dto_alerts n db as = convert_db_alerts_to_dto_alerts n db' as"
    using Cons by simp
  show ?case
    unfolding convert_db_alerts_to_dto_alerts_def map_filter_simps e h [unfolded convert_db_alerts_to_dto_alerts_def] ..
qed (simp add: convert_db_alerts_to_dto_alerts_def map_filter_simps)

lemma firing_time_own:
  assumes "own_alerts t db = own_alerts t db'" "own_last_alerts t db = own_last_alerts t db'"
  shows "keep_get_firing_time env db (PStr t) a u = keep_get_firing_time env db' (PStr t) a u"
proof -
  have g: "get_alerts_by_fingerprint t fp l None db = get_alerts_by_fingerprint t fp l None db'" for fp l
    by (rule get_alerts_own [OF assms(1)])
  have c: "convert_db_alerts_to_dto_alerts n db (get_alerts_by_fingerprint t fp (Some 1) None db')
    = convert_db_alerts_to_dto_alerts n db' (get_alerts_by_fingerprint t fp (Some 1) None db')" for n fp
    by (rule convert_own [OF assms(2)]) (auto simp: list_all_iff dest: get_alerts_tenant)
  have "firing_time_of env db t fp u = firing_time_of env db' t fp u" for fp u
    using c [of "fe_now_iso env" fp]
    by (cases "get_alerts_by_fingerprint t fp (Some 1) None db'") (simp_all add: firing_time_of_def g)
  then have f: "firing_time_of env db t = firing_time_of env db' t" by (intro ext)
  show ?thesis unfolding keep_get_firing_time_def pyval.case f ..
qed

lemma first_time_own:
  assumes "own_alerts t db = own_alerts t db'"
  shows "keep_is_first_time env db (PStr t) fp w = keep_is_first_time env db' (PStr t) fp w"
  by (cases fp) (simp_all add: keep_is_first_time_def get_alerts_own [OF assms])

lemma bind_args_rest:
  "bind_args ps as ks = Inr (vs, rest) \<Longrightarrow> k \<notin> fst ` set ps \<Longrightarrow> dget rest k = dget ks k"
proof (induction ps as ks arbitrary: vs rest rule: bind_args.induct)
  case (4 p d ps ks)
  then obtain v vs' where "bind_args ps [] (dpop p ks) = Inr (vs', rest)" "(case dget ks p of Some v \<Rightarrow> Some v | None \<Rightarrow> d) = Some v"
    by (auto simp: rbind_Inr_iff split: option.splits)
  with 4 show ?case by (auto simp: dget_dpop)
qed (auto simp: rbind_Inr_iff split: if_splits)


text \<open>Entries of two tables that are the same up to what they read of the tenant.\<close>

definition same_for :: "string \<Rightarrow> keep_fun \<Rightarrow> keep_fun \<Rightarrow> bool" where
  "same_for t f g \<longleftrightarrow> fst f = fst g
     \<and> (\<forall>as ks. (fst f \<longrightarrow> dget ks ''tenant_id'' = Some (PStr t)) \<longrightarrow> snd f as ks = snd g as ks)"

lemma same_for_refl [simp]: "same_for t f f"
  by (simp add: same_for_def)

lemma same_for_kwargs:
  assumes "''tenant_id'' \<notin> fst ` set ps"
    and "\<And>vs ks. dget ks ''tenant_id'' = Some (PStr t) \<Longrightarrow> f vs ks = g vs ks"
  shows "same_for t (kwargs_fun ps f) (kwargs_fun ps g)"
proof -
  have "rbind (bind_args ps as ks) (\<lambda>(vs, rest). f vs rest) = rbind (bind_args ps as ks) (\<lambda>(vs, rest). g vs rest)"
    if k: "dget ks ''tenant_id'' = Some (PStr t)" for as ks
  proof (cases "bind_args ps as ks")
    case (Inr r)
    obtain vs rest where r: "r = (vs, rest)" by fastforce
    from bind_args_rest [OF Inr [unfolded r] assms(1)] k have "dget rest ''tenant_id'' = Some (PStr t)" by simp
    from assms(2) [OF this] show ?thesis by (simp add: Inr r)
  qed simp
  then show ?thesis by (simp add: same_for_def kwargs_fun_def)
qed

lemma dget_same_for:
  "list_all2 (\<lambda>(k, f) (k', g). k = k' \<and> same_for t f g) xs ys \<Longrightarrow> dget xs k = Some f \<Longrightarrow>
     \<exists>g. dget ys k = Some g \<and> same_for t f g"
proof (induction rule: list_all2_induct)
  case (Cons x xs y ys)
  then show ?case by (cases x; cases y) (auto simp: dget_def split: if_splits)
qed (simp add: dget_def)

lemma tables_same_for:
  assumes "own_alerts t db = own_alerts t db'" "own_last_alerts t db = own_last_alerts t db'"
  shows "list_all2 (\<lambda>(k, f) (k', g). k = k' \<and> same_for t f g) (function_table env db) (function_table env db')"
proof -
  have "same_for t (kwargs_fun [(''alert'', None), (''time_unit'', None)]
         (\<lambda>vs ks. keep_get_firing_time env db (tenant_of ks) (vs ! 0) (vs ! 1)))
      (kwargs_fun [(''alert'', None), (''time_unit'', None)]
         (\<lambda>vs ks. keep_get_firing_time env db' (tenant_of ks) (vs ! 0) (vs ! 1)))"
    by (rule same_for_kwargs) (simp_all add: tenant_of_def dict_get_def firing_time_own [OF assms])
  moreover have "same_for t (kwargs_fun [(''fingerprint'', None), (''since'', Some PNone)]
         (\<lambda>vs ks. keep_is_first_time env db (tenant_of ks) (vs ! 0) (vs ! 1)))
      (kwargs_fun [(''fingerprint'', None), (''since'', Some PNone)]
         (\<lambda>vs ks. keep_is_first_time env db' (tenant_of ks) (vs ! 0) (vs ! 1)))"
    by (rule same_for_kwargs) (simp_all add: tenant_of_def dict_get_def first_time_own [OF assms(1)])
  ultimately show ?thesis unfolding function_table_def by simp
qed


section \<open>First times, office hours and dates\<close>

text \<open>An alert fires for the first time when it is its only firing occurrence, or when the one before the
  newest is older than the given span.\<close>

theorem first_time_exact:
  assumes "keep_is_first_time env db (PStr t) (PStr fp) w = Inr (PBool b)"
  defines "rows \<equiv> newest_alerts (filter (\<lambda>a. al_tenant_id a = t \<and> al_fingerprint a = fp \<and> al_status a = Some ''firing'') (adb_alerts db))"
  shows "b \<longleftrightarrow> length rows = 1
    \<or> (2 \<le> length rows \<and> truthy w \<and> (\<exists>us. since_delta w = Inr us \<and> us < fe_now env - al_timestamp (rows ! 1)))"
proof -
  have g: "get_alerts_by_fingerprint t fp (Some 2) (Some ''firing'') db = take 2 rows"
    by (simp add: get_alerts_by_fingerprint_def take_limit_def rows_def)
  show ?thesis
  proof (cases rows)
    case Nil
    with assms(1) g show ?thesis by (auto simp: keep_is_first_time_def split: if_splits)
  next
    case (Cons x xs)
    show ?thesis
    proof (cases xs)
      case Nil
      with Cons assms(1) g show ?thesis by (auto simp: keep_is_first_time_def split: if_splits)
    next
      case (Cons y ys)
      with \<open>rows = x # xs\<close> g have "get_alerts_by_fingerprint t fp (Some 2) (Some ''firing'') db = [x, y]" by simp
      with assms(1) have "b \<longleftrightarrow> truthy w \<and> (\<exists>us. since_delta w = Inr us \<and> us < fe_now env - al_timestamp y)"
        by (auto simp: keep_is_first_time_def rbind_Inr_iff split: if_splits)
      with \<open>rows = x # xs\<close> Cons show ?thesis by simp
    qed
  qed
qed

text \<open>Office hours never include the last hour of the day, and an interval over midnight is empty.\<close>

theorem business_hours_within_day:
  assumes "keep_is_business_hours env t s e days tz = Inr (PBool True)"
  shows "\<exists>start stop us z weekday hour. to_int s = Inr start \<and> to_int e = Inr stop \<and> start < stop \<and> stop \<le> 23
    \<and> time_to_check env t = Inr (Some us) \<and> fe_local env z us = Some (weekday, hour)
    \<and> start \<le> hour \<and> hour < stop \<and> hour \<noteq> 23 \<and> 0 \<le> weekday \<and> weekday \<le> 6"
proof -
  from assms obtain start stop where se: "to_int s = Inr start" "to_int e = Inr stop" "valid_hour start" "valid_hour stop"
    by (auto simp: keep_is_business_hours_def rbind_Inr_iff split: if_splits)
  with assms obtain ds where ds: "valid_days days = Inr ds"
    by (auto simp: keep_is_business_hours_def rbind_Inr_iff)
  with se assms obtain z where z: "zone env tz = Inr z" by (auto simp: keep_is_business_hours_def rbind_Inr_iff)
  with se ds assms obtain dt where dt: "time_to_check env t = Inr dt" by (auto simp: keep_is_business_hours_def rbind_Inr_iff)
  with se ds z assms obtain us weekday hour where u: "dt = Some us" "fe_local env z us = Some (weekday, hour)"
      "weekday \<in> set ds" "start \<le> hour" "hour < stop"
    by (auto simp: keep_is_business_hours_def split: option.splits if_splits)
  have "0 \<le> weekday \<and> weekday \<le> 6" using ds u(3)
    by (auto simp: valid_days_def list_all_iff split: sum.splits if_splits)
  moreover have "start < stop" "stop \<le> 23" "hour \<noteq> 23" using se(3,4) u(4,5) by (auto simp: valid_hour_def)
  ultimately show ?thesis using se(1,2) dt u by blast
qed

text \<open>Every span written as numbers with units is read back.\<close>

definition show_times :: "(nat \<times> char) list \<Rightarrow> string" where
  "show_times ms = concat (map (\<lambda>(n, c). show_nat n @ [c]) ms)"

lemma scan_digits: "list_all is_digit ds \<Longrightarrow> scan_times acc (ds @ cs) = scan_times (acc @ ds) cs"
  by (induction ds arbitrary: acc) simp_all

lemma unit_not_digit: "map_of time_units c = Some k \<Longrightarrow> \<not> is_digit c"
  by (auto simp: time_units_def is_digit_def split: if_splits)

lemma scan_show_times:
  "list_all (\<lambda>(n, c). map_of time_units c \<noteq> None) ms \<Longrightarrow> scan_times [] (show_times ms) = ms"
proof (induction ms)
  case (Cons m ms)
  obtain n c where m: "m = (n, c)" by fastforce
  with Cons.prems obtain k where k: "map_of time_units c = Some k" by auto
  have "scan_times [] (show_nat n @ c # show_times ms) = scan_times (show_nat n) (c # show_times ms)"
    using scan_digits [OF show_nat_digits, of "[]" n "c # show_times ms"] by simp
  also have "\<dots> = (n, c) # scan_times [] (show_times ms)"
    using k unit_not_digit [OF k] by (simp add: read_show_nat)
  finally show ?case using Cons m by (simp add: show_times_def)
qed (simp add: show_times_def)

theorem add_time_reads_spans:
  assumes "list_all (\<lambda>(n, c). map_of time_units c \<noteq> None) ms" and "add_time_to_date p (Inr t) f (show_times ms) = Inr t'"
  shows "t' = t + time_total ms * second"
  using assms(2) by (auto simp: add_time_to_date_def scan_show_times [OF assms(1)] rbind_Inr_iff
      timedelta_def plus_delta_def split: if_splits)

section \<open>Numbers and dictionaries\<close>

theorem quotient_and_remainder:
  assumes "keep_fdiv [PInt a, PInt b] = Inr (PInt q)" "keep_mod [PInt a, PInt b] = Inr (PInt r)"
  shows "a = q * b + r \<and> (0 < b \<longrightarrow> 0 \<le> r \<and> r < b) \<and> (b < 0 \<longrightarrow> b < r \<and> r \<le> 0)"
  using assms by (auto simp: keep_fdiv_def keep_mod_def from_first_def to_int_def split: if_splits)

theorem prefix_partition:
  assumes "keep_dict_filter_by_prefix env (PDict d) (PStr p) = Inr (PDict a)"
    and "keep_dict_pop_prefix env (PDict d) (PStr p) = Inr (PDict b)"
  shows "set d = set a \<union> set b \<and> length d = length a + length b" "\<forall>(k, v) \<in> set a. starts_with p k" "\<forall>(k, v) \<in> set b. \<not> starts_with p k"
proof -
  from assms have ab: "a = filter (\<lambda>(k, _). starts_with p k) d" "b = filter (\<lambda>x. \<not> (case x of (k, _) \<Rightarrow> starts_with p k)) d"
    by (auto simp: keep_dict_filter_by_prefix_def keep_dict_pop_prefix_def filter_keys_def loaded_def as_dict_def split_def)
  show "set d = set a \<union> set b \<and> length d = length a + length b"
    unfolding ab using sum_length_filter_compl [of "\<lambda>(k, _). starts_with p k" d] by auto
  show "\<forall>(k, v) \<in> set a. starts_with p k" "\<forall>(k, v) \<in> set b. \<not> starts_with p k" by (auto simp: ab)
qed


section \<open>Witnesses\<close>

definition demo_fun_env :: fun_env where
  "demo_fun_env = \<lparr>fe_json_loads = (\<lambda>_. Inl (Exn (EOther ''JSONDecodeError'') [])), fe_json5_loads = (\<lambda>_. Inr (PList [])),
     fe_parse_date = (\<lambda>_. Inl (Exn (EOther ''ParserError'') [])), fe_isoparse = (\<lambda>_. Inr 0), fe_now = 7200 * second,
     fe_now_iso = ''now'', fe_local = (\<lambda>z us. if z = ''UTC'' then Some ((us div (86400 * second) + 3) mod 7, us div (3600 * second) mod 24) else None),
     fe_fixed2 = (\<lambda>us k. show_int (us div (k * second))), fe_other = (\<lambda>_. None)\<rparr>"

definition demo_firing :: "string \<Rightarrow> string \<Rightarrow> int \<Rightarrow> alert" where
  "demo_firing i tenant us = \<lparr>al_id = i, al_tenant_id = tenant, al_timestamp = us, al_fingerprint = ''fp'', al_name = Some ''n'',
     al_status = Some ''firing'', al_alert_hash = None, al_provider_type = ''p'', al_provider_id = None, al_fields = []\<rparr>"

definition demo_two_tenants :: "alert list \<Rightarrow> alert_db" where
  "demo_two_tenants other = \<lparr>adb_alerts = demo_firing ''1'' ''t'' 0 # other, adb_last_alerts = [], adb_audits = [],
     adb_incident_enrichments = [], adb_incident_ids = []\<rparr>"

definition demo_io :: io_env where
  "demo_io = \<lparr>chevron = (\<lambda>t _. Inr (t, [])), html_unescape = id, ast_parse = (\<lambda>_. Inr []), py_eval = (\<lambda>s. Inr (PStr s)),
     keep_function = (\<lambda>_. None)\<rparr>"


lemma functions_run:
  "snd (the (keep_functions demo_fun_env (demo_two_tenants []) ''slice'')) [PStr ''abcdef'', PInt 2] [(''end'', PInt (- 1))] = Inr (PStr ''cde'')"
  "snd (the (keep_functions demo_fun_env (demo_two_tenants []) ''join'')) [PList [PInt 1, PStr ''x'']] [] = Inr (PStr ''1,x'')"
  "snd (the (keep_functions demo_fun_env (demo_two_tenants []) ''get_firing_time''))
     [PDict [(''fingerprint'', PStr ''fp'')], PStr ''m''] [(''tenant_id'', PStr ''t'')] = Inr (PStr ''120'')"
  "snd (the (keep_functions demo_fun_env (demo_two_tenants []) ''is_business_hours'')) [] [] = Inr (PBool False)"
  by code_simp+

end
