(* ===== verification/CelMapping.thy ===== *)
theory CelMapping
  imports PyStrings
begin

text \<open>
  The first half of \<open>src/common/core/cel_to_sql/\<close>, by which the lists of workflows, alerts and incidents
  are filtered: the syntax tree of a CEL expression (\<open>ast_nodes.py\<close>), the configuration of queryable
  fields (\<open>properties_metadata.py\<close>) and the replacement of properties by database columns
  (\<open>properties_mapper.py\<close>), which also turns the order of an enumeration into lists of its members.

  Parameters are \<open>fnmatch\<close> and the regular expression of a wildcard pattern.  A \<open>datetime\<close> constant is
  its text in seconds, a \<open>float\<close> its \<open>str\<close>.  The texts of \<open>NotImplementedError\<close> and \<open>ValueError\<close> are
  abbreviated.
\<close>

section \<open>Syntax trees\<close>

datatype cval = CNull | CStr string | CBool bool | CInt int | CFloat string | CDate string

datatype data_type =
    DString | DUuid | DInteger | DFloat | DDatetime | DBoolean | DObject | DArray | DNull

datatype log_op = OpAnd | OpOr

datatype cmp_op =
    OpLt | OpLe | OpGt | OpGe | OpEq | OpNe | OpIn | OpContains | OpStartsWith | OpEndsWith

datatype un_op = OpNot | OpNeg | OpHas

text \<open>\<open>Arith\<close> stands for the dictionaries and strings the converter leaves for arithmetic and the ternary
  operator.  The second operand of a comparison is a node or, after \<open>in\<close>, a list of nodes.\<close>

datatype node =
    Const cval
  | Paren node
  | Logical node log_op node
  | Compare node cmp_op operand
  | Prop "string list" "data_type option"
  | JsonProp string "string list" "data_type option"
  | Fields "node list" "data_type option"
  | Unary un_op node
  | Arith
and operand = One node | Many "node list"

definition from_type_to_data_type :: "cval \<Rightarrow> data_type" where
  "from_type_to_data_type v =
     (case v of CStr _ \<Rightarrow> DString | CInt _ \<Rightarrow> DInteger | CFloat _ \<Rightarrow> DFloat | CBool _ \<Rightarrow> DBoolean
      | CNull \<Rightarrow> DNull | CDate _ \<Rightarrow> DDatetime)"

section \<open>Configuration of fields\<close>

datatype field_mapping = SimpleField string | JsonField string "string list"

record field_config =
  fc_pattern :: string
  fc_map_to :: "string list"
  fc_type :: "data_type option"
  fc_enum :: "string list option"

record property_info =
  pi_name :: string
  pi_mappings :: "field_mapping list"
  pi_enum :: "string list option"
  pi_type :: "data_type option"

record metadata =
  md_known :: "(string \<times> field_config) list"
  md_wildcards :: "(string \<times> field_config) list"
  md_fnmatch :: "string \<Rightarrow> string \<Rightarrow> bool"
  md_group :: "string \<Rightarrow> string \<Rightarrow> string"

definition remap_one :: "(string \<times> string) \<Rightarrow> field_config \<Rightarrow> field_config" where
  "remap_one r c = c\<lparr>fc_map_to := map (py_replace (fst r) (snd r)) (fc_map_to c)\<rparr>"

definition remap_fields_configurations :: "(string \<times> string) list \<Rightarrow> field_config list \<Rightarrow> field_config list" where
  "remap_fields_configurations rules configs = fold (\<lambda>r. map (remap_one r)) rules configs"

text \<open>The regular expression \<open>\[([^\[\]]+)\]|([^.]+)\<close>: a bracketed name, or a run up to the next dot.\<close>

definition bracket_group :: "string \<Rightarrow> (string \<times> string) option" where
  "bracket_group s =
     (case s of
        [] \<Rightarrow> None
      | c # cs \<Rightarrow>
          (let run = takeWhile (\<lambda>x. x \<noteq> CHR 0x5B \<and> x \<noteq> CHR 0x5D) cs;
               rest = dropWhile (\<lambda>x. x \<noteq> CHR 0x5B \<and> x \<noteq> CHR 0x5D) cs
           in if c = CHR 0x5B \<and> run \<noteq> [] \<and> rest \<noteq> [] \<and> hd rest = CHR 0x5D then Some (run, tl rest) else None))"

lemma bracket_group_shorter: "bracket_group s = Some (g, r) \<Longrightarrow> length r < length s"
  using length_dropWhile_le [of "\<lambda>x. x \<noteq> CHR 0x5B \<and> x \<noteq> CHR 0x5D" "tl s"]
  by (auto simp: bracket_group_def Let_def split: list.splits if_splits)

function extract_fields :: "string \<Rightarrow> string list" where
  "extract_fields [] = []"
| "extract_fields (c # cs) =
     (case bracket_group (c # cs) of
        Some (g, r) \<Rightarrow> g # extract_fields r
      | None \<Rightarrow>
          if c = CHR ''.'' then extract_fields cs
          else (c # takeWhile (\<lambda>x. x \<noteq> CHR ''.'') cs) # extract_fields (dropWhile (\<lambda>x. x \<noteq> CHR ''.'') cs))"
  by pat_completeness auto
termination
  by (relation "measure length")
    (auto dest: bracket_group_shorter simp: le_imp_less_Suc length_dropWhile_le)

definition plain_item :: "string \<Rightarrow> bool" where
  "plain_item s \<longleftrightarrow> list_all (\<lambda>c. is_alnum c \<or> c = CHR ''*'') s"

definition get_property_path_str :: "string list \<Rightarrow> string" where
  "get_property_path_str path =
     py_join ''.'' (map (\<lambda>s. if plain_item s then s else ''['' @ s @ '']'') path)"

definition normalised :: "field_config \<Rightarrow> field_config" where
  "normalised c = c\<lparr>fc_pattern := get_property_path_str (extract_fields (fc_pattern c))\<rparr>"

definition properties_metadata ::
  "(string \<Rightarrow> string \<Rightarrow> bool) \<Rightarrow> (string \<Rightarrow> string \<Rightarrow> string) \<Rightarrow> field_config list \<Rightarrow> metadata" where
  "properties_metadata fnm grp configs =
     (let put = (\<lambda>c d. dset (fc_pattern (normalised c)) (normalised c) d)
      in \<lparr>md_known = fold put (filter (\<lambda>c. \<not> contains_sub ''*'' (fc_pattern c)) configs) [],
          md_wildcards = fold put (filter (\<lambda>c. contains_sub ''*'' (fc_pattern c)) configs) [],
          md_fnmatch = fnm, md_group = grp\<rparr>)"

definition find_mapping_configuration :: "metadata \<Rightarrow> string \<Rightarrow> (field_config \<times> string) option" where
  "find_mapping_configuration md path =
     (case dget (md_known md) path of
        Some c \<Rightarrow> Some (c, path)
      | None \<Rightarrow> map_option (\<lambda>(k, c). (c, k)) (find (\<lambda>(k, c). md_fnmatch md path k) (md_wildcards md)))"

text \<open>The column of a mapping of the form \<open>JSON(column).path\<close>.\<close>

definition json_column :: "string \<Rightarrow> string option" where
  "json_column item =
     (let rest = drop 5 item; col = takeWhile (\<lambda>c. c \<noteq> CHR '')'') rest
      in if starts_with ''JSON('' item \<and> col \<noteq> [] \<and> length col < length rest then Some col else None)"

fun put_at_star :: "string \<Rightarrow> string list \<Rightarrow> string list option" where
  "put_at_star t [] = None"
| "put_at_star t (x # xs) = (if x = ''*'' then Some (t # xs) else map_option ((#) x) (put_at_star t xs))"

definition field_mapping_of :: "string \<Rightarrow> string \<Rightarrow> field_mapping" where
  "field_mapping_of template item =
     (case json_column item of
        None \<Rightarrow> SimpleField item
      | Some col \<Rightarrow>
          (let parts = py_split ''.'' (py_replace (''JSON('' @ col @ '')'') [] item);
               parts = (case put_at_star template parts of Some ps \<Rightarrow> ps | None \<Rightarrow> parts @ [template])
           in JsonField col (extract_fields (py_join ''.'' (tl parts)))))"

definition get_property_metadata :: "metadata \<Rightarrow> string list \<Rightarrow> property_info option" where
  "get_property_metadata md path =
     (let p = get_property_path_str path
      in (case find_mapping_configuration md p of
            None \<Rightarrow> None
          | Some (c, key) \<Rightarrow>
              let template = (if contains_sub ''*'' key then md_group md key p else p)
              in Some \<lparr>pi_name = p, pi_mappings = map (field_mapping_of template) (fc_map_to c),
                   pi_enum = fc_enum c, pi_type = fc_type c\<rparr>))"

definition get_property_metadata_for_str :: "metadata \<Rightarrow> string \<Rightarrow> property_info option" where
  "get_property_metadata_for_str md s = get_property_metadata md (extract_fields s)"

section \<open>Members of an enumeration\<close>

definition canonicalize_enum_value :: "string list \<Rightarrow> cval \<Rightarrow> cval" where
  "canonicalize_enum_value vs v =
     (case v of
        CStr s \<Rightarrow> (case find (\<lambda>e. py_lower e = py_lower s) vs of Some e \<Rightarrow> CStr e | None \<Rightarrow> v)
      | _ \<Rightarrow> v)"

definition canonical_node :: "string list \<Rightarrow> node \<Rightarrow> node" where
  "canonical_node vs n = (case n of Const v \<Rightarrow> Const (canonicalize_enum_value vs v) | _ \<Rightarrow> n)"

definition canonicalize_enum_operand :: "string list \<Rightarrow> operand \<Rightarrow> operand" where
  "canonicalize_enum_operand vs b =
     (case b of One n \<Rightarrow> One (canonical_node vs n) | Many ns \<Rightarrow> Many (map (canonical_node vs) ns))"

definition is_order_op :: "cmp_op \<Rightarrow> bool" where
  "is_order_op op \<longleftrightarrow> op \<in> {OpGe, OpGt, OpLe, OpLt}"

definition enum_canonicalization_op :: "cmp_op \<Rightarrow> bool" where
  "enum_canonicalization_op op \<longleftrightarrow> op \<in> {OpEq, OpNe, OpIn} \<or> is_order_op op"

definition members :: "node \<Rightarrow> string list \<Rightarrow> node" where
  "members first vs = Compare first OpIn (Many (map (\<lambda>s. Const (CStr s)) vs))"

fun index_of :: "string \<Rightarrow> string list \<Rightarrow> nat" where
  "index_of s [] = 0"
| "index_of s (v # vs) = (if v = s then 0 else Suc (index_of s vs))"

text \<open>An order comparison with a member: \<open>None\<close> is a filter that every row passes.\<close>

definition order_node :: "node \<Rightarrow> cmp_op \<Rightarrow> string list \<Rightarrow> cval \<Rightarrow> node option" where
  "order_node first op vs v =
     (let below = op \<in> {OpLt, OpLe}; negated = (\<lambda>n. if below then Unary OpNot n else n)
      in (case v of
            CStr s \<Rightarrow>
              if s \<notin> set vs then Some (negated (members first vs))
              else
                (let start = index_of s vs + (if op \<in> {OpGt, OpLe} then 1 else 0)
                 in if op = OpLe \<and> length vs \<le> start then None
                    else if op = OpGt \<and> length vs \<le> start then Some (Const (CBool False))
                    else Some (negated (members first (drop start vs))))
          | _ \<Rightarrow> Some (negated (members first vs))))"

definition modify_comparison_node :: "node \<Rightarrow> cmp_op \<Rightarrow> operand \<Rightarrow> property_info \<Rightarrow> node option" where
  "modify_comparison_node first op b info =
     (case pi_enum info of
        None \<Rightarrow> Some (Compare first op b)
      | Some vs \<Rightarrow>
          if vs = [] then Some (Compare first op b)
          else
            (let b = (if enum_canonicalization_op op then canonicalize_enum_operand vs b else b)
             in (case b of
                   One (Const v) \<Rightarrow> if is_order_op op then order_node first op vs v else Some (Compare first op b)
                 | _ \<Rightarrow> Some (Compare first op b))))"

section \<open>Properties to columns\<close>

definition property_node :: "data_type option \<Rightarrow> field_mapping \<Rightarrow> node" where
  "property_node t f = (case f of JsonField col path \<Rightarrow> JsonProp col path t | SimpleField c \<Rightarrow> Prop [c] t)"

definition fields_node :: "property_info \<Rightarrow> node result" where
  "fields_node info =
     (case map (property_node (pi_type info)) (pi_mappings info) of
        [] \<Rightarrow> Inl (Exn EIndexError ''list index out of range'')
      | [n] \<Rightarrow> Inr n
      | ns \<Rightarrow> Inr (Fields ns (pi_type info)))"

definition map_property :: "metadata \<Rightarrow> bool \<Rightarrow> node \<Rightarrow> string list \<Rightarrow> (node \<times> property_info) result" where
  "map_property md throw original path =
     (case get_property_metadata md path of
        Some info \<Rightarrow> rbind (fields_node info) (\<lambda>n. Inr (n, info))
      | None \<Rightarrow>
          if throw then Inl (Exn (EOther ''PropertiesMappingException'')
            (''Missing mapping configuration for property '' @ [CHR 0x22] @ py_join ''.'' path @ [CHR 0x22]))
          else Inr (original, \<lparr>pi_name = py_join ''.'' path, pi_mappings = [SimpleField (py_join ''.'' path)],
            pi_enum = None, pi_type = None\<rparr>))"

definition not_equal :: "node \<Rightarrow> cval \<Rightarrow> node" where
  "not_equal n v = Compare n OpNe (One (Const v))"

definition falsy_values :: "data_type option \<Rightarrow> cval list" where
  "falsy_values t =
     (if t = Some DBoolean then [CBool False]
      else if t \<in> {Some DInteger, Some DFloat} then [CInt 0]
      else [CStr ''0'', CStr []])"

definition truth_node :: "node \<Rightarrow> data_type option \<Rightarrow> node" where
  "truth_node n t = fold (\<lambda>v a. Logical a OpAnd (not_equal n v)) (falsy_values t) (not_equal n CNull)"

type_synonym mapped = "(node option \<times> property_info list) result"

definition not_implemented :: "string \<Rightarrow> exn" where
  "not_implemented what = Exn (EOther ''NotImplementedError'') (what @ '' is not supported yet'')"

fun visit_nodes :: "metadata \<Rightarrow> node \<Rightarrow> mapped" where
  "visit_nodes md (Paren n) = visit_nodes md n"
| "visit_nodes md (Logical l op r) =
     rbind (visit_nodes md l) (\<lambda>(l, ls).
     rbind (visit_nodes md r) (\<lambda>(r, rs).
       Inr (case (l, r) of
              (None, r) \<Rightarrow> r
            | (Some l, None) \<Rightarrow> Some l
            | (Some l, Some r) \<Rightarrow> Some (Logical l op r), ls @ rs)))"
| "visit_nodes md (Compare a op b) =
     (case a of
        Prop path t \<Rightarrow>
          rbind (map_property md True a path) (\<lambda>(n, info).
            Inr (modify_comparison_node n op b info, [info]))
      | _ \<Rightarrow> Inr (Some (Compare a op b), []))"
| "visit_nodes md (Prop path t) =
     rbind (map_property md True (Prop path t) path) (\<lambda>(n, info).
       Inr (Some (truth_node n (pi_type info)), [info]))"
| "visit_nodes md (Unary op n) =
     (case (op, n) of
        (OpHas, Prop path t) \<Rightarrow>
          rbind (map_property md False n path) (\<lambda>(m, info). Inr (Some (Unary OpHas m), [info]))
      | _ \<Rightarrow>
          rbind (visit_nodes md n) (\<lambda>(m, infos).
            case m of
              None \<Rightarrow> Inr (Some (Unary op (Const (CBool True))), infos)
            | Some m \<Rightarrow> Inr (Some (Unary op m), infos @ infos)))"
| "visit_nodes md (Const v) = Inr (Some (Const v), [])"
| "visit_nodes md (JsonProp c p t) = Inl (not_implemented ''JsonPropertyAccessNode'')"
| "visit_nodes md (Fields ns t) = Inl (not_implemented ''MultipleFieldsNode'')"
| "visit_nodes md Arith = Inl (not_implemented ''dict'')"

text \<open>The involved fields, each name once, the last description of a name in the place of the first.\<close>

definition map_props_in_ast :: "metadata \<Rightarrow> node \<Rightarrow> mapped" where
  "map_props_in_ast md n =
     rbind (visit_nodes md n) (\<lambda>(m, infos).
       Inr (m, map snd (fold (\<lambda>i d. dset (pi_name i) i d) infos [])))"

section \<open>Paths as text\<close>

definition name_item :: "string \<Rightarrow> bool" where
  "name_item s \<longleftrightarrow> s \<noteq> [] \<and> list_all (\<lambda>c. c \<noteq> CHR 0x5B \<and> c \<noteq> CHR 0x5D) s"

lemma plain_char: "is_alnum c \<or> c = CHR ''*'' \<Longrightarrow> c \<noteq> CHR ''.'' \<and> c \<noteq> CHR 0x5B"
  by (auto simp: is_alnum_def is_digit_def is_upper_def is_lower_def)

lemma extract_dot [simp]: "extract_fields (CHR ''.'' # cs) = extract_fields cs"
  by (simp add: bracket_group_def)

definition dot_or_end :: "string \<Rightarrow> bool" where
  "dot_or_end s \<longleftrightarrow> s = [] \<or> hd s = CHR ''.''"

lemma take_run: "list_all P s \<Longrightarrow> rest = [] \<or> \<not> P (hd rest) \<Longrightarrow> takeWhile P (s @ rest) = s \<and> dropWhile P (s @ rest) = rest"
  by (induction s) (cases rest; simp)+

lemma extract_plain:
  assumes "plain_item s" "s \<noteq> []" "dot_or_end rest"
  shows "extract_fields (s @ rest) = s # extract_fields rest"
proof -
  obtain c cs where s: "s = c # cs" using assms(2) by (cases s) auto
  have c: "c \<noteq> CHR ''.''" "c \<noteq> CHR 0x5B" and cs: "list_all (\<lambda>x. x \<noteq> CHR ''.'') cs"
    using assms(1) plain_char by (auto simp: s plain_item_def list_all_iff)
  have "takeWhile (\<lambda>x. x \<noteq> CHR ''.'') (cs @ rest) = cs" "dropWhile (\<lambda>x. x \<noteq> CHR ''.'') (cs @ rest) = rest"
    using take_run [OF cs, of rest] assms(3) by (auto simp: dot_or_end_def)
  with c show ?thesis by (simp add: s bracket_group_def)
qed

lemma extract_bracket:
  assumes "name_item s" shows "extract_fields (''['' @ s @ '']'' @ rest) = s # extract_fields rest"
proof -
  have "takeWhile (\<lambda>x. x \<noteq> CHR 0x5B \<and> x \<noteq> CHR 0x5D) (s @ CHR 0x5D # rest) = s"
    "dropWhile (\<lambda>x. x \<noteq> CHR 0x5B \<and> x \<noteq> CHR 0x5D) (s @ CHR 0x5D # rest) = CHR 0x5D # rest"
    using take_run [of "\<lambda>x. x \<noteq> CHR 0x5B \<and> x \<noteq> CHR 0x5D" s "CHR 0x5D # rest"] assms by (simp_all add: name_item_def)
  with assms show ?thesis by (simp add: bracket_group_def name_item_def Let_def)
qed

lemma extract_item:
  assumes "name_item s" "dot_or_end rest"
  shows "extract_fields ((if plain_item s then s else ''['' @ s @ '']'') @ rest) = s # extract_fields rest"
  using extract_plain [of s rest] extract_bracket [OF assms(1), of rest] assms by (simp add: name_item_def)

text \<open>A path is read back from its text.\<close>

theorem path_text_roundtrip: "list_all name_item path \<Longrightarrow> extract_fields (get_property_path_str path) = path"
proof (induction path)
  case (Cons s path)
  let ?t = "\<lambda>s. if plain_item s then s else ''['' @ s @ '']''"
  from Cons have ih: "extract_fields (py_join ''.'' (map ?t path)) = path" by (simp add: get_property_path_str_def)
  show ?case
  proof (cases path)
    case Nil
    with extract_item [of s "[]"] Cons.prems show ?thesis by (simp add: get_property_path_str_def dot_or_end_def)
  next
    case (Cons s' path')
    then have "get_property_path_str (s # path) = ?t s @ ''.'' @ py_join ''.'' (map ?t path)"
      by (simp add: get_property_path_str_def)
    moreover have "extract_fields (?t s @ (''.'' @ py_join ''.'' (map ?t path))) = s # extract_fields (''.'' @ py_join ''.'' (map ?t path))"
      using \<open>list_all name_item (s # path)\<close> by (intro extract_item) (simp_all add: dot_or_end_def)
    moreover have "extract_fields (''.'' @ py_join ''.'' (map ?t path)) = path"
      using extract_dot [of "py_join ''.'' (map ?t path)"] ih by (simp del: extract_fields.simps)
    ultimately show ?thesis by metis
  qed
qed (simp add: get_property_path_str_def)

section \<open>Meaning of a filter\<close>

text \<open>What the database computes for a mapped tree, from the value \<open>val\<close> of each operand and the
  comparison \<open>cmp\<close> of values.\<close>

fun holds :: "(node \<Rightarrow> cval) \<Rightarrow> (cmp_op \<Rightarrow> cval \<Rightarrow> cval \<Rightarrow> bool) \<Rightarrow> node \<Rightarrow> bool" where
  "holds val cmp (Logical l op r) =
     (if op = OpAnd then holds val cmp l \<and> holds val cmp r else holds val cmp l \<or> holds val cmp r)"
| "holds val cmp (Unary op n) = (op = OpNot \<and> \<not> holds val cmp n)"
| "holds val cmp (Compare a op b) =
     (case b of
        One n \<Rightarrow> (case n of Const v \<Rightarrow> cmp op (val a) v | _ \<Rightarrow> False)
      | Many ns \<Rightarrow> op = OpIn \<and> Const (val a) \<in> set ns)"
| "holds val cmp (Const v) = (v = CBool True)"
| "holds val cmp n = False"

definition passes :: "(node \<Rightarrow> cval) \<Rightarrow> (cmp_op \<Rightarrow> cval \<Rightarrow> cval \<Rightarrow> bool) \<Rightarrow> node option \<Rightarrow> bool" where
  "passes val cmp m = (case m of None \<Rightarrow> True | Some n \<Rightarrow> holds val cmp n)"

definition order_holds :: "cmp_op \<Rightarrow> nat \<Rightarrow> nat \<Rightarrow> bool" where
  "order_holds op i j =
     (case op of OpGt \<Rightarrow> j < i | OpGe \<Rightarrow> j \<le> i | OpLt \<Rightarrow> i < j | OpLe \<Rightarrow> i \<le> j | _ \<Rightarrow> False)"

definition canonical :: "property_info \<Rightarrow> cmp_op \<Rightarrow> cval \<Rightarrow> cval" where
  "canonical info op v =
     (case pi_enum info of
        Some vs \<Rightarrow> if vs \<noteq> [] \<and> enum_canonicalization_op op then canonicalize_enum_value vs v else v
      | None \<Rightarrow> v)"

definition position_of :: "string list \<Rightarrow> cval \<Rightarrow> nat" where
  "position_of vs v = (case v of CStr s \<Rightarrow> index_of s vs | _ \<Rightarrow> length vs)"

definition is_member :: "string list \<Rightarrow> cval \<Rightarrow> bool" where
  "is_member vs v = (case v of CStr s \<Rightarrow> s \<in> set vs | _ \<Rightarrow> False)"

text \<open>What the expression means: a comparison by order of an enumerated property compares positions.\<close>

definition comparison_means ::
  "(node \<Rightarrow> cval) \<Rightarrow> (cmp_op \<Rightarrow> cval \<Rightarrow> cval \<Rightarrow> bool) \<Rightarrow> node \<Rightarrow> property_info \<Rightarrow> cmp_op \<Rightarrow> cval \<Rightarrow> bool" where
  "comparison_means val cmp n info op v =
     (case pi_enum info of
        Some vs \<Rightarrow>
          if vs \<noteq> [] \<and> is_order_op op then order_holds op (position_of vs (val n)) (position_of vs (canonical info op v))
          else cmp op (val n) (canonical info op v)
      | None \<Rightarrow> cmp op (val n) v)"

definition const_holds :: "(cval \<Rightarrow> bool) \<Rightarrow> node \<Rightarrow> bool" where
  "const_holds P m = (case m of Const v \<Rightarrow> P v | _ \<Rightarrow> False)"

fun means :: "metadata \<Rightarrow> (node \<Rightarrow> cval) \<Rightarrow> (cmp_op \<Rightarrow> cval \<Rightarrow> cval \<Rightarrow> bool) \<Rightarrow> node \<Rightarrow> bool" where
  "means md val cmp (Paren n) = means md val cmp n"
| "means md val cmp (Logical l op r) =
     (if op = OpAnd then means md val cmp l \<and> means md val cmp r else means md val cmp l \<or> means md val cmp r)"
| "means md val cmp (Unary op n) = (op = OpNot \<and> \<not> means md val cmp n)"
| "means md val cmp (Compare a op b) =
     (case a of
        Prop path t \<Rightarrow>
          (case map_property md True a path of
             Inr (n, info) \<Rightarrow>
               (case b of
                  One m \<Rightarrow> (case m of Const v \<Rightarrow> comparison_means val cmp n info op v | _ \<Rightarrow> False)
                | Many ns \<Rightarrow> \<exists>m \<in> set ns. const_holds (\<lambda>v. val n = canonical info OpIn v) m)
           | Inl _ \<Rightarrow> False)
      | _ \<Rightarrow> False)"
| "means md val cmp (Prop path t) =
     (case map_property md True (Prop path t) path of
        Inr (n, info) \<Rightarrow> cmp OpNe (val n) CNull \<and> list_all (cmp OpNe (val n)) (falsy_values (pi_type info))
      | Inl _ \<Rightarrow> False)"
| "means md val cmp (Const v) = (v = CBool True)"
| "means md val cmp n = False"

text \<open>The expressions the statement is about: \<open>&&\<close>, \<open>||\<close>, \<open>!\<close>, parentheses, properties and their comparisons
  with constants, where an order comparison of an enumerated property is with a member, the row holds a
  member, and no side of a \<open>||\<close> is a filter that every row passes.\<close>

definition enum_ok :: "(node \<Rightarrow> cval) \<Rightarrow> node \<Rightarrow> property_info \<Rightarrow> cmp_op \<Rightarrow> cval \<Rightarrow> bool" where
  "enum_ok val n info op v =
     (case pi_enum info of
        Some vs \<Rightarrow> is_order_op op \<longrightarrow> distinct vs \<and> is_member vs (val n) \<and> is_member vs (canonical info op v)
      | None \<Rightarrow> True)"

definition filters :: "metadata \<Rightarrow> node \<Rightarrow> bool" where
  "filters md n = (case visit_nodes md n of Inr (None, _) \<Rightarrow> False | _ \<Rightarrow> True)"

fun fragment :: "metadata \<Rightarrow> (node \<Rightarrow> cval) \<Rightarrow> node \<Rightarrow> bool" where
  "fragment md val (Paren n) = fragment md val n"
| "fragment md val (Logical l op r) =
     (fragment md val l \<and> fragment md val r \<and> (op = OpOr \<longrightarrow> filters md l \<and> filters md r))"
| "fragment md val (Unary op n) = (op = OpNot \<and> fragment md val n)"
| "fragment md val (Compare a op b) =
     (case a of
        Prop path t \<Rightarrow>
          (case map_property md True a path of
             Inr (n, info) \<Rightarrow>
               (case b of
                  One m \<Rightarrow> (case m of Const v \<Rightarrow> enum_ok val n info op v | _ \<Rightarrow> False)
                | Many ns \<Rightarrow> op = OpIn)
           | Inl _ \<Rightarrow> True)
      | _ \<Rightarrow> False)"
| "fragment md val (Prop path t) = True"
| "fragment md val (Const v) = True"
| "fragment md val n = False"

lemma drop_members:
  "distinct vs \<Longrightarrow> s \<in> set vs \<Longrightarrow> s \<in> set (drop k vs) \<longleftrightarrow> k \<le> index_of s vs"
proof (induction vs arbitrary: k)
  case (Cons v vs)
  then show ?case by (cases k) (auto dest: in_set_dropD)
qed simp

lemma index_lt: "s \<in> set vs \<Longrightarrow> index_of s vs < length vs"
  by (induction vs) auto

lemma holds_members: "holds val cmp (members n vs) = (\<exists>s \<in> set vs. val n = CStr s)"
  by (auto simp: members_def)

lemma order_node_correct:
  assumes "distinct vs" "val n = CStr a" "a \<in> set vs" "s \<in> set vs" "is_order_op op"
  shows "passes val cmp (order_node n op vs (CStr s)) = order_holds op (index_of a vs) (index_of s vs)"
proof -
  have h: "holds val cmp (members n ws) \<longleftrightarrow> a \<in> set ws" for ws by (auto simp: holds_members assms(2))
  note i = index_lt [OF assms(3)] index_lt [OF assms(4)]
  show ?thesis
    using assms(4,5) i
    by (cases op)
      (simp_all add: is_order_op_def order_node_def order_holds_def passes_def Let_def h drop_members [OF assms(1,3)]
        not_le not_less Suc_le_eq less_Suc_eq_le)
qed

lemma modify_correct:
  assumes "enum_ok val n info op v"
  shows "passes val cmp (modify_comparison_node n op (One (Const v)) info) = comparison_means val cmp n info op v"
proof (cases "pi_enum info")
  case None
  then show ?thesis by (simp add: modify_comparison_node_def comparison_means_def passes_def)
next
  case (Some vs)
  show ?thesis
  proof (cases "vs \<noteq> [] \<and> is_order_op op")
    case True
    with assms Some obtain a s where m: "val n = CStr a" "a \<in> set vs" "canonical info op v = CStr s" "s \<in> set vs" "distinct vs"
      by (auto simp: enum_ok_def is_member_def split: cval.splits)
    have c: "canonicalize_enum_value vs v = CStr s" using m(3) Some True
      by (simp add: canonical_def enum_canonicalization_op_def)
    show ?thesis
      using order_node_correct [where val = val and cmp = cmp, OF m(5,1,2,4)] True Some m c
      by (simp add: modify_comparison_node_def enum_canonicalization_op_def canonicalize_enum_operand_def
          canonical_node_def comparison_means_def position_of_def)
  next
    case False
    with Some show ?thesis
      by (auto simp: modify_comparison_node_def canonicalize_enum_operand_def canonical_node_def comparison_means_def
          canonical_def passes_def Let_def)
  qed
qed

lemma modify_in:
  "passes val cmp (modify_comparison_node n OpIn (Many ns) info)
    = (\<exists>m \<in> set ns. const_holds (\<lambda>v. val n = canonical info OpIn v) m)"
proof -
  have e: "(\<exists>m \<in> set ns. const_holds P m) \<longleftrightarrow> (\<exists>v. Const v \<in> set ns \<and> P v)" for P
  proof -
    have "const_holds P m \<longleftrightarrow> (\<exists>v. m = Const v \<and> P v)" for m by (cases m) (simp_all add: const_holds_def)
    then show ?thesis by auto
  qed
  have c: "Const x \<in> set (map (canonical_node vs) ns) \<longleftrightarrow> (\<exists>v. Const v \<in> set ns \<and> x = canonicalize_enum_value vs v)" for x vs
  proof -
    have "Const x = canonical_node vs m \<longleftrightarrow> (\<exists>v. m = Const v \<and> x = canonicalize_enum_value vs v)" for m
      by (cases m) (simp_all add: canonical_node_def)
    then have "Const x \<in> set (map (canonical_node vs) ns) \<longleftrightarrow> (\<exists>m \<in> set ns. \<exists>v. m = Const v \<and> x = canonicalize_enum_value vs v)"
      by (simp add: image_iff)
    then show ?thesis by blast
  qed
  show ?thesis
  proof (cases "pi_enum info")
    case None
    then show ?thesis unfolding e by (simp add: modify_comparison_node_def passes_def canonical_def)
  next
    case (Some vs)
    then show ?thesis
      unfolding e using c [of "val n" vs]
      by (cases "vs = []") (simp_all add: modify_comparison_node_def canonicalize_enum_operand_def enum_canonicalization_op_def
          passes_def canonical_def Let_def del: set_map)
  qed
qed

lemma truth_node_holds:
  "holds val cmp (truth_node n t) = (cmp OpNe (val n) CNull \<and> list_all (cmp OpNe (val n)) (falsy_values t))"
  by (auto simp: truth_node_def falsy_values_def not_equal_def)


lemma map_property_Inr:
  "map_property md True a path = Inr (n, info) \<Longrightarrow> get_property_metadata md path = Some info \<and> fields_node info = Inr n"
  by (auto simp: map_property_def rbind_Inr_iff split: option.splits)


text \<open>A side of a \<open>||\<close> that every row passes is dropped, so the filter is the other side alone.\<close>

theorem or_loses_true_side:
  assumes "visit_nodes md l = Inr (None, ls)" "visit_nodes md r = Inr (Some k, rs)"
  shows "visit_nodes md (Logical l OpOr r) = Inr (Some k, ls @ rs) \<and> visit_nodes md (Logical r OpOr l) = Inr (Some k, rs @ ls)"
  using assms by simp


section \<open>Witnesses\<close>

definition demo_configs :: "field_config list" where
  "demo_configs =
     [\<lparr>fc_pattern = ''severity'', fc_map_to = [''alert.severity''], fc_type = Some DString, fc_enum = Some [''low'', ''high'']\<rparr>,
      \<lparr>fc_pattern = ''alert.name'', fc_map_to = [''JSON(e.x).*'', ''alert.name''], fc_type = Some DString, fc_enum = None\<rparr>]"

definition demo_metadata :: metadata where
  "demo_metadata = properties_metadata (\<lambda>_ _. False) (\<lambda>_ p. p) demo_configs"

definition demo_severity :: "string \<Rightarrow> node \<Rightarrow> cval" where
  "demo_severity s n = (if n = Prop [''alert.severity''] (Some DString) then CStr s else CNull)"

definition demo_cel_tree :: node where
  "demo_cel_tree = Unary OpNot (Paren (Compare (Prop [''severity''] None) OpLt (One (Const (CStr ''High'')))))"


text \<open>\<open>severity <= 'high' || !(...)\<close> holds of every row, but the filter lets only some pass.\<close>

lemma or_filter_too_narrow:
  "map_option fst (case visit_nodes demo_metadata
       (Logical (Compare (Prop [''severity''] None) OpLe (One (Const (CStr ''high'')))) OpOr
                (Compare (Prop [''severity''] None) OpGe (One (Const (CStr ''high''))))) of Inr r \<Rightarrow> Some r | Inl _ \<Rightarrow> None)
   = Some (Some (members (Prop [''alert.severity''] (Some DString)) [''high'']))"
  by code_simp

lemma json_mapping:
  "map_option pi_mappings (get_property_metadata demo_metadata [''alert'', ''name''])
     = Some [JsonField ''e.x'' [''alert'', ''name''], SimpleField ''alert.name'']"
  by code_simp

end
