(* ===== verification/CelSql.thy ===== *)
theory CelSql
  imports CelMapping
begin

text \<open>
  The second half of \<open>src/common/core/cel_to_sql/\<close>: the text of an SQL filter for a tree whose properties
  have been mapped to columns, for the three dialects (\<open>sql_providers/base.py\<close>, \<open>sqlite.py\<close>,
  \<open>postgresql.py\<close>, \<open>mysql.py\<close>).  SQLAlchemy's processor of string literals is the parameter \<open>sq_literal\<close>,
  the parser of CEL an argument of \<open>convert_to_sql\<close>.
\<close>

datatype dialect = Sqlite | Postgres | Mysql

record sql_env =
  sq_dialect :: dialect
  sq_literal :: "string \<Rightarrow> string"
  sq_metadata :: metadata

section \<open>Constants and columns\<close>

definition sql_join :: "string list \<Rightarrow> string" where
  "sql_join = py_join '', ''"

definition cval_str :: "cval \<Rightarrow> string" where
  "cval_str v =
     (case v of CNull \<Rightarrow> ''None'' | CStr s \<Rightarrow> s | CBool b \<Rightarrow> if b then ''True'' else ''False''
      | CInt i \<Rightarrow> show_int i | CFloat t \<Rightarrow> t | CDate t \<Rightarrow> t)"

definition literal_proc :: "sql_env \<Rightarrow> cval \<Rightarrow> string" where
  "literal_proc env v =
     (case v of CStr s \<Rightarrow> sq_literal env s | _ \<Rightarrow> [CHR 0x27] @ cval_str v @ [CHR 0x27])"

definition strip_quotes :: "string \<Rightarrow> string" where
  "strip_quotes s = butlast (tl s)"

definition as_uuid :: "sql_env \<Rightarrow> data_type option \<Rightarrow> cval \<Rightarrow> cval" where
  "as_uuid env t v =
     (if t = Some DUuid then
        (case uuid_hex (cval_str v) of
           Some h \<Rightarrow> CStr (if sq_dialect env = Postgres then uuid_str h else h)
         | None \<Rightarrow> v)
      else v)"

definition date_text :: "sql_env \<Rightarrow> string \<Rightarrow> string" where
  "date_text env s =
     (case sq_dialect env of
        Sqlite \<Rightarrow> ''datetime('' @ sq_literal env s @ '')''
      | Postgres \<Rightarrow> ''CAST('' @ sq_literal env s @ '' as TIMESTAMP)''
      | Mysql \<Rightarrow> ''CAST('' @ sq_literal env s @ '' as DATETIME)'')"

definition bool_text :: "sql_env \<Rightarrow> bool \<Rightarrow> string" where
  "bool_text env b =
     (if sq_dialect env = Mysql then (if b then ''TRUE'' else ''FALSE'') else (if b then ''true'' else ''false''))"

definition constant_text :: "sql_env \<Rightarrow> cval \<Rightarrow> data_type option \<Rightarrow> string" where
  "constant_text env v t =
     (case as_uuid env t v of
        CNull \<Rightarrow> ''NULL''
      | CStr s \<Rightarrow> sq_literal env s
      | CBool b \<Rightarrow> bool_text env b
      | CInt i \<Rightarrow> show_int i
      | CFloat f \<Rightarrow> f
      | CDate d \<Rightarrow> date_text env d)"

definition when_then :: "(string \<times> string) list \<Rightarrow> string" where
  "when_then cs = py_join '' '' (map (\<lambda>(c, v). ''WHEN '' @ c @ '' THEN '' @ v) cs)"

definition sq :: string where "sq = [CHR 0x27]"

definition bool_cast :: "sql_env \<Rightarrow> string \<Rightarrow> string" where
  "bool_cast env x =
     (if sq_dialect env = Postgres then
        ''CASE '' @ when_then
          [(''LOWER('' @ x @ '') = '' @ sq @ ''true'' @ sq, ''true''),
           (''LOWER('' @ x @ '') = '' @ sq @ ''false'' @ sq, ''false''),
           (x @ '' ~ '' @ sq @ ''^[-+]?[0-9]*'' @ [CHR 0x5C] @ ''.?[0-9]+$'' @ sq, ''CAST('' @ x @ '' AS FLOAT) >= 1''),
           (''LOWER('' @ x @ '') != '' @ sq @ sq, ''true'')] @ '' ELSE false END''
      else
        ''CASE '' @ when_then
          [(''LOWER('' @ x @ '') = '' @ sq @ ''true'' @ sq, ''TRUE''),
           (''LOWER('' @ x @ '') = '' @ sq @ ''false'' @ sq, ''FALSE''),
           (''CAST('' @ x @ '' AS SIGNED) >= 1'', ''TRUE''),
           (''CAST('' @ x @ '' AS SIGNED) <= 1'', ''FALSE''),
           (x @ '' != '' @ sq @ sq, ''TRUE'')] @ '' ELSE FALSE END'')"

definition unsupported_type :: exn where
  "unsupported_type = Exn EValueError ''Unsupported type''"

definition cast_text :: "sql_env \<Rightarrow> string \<Rightarrow> data_type option \<Rightarrow> string result" where
  "cast_text env x t =
     (if t = Some DBoolean then Inr (bool_cast env x)
      else (case sq_dialect env of
          Mysql \<Rightarrow> Inr x
        | Sqlite \<Rightarrow>
            if t = Some DString then Inr (''CAST('' @ x @ '' as TEXT)'')
            else if t \<in> {Some DNull, Some DDatetime} then Inr x
            else if t \<in> {Some DInteger, Some DFloat} then Inr (''CAST('' @ x @ '' as REAL)'')
            else Inl unsupported_type
        | Postgres \<Rightarrow>
            if t = Some DString then Inr (''('' @ x @ '')::TEXT'')
            else if t \<in> {Some DInteger, Some DFloat} then Inr (''('' @ x @ '')::FLOAT'')
            else if t = Some DNull then Inr x
            else if t = Some DDatetime then Inr (''('' @ x @ '')::TIMESTAMP'')
            else Inl unsupported_type))"

definition dollar_path :: "string list \<Rightarrow> string" where
  "dollar_path path = sq @ ''$.'' @ py_join ''.'' (map (\<lambda>i. [CHR 0x22] @ i @ [CHR 0x22]) path) @ sq"

definition json_extract :: "string \<Rightarrow> string list \<Rightarrow> string" where
  "json_extract col path = ''JSON_EXTRACT('' @ col @ '', '' @ dollar_path path @ '')''"

definition json_extract_as_text :: "sql_env \<Rightarrow> string \<Rightarrow> string list \<Rightarrow> string" where
  "json_extract_as_text env col path =
     (case sq_dialect env of
        Sqlite \<Rightarrow> ''json_extract('' @ col @ '', '' @ dollar_path path @ '')''
      | Postgres \<Rightarrow>
          (let all = col # map (\<lambda>i. sq @ i @ sq) path
           in ''('' @ py_join '' -> '' (butlast all) @ '') ->> '' @ last all)
      | Mysql \<Rightarrow> ''JSON_UNQUOTE('' @ json_extract col path @ '')'')"

definition json_contains_path :: "sql_env \<Rightarrow> string \<Rightarrow> string list \<Rightarrow> string result" where
  "json_contains_path env col path =
     (case sq_dialect env of
        Sqlite \<Rightarrow>
          if path = [] then Inl (Exn EIndexError ''list index out of range'')
          else
            (let each = (if length path = 1 then ''json_each('' @ col @ '')''
                   else ''json_each('' @ json_extract_as_text env col (butlast path) @ '')'')
             in Inr (''EXISTS (SELECT 1 FROM '' @ each @ '' WHERE json_each.key = '' @ sq @ last path @ sq @ '')''))
      | Postgres \<Rightarrow> Inr (''JSONB_PATH_EXISTS('' @ col @ ''::JSONB, '' @ dollar_path path @ '')'')
      | Mysql \<Rightarrow> Inr (''JSON_CONTAINS_PATH('' @ col @ '', '' @ sq @ ''one'' @ sq @ '', '' @ dollar_path path @ '')''))"

definition coalesce :: "string list \<Rightarrow> string" where
  "coalesce xs = (case xs of [x] \<Rightarrow> x | _ \<Rightarrow> ''COALESCE('' @ sql_join xs @ '')'')"

definition property_text :: "sql_env \<Rightarrow> node \<Rightarrow> string result" where
  "property_text env n =
     (case n of
        Prop path _ \<Rightarrow> Inr (py_join ''.'' path)
      | JsonProp col path _ \<Rightarrow> Inr (json_extract_as_text env col path)
      | _ \<Rightarrow> Inl (Exn EAttributeError ''path''))"

definition is_json_prop :: "node \<Rightarrow> bool" where
  "is_json_prop n = (case n of JsonProp _ _ _ \<Rightarrow> True | _ \<Rightarrow> False)"

definition fields_text :: "sql_env \<Rightarrow> node list \<Rightarrow> string result" where
  "fields_text env ns =
     rbind (rmap (property_text env) ns) (\<lambda>ts.
       Inr (coalesce
         (if list_ex is_json_prop ns
          then map (\<lambda>(n, t). if is_json_prop n then t else ''CAST('' @ t @ '' AS TEXT)'') (zip ns ts)
          else ts)))"

section \<open>Comparisons\<close>

definition equal_text :: "string \<Rightarrow> string \<Rightarrow> string" where
  "equal_text x y = (if y = ''NULL'' then x @ '' IS NULL'' else x @ '' = '' @ y)"

definition not_equal_text :: "string \<Rightarrow> string \<Rightarrow> string" where
  "not_equal_text x y = (if y = ''NULL'' then x @ '' IS NOT NULL'' else x @ '' != '' @ y)"

definition or_text :: "string \<Rightarrow> string \<Rightarrow> string" where
  "or_text x y = ''('' @ x @ '' OR '' @ y @ '')''"

definition and_text :: "string \<Rightarrow> string \<Rightarrow> string" where
  "and_text x y = ''('' @ x @ '' AND '' @ y @ '')''"

definition like_text :: "sql_env \<Rightarrow> string \<Rightarrow> bool \<Rightarrow> bool \<Rightarrow> cval \<Rightarrow> string" where
  "like_text env x before after v =
     (let v = (case v of CStr s \<Rightarrow> if sq_dialect env = Mysql then CStr (py_lower s) else v | _ \<Rightarrow> v);
          lit = strip_quotes (literal_proc env v)
      in x @ '' IS NOT NULL AND ''
        @ (case sq_dialect env of Sqlite \<Rightarrow> x @ '' LIKE '' | Postgres \<Rightarrow> x @ '' ILIKE '' | Mysql \<Rightarrow> ''LOWER('' @ x @ '') LIKE '')
        @ sq @ (if before then ''%'' else []) @ lit @ (if after then ''%'' else []) @ sq)"

definition const_of :: "operand \<Rightarrow> cval result" where
  "const_of b = (case b of One (Const v) \<Rightarrow> Inr v | _ \<Rightarrow> Inl (Exn EAttributeError ''value''))"

definition comparison_text :: "sql_env \<Rightarrow> cmp_op \<Rightarrow> string \<Rightarrow> string \<Rightarrow> operand \<Rightarrow> string result" where
  "comparison_text env op x y b =
     (case op of
        OpEq \<Rightarrow> Inr (equal_text x y)
      | OpNe \<Rightarrow> Inr (not_equal_text x y)
      | OpGt \<Rightarrow> Inr (x @ '' > '' @ y)
      | OpGe \<Rightarrow> Inr (x @ '' >= '' @ y)
      | OpLt \<Rightarrow> Inr (x @ '' < '' @ y)
      | OpLe \<Rightarrow> Inr (x @ '' <= '' @ y)
      | OpContains \<Rightarrow> rbind (const_of b) (\<lambda>v. Inr (like_text env x True True v))
      | OpStartsWith \<Rightarrow> rbind (const_of b) (\<lambda>v. Inr (like_text env x False True v))
      | OpEndsWith \<Rightarrow> rbind (const_of b) (\<lambda>v. Inr (like_text env x True False v))
      | OpIn \<Rightarrow> Inl (not_implemented ''in''))"

definition operand_nodes :: "operand \<Rightarrow> node list" where
  "operand_nodes b = (case b of One n \<Rightarrow> [n] | Many ns \<Rightarrow> ns)"

text \<open>\<open>isinstance(v, type(w))\<close>: a boolean is an integer.\<close>

definition of_type :: "cval \<Rightarrow> cval \<Rightarrow> bool" where
  "of_type w v =
     (from_type_to_data_type v = from_type_to_data_type w
      \<or> from_type_to_data_type w = DInteger \<and> from_type_to_data_type v = DBoolean)"

fun all_of_type :: "cval \<Rightarrow> node list \<Rightarrow> bool result" where
  "all_of_type w [] = Inr True"
| "all_of_type w (n # ns) =
     (case n of
        Const v \<Rightarrow> if of_type w v then all_of_type w ns else Inr False
      | _ \<Rightarrow> Inl (Exn EAttributeError ''value''))"

definition mixed_types :: "node list \<Rightarrow> bool result" where
  "mixed_types ns =
     (case ns of
        [] \<Rightarrow> Inl (Exn EIndexError ''list index out of range'')
      | Const w # _ \<Rightarrow> rbind (all_of_type w ns) (\<lambda>b. Inr (\<not> b))
      | _ \<Rightarrow> Inl (Exn EAttributeError ''value''))"

definition constants :: "node list \<Rightarrow> cval list" where
  "constants ns = List.map_filter (\<lambda>n. case n of Const v \<Rightarrow> Some v | _ \<Rightarrow> None) ns"

fun type_to_convert :: "node \<Rightarrow> data_type option result" where
  "type_to_convert (Prop p t) = Inr t"
| "type_to_convert (JsonProp c p t) = Inr t"
| "type_to_convert (Fields ns t) = Inr t"
| "type_to_convert (Compare a op b) = type_to_convert a"
| "type_to_convert n = Inl (not_implemented ''node'')"

definition cast_if :: "sql_env \<Rightarrow> bool \<Rightarrow> data_type option \<Rightarrow> string \<Rightarrow> string result" where
  "cast_if env b t x = (if b then cast_text env x t else Inr x)"

text \<open>The left side of \<open>in\<close>; \<open>built\<close> is its text as an expression.\<close>

definition in_left :: "sql_env \<Rightarrow> node \<Rightarrow> bool \<Rightarrow> string result \<Rightarrow> string result" where
  "in_left env a mixed built =
     (case a of
        JsonProp col path t \<Rightarrow> rbind (property_text env a) (cast_if env (t \<noteq> None) t)
      | Prop path t \<Rightarrow> rbind (property_text env a) (cast_if env mixed (Some DString))
      | Fields ns t \<Rightarrow> rbind (fields_text env ns) (cast_if env (list_ex is_json_prop ns \<and> t \<noteq> None) t)
      | _ \<Rightarrow> built)"

definition in_queries :: "sql_env \<Rightarrow> node \<Rightarrow> string \<Rightarrow> cval list \<Rightarrow> string list result" where
  "in_queries env a x vs =
     (let some = filter (\<lambda>v. v \<noteq> CNull) vs
      in rbind (if some = [] then Inr []
                else rbind (type_to_convert a) (\<lambda>t. Inr [x @ '' in ('' @ sql_join (map (\<lambda>v. constant_text env v t) some) @ '')'']))
          (\<lambda>qs. Inr (qs @ (if CNull \<in> set vs then [equal_text x ''NULL''] else []))))"

definition or_all :: "sql_env \<Rightarrow> string list \<Rightarrow> string" where
  "or_all env qs = (case qs of [] \<Rightarrow> constant_text env (CBool False) None | q # qs \<Rightarrow> fold (\<lambda>q acc. or_text acc q) qs q)"

definition in_text :: "sql_env \<Rightarrow> node \<Rightarrow> string result \<Rightarrow> node list \<Rightarrow> string result" where
  "in_text env a built ns =
     rbind (mixed_types ns) (\<lambda>mixed.
     rbind (in_left env a mixed built) (\<lambda>x.
     rbind (in_queries env a x (constants ns)) (\<lambda>qs. Inr (or_all env qs))))"

definition array_has :: "sql_env \<Rightarrow> string \<Rightarrow> cval \<Rightarrow> string" where
  "array_has env x v =
     (let c = constant_text env v None;
          bare = (if starts_with sq c \<and> ends_with sq c then strip_quotes c else c)
      in case sq_dialect env of
           Sqlite \<Rightarrow>
             if v = CNull then ''('' @ x @ '' IS NULL OR '' @ x @ '' = '' @ sq @ ''[]'' @ sq @ '')''
             else ''(SELECT 1 FROM json_each('' @ x @ '') as json_array WHERE json_array.value = ''
               @ sq @ strip_quotes c @ sq @ '')''
         | Postgres \<Rightarrow>
             if c = ''NULL'' then ''('' @ x @ ''::jsonb @> '' @ sq @ ''[null]'' @ sq @ '' OR '' @ x
               @ '' IS NULL OR jsonb_array_length('' @ x @ ''::jsonb) = 0)''
             else x @ ''::jsonb @> '' @ sq @ ''['' @ [CHR 0x22] @ bare @ [CHR 0x22] @ '']'' @ sq
         | Mysql \<Rightarrow>
             if c = ''NULL'' then ''(JSON_CONTAINS('' @ x @ '', '' @ sq @ ''[null]'' @ sq @ '') OR '' @ x
               @ '' IS NULL OR JSON_LENGTH('' @ x @ '') = 0)''
             else ''JSON_CONTAINS('' @ x @ '', '' @ sq @ ''['' @ [CHR 0x22] @ bare @ [CHR 0x22] @ '']'' @ sq @ '')'')"

definition array_equal :: "sql_env \<Rightarrow> node \<Rightarrow> operand \<Rightarrow> string result" where
  "array_equal env a b =
     (case b of
        One (Const v) \<Rightarrow> rbind (property_text env a) (\<lambda>x. Inr (array_has env x v))
      | _ \<Rightarrow> Inl (not_implemented ''Array datatype comparison''))"

fun none_in :: "node list \<Rightarrow> bool result" where
  "none_in [] = Inr False"
| "none_in (n # ns) =
     (case n of
        Const v \<Rightarrow> if v = CNull then Inr True else none_in ns
      | _ \<Rightarrow> Inl (Exn EAttributeError ''value''))"

definition array_in :: "sql_env \<Rightarrow> node \<Rightarrow> node list \<Rightarrow> string result" where
  "array_in env a ns =
     (if sq_dialect env = Sqlite then
        rbind (in_text env (Prop [''json_array'', ''value''] None) (Inr []) ns) (\<lambda>q.
        rbind (property_text env a) (\<lambda>col.
        rbind (none_in ns) (\<lambda>none.
          let each = ''(SELECT 1 FROM json_each('' @ col @ '') as json_array WHERE '' @ q @ '')''
          in Inr (if none
               then ''('' @ col @ '' = '' @ sq @ ''[]'' @ sq @ '' OR '' @ col @ '' IS NULL OR '' @ each @ '')''
               else each))))
      else
        rbind (rmap (\<lambda>n. array_equal env a (One n)) ns) (\<lambda>qs.
          case qs of [] \<Rightarrow> Inl (not_implemented ''NoneType'') | q # qs \<Rightarrow> Inr (fold (\<lambda>q acc. or_text acc q) qs q)))"

section \<open>Filters\<close>

definition is_array :: "node \<Rightarrow> bool" where
  "is_array n = (case n of Prop _ t \<Rightarrow> t = Some DArray | JsonProp _ _ t \<Rightarrow> t = Some DArray | _ \<Rightarrow> False)"

definition operand_type :: "node \<Rightarrow> data_type option" where
  "operand_type n = (case n of Prop _ t \<Rightarrow> t | JsonProp _ _ t \<Rightarrow> t | Fields _ t \<Rightarrow> t | _ \<Rightarrow> None)"

definition force_cast :: "node \<Rightarrow> bool" where
  "force_cast n = (case n of JsonProp _ _ _ \<Rightarrow> True | Fields (f # _) _ \<Rightarrow> is_json_prop f | _ \<Rightarrow> False)"

definition is_method :: "cmp_op \<Rightarrow> bool" where
  "is_method op \<longleftrightarrow> op \<in> {OpContains, OpStartsWith, OpEndsWith}"

definition const_type :: "operand \<Rightarrow> data_type option" where
  "const_type b = (case b of One (Const v) \<Rightarrow> Some (from_type_to_data_type v) | _ \<Rightarrow> None)"

text \<open>An empty text counts as no result.\<close>

definition some_text :: "string \<Rightarrow> string result" where
  "some_text t = (if t = [] then Inl (not_implemented ''node type'') else Inr t)"

definition has_field :: "sql_env \<Rightarrow> node \<Rightarrow> string result" where
  "has_field env n =
     (case n of
        JsonProp col path t \<Rightarrow> json_contains_path env col path
      | Prop path t \<Rightarrow> Inr (if get_property_metadata (sq_metadata env) path \<noteq> None then ''TRUE'' else ''FALSE'')
      | _ \<Rightarrow> Inr ''FALSE'')"

definition has_text :: "sql_env \<Rightarrow> node \<Rightarrow> string result" where
  "has_text env n =
     (case n of
        Fields ns t \<Rightarrow>
          rbind (rmap (has_field env) ns) (\<lambda>qs.
            case qs of [] \<Rightarrow> Inl (not_implemented ''NoneType'') | q # qs \<Rightarrow> Inr (fold (\<lambda>q acc. or_text acc q) qs q))
      | _ \<Rightarrow> has_field env n)"

text \<open>\<open>_visit_comparison_node\<close> for what is no array and no \<open>in\<close>, from the texts of its sides.\<close>

definition cast_compare :: "sql_env \<Rightarrow> node \<Rightarrow> cmp_op \<Rightarrow> operand \<Rightarrow> string \<Rightarrow> string \<Rightarrow> string result" where
  "cast_compare env a op b x y =
     rbind (cast_if env (\<not> is_method op \<and> (force_cast a \<or> (operand_type a = None \<and> const_type b \<noteq> None))) (const_type b) x)
       (\<lambda>x. comparison_text env op x y b)"

fun build :: "sql_env \<Rightarrow> node \<Rightarrow> string result" where
  "build env (Paren n) = rbind (build env n) (\<lambda>t. Inr (''('' @ t @ '')''))"
| "build env (Logical l op r) =
     rbind (build env l) (\<lambda>x. rbind (build env r) (\<lambda>y. Inr (if op = OpAnd then and_text x y else or_text x y)))"
| "build env (Compare a op b) =
     (if op = OpIn then
        (if is_array a then array_in env a (operand_nodes b) else in_text env a (build env a) (operand_nodes b))
      else if op = OpEq \<and> is_array a then array_equal env a b
      else
        rbind (build env a) (\<lambda>x.
        rbind (case b of
                 One n \<Rightarrow>
                   (case n of
                      Const v \<Rightarrow> some_text (constant_text env v (if is_method op then None else operand_type a))
                    | _ \<Rightarrow> build env n)
               | Many ns \<Rightarrow> Inl (not_implemented ''list'')) (\<lambda>y.
          cast_compare env a op b x y)))"
| "build env (Prop path t) = some_text (py_join ''.'' path)"
| "build env (JsonProp col path t) = some_text (json_extract_as_text env col path)"
| "build env (Fields ns t) = rbind (fields_text env ns) some_text"
| "build env (Unary op n) =
     (if op = OpNot then rbind (build env n) (\<lambda>t. Inr (''NOT ('' @ t @ '')''))
      else if op = OpHas then has_text env n
      else Inl (not_implemented ''-''))"
| "build env (Const v) = some_text (constant_text env v None)"
| "build env Arith = Inl (not_implemented ''dict'')"

definition sql_error :: "string \<Rightarrow> exn \<Rightarrow> exn" where
  "sql_error what e = Exn (EOther ''CelToSqlException'') (what @ exn_msg e)"

definition wrap :: "string \<Rightarrow> string \<Rightarrow> 'a result \<Rightarrow> 'a result" where
  "wrap kind what r =
     (case r of Inl e \<Rightarrow> Inl (if exn_kind e = EOther kind then sql_error what e else e) | Inr x \<Rightarrow> Inr x)"

definition convert_to_sql :: "sql_env \<Rightarrow> (string \<Rightarrow> node result) \<Rightarrow> string \<Rightarrow> (string \<times> property_info list) result" where
  "convert_to_sql env parse_cel cel =
     (if cel = [] then Inr ([], [])
      else
        rbind (wrap ''CELParseError'' ''Error parsing CEL expression: '' (parse_cel cel)) (\<lambda>n.
        rbind (wrap ''PropertiesMappingException'' ''Error while mapping columns: '' (map_props_in_ast (sq_metadata env) n)) (\<lambda>(m, infos).
          case m of
            None \<Rightarrow> Inr ([], [])
          | Some m \<Rightarrow> rbind (wrap ''NotImplementedError'' ''Error while converting CEL expression tree to SQL: '' (build env m)) (\<lambda>t. Inr (t, infos)))))"

section \<open>Ordering\<close>

definition field_text :: "sql_env \<Rightarrow> bool \<Rightarrow> data_type option \<Rightarrow> field_mapping \<Rightarrow> string result" where
  "field_text env sorting t f =
     (case f of
        SimpleField c \<Rightarrow> Inr c
      | JsonField col path \<Rightarrow>
          (if sq_dialect env = Mysql \<and> sorting then Inr (json_extract col path)
           else cast_if env (sq_dialect env = Postgres \<and> t \<noteq> Some DString \<and> t \<noteq> None) t (json_extract_as_text env col path)))"

definition is_json_field :: "field_mapping \<Rightarrow> bool" where
  "is_json_field f = (case f of JsonField _ _ \<Rightarrow> True | _ \<Rightarrow> False)"

definition field_expression :: "sql_env \<Rightarrow> bool \<Rightarrow> string \<Rightarrow> string result" where
  "field_expression env sorting field =
     (case get_property_metadata_for_str (sq_metadata env) field of
        None \<Rightarrow> Inl (Exn EAttributeError ''field_mappings'')
      | Some info \<Rightarrow>
          rbind (rmap (field_text env sorting (pi_type info)) (pi_mappings info)) (\<lambda>ts.
            let ts = (if sq_dialect env = Postgres \<and> list_ex is_json_field (pi_mappings info) \<and> 1 < length ts
                  then map (\<lambda>(f, t). if is_json_field f then t else ''CAST('' @ t @ '' AS TEXT)'') (zip (pi_mappings info) ts)
                  else ts)
            in if ts = [] then Inl (Exn EIndexError ''list index out of range'') else Inr (coalesce ts)))"

definition order_by_expression :: "sql_env \<Rightarrow> (string \<times> string) list \<Rightarrow> string result" where
  "order_by_expression env sort_options =
     rbind (rmap (\<lambda>(by, dir). rbind (field_expression env True by) (\<lambda>x.
       Inr (x @ '' '' @ (if py_lower dir = ''asc'' then ''ASC'' else ''DESC'')))) sort_options) (\<lambda>ts. Inr (sql_join ts))"

end
