(* ===== verification/CelLiterals.thy ===== *)
theory CelLiterals
  imports CelSql
begin

text \<open>
  What the SQL text of a filter can depend on: outside its literals, on the shape of the expression alone.
  A scanner of SQL literals reads the text; the lemmas go through the operations of \<open>CelSql\<close> one by one.
  The reading is that of standard SQL: for MySQL it holds with the mode \<open>NO_BACKSLASH_ESCAPES\<close>, or with a
  processor of literals that escapes backslashes.
\<close>

section \<open>The structure of an SQL text\<close>

text \<open>The scanner of standard SQL literals: a quote opens a literal, inside it a doubled quote is a character
  and a single one closes it.  \<open>LitEnd\<close> is the state after a quote inside, which one more quote undoes.\<close>

datatype scan = Outside | Inside | LitEnd

fun scan_char :: "scan \<Rightarrow> char \<Rightarrow> scan \<times> string" where
  "scan_char Outside c = (if c = CHR 0x27 then (Inside, [c]) else (Outside, [c]))"
| "scan_char Inside c = (if c = CHR 0x27 then (LitEnd, []) else (Inside, []))"
| "scan_char LitEnd c = (if c = CHR 0x27 then (Inside, []) else (Outside, [c]))"

fun scan_from :: "scan \<Rightarrow> string \<Rightarrow> scan \<times> string" where
  "scan_from s [] = (s, [])"
| "scan_from s (c # cs) = (case scan_char s c of (s1, o1) \<Rightarrow> (case scan_from s1 cs of (s2, o2) \<Rightarrow> (s2, o1 @ o2)))"

text \<open>The text without the contents of its literals.\<close>

definition skeleton :: "string \<Rightarrow> string" where
  "skeleton t = snd (scan_from Outside t)"

definition closed_text :: "string \<Rightarrow> bool" where
  "closed_text t \<longleftrightarrow> fst (scan_from Outside t) \<noteq> Inside"

definition same :: "string \<Rightarrow> string \<Rightarrow> bool" where
  "same t t0 \<longleftrightarrow> scan_from Outside t = scan_from Outside t0 \<and> closed_text t"

lemma run_append: "scan_from s (xs @ ys) = (case scan_from s xs of (s1, o1) \<Rightarrow> (case scan_from s1 ys of (s2, o2) \<Rightarrow> (s2, o1 @ o2)))"
  by (induction xs arbitrary: s) (auto split: prod.splits)

lemma run_after: "s \<noteq> Inside \<Longrightarrow> c \<noteq> CHR 0x27 \<Longrightarrow> scan_from s (c # cs) = (case scan_from Outside cs of (s2, o2) \<Rightarrow> (s2, c # o2))"
  by (cases s) (auto split: prod.splits)

declare scan_from.simps(2) [simp del]

lemmas scan_steps [simp] =
  scan_from.simps(2) [where s = Outside] scan_from.simps(2) [where s = Inside] scan_from.simps(2) [where s = LitEnd]

lemma same_refl: "closed_text t \<Longrightarrow> same t t"
  by (simp add: same_def)

lemma same_skeleton: "same t t0 \<Longrightarrow> skeleton t = skeleton t0"
  by (simp add: same_def skeleton_def)

definition no_quote :: "string \<Rightarrow> bool" where
  "no_quote t \<longleftrightarrow> CHR 0x27 \<notin> set t"

lemma run_no_quote:
  "no_quote t \<Longrightarrow> scan_from Outside t = (Outside, t)" "no_quote t \<Longrightarrow> scan_from Inside t = (Inside, [])"
  by (induction t) (auto simp: no_quote_def)

text \<open>Texts put together: a variable part may be a literal, so what follows it must not start with a quote.\<close>

lemma same_then:
  assumes "same x x0" "same y y0" "y = [] \<and> y0 = [] \<or> (\<exists>c cs cs0. y = c # cs \<and> y0 = c # cs0 \<and> c \<noteq> CHR 0x27)"
  shows "same (x @ y) (x0 @ y0)"
proof (cases "y = [] \<and> y0 = []")
  case True
  with assms(1) show ?thesis by simp
next
  case False
  with assms(3) obtain c cs cs0 where y: "y = c # cs" "y0 = c # cs0" "c \<noteq> CHR 0x27" by auto
  obtain s out where x: "scan_from Outside x = (s, out)" "scan_from Outside x0 = (s, out)" "s \<noteq> Inside"
    using assms(1) by (cases "scan_from Outside x") (auto simp: same_def closed_text_def)
  have "scan_from s y = scan_from Outside y" "scan_from s y0 = scan_from Outside y0"
    using run_after [OF x(3) y(3)] run_after [of Outside, OF _ y(3)] y by simp_all
  moreover obtain s2 out2 where "scan_from Outside y = (s2, out2)" "scan_from Outside y0 = (s2, out2)" "s2 \<noteq> Inside"
    using assms(2) by (cases "scan_from Outside y") (auto simp: same_def closed_text_def)
  ultimately show ?thesis using x by (simp add: same_def closed_text_def run_append)
qed

lemma same_prefix:
  assumes "fst (scan_from Outside k) = Outside" "same y y0"
  shows "same (k @ y) (k @ y0)"
  using assms by (cases "scan_from Outside k") (auto simp: same_def closed_text_def run_append split: prod.splits)

definition outside :: "string \<Rightarrow> bool" where
  "outside k \<longleftrightarrow> k \<noteq> [] \<and> hd k \<noteq> CHR 0x27 \<and> fst (scan_from Outside k) = Outside"

lemma same_mid:
  assumes "same x x0" "outside k" "same y y0"
  shows "same (x @ k @ y) (x0 @ k @ y0)"
proof (rule same_then [OF assms(1)])
  show "same (k @ y) (k @ y0)" using assms(2,3) by (auto simp: outside_def intro: same_prefix)
  show "k @ y = [] \<and> k @ y0 = [] \<or> (\<exists>c cs cs0. k @ y = c # cs \<and> k @ y0 = c # cs0 \<and> c \<noteq> CHR 0x27)"
    using assms(2) by (cases k) (auto simp: outside_def)
qed

lemma same_end:
  assumes "same x x0" "k \<noteq> []" "hd k \<noteq> CHR 0x27" "closed_text k"
  shows "same (x @ k) (x0 @ k)"
  using assms by (intro same_then) (auto simp: same_refl neq_Nil_conv)

lemma same_around:
  assumes "fst (scan_from Outside k) = Outside" "same x x0" "l \<noteq> []" "hd l \<noteq> CHR 0x27" "closed_text l"
  shows "same (k @ x @ l) (k @ x0 @ l)"
  by (rule same_prefix [OF assms(1) same_end [OF assms(2-5)]])

section \<open>Literals\<close>

definition doubled :: "string \<Rightarrow> string" where
  "doubled s = concat (map (\<lambda>c. if c = CHR 0x27 then [c, c] else [c]) s)"

text \<open>What SQLAlchemy documents of its processor of literals: the text, perhaps escaped further, with every
  quote doubled, between quotes.\<close>

definition literals_quoted :: "sql_env \<Rightarrow> bool" where
  "literals_quoted env \<longleftrightarrow> (\<forall>s. \<exists>u. sq_literal env s = sq @ doubled u @ sq \<and> (no_quote s \<longrightarrow> no_quote u))"

lemma run_doubled: "scan_from Inside (doubled u) = (Inside, [])"
  by (induction u) (auto simp: doubled_def run_append)

lemma run_literal: "literals_quoted env \<Longrightarrow> scan_from Outside (sq_literal env s) = (LitEnd, [CHR 0x27])"
  unfolding literals_quoted_def
  by (drule spec [of _ s]) (auto simp: sq_def run_append run_doubled)

lemma unquoted_literal: "literals_quoted env \<Longrightarrow> scan_from Inside (strip_quotes (sq_literal env s)) = (Inside, [])"
  unfolding literals_quoted_def
  by (drule spec [of _ s]) (auto simp: sq_def strip_quotes_def butlast_append run_doubled)

lemma literal_shape: "literals_quoted env \<Longrightarrow> \<exists>u. sq_literal env s = CHR 0x27 # u @ [CHR 0x27]"
  unfolding literals_quoted_def by (drule spec [of _ s]) (auto simp: sq_def)

text \<open>The expression with its string constants emptied.\<close>

definition erase :: "cval \<Rightarrow> cval" where
  "erase v = (case v of CStr _ \<Rightarrow> CStr [] | _ \<Rightarrow> v)"

fun shape :: "node \<Rightarrow> node" and shape_operand :: "operand \<Rightarrow> operand" where
  "shape (Const v) = Const (erase v)"
| "shape (Paren n) = Paren (shape n)"
| "shape (Logical l op r) = Logical (shape l) op (shape r)"
| "shape (Compare a op b) = Compare (shape a) op (shape_operand b)"
| "shape (Prop path t) = Prop path t"
| "shape (JsonProp col path t) = JsonProp col path t"
| "shape (Fields ns t) = Fields (map shape ns) t"
| "shape (Unary op n) = Unary op (shape n)"
| "shape Arith = Arith"
| "shape_operand (One n) = One (shape n)"
| "shape_operand (Many ns) = Many (map shape ns)"

text \<open>No property, column or number breaks out of its place: the columns come from the configuration, the
  paths in a JSON column have no quotes.\<close>

definition clean_const :: "cval \<Rightarrow> bool" where
  "clean_const v = (case v of CFloat f \<Rightarrow> no_quote f | CDate d \<Rightarrow> no_quote d | _ \<Rightarrow> True)"

fun clean :: "node \<Rightarrow> bool" and clean_operand :: "operand \<Rightarrow> bool" where
  "clean (Const v) = clean_const v"
| "clean (Paren n) = clean n"
| "clean (Logical l op r) = (clean l \<and> clean r)"
| "clean (Compare a op b) = (clean a \<and> clean_operand b)"
| "clean (Prop path t) = closed_text (py_join ''.'' path)"
| "clean (JsonProp col path t) = (no_quote col \<and> list_all no_quote path)"
| "clean (Fields ns t) = list_all clean ns"
| "clean (Unary op n) = clean n"
| "clean Arith = True"
| "clean_operand (One n) = clean n"
| "clean_operand (Many ns) = list_all clean ns"

text \<open>The same error, or texts with the same structure.\<close>

abbreviation similar :: "string result \<Rightarrow> string result \<Rightarrow> bool" where
  "similar \<equiv> rel_sum (=) same"

abbreviation similar_list :: "string list result \<Rightarrow> string list result \<Rightarrow> bool" where
  "similar_list \<equiv> rel_sum (=) (list_all2 same)"

lemma similar_rbind:
  "rel_sum (=) R r r0 \<Longrightarrow> (\<And>t t0. R t t0 \<Longrightarrow> rel_sum (=) Q (f t) (f0 t0)) \<Longrightarrow> rel_sum (=) Q (rbind r f) (rbind r0 f0)"
  by (cases r; cases r0) simp_all

lemma similar_rmap:
  "list_all2 (\<lambda>x y. similar (f x) (g y)) xs ys \<Longrightarrow> similar_list (rmap f xs) (rmap g ys)"
  by (induction rule: list_all2_induct) (auto intro!: similar_rbind)

lemma no_quote_digits: "list_all is_digit s \<Longrightarrow> no_quote s"
  by (auto simp: no_quote_def list_all_iff is_digit_def)

lemma no_quote_int: "no_quote (show_int i)"
  using no_quote_digits [OF show_nat_digits] by (auto simp: show_int_def no_quote_def)

lemma closed_no_quote: "no_quote t \<Longrightarrow> closed_text t"
  by (simp add: closed_text_def run_no_quote)

lemma literal_same: "literals_quoted env \<Longrightarrow> same (sq_literal env s) (sq_literal env s')"
  by (simp add: same_def closed_text_def run_literal)

lemma literal_closed: "literals_quoted env \<Longrightarrow> closed_text (sq_literal env s)"
  by (simp add: closed_text_def run_literal)

lemma date_closed: "literals_quoted env \<Longrightarrow> closed_text (date_text env d)"
  using run_literal [of env d]
  by (cases "sq_dialect env") (simp_all add: date_text_def closed_text_def run_append)

lemma bool_closed: "closed_text (bool_text env b)"
  by (simp add: bool_text_def closed_text_def)

lemma constant_closed:
  assumes "literals_quoted env" "clean_const v"
  shows "closed_text (constant_text env v t)"
proof -
  have "closed_text ''NULL''" by (simp add: closed_text_def)
  moreover have "v = CFloat f \<Longrightarrow> closed_text f" for f
    using assms(2) by (simp add: clean_const_def closed_no_quote)
  moreover have "closed_text (show_int i)" for i by (simp add: closed_no_quote no_quote_int)
  ultimately show ?thesis
    using literal_closed [OF assms(1)] date_closed [OF assms(1)] bool_closed
    by (simp add: constant_text_def as_uuid_def split: cval.splits option.splits)
qed

lemma constant_same:
  assumes lit: "literals_quoted env" and "clean_const v"
  shows "same (constant_text env v t) (constant_text env (erase v) t)"
proof (cases "\<exists>s. v = CStr s")
  case True
  then obtain s where v: "v = CStr s" ..
  have "\<exists>s'. as_uuid env t (CStr x) = CStr s'" for x by (auto simp: as_uuid_def split: option.splits)
  then obtain a b where "as_uuid env t (CStr s) = CStr a" "as_uuid env t (CStr []) = CStr b" by metis
  with v show ?thesis by (simp add: constant_text_def erase_def literal_same [OF lit])
next
  case False
  then have "erase v = v" by (simp add: erase_def split: cval.splits)
  then show ?thesis using constant_closed [OF assms] by (simp add: same_refl)
qed

section \<open>Columns\<close>

lemma same_iff: "same x x0 \<longleftrightarrow> (\<exists>s out. scan_from Outside x = (s, out) \<and> scan_from Outside x0 = (s, out) \<and> s \<noteq> Inside)"
  by (cases "scan_from Outside x") (auto simp: same_def closed_text_def)

lemma same_join:
  assumes "outside sep" "list_all2 same xs ys"
  shows "same (py_join sep xs) (py_join sep ys)"
  using assms(2)
proof (induction rule: list_all2_induct)
  case Nil
  then show ?case by (simp add: same_def closed_text_def)
next
  case (Cons x xs y ys)
  then show ?case
    using same_mid [OF Cons(1) assms(1) Cons(3)] by (cases xs; cases ys) simp_all
qed

lemma bool_cast_same: "same x x0 \<Longrightarrow> same (bool_cast env x) (bool_cast env x0)"
  unfolding same_iff
  by (elim exE conjE) (simp add: bool_cast_def when_then_def sq_def run_append run_after)

lemma cast_similar: "same x x0 \<Longrightarrow> similar (cast_text env x t) (cast_text env x0 t)"
  using bool_cast_same [of x x0 env]
  by (cases "sq_dialect env") (auto simp: cast_text_def same_iff run_append run_after)

lemma cast_if_similar: "same x x0 \<Longrightarrow> similar (cast_if env b t x) (cast_if env b t x0)"
  by (simp add: cast_if_def cast_similar)

lemma no_quote_simps [simp]:
  "no_quote []" "no_quote (c # cs) \<longleftrightarrow> c \<noteq> CHR 0x27 \<and> no_quote cs"
  "no_quote (xs @ ys) \<longleftrightarrow> no_quote xs \<and> no_quote ys"
  by (auto simp: no_quote_def)

lemma no_quote_join: "no_quote sep \<Longrightarrow> list_all no_quote xs \<Longrightarrow> no_quote (py_join sep xs)"
  by (induction sep xs rule: py_join.induct) auto

lemma quoted_run: "no_quote t \<Longrightarrow> scan_from Outside (sq @ t @ sq) = (LitEnd, [CHR 0x27])"
  by (simp add: sq_def run_append run_no_quote)

lemma dollar_run: "list_all no_quote path \<Longrightarrow> scan_from Outside (dollar_path path) = (LitEnd, [CHR 0x27])"
proof -
  assume "list_all no_quote path"
  then have "no_quote (''$.'' @ py_join ''.'' (map (\<lambda>i. [CHR 0x22] @ i @ [CHR 0x22]) path))"
    by (simp add: no_quote_join list_all_iff)
  from quoted_run [OF this] show ?thesis by (simp add: dollar_path_def)
qed

lemma json_closed:
  assumes "no_quote col" "list_all no_quote path"
  shows "closed_text (json_extract_as_text env col path)"
proof (cases "sq_dialect env")
  case Postgres
  let ?all = "col # map (\<lambda>i. sq @ i @ sq) path"
  have all: "list_all closed_text ?all"
    using assms quoted_run by (simp add: list_all_iff closed_text_def run_no_quote)
  have "list_all closed_text (butlast ?all @ [last ?all])"
    unfolding append_butlast_last_id [OF list.distinct(2)] by (rule all)
  then have parts: "list_all closed_text (butlast ?all)" "closed_text (last ?all)" by simp_all
  then have "list_all2 same (butlast ?all) (butlast ?all)"
    by (intro list.rel_refl_strong) (simp add: list_all_iff same_refl)
  from same_join [OF _ this, of "'' -> ''"] have "same (py_join '' -> '' (butlast ?all)) (py_join '' -> '' (butlast ?all))"
    by (simp add: outside_def)
  from same_prefix [OF _ same_mid [OF this _ same_refl [OF parts(2)]], of "''(''" "'') ->> ''"]
  have "same (json_extract_as_text env col path) (json_extract_as_text env col path)"
    using Postgres by (simp add: outside_def json_extract_as_text_def Let_def)
  then show ?thesis by (simp add: same_def)
qed (simp_all add: assms json_extract_as_text_def json_extract_def closed_text_def run_append run_no_quote dollar_run)

lemma property_shape [simp]: "property_text env (shape n) = property_text env n"
  by (cases n) (simp_all add: property_text_def)

lemma json_prop_shape [simp]: "is_json_prop (shape n) = is_json_prop n"
  by (cases n) (simp_all add: is_json_prop_def)

lemma property_closed: "clean n \<Longrightarrow> similar (property_text env n) (property_text env n)"
  by (cases n) (simp_all add: property_text_def same_refl json_closed)

lemma properties_shape [simp]: "rmap (property_text env) (map shape ns) = rmap (property_text env) ns"
  by (induction ns) simp_all

lemma list_ex_shape [simp]: "list_ex is_json_prop (map shape ns) = list_ex is_json_prop ns"
  by (induction ns) simp_all

lemma map2_shape: "map2 f (map shape ns) ts = map2 (\<lambda>n. f (shape n)) ns ts"
  by (induction ns arbitrary: ts) (case_tac ts; simp)+

lemma fields_shape [simp]: "fields_text env (map shape ns) = fields_text env ns"
  by (simp add: fields_text_def map2_shape cong: if_cong)

lemma coalesce_same: "list_all2 same xs ys \<Longrightarrow> same (coalesce xs) (coalesce ys)"
proof -
  assume a: "list_all2 same xs ys"
  have "same (sql_join xs) (sql_join ys)"
    unfolding sql_join_def by (rule same_join [OF _ a]) (simp add: outside_def)
  then have "same (''COALESCE('' @ sql_join xs @ '')'') (''COALESCE('' @ sql_join ys @ '')'')"
    by (rule same_around [rotated]) (simp_all add: closed_text_def)
  with a show "same (coalesce xs) (coalesce ys)"
    by (auto simp: coalesce_def list_all2_Cons1 split: list.splits)
qed

lemma cast_as_text_same:
  "list_all2 same ts us \<Longrightarrow> length ns = length ts \<Longrightarrow>
     list_all2 same (map (\<lambda>(n, t). if p n then t else ''CAST('' @ t @ '' AS TEXT)'') (zip ns ts))
       (map (\<lambda>(n, t). if p n then t else ''CAST('' @ t @ '' AS TEXT)'') (zip ns us))"
proof (induction arbitrary: ns rule: list_all2_induct)
  case (Cons t ts u us)
  have "same (''CAST('' @ t @ '' AS TEXT)'') (''CAST('' @ u @ '' AS TEXT)'')"
    using Cons(1) by (rule same_around [rotated]) (simp_all add: closed_text_def)
  with Cons show ?case by (cases ns) auto
qed simp

lemma fields_closed:
  assumes "list_all clean ns"
  shows "similar (fields_text env ns) (fields_text env ns)"
proof (cases "rmap (property_text env) ns")
  case (Inr ts)
  have "list_all2 (\<lambda>m n. similar (property_text env m) (property_text env n)) ns ns"
    using assms by (intro list.rel_refl_strong) (simp add: list_all_iff property_closed)
  from similar_rmap [OF this] Inr have "list_all2 same ts ts" by simp
  from coalesce_same [OF this] coalesce_same [OF cast_as_text_same [OF this, of ns is_json_prop]] Inr
  show ?thesis
    using rmap_Inr_length [OF Inr] by (simp add: fields_text_def)
qed (simp add: fields_text_def)

section \<open>Comparisons\<close>

lemma run_plain: "no_quote (snd (scan_from Outside t)) \<Longrightarrow> snd (scan_from Outside t) = t"
  by (induction t) (auto split: prod.splits if_splits)

lemma same_null: "same t t0 \<Longrightarrow> t = ''NULL'' \<longleftrightarrow> t0 = ''NULL''"
  using run_plain [of t] run_plain [of t0] run_no_quote(1) [of "''NULL''"]
  by (auto simp: same_iff)

lemma text_simps:
  "same x x0 \<Longrightarrow> same y y0 \<Longrightarrow> same (or_text x y) (or_text x0 y0)"
  "same x x0 \<Longrightarrow> same y y0 \<Longrightarrow> same (and_text x y) (and_text x0 y0)"
  by (auto simp: or_text_def and_text_def same_iff run_append run_after)

lemma equal_same:
  assumes "same x x0" "same y y0"
  shows "same (equal_text x y) (equal_text x0 y0)" "same (not_equal_text x y) (not_equal_text x0 y0)"
  using assms same_null [OF assms(2)]
  by (auto simp: equal_text_def not_equal_text_def same_iff run_append run_after)

lemma clean_cval_str: "clean_const v \<Longrightarrow> \<forall>s. v \<noteq> CStr s \<Longrightarrow> no_quote (cval_str v)"
  by (auto simp: cval_str_def clean_const_def no_quote_int split: cval.splits)

lemma like_literal:
  assumes "literals_quoted env" "clean_const v"
  shows "scan_from Inside (strip_quotes (literal_proc env v)) = (Inside, [])"
proof (cases "\<exists>s. v = CStr s")
  case True
  then show ?thesis using unquoted_literal [OF assms(1)] by (auto simp: literal_proc_def)
next
  case False
  then have "strip_quotes (literal_proc env v) = cval_str v"
    by (auto simp: literal_proc_def strip_quotes_def butlast_append split: cval.splits)
  with False show ?thesis using clean_cval_str [OF assms(2)] by (simp add: run_no_quote)
qed

definition lowered :: "sql_env \<Rightarrow> cval \<Rightarrow> cval" where
  "lowered env v = (case v of CStr s \<Rightarrow> if sq_dialect env = Mysql then CStr (py_lower s) else v | _ \<Rightarrow> v)"

lemma like_same:
  assumes "literals_quoted env" "clean_const v" "same x x0"
  shows "same (like_text env x p q v) (like_text env x0 p q (erase v))"
proof -
  have "clean_const (lowered env v)" "clean_const (lowered env (erase v))"
    using assms(2) by (simp_all add: lowered_def erase_def clean_const_def split: cval.splits)
  note l = this [THEN like_literal [OF assms(1)], unfolded lowered_def]
  from assms(3) show ?thesis
    unfolding same_iff like_text_def Let_def
    by (elim exE conjE) (simp add: l run_append run_after sq_def split: dialect.splits)
qed

lemma shape_const: "shape n = Const w \<longleftrightarrow> (\<exists>v. n = Const v \<and> w = erase v)"
  by (cases n) auto

lemma const_of_shape: "const_of (shape_operand b) = rbind (const_of b) (\<lambda>v. Inr (erase v))"
proof (cases b)
  case (One n)
  then show ?thesis by (cases n) (simp_all add: const_of_def)
qed (simp add: const_of_def)

lemma const_of_clean: "clean_operand b \<Longrightarrow> const_of b = Inr v \<Longrightarrow> clean_const v"
  by (auto simp: const_of_def split: operand.splits node.splits)

lemma comparison_similar:
  assumes lit: "literals_quoted env" and b: "clean_operand b" and x: "same x x0" and y: "same y y0"
  shows "similar (comparison_text env op x y b) (comparison_text env op x0 y0 (shape_operand b))"
proof -
  have ord: "same (x @ '' > '' @ y) (x0 @ '' > '' @ y0)" "same (x @ '' >= '' @ y) (x0 @ '' >= '' @ y0)"
    "same (x @ '' < '' @ y) (x0 @ '' < '' @ y0)" "same (x @ '' <= '' @ y) (x0 @ '' <= '' @ y0)"
    by (rule same_mid [OF x _ y], simp add: outside_def)+
  have like: "similar (rbind (const_of b) (\<lambda>v. Inr (like_text env x p q v)))
      (rbind (const_of (shape_operand b)) (\<lambda>v. Inr (like_text env x0 p q v)))" for p q
    using like_same [OF lit const_of_clean [OF b] x]
    by (cases "const_of b") (simp_all add: const_of_shape)
  show ?thesis
    using ord like equal_same [OF x y] by (cases op) (simp_all add: comparison_text_def)
qed

lemma erase_null [simp]: "erase v = CNull \<longleftrightarrow> v = CNull"
  by (simp add: erase_def split: cval.splits)

lemma erase_type [simp]: "from_type_to_data_type (erase v) = from_type_to_data_type v"
  by (simp add: erase_def from_type_to_data_type_def split: cval.splits)

lemma of_type_erase [simp]: "of_type (erase w) (erase v) = of_type w v"
  by (simp add: of_type_def)

lemma constants_shape [simp]: "constants (map shape ns) = map erase (constants ns)"
proof (induction ns)
  case (Cons n ns)
  then show ?case by (cases n) (simp_all add: constants_def List.map_filter_simps)
qed (simp add: constants_def List.map_filter_simps)

lemma all_of_type_shape: "all_of_type (erase w) (map shape ns) = all_of_type w ns"
proof (induction ns)
  case (Cons n ns)
  then show ?case by (cases n) simp_all
qed simp

lemma mixed_types_shape [simp]: "mixed_types (map shape ns) = mixed_types ns"
proof (cases ns)
  case (Cons n ns')
  then show ?thesis
    using all_of_type_shape [of _ "n # ns'"] by (cases n) (simp_all add: mixed_types_def del: all_of_type.simps)
qed (simp add: mixed_types_def)

lemma type_to_convert_shape [simp]: "type_to_convert (shape a) = type_to_convert a"
  by (induction a rule: type_to_convert.induct) simp_all

lemma in_left_similar:
  assumes "clean a" "similar built built0"
  shows "similar (in_left env a mixed built) (in_left env (shape a) mixed built0)"
proof (cases "case a of Fields ns t \<Rightarrow> True | Prop p t \<Rightarrow> True | JsonProp c p t \<Rightarrow> True | _ \<Rightarrow> False")
  case True
  then show ?thesis
    using assms(1) property_closed [OF assms(1), of env] fields_closed
    by (auto simp: in_left_def intro!: similar_rbind cast_if_similar split: node.splits)
next
  case False
  with assms(2) show ?thesis by (cases a) (simp_all add: in_left_def)
qed

lemma filter_erase: "filter (\<lambda>v. v \<noteq> CNull) (map erase vs) = map erase (filter (\<lambda>v. v \<noteq> CNull) vs)"
  by (simp add: filter_map comp_def)

lemma erase_null_in [simp]: "CNull \<in> erase ` set vs \<longleftrightarrow> CNull \<in> set vs"
  by (auto simp: image_iff) (metis erase_null)+

lemma null_same: "same ''NULL'' ''NULL''"
  by (simp add: same_def closed_text_def)

lemma in_list_same:
  assumes lit: "literals_quoted env" and "list_all clean_const vs" "same x x0"
  shows "same (x @ '' in ('' @ sql_join (map (\<lambda>v. constant_text env v t) vs) @ '')'')
    (x0 @ '' in ('' @ sql_join (map (\<lambda>v. constant_text env v t) (map erase vs)) @ '')'')"
proof -
  have "list_all2 same (map (\<lambda>v. constant_text env v t) vs) (map (\<lambda>v. constant_text env v t) (map erase vs))"
    using assms(2) by (induction vs) (simp_all add: constant_same [OF lit])
  from same_join [OF _ this, of "'', ''"]
  have "same (sql_join (map (\<lambda>v. constant_text env v t) vs)) (sql_join (map (\<lambda>v. constant_text env v t) (map erase vs)))"
    by (simp add: outside_def sql_join_def)
  from same_end [OF this, of "'')''"] show ?thesis
    by (intro same_mid [OF assms(3)]) (simp_all add: outside_def closed_text_def)
qed

lemma in_queries_similar:
  assumes lit: "literals_quoted env" and vs: "list_all clean_const vs" and x: "same x x0"
  shows "similar_list (in_queries env a x vs) (in_queries env (shape a) x0 (map erase vs))"
proof -
  let ?some = "filter (\<lambda>v. v \<noteq> CNull) vs"
  have some: "list_all clean_const ?some" using vs by (simp add: list_all_iff)
  have "list_all2 same (if CNull \<in> set vs then [equal_text x ''NULL''] else [])
      (if CNull \<in> set vs then [equal_text x0 ''NULL''] else [])"
    using equal_same [OF x null_same] by simp
  then show ?thesis
    using in_list_same [OF lit some x]
    by (cases "type_to_convert a") (auto simp: in_queries_def Let_def filter_erase erase_null_in simp del: map_map)
qed

lemma or_fold_same: "list_all2 same qs qs0 \<Longrightarrow> same q q0 \<Longrightarrow> same (fold (\<lambda>q acc. or_text acc q) qs q) (fold (\<lambda>q acc. or_text acc q) qs0 q0)"
  by (induction arbitrary: q q0 rule: list_all2_induct) (simp_all add: text_simps)

lemma or_all_same: "list_all2 same qs qs0 \<Longrightarrow> same (or_all env qs) (or_all env qs0)"
  using bool_closed [of env False] or_fold_same
  by (auto simp: or_all_def constant_text_def as_uuid_def same_refl list_all2_Cons1 split: list.splits)

lemma clean_constants: "list_all clean ns \<Longrightarrow> list_all clean_const (constants ns)"
proof (induction ns)
  case (Cons n ns)
  then show ?case by (cases n) (simp_all add: constants_def List.map_filter_simps)
qed (simp add: constants_def List.map_filter_simps)

lemma in_similar:
  assumes lit: "literals_quoted env" and "clean a" "list_all clean ns" "similar built built0"
  shows "similar (in_text env a built ns) (in_text env (shape a) built0 (map shape ns))"
proof (cases "mixed_types ns")
  case (Inr mixed)
  show ?thesis
    unfolding in_text_def mixed_types_shape Inr rbind_simps constants_shape
    by (intro similar_rbind [OF in_left_similar [OF assms(2,4)]]
        similar_rbind [OF in_queries_similar [OF lit clean_constants [OF assms(3)]]])
      (simp_all add: or_all_same)
qed (simp add: in_text_def)

section \<open>Arrays\<close>

lemma doubled_no_quote: "no_quote u \<Longrightarrow> doubled u = u"
  by (induction u) (simp_all add: doubled_def)

lemma date_literal:
  assumes "literals_quoted env" "no_quote d"
  obtains u where "sq_literal env d = [CHR 0x27] @ u @ [CHR 0x27]" "no_quote u"
  using assms doubled_no_quote unfolding literals_quoted_def sq_def by metis

lemma null_const [simp]: "constant_text env CNull None = ''NULL''"
  by (simp add: constant_text_def as_uuid_def)

lemma array_string:
  assumes lit: "literals_quoted env" and "same x x0"
  shows "same (array_has env x (CStr s)) (array_has env x0 (CStr s'))"
proof -
  have c: "constant_text env (CStr r) None = sq_literal env r" for r
    by (simp add: constant_text_def as_uuid_def)
  have q: "starts_with sq (sq_literal env r) \<and> ends_with sq (sq_literal env r) \<and> sq_literal env r \<noteq> ''NULL''" for r
    using literal_shape [OF lit, of r] by (auto simp: starts_with_def ends_with_def sq_def)
  from assms(2) show ?thesis
    unfolding same_iff array_has_def Let_def c
    by (elim exE conjE)
      (simp add: q unquoted_literal [OF lit] run_append run_after sq_def [symmetric] split: dialect.splits,
       simp add: sq_def unquoted_literal [OF lit] run_append run_after)
qed

text \<open>A date keeps its own quotes inside the literal: the text is then not what is meant, but closed.\<close>

lemma array_date:
  assumes lit: "literals_quoted env" and d: "no_quote d" and x: "same x x0"
  shows "same (array_has env x (CDate d)) (array_has env x0 (CDate d))"
proof -
  obtain u where u: "sq_literal env d = [CHR 0x27] @ u @ [CHR 0x27]" "no_quote u"
    using date_literal [OF lit d] .
  have c: "constant_text env (CDate d) None = date_text env d"
    by (simp add: constant_text_def as_uuid_def)
  note texts = c date_text_def u run_append run_after sq_def starts_with_def run_no_quote array_has_def
    strip_quotes_def butlast_append
  show ?thesis
  proof (cases u)
    case Nil
    with x show ?thesis
      unfolding same_iff
      by (elim exE conjE) (cases "sq_dialect env"; simp add: texts)
  next
    case (Cons c cs)
    with u have "c \<noteq> CHR 0x27" "no_quote cs" by simp_all
    with x Cons show ?thesis
      unfolding same_iff
      by (elim exE conjE) (cases "sq_dialect env"; simp add: texts)
  qed
qed

lemma constant_no_quote:
  assumes "clean_const v" "\<forall>s. v \<noteq> CStr s" "\<forall>d. v \<noteq> CDate d"
  shows "no_quote (constant_text env v None)"
  using assms
  by (auto simp: constant_text_def as_uuid_def clean_const_def no_quote_int bool_text_def split: cval.splits)

lemma unquoted_no_quote: "no_quote t \<Longrightarrow> no_quote (strip_quotes t)"
  by (auto simp: no_quote_def strip_quotes_def dest: in_set_butlastD intro: list.set_sel)

lemma array_plain:
  assumes v: "clean_const v" "\<forall>s. v \<noteq> CStr s" "\<forall>d. v \<noteq> CDate d" and x: "same x x0"
  shows "same (array_has env x v) (array_has env x0 v)"
proof -
  note n = constant_no_quote [OF v, of env]
  note r = run_no_quote(2) [OF n] run_no_quote(2) [OF unquoted_no_quote [OF n]]
  have "\<not> starts_with sq (constant_text env v None)"
    using n by (cases "constant_text env v None") (auto simp: starts_with_def sq_def)
  with x show ?thesis
    unfolding same_iff array_has_def Let_def
    by (elim exE conjE) (cases "sq_dialect env"; simp add: r run_append run_after sq_def)
qed

lemma array_has_same:
  assumes "literals_quoted env" "clean_const v" "same x x0"
  shows "same (array_has env x v) (array_has env x0 (erase v))"
proof (cases v)
  case (CStr s)
  then show ?thesis using array_string [OF assms(1,3)] by (simp add: erase_def)
next
  case (CDate d)
  then show ?thesis using array_date [OF assms(1) _ assms(3)] assms(2) by (simp add: erase_def clean_const_def)
qed (use array_plain [OF assms(2) _ _ assms(3)] in \<open>simp_all add: erase_def\<close>)

lemma array_equal_similar:
  assumes lit: "literals_quoted env" and "clean a" "clean_operand b"
  shows "similar (array_equal env a b) (array_equal env (shape a) (shape_operand b))"
proof (cases "const_of b")
  case (Inr v)
  then have b: "b = One (Const v)" by (auto simp: const_of_def split: operand.splits node.splits)
  then have "clean_const v" using assms(3) by simp
  then show ?thesis
    unfolding array_equal_def b
    by (simp, intro similar_rbind [OF property_closed [OF assms(2)]]) (simp add: array_has_same [OF lit])
next
  case (Inl e)
  then have "array_equal env a b = Inl (not_implemented ''Array datatype comparison'')"
    by (auto simp: const_of_def array_equal_def split: operand.splits node.splits)
  moreover have "array_equal env (shape a) (shape_operand b) = Inl (not_implemented ''Array datatype comparison'')"
    using Inl by (auto simp: const_of_def array_equal_def shape_const split: operand.splits node.splits)
  ultimately show ?thesis by simp
qed

lemma array_ors_similar:
  assumes "similar_list r r0"
  shows "similar (rbind r (\<lambda>qs. case qs of [] \<Rightarrow> Inl e | q # qs \<Rightarrow> Inr (fold (\<lambda>q acc. or_text acc q) qs q)))
    (rbind r0 (\<lambda>qs. case qs of [] \<Rightarrow> Inl e | q # qs \<Rightarrow> Inr (fold (\<lambda>q acc. or_text acc q) qs q)))"
  by (rule similar_rbind [OF assms]) (auto simp: list_all2_Cons1 or_fold_same split: list.splits)

lemma array_each_same:
  assumes "same col col0" "same q q0"
  shows "same (''(SELECT 1 FROM json_each('' @ col @ '') as json_array WHERE '' @ q @ '')'')
    (''(SELECT 1 FROM json_each('' @ col0 @ '') as json_array WHERE '' @ q0 @ '')'')"
  using assms unfolding same_iff by (elim exE conjE) (simp add: run_append run_after)

lemma array_null_same:
  assumes "same col col0" "same q q0"
  shows "same (''('' @ col @ '' = '' @ sq @ ''[]'' @ sq @ '' OR '' @ col @ '' IS NULL OR '' @ q @ '')'')
    (''('' @ col0 @ '' = '' @ sq @ ''[]'' @ sq @ '' OR '' @ col0 @ '' IS NULL OR '' @ q0 @ '')'')"
  using assms unfolding same_iff by (elim exE conjE) (simp add: run_append run_after sq_def)

lemma same_if: "same x x0 \<Longrightarrow> same y y0 \<Longrightarrow> same (if b then x else y) (if b then x0 else y0)"
  by simp

lemma none_in_shape [simp]: "none_in (map shape ns) = none_in ns"
proof (induction ns)
  case (Cons n ns)
  then show ?case by (cases n) simp_all
qed simp

lemma array_in_similar:
  assumes lit: "literals_quoted env" and a: "clean a" and ns: "list_all clean ns"
  shows "similar (array_in env a ns) (array_in env (shape a) (map shape ns))"
proof (cases "sq_dialect env = Sqlite")
  case True
  have "same [] []" by (simp add: same_def closed_text_def)
  then have "similar (in_text env (Prop [''json_array'', ''value''] None) (Inr []) ns)
      (in_text env (Prop [''json_array'', ''value''] None) (Inr []) (map shape ns))"
    using in_similar [OF lit _ ns, of "Prop [''json_array'', ''value''] None" "Inr []" "Inr []"]
    by (simp add: closed_text_def)
  then show ?thesis
    unfolding array_in_def Let_def property_shape none_in_shape if_P [OF True]
    by (intro similar_rbind [OF \<open>similar (in_text _ _ _ _) _\<close>] similar_rbind [OF property_closed [OF a]], cases "none_in ns")
      (simp only: rbind_simps rel_sum_simps,
       simp only: rbind_simps rel_sum_simps same_if array_each_same array_null_same)
next
  case False
  have "list_all2 (\<lambda>m n. similar (array_equal env a (One m)) (array_equal env (shape a) (One n))) ns (map shape ns)"
    using ns array_equal_similar [OF lit a, of "One n" for n]
    by (simp add: list_all2_map2 list_all_iff list.rel_refl_strong)
  from array_ors_similar [OF similar_rmap [OF this]] False show ?thesis by (simp add: array_in_def)
qed

section \<open>Filters\<close>

lemma json_contains_closed:
  assumes "no_quote col" "list_all no_quote path"
  shows "similar (json_contains_path env col path) (json_contains_path env col path)"
proof -
  have l: "list_all no_quote (butlast path)" "path \<noteq> [] \<Longrightarrow> no_quote (last path)"
    using assms(2) by (auto simp: list_all_iff dest: in_set_butlastD)
  obtain s out where j: "scan_from Outside (json_extract_as_text env col (butlast path)) = (s, out)" "s \<noteq> Inside"
    using json_closed [OF assms(1) l(1), of env]
    by (cases "scan_from Outside (json_extract_as_text env col (butlast path))") (simp add: closed_text_def)
  have "scan_from Outside (sq @ last path @ sq @ '')'') = (Outside, [CHR 0x27, CHR 0x29])" if "path \<noteq> []"
    using quoted_run [OF l(2) [OF that]] by (simp add: run_append sq_def run_no_quote(2) [OF l(2) [OF that]])
  then show ?thesis
    using j assms l(2) dollar_run [OF assms(2)]
    by (cases "sq_dialect env")
      (simp_all add: json_contains_path_def Let_def same_iff run_append run_after run_no_quote sq_def)
qed

lemma has_field_shape [simp]: "has_field env (shape n) = has_field env n"
  by (cases n) (simp_all add: has_field_def)

lemma has_fields_shape [simp]: "rmap (has_field env) (map shape ns) = rmap (has_field env) ns"
  by (induction ns) simp_all

lemma has_text_shape: "has_text env (shape n) = has_text env n"
  using has_field_shape [of env n] by (cases n) (simp_all add: has_text_def)

lemma has_field_closed: "clean n \<Longrightarrow> similar (has_field env n) (has_field env n)"
  using json_contains_closed by (cases n) (simp_all add: has_field_def same_refl closed_text_def)

lemma has_text_closed:
  assumes "clean n"
  shows "similar (has_text env n) (has_text env n)"
proof (cases "\<exists>ns t. n = Fields ns t")
  case True
  then obtain ns t where n: "n = Fields ns t" by blast
  then have "list_all2 (\<lambda>m n. similar (has_field env m) (has_field env n)) ns ns"
    using assms by (intro list.rel_refl_strong) (simp add: list_all_iff has_field_closed)
  from array_ors_similar [OF similar_rmap [OF this]] n show ?thesis by (simp add: has_text_def)
next
  case False
  then have "has_text env n = has_field env n" by (simp add: has_text_def split: node.splits)
  then show ?thesis using has_field_closed [OF assms] by simp
qed

lemma some_similar: "same t t0 \<Longrightarrow> similar (some_text t) (some_text t0)"
  using run_plain [of t] run_plain [of t0] by (auto simp: some_text_def same_iff)

lemma operand_shapes [simp]:
  "is_array (shape a) = is_array a" "operand_type (shape a) = operand_type a"
  "const_type (shape_operand b) = const_type b" "operand_nodes (shape_operand b) = map shape (operand_nodes b)"
proof -
  show "is_array (shape a) = is_array a" "operand_type (shape a) = operand_type a"
    by (cases a; simp add: is_array_def operand_type_def)+
  show "operand_nodes (shape_operand b) = map shape (operand_nodes b)" by (cases b) (simp_all add: operand_nodes_def)
  show "const_type (shape_operand b) = const_type b"
  proof (cases b)
    case (One n)
    then show ?thesis by (cases n) (simp_all add: const_type_def)
  qed (simp add: const_type_def)
qed

lemma force_cast_shape [simp]: "force_cast (shape a) = force_cast a"
proof (cases a)
  case (Fields ns t)
  then show ?thesis by (cases ns) (simp_all add: force_cast_def)
qed (simp_all add: force_cast_def)

lemma clean_operands: "clean_operand b \<Longrightarrow> list_all clean (operand_nodes b)"
  by (cases b) (simp_all add: operand_nodes_def)

lemma cast_compare_similar:
  assumes "literals_quoted env" "clean_operand b" "same x x0" "same y y0"
  shows "similar (cast_compare env a op b x y) (cast_compare env (shape a) op (shape_operand b) x0 y0)"
  unfolding cast_compare_def operand_shapes force_cast_shape
  by (rule similar_rbind [OF cast_if_similar [OF assms(3)]]) (rule comparison_similar [OF assms(1,2) _ assms(4)])

definition operand_text :: "sql_env \<Rightarrow> cmp_op \<Rightarrow> data_type option \<Rightarrow> operand \<Rightarrow> string result" where
  "operand_text env op t b =
     (case b of
        One n \<Rightarrow>
          (case n of
             Const v \<Rightarrow> some_text (constant_text env v (if is_method op then None else t))
           | _ \<Rightarrow> build env n)
      | Many ns \<Rightarrow> Inl (not_implemented ''list''))"

lemma operand_similar:
  assumes "literals_quoted env" "clean_operand b"
    and "\<And>n. b = One n \<Longrightarrow> similar (build env n) (build env (shape n))"
  shows "similar (operand_text env op t b) (operand_text env op t (shape_operand b))"
proof (cases b)
  case (One n)
  then show ?thesis
    using assms(2) some_similar [OF constant_same [OF assms(1)]] assms(3) [OF One]
    by (cases n) (simp_all add: operand_text_def)
qed (simp add: operand_text_def)

lemma build_compare:
  "build env (Compare a op b) =
     (if op = OpIn then
        (if is_array a then array_in env a (operand_nodes b) else in_text env a (build env a) (operand_nodes b))
      else if op = OpEq \<and> is_array a then array_equal env a b
      else rbind (build env a) (\<lambda>x. rbind (operand_text env op (operand_type a) b) (\<lambda>y. cast_compare env a op b x y)))"
  by (simp add: operand_text_def)

lemma around_same:
  assumes "same t t0"
  shows "same (''('' @ t @ '')'') (''('' @ t0 @ '')'')" "same (''NOT ('' @ t @ '')'') (''NOT ('' @ t0 @ '')'')"
  using assms by (auto simp: same_iff run_append run_after)

lemma build_similar:
  assumes lit: "literals_quoted env"
  shows "clean n \<Longrightarrow> similar (build env n) (build env (shape n))"
    and "clean_operand b \<Longrightarrow> b = One m \<Longrightarrow> similar (build env m) (build env (shape m))"
proof (induction n and b arbitrary: and m rule: shape_shape_operand.induct)
  case (1 v)
  then show ?case using constant_same [OF lit] by (simp add: some_similar)
next
  case (2 n)
  have "similar (rbind (build env n) (\<lambda>t. Inr (''('' @ t @ '')'')))
      (rbind (build env (shape n)) (\<lambda>t. Inr (''('' @ t @ '')'')))"
    using 2 around_same by (intro similar_rbind [OF 2(1)]) simp_all
  then show ?case by simp
next
  case (3 l op r)
  then show ?case by (auto intro!: similar_rbind simp: text_simps)
next
  case (4 a op b)
  have a: "similar (build env a) (build env (shape a))" using 4 by simp
  have b: "similar (operand_text env op t b) (operand_text env op t (shape_operand b))" for t
    using 4 by (intro operand_similar [OF lit]) simp_all
  have "clean a" "clean_operand b" "list_all clean (operand_nodes b)" using 4(3) clean_operands by simp_all
  have right: "similar (cast_compare env a op b x y) (cast_compare env (shape a) op (shape_operand b) x0 y0)"
    if "same x x0" "same y y0" for x x0 y y0
    by (rule cast_compare_similar [OF lit \<open>clean_operand b\<close> that])
  show ?case
    using \<open>clean a\<close> \<open>clean_operand b\<close> \<open>list_all clean (operand_nodes b)\<close>
    unfolding shape.simps build_compare operand_shapes
    using array_in_similar [OF lit, of a "operand_nodes b"] in_similar [OF lit _ _ a, of a "operand_nodes b"]
      array_equal_similar [OF lit, of a b]
      similar_rbind [OF a similar_rbind [OF b right]]
    by simp
next
  case (5 path t)
  then show ?case by (simp add: some_similar same_refl)
next
  case (6 col path t)
  then show ?case by (simp add: some_similar same_refl json_closed)
next
  case (7 ns t)
  then show ?case using similar_rbind [OF fields_closed [of ns env] some_similar] by simp
next
  case (8 op n)
  have "similar (rbind (build env n) (\<lambda>t. Inr (''NOT ('' @ t @ '')'')))
      (rbind (build env (shape n)) (\<lambda>t. Inr (''NOT ('' @ t @ '')'')))"
    using 8 around_same by (intro similar_rbind [OF 8(1)]) simp_all
  then show ?case using 8 has_text_closed by (simp add: has_text_shape)
qed simp_all

section \<open>What the mapper hands over\<close>

definition clean_mapping :: "field_mapping \<Rightarrow> bool" where
  "clean_mapping f =
     (case f of SimpleField c \<Rightarrow> closed_text c | JsonField col path \<Rightarrow> no_quote col \<and> list_all no_quote path)"

definition clean_path :: "metadata \<Rightarrow> string list \<Rightarrow> bool" where
  "clean_path md path =
     (case get_property_metadata md path of
        Some info \<Rightarrow> list_all clean_mapping (pi_mappings info)
      | None \<Rightarrow> closed_text (py_join ''.'' path))"

text \<open>The fields of the expression have clean columns, and its comparisons are with constants.\<close>

fun clean_source :: "metadata \<Rightarrow> node \<Rightarrow> bool" where
  "clean_source md (Const v) = clean_const v"
| "clean_source md (Paren n) = clean_source md n"
| "clean_source md (Logical l op r) = (clean_source md l \<and> clean_source md r)"
| "clean_source md (Compare a op b) =
     ((case a of Prop path t \<Rightarrow> clean_path md path | _ \<Rightarrow> clean a) \<and> clean_operand b
      \<and> list_all (\<lambda>n. case n of Const v \<Rightarrow> True | _ \<Rightarrow> False) (operand_nodes b))"
| "clean_source md (Prop path t) = clean_path md path"
| "clean_source md (Unary op n) = clean_source md n"
| "clean_source md n = True"

lemma fields_node_clean: "list_all clean_mapping (pi_mappings info) \<Longrightarrow> fields_node info = Inr n \<Longrightarrow> clean n"
proof -
  assume a: "list_all clean_mapping (pi_mappings info)" and n: "fields_node info = Inr n"
  have "clean (property_node t f)" if "clean_mapping f" for t f
    using that by (simp add: property_node_def clean_mapping_def split: field_mapping.splits)
  then have "list_all clean (map (property_node (pi_type info)) (pi_mappings info))"
    using a by (simp add: list_all_iff)
  with n show "clean n" by (auto simp: fields_node_def split: list.splits)
qed

lemma map_property_clean:
  assumes "clean_path md path" "map_property md throw (Prop path t) path = Inr (n, info)"
  shows "clean n"
  using assms fields_node_clean
  by (auto simp: clean_path_def map_property_def rbind_Inr_iff split: option.splits if_splits)

lemma truth_node_clean: "clean n \<Longrightarrow> clean (truth_node n t)"
  by (simp add: truth_node_def falsy_values_def not_equal_def clean_const_def)

lemma canonical_clean: "clean n \<Longrightarrow> clean (canonical_node vs n)"
  by (cases n) (auto simp: canonical_node_def canonicalize_enum_value_def clean_const_def split: cval.splits option.splits)

lemma canonical_operand_clean: "clean_operand b \<Longrightarrow> clean_operand (canonicalize_enum_operand vs b)"
  by (cases b) (simp_all add: canonicalize_enum_operand_def canonical_clean list_all_iff)

lemma members_clean: "clean n \<Longrightarrow> clean (members n vs)"
  by (simp add: members_def list_all_iff clean_const_def)

lemma order_node_clean: "clean n \<Longrightarrow> order_node n op vs v = Some m \<Longrightarrow> clean m"
  using members_clean [of n]
  by (auto simp: order_node_def Let_def clean_const_def split: cval.splits if_splits)

lemma comparison_clean:
  assumes "clean n" "clean_operand b"
    "(case b of One (Const v) \<Rightarrow> if is_order_op op then order_node n op vs v else Some (Compare n op b)
      | _ \<Rightarrow> Some (Compare n op b)) = Some m"
  shows "clean m"
proof (cases b)
  case (One k)
  with assms show ?thesis using order_node_clean [OF assms(1), of op vs] by (cases k) (auto split: if_splits)
qed (use assms in auto)

lemma modify_clean:
  assumes n: "clean n" and b: "clean_operand b" and m: "modify_comparison_node n op b info = Some m"
  shows "clean m"
proof (cases "case pi_enum info of None \<Rightarrow> True | Some vs \<Rightarrow> vs = []")
  case True
  with assms show ?thesis by (auto simp: modify_comparison_node_def split: option.splits)
next
  case False
  then obtain vs where vs: "pi_enum info = Some vs" "vs \<noteq> []" by (auto split: option.splits)
  have "clean_operand (if enum_canonicalization_op op then canonicalize_enum_operand vs b else b)"
    using canonical_operand_clean [OF b] b by simp
  from comparison_clean [OF n this, of op vs m] m vs show ?thesis
    unfolding modify_comparison_node_def Let_def by simp
qed

text \<open>So the mapped tree is clean, and the statement on literals applies to it.\<close>

theorem mapped_clean:
  assumes "clean_source md n" "visit_nodes md n = Inr (Some m, infos)"
  shows "clean m"
  using assms
proof (induction n arbitrary: m infos rule: clean_source.induct)
  case (3 md l op r)
  from "3.prems"(2) obtain ml ls mr rs where v: "visit_nodes md l = Inr (ml, ls)" "visit_nodes md r = Inr (mr, rs)"
    and m: "Some m = (case (ml, mr) of (None, r) \<Rightarrow> r | (Some l, None) \<Rightarrow> Some l | (Some l, Some r) \<Rightarrow> Some (Logical l op r))"
    by (auto simp: rbind_Inr_iff)
  have "ml = Some k \<Longrightarrow> clean k" "mr = Some k \<Longrightarrow> clean k" for k
    using "3.IH" v "3.prems"(1) by auto
  with m show ?case by (cases ml; cases mr) simp_all
next
  case (4 md a op b)
  then show ?case
  proof (cases "\<exists>path t. a = Prop path t")
    case True
    then obtain path t where a: "a = Prop path t" by blast
    with 4 show ?thesis
      using map_property_clean [of md path True t] modify_clean by (auto simp: rbind_Inr_iff)
  next
    case False
    with 4 show ?thesis by (cases a) auto
  qed
next
  case (5 md path t)
  then show ?case
    using map_property_clean [of md path True t] truth_node_clean by (auto simp: rbind_Inr_iff)
next
  case (6 md op n)
  show ?case
  proof (cases "op = OpHas \<and> (\<exists>path t. n = Prop path t)")
    case True
    then obtain path t where n: "op = OpHas" "n = Prop path t" by blast
    with "6.prems" obtain k info where "m = Unary OpHas k" "map_property md False (Prop path t) path = Inr (k, info)"
      by (auto simp: rbind_Inr_iff)
    with n "6.prems"(1) show ?thesis using map_property_clean [of md path False t] by simp
  next
    case False
    then have "visit_nodes md (Unary op n) = rbind (visit_nodes md n) (\<lambda>(m, infos).
        case m of
          None \<Rightarrow> Inr (Some (Unary op (Const (CBool True))), infos)
        | Some m \<Rightarrow> Inr (Some (Unary op m), infos @ infos))"
      by (simp only: visit_nodes.simps prod.case) (auto split: un_op.splits node.splits)
    from trans [OF this [symmetric] "6.prems"(2)] obtain k infos1 where v: "visit_nodes md n = Inr (k, infos1)"
      and m: "m = Unary op (case k of None \<Rightarrow> Const (CBool True) | Some k \<Rightarrow> k)"
      by (auto simp: rbind_Inr_iff split: option.splits)
    have "k = Some j \<Longrightarrow> clean j" for j using 6 v by simp
    with m show ?thesis by (cases k) (simp_all add: clean_const_def)
  qed
qed auto

section \<open>Literals are inert\<close>


definition demo_sql :: "dialect \<Rightarrow> sql_env" where
  "demo_sql d = \<lparr>sq_dialect = d, sq_literal = (\<lambda>s. sq @ doubled s @ sq), sq_metadata = demo_metadata\<rparr>"

definition demo_compare :: "string \<Rightarrow> node" where
  "demo_compare s =
     Logical (Compare (Prop [''name''] (Some DString)) OpEq (One (Const (CStr s)))) OpOr
       (Compare (JsonProp ''event'' [''labels'', ''team''] None) OpContains (One (Const (CStr s))))"

definition demo_attack :: string where
  "demo_attack = [CHR 0x27] @ '') OR 1=1 --''"


text \<open>What the hypothesis excludes: a property as second operand is neither mapped nor quoted, and the path
  of a field in a JSON column is put between quotes as it is.\<close>

lemma second_operand_unquoted:
  "(case convert_to_sql (demo_sql Sqlite)
       (\<lambda>_. Inr (Compare (Prop [''severity''] None) OpEq (One (Prop [''a'', ''b OR 1=1 --''] None)))) ''cel'' of
      Inr (t, _) \<Rightarrow> t = ''alert.severity = a.b OR 1=1 --'' | Inl _ \<Rightarrow> False)"
  by code_simp

lemma json_path_unquoted:
  "skeleton (json_extract_as_text (demo_sql Sqlite) ''event'' [demo_attack])
     = ''json_extract(event, '' @ [CHR 0x27] @ '') OR 1=1 --'' @ [CHR 0x22, CHR 0x27]"
  by code_simp

text \<open>A number compared with an array loses its first and last digit.\<close>

lemma array_number_stripped:
  "array_has (demo_sql Sqlite) ''tags'' (CInt 123)
     = ''(SELECT 1 FROM json_each(tags) as json_array WHERE json_array.value = '' @ sq @ ''2'' @ sq @ '')''"
  by code_simp

text \<open>\<open>has\<close> of a known simple field: its column is no field, so no row passes.\<close>

lemma has_known_field:
  "(case convert_to_sql (demo_sql Sqlite) (\<lambda>_. Inr (Unary OpHas (Prop [''severity''] None))) ''cel'' of
      Inr (t, _) \<Rightarrow> t = ''FALSE'' | Inl _ \<Rightarrow> False)"
  by code_simp

end
