(* ===== verification/Spec2Isabelle.thy ===== *)
theory Spec2Isabelle
  imports ErrorStormGuard Scheduler NotifyCoalescer EventPipeline Functions CelLiterals
begin

text \<open>
  The workflow engine of keep-workflows, modelled as executable HOL functions on explicit states.

  \<^bold>\<open>The program.\<close>  Alerts and incidents reach the workflow manager
  (\<open>src/workflowmanager/workflowmanager.py\<close>), which matches them against the triggers of the tenant's
  workflows and puts what matched on the queue of the scheduler
  (\<open>src/workflowmanager/workflowscheduler.py\<close>).  The scheduler's loop also polls the workflows with an
  interval, creates a row in the execution table for everything it starts (the table's unique
  constraint is the lock between replicas), and hands jobs to a thread pool.  A job runs the steps
  and actions of a workflow (\<open>workflow.py\<close>, \<open>src/step/step.py\<close>) over one context
  (\<open>src/contextmanager/contextmanager.py\<close>); every step renders its configuration with the template
  renderer (\<open>src/iohandler/iohandler.py\<close>), evaluates conditions (\<open>src/conditions/\<close>), asks a throttle
  (\<open>src/throttles/\<close>) and calls a provider.

  The alerts come from raw events: \<open>process_event\<close> (\<open>src/common/event_management/process_event_task.py\<close>)
  formats them with the class of their provider, runs extraction rules, drops what a maintenance window
  holds back, marks duplicates, writes the rest to the alert tables with mapping rules applied, inserts
  them into the workflow manager, lets the rules engine correlate them to incidents, and notifies.  What
  cannot be processed is stored as an error when the error-storm guard allows it.  Workflows enter the
  system through the workflow store, which parses them and provisions them at start-up.

  \<^bold>\<open>The theories.\<close>
  \<^item> \<open>Prelude\<close>, \<open>PyStrings\<close>: Python values, dictionaries in insertion order (the locale
    \<open>py_dict\<close>), exceptions as a sum, the string operations of the standard library.
  \<^item> \<open>ErrorStormGuard\<close>: \<open>src/common/event_management/error_storm_guard.py\<close>.
  \<^item> \<open>WorkflowTable\<close>, \<open>ExecutionStore\<close>: the workflow, version and execution tables of
    \<open>src/common/core/db.py\<close> as lists of rows; the locales \<open>id_allocator\<close> and \<open>lock_table\<close> are what the
    scheduler relies on and are interpreted on these functions.
  \<^item> \<open>ContextManager\<close>, \<open>IOHandler\<close>, \<open>Conditions\<close>, \<open>Throttle\<close>, \<open>Step\<close>, \<open>Workflow\<close>: one run.
  \<^item> \<open>CelFilters\<close>, \<open>WorkflowManager\<close>: which events start which workflows.
  \<^item> \<open>Scheduler\<close>: the loop, as functions and as the step relation \<open>sched_step\<close> that
    interleaves it with insertions, manual runs and jobs.
  \<^item> \<open>NotifyCoalescer\<close>: the notification pool of
    \<open>src/common/event_management/process_event_task.py\<close>, as steps that interleave.
  \<^item> \<open>AlertStore\<close>: the tables of alert occurrences and last alerts, enrichment, dismissal and its expiry,
    counters (\<open>src/common/core/db.py\<close>, \<open>src/common/bl/dismissal_expiry_bl.py\<close>,
    \<open>src/common/utils/enrichment_helpers.py\<close>).
  \<^item> \<open>IncidentStore\<close>: incidents and their links to alerts in \<open>src/common/core/db.py\<close>.
  \<^item> \<open>RuleMatching\<close>, \<open>RulesEngine\<close>: \<open>src/rulesengine/rulesengine.py\<close>, first one rule against one event,
    then the run that creates, links, shows and resolves incidents and tells the workflow manager.
  \<^item> \<open>Parser\<close>: from the dictionary of a workflow to its steps and actions (\<open>src/parser/parser.py\<close>).
  \<^item> \<open>WorkflowStore\<close>: \<open>src/workflowmanager/workflowstore.py\<close>: creation, deletion, files, templates, and
    provisioning from the environment or a directory.
  \<^item> \<open>Functions\<close>: the functions a template can call (\<open>src/functions/__init__.py\<close>) and their table, which
    takes the place of the parameter \<open>keep_function\<close> of the renderer.
  \<^item> \<open>CelMapping\<close>, \<open>CelSql\<close>: \<open>src/common/core/cel_to_sql/\<close>: filters over fields to filters over columns, and
    their text in three dialects of SQL; \<open>CelLiterals\<close>: what a constant can change in that text.
  \<^item> \<open>Deduplicator\<close>: \<open>src/common/alert_deduplicator/\<close>: fingerprints, hashes, full and partial
    duplicates, and the provisioning of deduplication rules.
  \<^item> \<open>Maintenance\<close>: \<open>src/common/bl/maintenance_windows_bl.py\<close>: what a window suppresses, and recovery.
  \<^item> \<open>Enrichments\<close>: extraction and mapping rules of \<open>src/common/bl/enrichments_bl.py\<close>.
  \<^item> \<open>AlertModel\<close>: the validators of \<open>AlertDto\<close> (\<open>src/common/models/alert.py\<close>).
  \<^item> \<open>SaveEvents\<close>: the saving of a batch (\<open>__save_to_db\<close> in \<open>process_event_task.py\<close>).
  \<^item> \<open>Frames\<close>: what the rules engine and the saving of a batch leave alone.
  \<^item> \<open>EventPipeline\<close>: \<open>process_event\<close> from the raw event to the notification, with its error path, over
    the theories above.

  \<^bold>\<open>How state corresponds.\<close>  A database table is a list of rows in insertion order; a transaction is
  one function from table to result and table.  Mutable events shared between the queue and its
  callers live in a heap of \<open>mgr\<close>.  A raise is \<open>Inl\<close> of an exception with its class and message.
  Clocks, random numbers and uuids are arguments.

  \<^bold>\<open>Parameters.\<close>  Code outside \<open>src/\<close> is an argument of the definitions that use it: chevron, ast and
  asteval, celpy, the regular expressions of filters and rules, SHA-1, SHA-256 and uuid5, json and json5
  loading and the serialisation of values json does not know, YAML, html unescaping, the conversion of a
  written value to its database column, the quoting of string literals by SQLAlchemy, dateutil and other reading of dates, time zones, pydantic's
  conversion of fields, file system and HTTP reads, the import of provider classes, the providers
  themselves, and the two reads of stores that are not modelled (topology rows and Elasticsearch).
  Hypotheses on them are named in the theorems that need them.

  \<^bold>\<open>Bounds and fuel.\<close>  Recursion follows lists except in \<open>render_loop\<close> (the code's own cap of ten
  rounds), \<open>attempts\<close> (retry count plus one) and the scanners of the renderer, whose fuel is the length
  of the text, which every step shortens.  No theorem assumes that fuel suffices.

  \<^bold>\<open>What the lemmas show.\<close>  Each theory starts with the definitions in the order of the source, then
  invariants and their preservation, then the behaviour of each operation.  The properties C1 to C40 stand
  next to the component they speak about; those that span components are in \<open>Scheduler\<close> (queue, lock,
  run and outcome), \<open>RulesEngine\<close> (matching, links and what the workflow manager is told) and
  \<open>EventPipeline\<close> (what the processing of an event may change).

  \<^bold>\<open>Not modelled.\<close>  Logging, tracing, metrics and server-sent events, which have no effect on the state;
  HTTP routes, the API server and authentication, which wrap the operations above; the bodies of
  providers and of the secret managers, which are calls to other systems; search and
  facets, whose meaning is that of the database engines, and the walk over the parse trees of celpy; the
  thread pool beyond the list of jobs, and waiting; template functions with floating-point results.
\<close>

end
